(* ===== verification/Prelude.thy ===== *)
theory Prelude
  imports Main "HOL-Library.Word" "HOL-Library.Signed_Division"
begin

unbundle bit_operations_syntax

text \<open>
  Shared vocabulary of the development: the C integer types of \<^verbatim>\<open>psf/types.h\<close> as words,
  faults as values, the sequencing of fallible steps, the bounded loops of the C code and the
  byte-level lemmas every component uses.

  A C expression whose behaviour the standard leaves undefined (a NULL dereference, an access
  outside an object, a shift by the full width, a signed division that overflows) is a value of
  type \<^verbatim>\<open>fault\<close> here; a loop or call chain that is cut off by the fuel of the model is
  \<^verbatim>\<open>OutOfFuel\<close>. Every operation of the model that can reach one of them returns
  \<^verbatim>\<open>fault + 'a\<close>.
\<close>

section \<open>Machine integers\<close>

type_synonym u8 = "8 word"
type_synonym u16 = "16 word"
type_synonym u32 = "32 word"
type_synonym u64 = "64 word"
type_synonym s32 = "32 word"

text \<open>\<open>c_div\<close> and \<open>c_mod\<close> are the truncating division and remainder of C on \<open>s32\<close>.\<close>

definition c_div :: "s32 \<Rightarrow> s32 \<Rightarrow> s32" where
  "c_div a b = word_of_int (sint a sdiv sint b)"

definition c_mod :: "s32 \<Rightarrow> s32 \<Rightarrow> s32" where
  "c_mod a b = word_of_int (sint a smod sint b)"

section \<open>Faults and sequencing\<close>

datatype fault = NullPointer | OutOfBounds | Undefined | OutOfFuel

type_synonym 'a res = "fault + 'a"

abbreviation Ok :: "'a \<Rightarrow> 'a res" where
  "Ok \<equiv> Inr"

abbreviation Fail :: "fault \<Rightarrow> 'a res" where
  "Fail \<equiv> Inl"

definition bind_res :: "'a res \<Rightarrow> ('a \<Rightarrow> 'b res) \<Rightarrow> 'b res" where
  "bind_res m f = (case m of Inl e \<Rightarrow> Inl e | Inr x \<Rightarrow> f x)"

definition require :: "bool \<Rightarrow> fault \<Rightarrow> 'a res \<Rightarrow> 'a res" where
  "require b e m = (if b then m else Fail e)"

lemma bind_res_simps [simp]:
  "bind_res (Ok x) f = f x"
  "bind_res (Fail e) f = Fail e"
  by (simp_all add: bind_res_def)

lemma bind_res_Ok_iff: "bind_res m f = Ok y \<longleftrightarrow> (\<exists>x. m = Ok x \<and> f x = Ok y)"
  by (cases m) auto

lemma bind_res_OkE:
  assumes "bind_res m f = Ok y"
  obtains x where "m = Ok x" "f x = Ok y"
  using assms by (auto simp: bind_res_Ok_iff)

lemma bind_res_assoc: "bind_res (bind_res m f) g = bind_res m (\<lambda>x. bind_res (f x) g)"
  by (cases m) auto

lemma bind_res_cong [fundef_cong]:
  "m = m' \<Longrightarrow> (\<And>x. m' = Ok x \<Longrightarrow> f x = f' x) \<Longrightarrow> bind_res m f = bind_res m' f'"
  by (cases m') auto

lemma require_Ok_iff: "require b e m = Ok y \<longleftrightarrow> b \<and> m = Ok y"
  by (simp add: require_def)

lemma require_simps [simp]:
  "require True e m = m"
  "require False e m = Fail e"
  by (simp_all add: require_def)

lemma if_Ok_iff:
  "(if b then m else m') = Ok y \<longleftrightarrow> (b \<longrightarrow> m = Ok y) \<and> (\<not> b \<longrightarrow> m' = Ok y)"
  by simp

lemmas res_iffs = bind_res_Ok_iff require_Ok_iff

section \<open>Bounded loops\<close>

text \<open>
  \<open>for_each\<close> runs a loop body over the successive values of its counter; \<open>repeat\<close> runs it
  \<open>n\<close> times (the C idiom \<^verbatim>\<open>while (len--)\<close>); \<open>while_res\<close> is a C \<^verbatim>\<open>while\<close> with at most
  \<open>n\<close> iterations of fuel.
\<close>

primrec for_each :: "'a list \<Rightarrow> ('a \<Rightarrow> 's \<Rightarrow> 's res) \<Rightarrow> 's \<Rightarrow> 's res" where
  "for_each [] f s = Ok s"
| "for_each (x # xs) f s = bind_res (f x s) (for_each xs f)"

primrec repeat :: "nat \<Rightarrow> ('s \<Rightarrow> 's res) \<Rightarrow> 's \<Rightarrow> 's res" where
  "repeat 0 f s = Ok s"
| "repeat (Suc n) f s = bind_res (f s) (repeat n f)"

primrec while_res :: "nat \<Rightarrow> ('s \<Rightarrow> bool res) \<Rightarrow> ('s \<Rightarrow> 's res) \<Rightarrow> 's \<Rightarrow> 's res" where
  "while_res 0 b f s = Fail OutOfFuel"
| "while_res (Suc n) b f s =
     bind_res (b s) (\<lambda>c. if c then bind_res (f s) (while_res n b f) else Ok s)"

text \<open>\<open>do_res\<close> is a C \<^verbatim>\<open>do ... while\<close>: the body says whether to go on.\<close>

primrec do_res :: "nat \<Rightarrow> ('s \<Rightarrow> (bool \<times> 's) res) \<Rightarrow> 's \<Rightarrow> 's res" where
  "do_res 0 f s = Fail OutOfFuel"
| "do_res (Suc n) f s = bind_res (f s) (\<lambda>(c, t). if c then do_res n f t else Ok t)"

lemma for_each_append:
  "for_each (xs @ ys) f s = bind_res (for_each xs f s) (for_each ys f)"
proof (induction xs arbitrary: s)
  case (Cons x xs)
  then show ?case by (cases "f x s") simp_all
qed simp

lemma repeat_add: "repeat (m + n) f s = bind_res (repeat m f s) (repeat n f)"
proof (induction m arbitrary: s)
  case (Suc m)
  then show ?case by (cases "f s") simp_all
qed simp

lemma repeat_numeral [simp]:
  "repeat (numeral k) f s = bind_res (f s) (repeat (pred_numeral k) f)"
  by (simp add: numeral_eq_Suc)

lemma while_res_numeral [simp]:
  "while_res (numeral k) b f s =
     bind_res (b s) (\<lambda>c. if c then bind_res (f s) (while_res (pred_numeral k) b f) else Ok s)"
  by (simp add: numeral_eq_Suc)

lemma do_res_numeral [simp]:
  "do_res (numeral k) f s =
     bind_res (f s) (\<lambda>(c, t). if c then do_res (pred_numeral k) f t else Ok t)"
  by (simp add: numeral_eq_Suc)

text \<open>Invariants of the loops: what every body run keeps, the loop keeps.\<close>

lemma for_each_inv:
  assumes "for_each xs f s = Ok t" and "P s"
    and "\<And>x s t. x \<in> set xs \<Longrightarrow> f x s = Ok t \<Longrightarrow> P s \<Longrightarrow> P t"
  shows "P t"
  using assms
proof (induction xs arbitrary: s)
  case (Cons x xs)
  from Cons.prems(1) obtain u where u: "f x s = Ok u" "for_each xs f u = Ok t"
    by (auto simp: bind_res_Ok_iff)
  have "P u" using Cons.prems(3)[of x s u] u(1) Cons.prems(2) by simp
  then show ?case using Cons.IH[OF u(2)] Cons.prems(3) by (meson list.set_intros(2))
qed simp

lemma repeat_inv:
  assumes "repeat n f s = Ok t" and "P s" and "\<And>s t. f s = Ok t \<Longrightarrow> P s \<Longrightarrow> P t"
  shows "P t"
  using assms by (induction n arbitrary: s) (auto simp: bind_res_Ok_iff)

lemma while_res_inv:
  assumes "while_res n b f s = Ok t" and "P s"
    and "\<And>s t. b s = Ok True \<Longrightarrow> f s = Ok t \<Longrightarrow> P s \<Longrightarrow> P t"
  shows "P t"
  using assms
proof (induction n arbitrary: s)
  case (Suc n)
  then show ?case
    by (auto simp: bind_res_Ok_iff split: if_splits)
qed simp

lemma while_res_stop: "while_res n b f s = Ok t \<Longrightarrow> b t = Ok False"
  by (induction n arbitrary: s) (auto simp: bind_res_Ok_iff split: if_splits)

section \<open>Words of 32 bits as integers\<close>

lemma uint_range_32: "0 \<le> uint (w :: 32 word)" "uint (w :: 32 word) < 4294967296"
  using uint_lt2p[of w] by auto

lemma sint_32_eq: "sint (w :: 32 word) = (if uint w < 2147483648 then uint w else uint w - 4294967296)"
proof -
  have *: "sint w = (uint w + 2147483648) mod 4294967296 - 2147483648"
    by (simp add: sint_uint signed_take_bit_eq_take_bit_shift take_bit_eq_mod)
  show ?thesis
  proof (cases "uint w < 2147483648")
    case True
    then have "(uint w + 2147483648) mod 4294967296 = uint w + 2147483648"
      using uint_range_32[of w] by (intro mod_pos_pos_trivial) linarith+
    then show ?thesis using * True by simp
  next
    case False
    have "(uint w + 2147483648) mod 4294967296 = (uint w - 2147483648 + 4294967296) mod 4294967296"
      by (simp add: add.commute)
    also have "\<dots> = uint w - 2147483648"
      using False uint_range_32[of w] by (simp only: mod_add_self2) (intro mod_pos_pos_trivial, linarith+)
    finally show ?thesis using * False by simp
  qed
qed

lemma uint_plus_32: "uint (a + b :: 32 word) =
    (if uint a + uint b < 4294967296 then uint a + uint b else uint a + uint b - 4294967296)"
  by (simp add: uint_plus_if')

lemma uint_minus_32: "uint (a - b :: 32 word) =
    (if uint b \<le> uint a then uint a - uint b else uint a - uint b + 4294967296)"
  by (simp add: uint_sub_if')

lemma sle_zero_32: "0 \<le>s (w :: 32 word) \<longleftrightarrow> uint w < 2147483648"
  using uint_range_32[of w] by (auto simp: word_sle_eq sint_32_eq)

lemma sint_minus_32:
  "- 2147483648 \<le> sint a - sint b \<Longrightarrow> sint a - sint b < 2147483648 \<Longrightarrow> sint (a - b :: 32 word) = sint a - sint b"
  by (simp add: sint_word_ariths signed_take_bit_int_eq_self)

lemma sint_plus_32:
  "- 2147483648 \<le> sint a + sint b \<Longrightarrow> sint a + sint b < 2147483648 \<Longrightarrow> sint (a + b :: 32 word) = sint a + sint b"
  by (simp add: sint_word_ariths signed_take_bit_int_eq_self)

lemma nonneg_sle_le: 
  "0 \<le>s (a :: 32 word) \<Longrightarrow> a \<le>s b \<Longrightarrow> a \<le> b \<and> 0 \<le>s b"
  using uint_range_32[of a] uint_range_32[of b]
  by (auto simp: word_sle_eq word_le_def sint_32_eq split: if_splits)

lemma upt_small:
  "[0..<3] = [0, 1, 2::nat]" "[0..<4] = [0, 1, 2, 3::nat]" "[0..<8] = [0, 1, 2, 3, 4, 5, 6, 7::nat]"
  by (simp_all add: upt_rec)

lemma less_3_iff: "(i :: nat) < 3 \<longleftrightarrow> i = 0 \<or> i = 1 \<or> i = 2"
  by arith

lemma less_4_iff: "(i :: nat) < 4 \<longleftrightarrow> i = 0 \<or> i = 1 \<or> i = 2 \<or> i = 3"
  by arith

lemma uint_and_le: "uint (w AND m :: 'a::len word) \<le> uint m"
  using word_and_le1[of w m] by (simp add: word_le_def and.commute)

lemma sint_of_nonneg_32: "0 \<le> x \<Longrightarrow> x < 2147483648 \<Longrightarrow> sint (word_of_int x :: 32 word) = x"
  by (simp add: sint_32_eq uint_word_of_int)

lemma uint_ucast_u16 [simp]: "uint (ucast (v :: 16 word) :: 32 word) = uint v"
proof -
  have "uint v < 4294967296" using uint_lt2p[of v] by simp
  then show ?thesis by (simp add: unsigned_ucast_eq take_bit_int_eq_self)
qed

lemma uint_shift_u16: "k \<le> 16 \<Longrightarrow> uint (push_bit k (ucast (v :: 16 word)) :: 32 word) = 2 ^ k * uint v"
proof -
  assume k: "k \<le> 16"
  have v: "uint v < 65536" "0 \<le> uint v" using uint_lt2p[of v] by auto
  have "(2::int) ^ k \<le> 2 ^ 16" using k by (intro power_increasing) auto
  then have "2 ^ k * uint v < 65536 * 65536"
    using v by (intro mult_le_less_imp_less) auto
  moreover have "0 \<le> 2 ^ k * uint v" using v by simp
  moreover have "uint (push_bit k (ucast v) :: 32 word) = take_bit 32 (push_bit k (uint v))"
    by (simp only: unsigned_push_bit_eq uint_ucast_u16) simp
  ultimately show ?thesis by (simp add: push_bit_eq_mult mult.commute take_bit_int_eq_self)
qed

lemma fold_inv: "P s \<Longrightarrow> (\<And>x s. x \<in> set xs \<Longrightarrow> P s \<Longrightarrow> P (f x s)) \<Longrightarrow> P (fold f xs s)"
  by (induction xs arbitrary: s) auto

section \<open>Reachable states\<close>

text \<open>
  The states a component can get into: from an initial state by steps. A component's step
  relation is an inductive predicate; \<open>invariant_of\<close> is the contract under which a property
  holds in every reachable state.
\<close>

inductive reach :: "('s \<Rightarrow> bool) \<Rightarrow> ('s \<Rightarrow> 's \<Rightarrow> bool) \<Rightarrow> 's \<Rightarrow> bool" for init step where
  reach_init: "init s \<Longrightarrow> reach init step s"
| reach_step: "reach init step s \<Longrightarrow> step s t \<Longrightarrow> reach init step t"

locale invariant_of =
  fixes init :: "'s \<Rightarrow> bool" and step :: "'s \<Rightarrow> 's \<Rightarrow> bool" and inv :: "'s \<Rightarrow> bool"
  assumes inv_init: "init s \<Longrightarrow> inv s"
    and inv_step: "inv s \<Longrightarrow> step s t \<Longrightarrow> inv t"
begin

lemma reach_inv: "reach init step s \<Longrightarrow> inv s"
  by (induction rule: reach.induct) (auto intro: inv_init inv_step)

end

section \<open>Results of fallible steps\<close>

text \<open>
  \<open>post r P\<close>: if the step succeeds, its result satisfies \<open>P\<close> (faults are allowed);
  \<open>runs r P\<close>: the step succeeds with a result that satisfies \<open>P\<close>. The rules below walk over the
  constructors of the model's code; a component adds the rules of its own operations to
  \<open>post_rules\<close>.
\<close>

named_theorems post_rules

definition post :: "'a res \<Rightarrow> ('a \<Rightarrow> bool) \<Rightarrow> bool" where
  "post r P \<longleftrightarrow> (\<forall>t. r = Ok t \<longrightarrow> P t)"

definition runs :: "'a res \<Rightarrow> ('a \<Rightarrow> bool) \<Rightarrow> bool" where
  "runs r P \<longleftrightarrow> (\<exists>t. r = Ok t \<and> P t)"

lemma postI: "(\<And>t. r = Ok t \<Longrightarrow> P t) \<Longrightarrow> post r P"
  by (simp add: post_def)

lemma postD: "post r P \<Longrightarrow> r = Ok t \<Longrightarrow> P t"
  by (simp add: post_def)

lemma post_Ok [simp]: "post (Ok x) P \<longleftrightarrow> P x"
  by (simp add: post_def)

lemma post_Fail [simp]: "post (Fail e) P"
  by (simp add: post_def)

lemma post_bind: "post m Q \<Longrightarrow> (\<And>x. Q x \<Longrightarrow> post (f x) P) \<Longrightarrow> post (bind_res m f) P"
  by (cases m) (auto simp: post_def)

lemma post_bind_any: "(\<And>x. m = Ok x \<Longrightarrow> post (f x) P) \<Longrightarrow> post (bind_res m f) P"
  by (cases m) (auto simp: post_def)

lemma post_require: "(b \<Longrightarrow> post m P) \<Longrightarrow> post (require b e m) P"
  by (cases b) (auto simp: post_def)

lemma post_if: "(b \<Longrightarrow> post m P) \<Longrightarrow> (\<not> b \<Longrightarrow> post m' P) \<Longrightarrow> post (if b then m else m') P"
  by simp

lemma post_mono: "post r Q \<Longrightarrow> (\<And>x. Q x \<Longrightarrow> P x) \<Longrightarrow> post r P"
  by (auto simp: post_def)

lemma post_for_each:
  "P s \<Longrightarrow> (\<And>x s. x \<in> set xs \<Longrightarrow> P s \<Longrightarrow> post (f x s) P) \<Longrightarrow> post (for_each xs f s) P"
  by (rule postI, erule for_each_inv) (auto dest: postD)

lemma post_repeat: "P s \<Longrightarrow> (\<And>s. P s \<Longrightarrow> post (f s) P) \<Longrightarrow> post (repeat n f s) P"
  by (rule postI, erule repeat_inv) (auto dest: postD)

lemma post_while: "P s \<Longrightarrow> (\<And>s. P s \<Longrightarrow> post (f s) P) \<Longrightarrow> post (while_res n b f s) P"
  by (rule postI, erule while_res_inv) (auto dest: postD)

lemma post_case_option: "(x = None \<Longrightarrow> post a P) \<Longrightarrow> (\<And>y. x = Some y \<Longrightarrow> post (b y) P) \<Longrightarrow> post (case x of None \<Rightarrow> a | Some y \<Rightarrow> b y) P"
  by (cases x) auto

lemma post_case_prod: "(\<And>a b. x = (a, b) \<Longrightarrow> post (f a b) P) \<Longrightarrow> post (case x of (a, b) \<Rightarrow> f a b) P"
  by (cases x) simp

lemma post_let: "(\<And>x. x = v \<Longrightarrow> post (f x) P) \<Longrightarrow> post (Let v f) P"
  by simp

lemma post_Ok_I: "P x \<Longrightarrow> post (Ok x) P"
  by simp

lemma post_do:
  "P s \<Longrightarrow> (\<And>s. P s \<Longrightarrow> post (f s) (\<lambda>(c, t). P t)) \<Longrightarrow> post (do_res n f s) P"
proof (induction n arbitrary: s)
  case (Suc n)
  show ?case
    using Suc.IH Suc.prems by (simp only: do_res.simps) (rule post_bind[OF Suc.prems(2)], auto)
qed simp

lemma post_bind_eq: "post m Q \<Longrightarrow> (\<And>x. m = Ok x \<Longrightarrow> Q x \<Longrightarrow> post (f x) P) \<Longrightarrow> post (bind_res m f) P"
  by (cases m) (auto simp: post_def)

lemma runs_Ok [simp]: "runs (Ok x) P \<longleftrightarrow> P x"
  by (simp add: runs_def)

lemma runs_Fail [simp]: "\<not> runs (Fail e) P"
  by (simp add: runs_def)

lemma runs_bind: "runs m Q \<Longrightarrow> (\<And>x. Q x \<Longrightarrow> runs (f x) P) \<Longrightarrow> runs (bind_res m f) P"
  by (auto simp: runs_def)

lemma runs_value: "\<exists>v. m = Ok v \<Longrightarrow> (\<And>v. runs (f v) P) \<Longrightarrow> runs (bind_res m f) P"
  by auto

lemma runs_require: "b \<Longrightarrow> runs m P \<Longrightarrow> runs (require b e m) P"
  by (simp add: runs_def)

lemma runs_mono: "runs r Q \<Longrightarrow> (\<And>x. Q x \<Longrightarrow> P x) \<Longrightarrow> runs r P"
  by (auto simp: runs_def)

lemma runs_post: "runs r P \<Longrightarrow> post r P"
  by (auto simp: runs_def post_def)

lemma runs_for_each:
  "P s \<Longrightarrow> (\<And>x s. x \<in> set xs \<Longrightarrow> P s \<Longrightarrow> runs (f x s) P) \<Longrightarrow> runs (for_each xs f s) P"
proof (induction xs arbitrary: s)
  case (Cons x xs)
  have "runs (f x s) P" using Cons.prems by simp
  then show ?case by (simp, rule runs_bind) (rule Cons.IH, simp_all add: Cons.prems(2))
qed simp

text \<open>
  \<open>ends r P\<close>: the step is not cut off by fuel, and if it succeeds its result satisfies \<open>P\<close>.
\<close>

definition ends :: "'a res \<Rightarrow> ('a \<Rightarrow> bool) \<Rightarrow> bool" where
  "ends r P \<longleftrightarrow> r \<noteq> Fail OutOfFuel \<and> post r P"

lemma ends_Ok [simp]: "ends (Ok x) P \<longleftrightarrow> P x"
  by (simp add: ends_def)

lemma ends_Fail [simp]: "ends (Fail e) P \<longleftrightarrow> e \<noteq> OutOfFuel"
  by (simp add: ends_def)

lemma ends_bind: "ends m Q \<Longrightarrow> (\<And>x. Q x \<Longrightarrow> ends (f x) P) \<Longrightarrow> ends (bind_res m f) P"
  by (cases m) (auto simp: ends_def post_def)

lemma ends_bind_any: "m \<noteq> Fail OutOfFuel \<Longrightarrow> (\<And>x. m = Ok x \<Longrightarrow> ends (f x) P) \<Longrightarrow> ends (bind_res m f) P"
  by (cases m) auto

lemma ends_require: "e \<noteq> OutOfFuel \<Longrightarrow> (b \<Longrightarrow> ends m P) \<Longrightarrow> ends (require b e m) P"
  by (cases b) auto

lemma ends_if: "(b \<Longrightarrow> ends m P) \<Longrightarrow> (\<not> b \<Longrightarrow> ends m' P) \<Longrightarrow> ends (if b then m else m') P"
  by simp

lemma ends_mono: "ends r Q \<Longrightarrow> (\<And>x. Q x \<Longrightarrow> P x) \<Longrightarrow> ends r P"
  by (auto simp: ends_def post_def)

lemma ends_post: "ends r P \<Longrightarrow> post r P"
  by (simp add: ends_def)

lemma runs_ends: "runs r P \<Longrightarrow> ends r P"
  by (auto simp: runs_def)

lemma ends_for_each:
  "P s \<Longrightarrow> (\<And>x s. x \<in> set xs \<Longrightarrow> P s \<Longrightarrow> ends (f x s) P) \<Longrightarrow> ends (for_each xs f s) P"
proof (induction xs arbitrary: s)
  case (Cons x xs)
  have "ends (f x s) P" using Cons.prems by simp
  then show ?case by (simp, rule ends_bind) (rule Cons.IH, simp_all add: Cons.prems(2))
qed simp

text \<open>\<open>returns r\<close>: the step is not cut off by fuel.\<close>

definition returns :: "'a res \<Rightarrow> bool" where
  "returns r \<longleftrightarrow> r \<noteq> Fail OutOfFuel"

lemma returns_simps [simp]: "returns (Ok x)" "returns (Fail e) \<longleftrightarrow> e \<noteq> OutOfFuel"
  "returns (require b e m) \<longleftrightarrow> (if b then returns m else e \<noteq> OutOfFuel)"
  by (auto simp: returns_def require_def)

lemma returns_bind: "returns m \<Longrightarrow> (\<And>x. m = Ok x \<Longrightarrow> returns (f x)) \<Longrightarrow> returns (bind_res m f)"
  by (cases m) (auto simp: returns_def)

lemma returns_if: "(b \<Longrightarrow> returns m) \<Longrightarrow> (\<not> b \<Longrightarrow> returns m') \<Longrightarrow> returns (if b then m else m')"
  by simp

lemma returns_for_each: "(\<And>x s. x \<in> set xs \<Longrightarrow> returns (f x s)) \<Longrightarrow> returns (for_each xs f s)"
  using ends_for_each[of "\<lambda>_. True" s xs f] by (auto simp: ends_def post_def returns_def)

lemma returns_case_option: "(x = None \<Longrightarrow> returns a) \<Longrightarrow> (\<And>y. x = Some y \<Longrightarrow> returns (b y)) \<Longrightarrow>
    returns (case x of None \<Rightarrow> a | Some y \<Rightarrow> b y)"
  by (cases x) auto

lemma returns_case_prod: "(\<And>a b. x = (a, b) \<Longrightarrow> returns (f a b)) \<Longrightarrow> returns (case x of (a, b) \<Rightarrow> f a b)"
  "(\<And>a b. x = (a, b) \<Longrightarrow> returns (g a b t)) \<Longrightarrow> returns ((case x of (a, b) \<Rightarrow> g a b) t)"
  by (cases x, simp)+

lemma returns_let: "(\<And>x. x = v \<Longrightarrow> returns (f x)) \<Longrightarrow> returns (Let v f)"
  by simp

section \<open>Bytes of little-endian integers\<close>

definition byte_of :: "nat \<Rightarrow> 'a::len word \<Rightarrow> u8" where
  "byte_of k w = ucast (drop_bit (8 * k) w)"

definition le16 :: "u8 \<Rightarrow> u8 \<Rightarrow> u16" where
  "le16 b0 b1 = ucast b0 OR push_bit 8 (ucast b1)"

definition le32 :: "u8 \<Rightarrow> u8 \<Rightarrow> u8 \<Rightarrow> u8 \<Rightarrow> u32" where
  "le32 b0 b1 b2 b3 =
     ucast b0 OR push_bit 8 (ucast b1) OR push_bit 16 (ucast b2) OR push_bit 24 (ucast b3)"

lemma le16_bytes [simp]: "le16 (byte_of 0 v) (byte_of (Suc 0) v) = v"
  by (rule bit_word_eqI) (auto simp: le16_def byte_of_def bit_simps)

lemma le32_bytes [simp]:
  "le32 (byte_of 0 v) (byte_of (Suc 0) v) (byte_of 2 v) (byte_of 3 v) = v"
proof (rule bit_word_eqI)
  fix n assume "n < LENGTH(32)"
  then consider "n < 8" | "8 \<le> n" "n < 16" | "16 \<le> n" "n < 24" | "24 \<le> n" "n < 32"
    by fastforce
  then show "bit (le32 (byte_of 0 v) (byte_of (Suc 0) v) (byte_of 2 v) (byte_of 3 v)) n = bit v n"
    by cases (auto simp: le32_def byte_of_def bit_simps)
qed

lemma bit_u8_big: "8 \<le> n \<Longrightarrow> \<not> bit (w :: u8) n"
  by (simp add: bit_imp_le_length[of w] linorder_not_less[symmetric] impossible_bit)

lemma bytes_le32 [simp]:
  "byte_of 0 (le32 a b c d) = a"
  "byte_of (Suc 0) (le32 a b c d) = b"
  "byte_of 2 (le32 a b c d) = c"
  "byte_of 3 (le32 a b c d) = d"
  by (rule bit_word_eqI, simp add: le32_def byte_of_def bit_simps bit_u8_big)+

lemma bytes_le16 [simp]:
  "byte_of 0 (le16 a b) = a"
  "byte_of (Suc 0) (le16 a b) = b"
  by (rule bit_word_eqI, simp add: le16_def byte_of_def bit_simps bit_u8_big)+

end
