(* ===== verification/PsxMem.thy ===== *)
theory PsxMem
  imports Prelude
begin

text \<open>
  The emulated memory of \<^verbatim>\<open>psf/PsxMem.c\<close>: the four host allocations \<^verbatim>\<open>psxM\<close> (2 MB main RAM),
  \<^verbatim>\<open>psxP\<close> (64 KB parallel port), \<^verbatim>\<open>psxH\<close> (scratch pad and hardware registers) and \<^verbatim>\<open>psxR\<close>
  (512 KB boot ROM), and the table \<^verbatim>\<open>psxMemLUT\<close> that maps the upper half of a guest address
  to a host pointer or NULL. A host pointer is an allocation with a byte offset; an access
  outside its allocation is the fault \<^verbatim>\<open>OutOfBounds\<close>, a dereference of NULL is
  \<^verbatim>\<open>NullPointer\<close>. The host is little-endian, so \<^verbatim>\<open>BFLIP16\<close> and \<^verbatim>\<open>BFLIP32\<close> are the identity.
\<close>

section \<open>Allocations and host pointers\<close>

datatype region = psxM | psxP | psxH | psxR

type_synonym ptr = "region \<times> nat"

fun region_size :: "region \<Rightarrow> nat" where
  "region_size psxM = 0x200000"
| "region_size psxP = 0x10000"
| "region_size psxH = 0x10000"
| "region_size psxR = 0x80000"

record psxmem =
  bytes :: "region \<Rightarrow> nat \<Rightarrow> u8"
  psxMemLUT :: "nat \<Rightarrow> ptr option"
  writeok :: bool

definition deref :: "ptr option \<Rightarrow> ptr res" where
  "deref p = (case p of None \<Rightarrow> Fail NullPointer | Some q \<Rightarrow> Ok q)"

fun ptr_add :: "ptr \<Rightarrow> nat \<Rightarrow> ptr" where
  "ptr_add (r, off) k = (r, off + k)"

fun load_u8 :: "ptr \<Rightarrow> psxmem \<Rightarrow> u8 res" where
  "load_u8 (r, off) m = require (off < region_size r) OutOfBounds (Ok (bytes m r off))"

fun load_u16 :: "ptr \<Rightarrow> psxmem \<Rightarrow> u16 res" where
  "load_u16 (r, off) m = require (off + 2 \<le> region_size r) OutOfBounds
     (Ok (le16 (bytes m r off) (bytes m r (off + 1))))"

fun load_u32 :: "ptr \<Rightarrow> psxmem \<Rightarrow> u32 res" where
  "load_u32 (r, off) m = require (off + 4 \<le> region_size r) OutOfBounds
     (Ok (le32 (bytes m r off) (bytes m r (off + 1)) (bytes m r (off + 2)) (bytes m r (off + 3))))"

definition set_bytes :: "region \<Rightarrow> nat \<Rightarrow> u8 list \<Rightarrow> psxmem \<Rightarrow> psxmem" where
  "set_bytes r off bs m = m\<lparr>bytes := (bytes m)(r :=
     (\<lambda>i. if off \<le> i \<and> i < off + length bs then bs ! (i - off) else bytes m r i))\<rparr>"

fun store_u8 :: "ptr \<Rightarrow> u8 \<Rightarrow> psxmem \<Rightarrow> psxmem res" where
  "store_u8 (r, off) v m = require (off < region_size r) OutOfBounds (Ok (set_bytes r off [v] m))"

fun store_u16 :: "ptr \<Rightarrow> u16 \<Rightarrow> psxmem \<Rightarrow> psxmem res" where
  "store_u16 (r, off) v m = require (off + 2 \<le> region_size r) OutOfBounds
     (Ok (set_bytes r off [byte_of 0 v, byte_of 1 v] m))"

fun store_u32 :: "ptr \<Rightarrow> u32 \<Rightarrow> psxmem \<Rightarrow> psxmem res" where
  "store_u32 (r, off) v m = require (off + 4 \<le> region_size r) OutOfBounds
     (Ok (set_bytes r off [byte_of 0 v, byte_of 1 v, byte_of 2 v, byte_of 3 v] m))"

section \<open>The address macros of PsxMem.h\<close>

definition PSXM :: "u32 \<Rightarrow> psxmem \<Rightarrow> ptr option" where
  "PSXM a m = (case psxMemLUT m (unat (drop_bit 16 a)) of
     None \<Rightarrow> None
   | Some p \<Rightarrow> Some (ptr_add p (unat (a AND 0xffff))))"

definition PSXMu8 :: "u32 \<Rightarrow> psxmem \<Rightarrow> u8 res" where
  "PSXMu8 a m = bind_res (deref (PSXM a m)) (\<lambda>p. load_u8 p m)"

definition PSXMu8_set :: "u32 \<Rightarrow> u8 \<Rightarrow> psxmem \<Rightarrow> psxmem res" where
  "PSXMu8_set a v m = bind_res (deref (PSXM a m)) (\<lambda>p. store_u8 p v m)"

definition PSXMuR8 :: "u32 \<Rightarrow> psxmem \<Rightarrow> u8 res" where
  "PSXMuR8 a m = (if PSXM a m = None then Ok 0 else PSXMu8 a m)"

definition PSXMu32 :: "u32 \<Rightarrow> psxmem \<Rightarrow> u32 res" where
  "PSXMu32 a m = bind_res (deref (PSXM a m)) (\<lambda>p. load_u32 p m)"

definition psxHptr :: "u32 \<Rightarrow> ptr" where
  "psxHptr a = (psxH, unat (a AND 0xffff))"

definition psxHu8 :: "u32 \<Rightarrow> psxmem \<Rightarrow> u8 res" where
  "psxHu8 a m = load_u8 (psxHptr a) m"

definition psxHu16 :: "u32 \<Rightarrow> psxmem \<Rightarrow> u16 res" where
  "psxHu16 a m = load_u16 (psxHptr a) m"

definition psxHu32 :: "u32 \<Rightarrow> psxmem \<Rightarrow> u32 res" where
  "psxHu32 a m = load_u32 (psxHptr a) m"

definition psxHu8_set :: "u32 \<Rightarrow> u8 \<Rightarrow> psxmem \<Rightarrow> psxmem res" where
  "psxHu8_set a v m = store_u8 (psxHptr a) v m"

definition psxHu16_set :: "u32 \<Rightarrow> u16 \<Rightarrow> psxmem \<Rightarrow> psxmem res" where
  "psxHu16_set a v m = store_u16 (psxHptr a) v m"

definition psxHu32_set :: "u32 \<Rightarrow> u32 \<Rightarrow> psxmem \<Rightarrow> psxmem res" where
  "psxHu32_set a v m = store_u32 (psxHptr a) v m"

definition psxMu32_set :: "u32 \<Rightarrow> u32 \<Rightarrow> psxmem \<Rightarrow> psxmem res" where
  "psxMu32_set a v m = store_u32 (psxM, unat (a AND 0x1fffff)) v m"

definition psxRu32_set :: "u32 \<Rightarrow> u32 \<Rightarrow> psxmem \<Rightarrow> psxmem res" where
  "psxRu32_set a v m = store_u32 (psxR, unat (a AND 0x7ffff)) v m"

section \<open>Set-up, reset and the cache-control register\<close>

text \<open>
  \<open>lut_ram\<close> fills the three mirrors of main RAM (the first loop of \<^verbatim>\<open>psxMemInit\<close> and its two
  \<^verbatim>\<open>memcpy\<close> calls, repeated in \<^verbatim>\<open>psxMemWrite32\<close>); \<open>lut_clear\<close> is the three \<^verbatim>\<open>memset\<close> calls that
  unmap them. Pointers are kept at full width: the \<^verbatim>\<open>(u32)\<close> casts of the source, which lose the
  upper half of a 64-bit host pointer, are those of the 32-bit targets.
\<close>

definition in_ram_window :: "nat \<Rightarrow> bool" where
  "in_ram_window i \<longleftrightarrow> i < 0x80 \<or> (0x8000 \<le> i \<and> i < 0x8080) \<or> (0xa000 \<le> i \<and> i < 0xa080)"

definition lut_ram :: "(nat \<Rightarrow> ptr option) \<Rightarrow> nat \<Rightarrow> ptr option" where
  "lut_ram lut i = (if in_ram_window i then Some (psxM, (i mod 0x20) * 0x10000) else lut i)"

definition lut_clear :: "(nat \<Rightarrow> ptr option) \<Rightarrow> nat \<Rightarrow> ptr option" where
  "lut_clear lut i = (if in_ram_window i then None else lut i)"

definition lut_init :: "nat \<Rightarrow> ptr option" where
  "lut_init i =
     (if i = 0x1f00 then Some (psxP, 0)
      else if i = 0x1f80 then Some (psxH, 0)
      else if 0xbfc0 \<le> i \<and> i < 0xbfc8 then Some (psxR, (i - 0xbfc0) * 0x10000)
      else lut_ram (\<lambda>_. None) i)"

text \<open>
  \<^verbatim>\<open>malloc\<close> is assumed to succeed; what a fresh block holds is the argument \<open>junk\<close>.
\<close>

definition psxMemInit :: "(region \<Rightarrow> nat \<Rightarrow> u8) \<Rightarrow> psxmem" where
  "psxMemInit junk = \<lparr>bytes = junk, psxMemLUT = lut_init, writeok = True\<rparr>"

definition psxMemReset :: "psxmem \<Rightarrow> psxmem" where
  "psxMemReset m = m\<lparr>bytes := (bytes m)(psxM := (\<lambda>_. 0), psxP := (\<lambda>_. 0))\<rparr>"

text \<open>The write to \<^verbatim>\<open>0xfffe0130\<close> inside \<^verbatim>\<open>psxMemWrite32\<close> (isolate cache and back).\<close>

definition cache_control :: "u32 \<Rightarrow> psxmem \<Rightarrow> psxmem" where
  "cache_control v m =
     (if v = 0x800 \<or> v = 0x804 then
        (if \<not> writeok m then m
         else m\<lparr>writeok := False, psxMemLUT := lut_clear (psxMemLUT m)\<rparr>)
      else if v = 0x1e988 then
        (if writeok m then m
         else m\<lparr>writeok := True, psxMemLUT := lut_ram (psxMemLUT m)\<rparr>)
      else m)"

section \<open>Copying a block into guest memory\<close>

fun memcpy :: "ptr \<Rightarrow> u8 list \<Rightarrow> nat \<Rightarrow> psxmem \<Rightarrow> psxmem res" where
  "memcpy (r, off) data n m =
     require (n \<le> length data \<and> off + n \<le> region_size r) OutOfBounds
       (Ok (set_bytes r off (take n data) m))"

function LoadPSXMem :: "u32 \<Rightarrow> int \<Rightarrow> u8 list \<Rightarrow> psxmem \<Rightarrow> psxmem res" where
  "LoadPSXMem address len data m =
     (if len \<le> 0 then Ok m
      else let off = unat (address AND 65535); p = psxMemLUT m (unat (drop_bit 16 address)) in
        if off \<noteq> 0 then
          let tmplen = (if 65536 - int off > len then nat len else 65536 - off) in
          bind_res (case p of None \<Rightarrow> Ok m | Some q \<Rightarrow> memcpy (ptr_add q off) data tmplen m)
            (LoadPSXMem (address + of_nat tmplen) (len - int tmplen) (drop tmplen data))
        else
          bind_res (case p of None \<Rightarrow> Ok m
                    | Some q \<Rightarrow> memcpy q data (if len < 65536 then nat len else 65536) m)
            (LoadPSXMem (address + 65536) (len - 65536) (drop 65536 data)))"
  by pat_completeness auto
termination
proof (relation "measure (\<lambda>(address, len, data, m). nat len)", goal_cases)
  case 1
  show ?case by simp
next
  case (2 address len data m off p tmplen)
  have "off < 65536"
    unfolding 2 by (rule order.strict_trans1 [OF word_le_nat_alt[THEN iffD1, OF word_and_le1]]) simp
  with 2 show ?case by (auto split: if_splits)
next
  case 3
  then show ?case by simp
qed

declare LoadPSXMem.simps [simp del]

section \<open>Laws of the memory\<close>

lemma addr_hi: "unat (drop_bit 16 (a :: u32)) = unat a div 65536"
  using unat_drop_bit_eq[of 16 a] by (simp add: drop_bit_eq_div unat_div)

lemma addr_lo: "unat ((a :: u32) AND 0xffff) = unat a mod 65536"
proof -
  have "a AND 0xffff = take_bit 16 a"
    by (simp add: take_bit_eq_mask mask_eq_exp_minus_1)
  then have "unat (a AND 0xffff) = take_bit 16 (unat a)"
    by (simp only: unsigned_take_bit_eq)
  then show ?thesis by (simp add: take_bit_eq_mod)
qed

definition lut_wf :: "psxmem \<Rightarrow> bool" where
  "lut_wf m \<longleftrightarrow> (\<forall>i r off. psxMemLUT m i = Some (r, off) \<longrightarrow> off + 0x10000 \<le> region_size r)"

lemma set_bytes_fields [simp]:
  "psxMemLUT (set_bytes r off bs m) = psxMemLUT m"
  "writeok (set_bytes r off bs m) = writeok m"
  by (simp_all add: set_bytes_def)

lemma bytes_set_bytes:
  "bytes (set_bytes r off bs m) r' i =
     (if r' = r \<and> off \<le> i \<and> i < off + length bs then bs ! (i - off) else bytes m r' i)"
  by (simp add: set_bytes_def)

lemma psxmem_eqI:
  "\<lbrakk>\<And>r i. bytes m r i = bytes n r i; psxMemLUT m = psxMemLUT n; writeok m = writeok n\<rbrakk> \<Longrightarrow> m = (n :: psxmem)"
  by (cases m, cases n) (auto intro: ext)

lemma set_bytes_Nil [simp]: "set_bytes r off [] m = m"
  by (rule psxmem_eqI) (auto simp: bytes_set_bytes)

lemma set_bytes_Cons:
  "set_bytes r (Suc off) bs (set_bytes r off [b] m) = set_bytes r off (b # bs) m"
proof (rule psxmem_eqI)
  fix q i
  have "(b # bs) ! (i - off) = bs ! (i - Suc off)" if "Suc off \<le> i"
    using that by (metis Suc_diff_Suc less_eq_Suc_le nth_Cons_Suc)
  then show "bytes (set_bytes r (Suc off) bs (set_bytes r off [b] m)) q i =
      bytes (set_bytes r off (b # bs) m) q i"
    by (auto simp: bytes_set_bytes not_less_eq_eq le_antisym)
qed simp_all

lemma store_frame:
  "store_u8 p v8 m = Ok m' \<Longrightarrow> psxMemLUT m' = psxMemLUT m \<and> writeok m' = writeok m"
  "store_u16 p v16 m = Ok m' \<Longrightarrow> psxMemLUT m' = psxMemLUT m \<and> writeok m' = writeok m"
  "store_u32 p v32 m = Ok m' \<Longrightarrow> psxMemLUT m' = psxMemLUT m \<and> writeok m' = writeok m"
  by (cases p; auto simp: require_Ok_iff)+

text \<open>Read after write through the same host pointer, at every width.\<close>

lemma load_store_same:
  "store_u8 p v8 m = Ok m' \<Longrightarrow> load_u8 p m' = Ok v8"
  "store_u16 p v16 m = Ok m' \<Longrightarrow> load_u16 p m' = Ok v16"
  "store_u32 p v32 m = Ok m' \<Longrightarrow> load_u32 p m' = Ok v32"
  by (cases p; auto simp: require_Ok_iff bytes_set_bytes)+

lemma store_u16_same: "load_u16 p m = Ok v \<Longrightarrow> store_u16 p v m = Ok m"
proof (cases p)
  fix r off assume p: "p = (r, off)" and l: "load_u16 p m = Ok v"
  then have v: "v = le16 (bytes m r off) (bytes m r (off + 1))" "off + 2 \<le> region_size r"
    by (auto simp: require_Ok_iff)
  have b: "byte_of 0 (le16 a b) = a" "byte_of 1 (le16 a b) = b" for a b
    by (rule bit_word_eqI, auto simp: le16_def byte_of_def bit_simps bit_u8_big)+
  have "set_bytes r off [byte_of 0 v, byte_of 1 v] m = m"
    by (rule psxmem_eqI) (auto simp: bytes_set_bytes v(1) b nth_Cons' less_Suc_eq)
  then show ?thesis using p v by simp
qed

text \<open>Stores leave the address table and the cache state alone.\<close>

definition same_map :: "psxmem \<Rightarrow> psxmem \<Rightarrow> bool" where
  "same_map m m' \<longleftrightarrow> psxMemLUT m' = psxMemLUT m \<and> writeok m' = writeok m"

lemma same_map_refl [simp]: "same_map m m"
  by (simp add: same_map_def)

lemma same_map_trans: "same_map m m' \<Longrightarrow> same_map m' m'' \<Longrightarrow> same_map m m''"
  by (simp add: same_map_def)

lemma store_same_map [post_rules]:
  "same_map m0 m \<Longrightarrow> post (store_u8 p v8 m) (same_map m0)"
  "same_map m0 m \<Longrightarrow> post (store_u16 p v16 m) (same_map m0)"
  "same_map m0 m \<Longrightarrow> post (store_u32 p v32 m) (same_map m0)"
  by (rule postI, drule store_frame, simp add: same_map_def)+

text \<open>
  The contract of a store made of cells: reading a cell gives what was last written to it, and
  writing a cell leaves the separate ones alone. Register banks, jump buffers, event blocks and
  heap headers are used through it.
\<close>

locale cells =
  fixes ld :: "'p \<Rightarrow> 'm \<Rightarrow> 'v res" and st :: "'p \<Rightarrow> 'v \<Rightarrow> 'm \<Rightarrow> 'm res"
    and sep :: "'p \<Rightarrow> 'p \<Rightarrow> bool"
  assumes st_total: "ld p m = Ok w \<Longrightarrow> \<exists>m'. st p v m = Ok m'"
    and ld_st: "st p v m = Ok m' \<Longrightarrow> ld p m' = Ok v"
    and ld_st_sep: "st p v m = Ok m' \<Longrightarrow> sep p q \<Longrightarrow> ld q m' = ld q m"
begin

lemma update_cell:
  assumes "ld p m = Ok w"
  obtains m' where "bind_res (ld p m) (\<lambda>w. st p (f w) m) = Ok m'" "ld p m' = Ok (f w)"
    "\<And>q. sep p q \<Longrightarrow> ld q m' = ld q m"
  using st_total[OF assms, of "f w"] ld_st ld_st_sep assms by fastforce

lemma store_list_frame:
  "for_each pvs (\<lambda>(p, v). st p v) m = Ok m' \<Longrightarrow> \<forall>a \<in> set pvs. sep (fst a) q \<Longrightarrow> ld q m' = ld q m"
proof (induction pvs arbitrary: m)
  case (Cons pv pvs)
  then show ?case by (cases pv) (auto simp: bind_res_Ok_iff ld_st_sep)
qed simp

lemma store_list_total:
  "(\<And>p v. (p, v) \<in> set pvs \<Longrightarrow> \<exists>w. ld p m = Ok w) \<Longrightarrow>
   \<forall>a \<in> set pvs. \<forall>b \<in> set pvs. fst a = fst b \<or> sep (fst a) (fst b) \<Longrightarrow>
   \<exists>m'. for_each pvs (\<lambda>(p, v). st p v) m = Ok m'"
proof (induction pvs arbitrary: m)
  case (Cons pv pvs)
  obtain p v where pv: "pv = (p, v)" by fastforce
  obtain m1 where m1: "st p v m = Ok m1" using Cons.prems(1)[of p v] pv st_total by fastforce
  have "\<exists>w. ld q m1 = Ok w" if "(q, u) \<in> set pvs" for q u
    using that Cons.prems pv ld_st[OF m1] ld_st_sep[OF m1, of q] by (cases "p = q") force+
  then show ?case using Cons.IH[of m1] Cons.prems(2) pv m1 by auto
qed simp

lemma load_store_list:
  "for_each pvs (\<lambda>(p, v). st p v) m = Ok m' \<Longrightarrow>
   sorted_wrt (\<lambda>a b. sep (fst b) (fst a)) pvs \<Longrightarrow> (p, v) \<in> set pvs \<Longrightarrow> ld p m' = Ok v"
proof (induction pvs arbitrary: m)
  case (Cons pv pvs)
  obtain p0 v0 where pv: "pv = (p0, v0)" by fastforce
  obtain m1 where m1: "st p0 v0 m = Ok m1" "for_each pvs (\<lambda>(p, v). st p v) m1 = Ok m'"
    using Cons.prems(1) pv by (auto simp: bind_res_Ok_iff)
  show ?case
  proof (cases "(p, v) \<in> set pvs")
    case False
    then have "(p, v) = (p0, v0)" using Cons.prems(3) pv by simp
    moreover have "ld p0 m' = ld p0 m1"
      using store_list_frame[OF m1(2)] Cons.prems(2) pv by auto
    ultimately show ?thesis using ld_st[OF m1(1)] by simp
  qed (use Cons.IH[OF m1(2)] Cons.prems(2) pv in auto)
qed simp

end

definition sep32 :: "ptr \<Rightarrow> ptr \<Rightarrow> bool" where
  "sep32 p q \<longleftrightarrow> fst p \<noteq> fst q \<or> snd p + 4 \<le> snd q \<or> snd q + 4 \<le> snd p"

lemma load_u32_cong:
  "(\<And>i. snd p \<le> i \<Longrightarrow> i < snd p + 4 \<Longrightarrow> bytes m' (fst p) i = bytes m (fst p) i) \<Longrightarrow>
   load_u32 p m' = load_u32 p m"
  by (cases p) simp

lemma store_u32_bytes:
  "store_u32 p v m = Ok m' \<Longrightarrow> q \<noteq> fst p \<or> i < snd p \<or> snd p + 4 \<le> i \<Longrightarrow> bytes m' q i = bytes m q i"
  by (cases p) (auto simp: require_Ok_iff bytes_set_bytes)

interpretation w32: cells load_u32 store_u32 sep32
proof
  fix p q :: ptr and m m' :: psxmem and v w :: u32
  show "load_u32 p m = Ok w \<Longrightarrow> \<exists>m'. store_u32 p v m = Ok m'"
    by (cases p) (auto simp: require_Ok_iff)
  show "store_u32 p v m = Ok m' \<Longrightarrow> load_u32 p m' = Ok v"
    by (rule load_store_same(3))
  show "store_u32 p v m = Ok m' \<Longrightarrow> sep32 p q \<Longrightarrow> load_u32 q m' = load_u32 q m"
    by (rule load_u32_cong, erule store_u32_bytes) (auto simp: sep32_def)
qed

lemma PSXM_in_block:
  "lut_wf m \<Longrightarrow> PSXM a m = Some (r, off) \<Longrightarrow> off < region_size r"
  using addr_lo[of a]
  by (fastforce simp: PSXM_def lut_wf_def split: option.splits)
 

lemma lut_init_wf: "lut_wf (psxMemInit junk)"
  by (auto simp: lut_wf_def psxMemInit_def lut_init_def lut_ram_def in_ram_window_def split: if_splits)

lemma cache_control_bytes [simp]: "bytes (cache_control v m) = bytes m"
  by (simp add: cache_control_def)

lemma lut_wf_cache_control: "lut_wf m \<Longrightarrow> lut_wf (cache_control v m)"
  by (auto simp: lut_wf_def cache_control_def lut_ram_def lut_clear_def split: if_splits)

text \<open>
  The table is determined by the cache-control state: it is the initial table, with the three
  RAM windows unmapped while \<open>writeok\<close> is false.
\<close>

definition lut_ok :: "psxmem \<Rightarrow> bool" where
  "lut_ok m \<longleftrightarrow> psxMemLUT m = (if writeok m then lut_init else lut_clear lut_init)"

lemma lut_ok_init: "lut_ok (psxMemInit junk)"
  by (simp add: lut_ok_def psxMemInit_def)

lemma lut_ram_init: "lut_ram (lut_clear lut_init) = lut_init"
  by (rule ext) (auto simp: lut_ram_def lut_clear_def lut_init_def in_ram_window_def)

lemma lut_ok_cache_control: "lut_ok m \<Longrightarrow> lut_ok (cache_control v m)"
  by (auto simp: lut_ok_def cache_control_def lut_ram_init)

lemma lut_ok_wf: "lut_ok m \<Longrightarrow> lut_wf m"
  by (auto simp: lut_ok_def lut_wf_def lut_init_def lut_ram_def lut_clear_def in_ram_window_def
      split: if_splits)

lemma same_map_ok: "same_map m m' \<Longrightarrow> lut_ok m' = lut_ok m"
  by (simp add: same_map_def lut_ok_def)

subsection \<open>LoadPSXMem is a byte-by-byte copy\<close>

definition poke :: "u32 \<Rightarrow> u8 \<Rightarrow> psxmem \<Rightarrow> psxmem" where
  "poke a b m = (case PSXM a m of None \<Rightarrow> m | Some (r, off) \<Rightarrow> set_bytes r off [b] m)"

primrec poke_list :: "u32 \<Rightarrow> u8 list \<Rightarrow> psxmem \<Rightarrow> psxmem" where
  "poke_list a [] m = m"
| "poke_list a (b # bs) m = poke_list (a + 1) bs (poke a b m)"

lemma poke_fields [simp]:
  "psxMemLUT (poke a b m) = psxMemLUT m" "writeok (poke a b m) = writeok m"
  by (auto simp: poke_def split: option.splits)

lemma poke_list_fields [simp]:
  "psxMemLUT (poke_list a bs m) = psxMemLUT m" "writeok (poke_list a bs m) = writeok m"
  by (induction bs arbitrary: a m) simp_all

lemma poke_list_append:
  "poke_list a (xs @ ys) m = poke_list (a + of_nat (length xs)) ys (poke_list a xs m)"
  by (induction xs arbitrary: a m) (simp_all add: algebra_simps)

lemma next_in_block:
  assumes "Suc (unat a mod 65536) < 65536"
  shows "unat (a + 1 :: u32) = Suc (unat a)" "unat (a + 1) div 65536 = unat a div 65536"
    "unat (a + 1) mod 65536 = Suc (unat a mod 65536)"
proof -
  have "unat (- 1 :: u32) mod 65536 = 65535" by (simp add: unsigned_minus_1_eq_mask mask_eq_exp_minus_1)
  then have "a \<noteq> - 1" using assms by auto
  then show *: "unat (a + 1) = Suc (unat a)"
    by (metis add.commute eq_neg_iff_add_eq_0 unatSuc)
  show "unat (a + 1) div 65536 = unat a div 65536" "unat (a + 1) mod 65536 = Suc (unat a mod 65536)"
    using assms unfolding * by (auto simp: mod_Suc div_Suc)
qed

lemma poke_list_block:
  "unat a mod 65536 + length bs \<le> 65536 \<Longrightarrow>
   poke_list a bs m = (case psxMemLUT m (unat a div 65536) of None \<Rightarrow> m
     | Some (r, off) \<Rightarrow> set_bytes r (off + unat a mod 65536) bs m)"
proof (induction bs arbitrary: a m)
  case Nil
  then show ?case by (auto split: option.splits)
next
  case (Cons b bs)
  show ?case
  proof (cases bs)
    case Nil
    then show ?thesis by (auto simp: poke_def PSXM_def addr_hi addr_lo split: option.splits)
  next
    case Cons2: (Cons c cs)
    have "Suc (unat a mod 65536) < 65536" using Cons.prems Cons2 by simp
    note nx = next_in_block[OF this]
    show ?thesis
      using Cons.IH[of "a + 1" "poke a b m"] Cons.prems nx
      by (auto simp: poke_def PSXM_def addr_hi addr_lo set_bytes_Cons split: option.splits)
  qed
qed

lemma unat_of_nat_u32: "n < 4294967296 \<Longrightarrow> unat (of_nat n :: u32) = n"
  by (simp add: unat_of_nat take_bit_nat_eq_self)

lemma LoadPSXMem_done: "len \<le> 0 \<Longrightarrow> LoadPSXMem a len data m = Ok m"
  by (subst LoadPSXMem.simps) simp

lemma memcpy_block:
  assumes "lut_wf m" and "t \<le> length data" and "unat a mod 65536 + t \<le> 65536"
  shows "(case psxMemLUT m (unat a div 65536) of None \<Rightarrow> Ok m
      | Some q \<Rightarrow> memcpy (ptr_add q (unat a mod 65536)) data t m) = Ok (poke_list a (take t data) m)"
proof -
  have len: "unat a mod 65536 + length (take t data) \<le> 65536"
    using assms by simp
  show ?thesis
  proof (cases "psxMemLUT m (unat a div 65536)")
    case (Some q)
    obtain r off where q: "q = (r, off)" by fastforce
    then have "off + 0x10000 \<le> region_size r" using assms(1) Some by (auto simp: lut_wf_def)
    then show ?thesis using Some assms q poke_list_block[OF len, of m] by simp
  qed (simp add: poke_list_block[OF len, of m])
qed

lemma LoadPSXMem_chunk:
  fixes a :: u32
  defines "off \<equiv> unat a mod 65536"
  assumes "lut_wf m" and "0 < len" and "nat len \<le> length data"
    and t: "t = min (nat len) (65536 - off)"
  shows "LoadPSXMem a len data m =
    LoadPSXMem (a + of_nat t) (len - int t) (drop t data) (poke_list a (take t data) m)"
proof -
  have "off < 65536" by (simp add: off_def)
  then have off: "off + t \<le> 65536" using t by linarith
  have len: "t \<le> length data" using assms(4) t by simp
  have cp: "(case psxMemLUT m (unat a div 65536) of None \<Rightarrow> Ok m
      | Some q \<Rightarrow> memcpy (ptr_add q off) data t m) = Ok (poke_list a (take t data) m)"
    using memcpy_block[OF assms(2) len off[unfolded off_def]] by (simp only: off_def)
  show ?thesis
  proof (cases "off = 0")
    case False
    have t': "(if 65536 - int off > len then nat len else 65536 - off) = t"
      using assms(3) t by (auto simp: min_def)
    show ?thesis
      using assms(3) False t' cp by (subst LoadPSXMem.simps)
        (simp only: addr_hi addr_lo Let_def off_def[symmetric] t' if_False if_True simp_thms
          not_less[symmetric] not_True_eq_False bind_res_simps)
  next
    case True
    have t': "(if len < 65536 then nat len else 65536) = t"
      using assms(3) t True by (auto simp: min_def)
    have cp': "(case psxMemLUT m (unat a div 65536) of None \<Rightarrow> Ok m
        | Some q \<Rightarrow> memcpy q data t m) = Ok (poke_list a (take t data) m)"
      using cp True by (auto split: option.splits)
    have "LoadPSXMem a len data m =
        LoadPSXMem (a + 65536) (len - 65536) (drop 65536 data) (poke_list a (take t data) m)"
      using assms(3) True cp' unfolding off_def
      by (subst LoadPSXMem.simps) (simp only: addr_hi addr_lo Let_def t' if_False bind_res_simps
          not_less[symmetric] not_True_eq_False simp_thms)
    moreover have "len < 65536 \<Longrightarrow> int t = len" "\<not> len < 65536 \<Longrightarrow> t = 65536"
      using t' assms(3) by auto
    ultimately show ?thesis
      by (cases "len < 65536") (simp_all add: LoadPSXMem_done)
  qed
qed

text \<open>C7: \<open>LoadPSXMem\<close>, which copies page by page, puts into memory exactly what a copy of one byte at
  a time through the address table puts there (bytes whose page is unmapped are dropped), and it
  never faults. The hypothesis \<open>lut_wf\<close> says that every mapped page lies inside its allocation.\<close>
theorem LoadPSXMem_poke_list:
  "\<lbrakk>lut_wf m; nat len \<le> length data\<rbrakk> \<Longrightarrow>
   LoadPSXMem a len data m = Ok (poke_list a (take (nat len) data) m)"
proof (induction "nat len" arbitrary: a len data m rule: less_induct)
  case less
  show ?case
  proof (cases "0 < len")
    case False
    then show ?thesis by (simp add: LoadPSXMem_done)
  next
    case True
    define t where "t = min (nat len) (65536 - unat a mod 65536)"
    have t: "0 < t" "t \<le> nat len" using True by (simp_all add: t_def)
    have n: "nat (len - int t) = nat len - t" by (simp add: nat_diff_distrib')
    have "LoadPSXMem a len data m = Ok (poke_list (a + of_nat t)
        (take (nat len - t) (drop t data)) (poke_list a (take t data) m))"
      using LoadPSXMem_chunk[OF less.prems(1) True less.prems(2) t_def] t less.prems
        less.hyps[of "len - int t" "poke_list a (take t data) m" "drop t data" "a + of_nat t"]
      by (simp add: n lut_wf_def)
    moreover have "take (nat len) data = take t data @ take (nat len - t) (drop t data)"
      using t by (metis add_diff_inverse_nat not_less take_add)
    ultimately show ?thesis
      using t less.prems(2) by (simp add: poke_list_append min_absorb2)
  qed
qed

theorem LoadPSXMem_poke_list_witness:
  "LoadPSXMem 0x8000FFFF 3 [1, 2, 3, 4] (psxMemInit (\<lambda>_ _. 0)) =
   Ok (poke_list 0x8000FFFF [1, 2, 3] (psxMemInit (\<lambda>_ _. 0)))"
  using LoadPSXMem_poke_list[OF lut_init_wf, of 3 "[1, 2, 3, 4]"] by simp

end
