(* ===== verification/SpuState.thy ===== *)
theory SpuState
  imports PsxMem
begin

text \<open>
  The state of the sound processor: the channel, envelope and reverb structures of
  \<^verbatim>\<open>psf/spu/externals.h\<close> and the file-scope variables of \<^verbatim>\<open>spu.c\<close>, \<^verbatim>\<open>adsr.c\<close> and \<^verbatim>\<open>reverb.c\<close>.
  A C \<^verbatim>\<open>int\<close> that takes part in mixing arithmetic is a 32-bit word (two's complement, read with
  \<^verbatim>\<open>sint\<close>); one that only selects a table entry is an \<^verbatim>\<open>int\<close>; flags are booleans. A pointer into
  sound memory is NULL, the stop mark \<^verbatim>\<open>(u8 *) -1\<close>, or a byte offset from \<^verbatim>\<open>spuMemC\<close>. The fields
  of the C structures that no function reads (the old \<^verbatim>\<open>ADSRInfo\<close>, \<^verbatim>\<open>bRVBActive\<close>,
  \<^verbatim>\<open>iRVBOffset\<close>, \<^verbatim>\<open>iRVBRepeat\<close>, \<^verbatim>\<open>iLastRVBLeft\<close>, \<^verbatim>\<open>iLastRVBRight\<close> and the dummies) are left out.
\<close>

section \<open>Structures\<close>

type_synonym s16 = "16 word"
type_synonym s64 = "64 word"

datatype spuptr = SpuNull | SpuStop | SpuAt int

record ADSRInfoEx =
  State :: int
  AttackModeExp :: bool
  AttackRate :: int
  DecayRate :: int
  SustainLevel :: int
  SustainModeExp :: bool
  SustainIncrease :: bool
  SustainRate :: int
  ReleaseModeExp :: bool
  ReleaseRate :: int
  EnvelopeVol :: s32
  lVolume :: s32

record SPUCHAN =
  bNew :: bool
  iSBPos :: nat
  spos :: s32
  sinc :: s32
  SB :: "nat \<Rightarrow> s32"
  sval :: s32
  pStart :: spuptr
  pCurr :: spuptr
  pLoop :: spuptr
  bOn :: bool
  bStop :: bool
  iActFreq :: s32
  iUsedFreq :: s32
  iLeftVolume :: s32
  iLeftVolRaw :: s32
  bIgnoreLoop :: bool
  iRightVolume :: s32
  iRightVolRaw :: s32
  iRawPitch :: s32
  iIrqDone :: bool
  s_1 :: s32
  s_2 :: s32
  bNoise :: bool
  bFMod :: nat
  iOldNoise :: s32
  ADSRX :: ADSRInfoEx

record REVERBInfo =
  StartAddr :: s32
  CurrAddr :: s32
  Enabled :: s32
  VolLeft :: s32
  VolRight :: s32
  iRVBLeft :: s32
  iRVBRight :: s32
  FB_SRC_A :: s32
  FB_SRC_B :: s32
  IIR_ALPHA :: s32
  ACC_COEF_A :: s32
  ACC_COEF_B :: s32
  ACC_COEF_C :: s32
  ACC_COEF_D :: s32
  IIR_COEF :: s32
  FB_ALPHA :: s32
  FB_X :: s32
  IIR_DEST_A0 :: s32
  IIR_DEST_A1 :: s32
  ACC_SRC_A0 :: s32
  ACC_SRC_A1 :: s32
  ACC_SRC_B0 :: s32
  ACC_SRC_B1 :: s32
  IIR_SRC_A0 :: s32
  IIR_SRC_A1 :: s32
  IIR_DEST_B0 :: s32
  IIR_DEST_B1 :: s32
  ACC_SRC_C0 :: s32
  ACC_SRC_C1 :: s32
  ACC_SRC_D0 :: s32
  ACC_SRC_D1 :: s32
  IIR_SRC_B1 :: s32
  IIR_SRC_B0 :: s32
  MIX_DEST_A0 :: s32
  MIX_DEST_A1 :: s32
  MIX_DEST_B0 :: s32
  MIX_DEST_B1 :: s32
  IN_COEF_L :: s32
  IN_COEF_R :: s32

text \<open>
  The globals. \<open>spuMem\<close> has 256 * 1024 halfwords; \<open>s_chan\<close> has \<open>MAXCHAN + 1\<close> entries;
  \<open>outbuf\<close> is the 32768-byte block behind \<^verbatim>\<open>pSpuBuffer\<close>, in halfwords, and
  \<open>pNextSample\<close> an index into it; the last four fields are the \<^verbatim>\<open>static\<close> locals of
  \<^verbatim>\<open>MixREVERBLeftRight\<close>.
\<close>

record spu =
  regArea :: "nat \<Rightarrow> u16"
  spuMem :: "nat \<Rightarrow> u16"
  pSpuIrq :: spuptr
  iVolume :: s32
  s_chan :: "nat \<Rightarrow> SPUCHAN"
  rvb :: REVERBInfo
  dwNoiseVal :: u32
  spuCtrl :: u16
  spuStat :: u16
  spuIrq :: u16
  spuAddr :: u32
  bSPUIsOpen :: bool
  RateTable :: "u32 list"
  outbuf :: "nat \<Rightarrow> s16"
  pNextSample :: nat
  muted_channels :: "nat \<Rightarrow> bool"
  g_sound_buffer_size :: nat
  sampcount :: u32
  decaybegin :: u32
  decayend :: u32
  shouldInfiniteLoop :: bool
  shouldCheckSilence :: bool
  silenceSamples :: u32
  nonSilenceSample :: u32
  seektime :: s32
  poo :: s32
  downbuf :: "nat \<Rightarrow> nat \<Rightarrow> s32"
  upbuf :: "nat \<Rightarrow> nat \<Rightarrow> s32"
  dbpos :: nat
  ubpos :: nat

definition MAXCHAN :: nat where "MAXCHAN = 24"

definition spu_words :: nat where "spu_words = 256 * 1024"

definition out_words :: nat where "out_words = 16384"

definition chan_update :: "nat \<Rightarrow> (SPUCHAN \<Rightarrow> SPUCHAN) \<Rightarrow> spu \<Rightarrow> spu" where
  "chan_update ch f s = s\<lparr>s_chan := (s_chan s)(ch := f (s_chan s ch))\<rparr>"

lemma chan_update_fields [simp]:
  "regArea (chan_update ch f s) = regArea s"
  "spuMem (chan_update ch f s) = spuMem s"
  "rvb (chan_update ch f s) = rvb s"
  "spuAddr (chan_update ch f s) = spuAddr s"
  "spuCtrl (chan_update ch f s) = spuCtrl s"
  "RateTable (chan_update ch f s) = RateTable s"
  "bSPUIsOpen (chan_update ch f s) = bSPUIsOpen s"
  "outbuf (chan_update ch f s) = outbuf s"
  "pNextSample (chan_update ch f s) = pNextSample s"
  "s_chan (chan_update ch f s) = (s_chan s)(ch := f (s_chan s ch))"
  by (simp_all add: chan_update_def)

text \<open>Zeroed structures, as \<^verbatim>\<open>memset\<close> leaves them.\<close>

definition zero_adsrx :: ADSRInfoEx where
  "zero_adsrx = \<lparr>State = 0, AttackModeExp = False, AttackRate = 0, DecayRate = 0, SustainLevel = 0,
     SustainModeExp = False, SustainIncrease = False, SustainRate = 0, ReleaseModeExp = False,
     ReleaseRate = 0, EnvelopeVol = 0, lVolume = 0\<rparr>"

definition zero_chan :: SPUCHAN where
  "zero_chan = \<lparr>bNew = False, iSBPos = 0, spos = 0, sinc = 0, SB = (\<lambda>_. 0), sval = 0,
     pStart = SpuNull, pCurr = SpuNull, pLoop = SpuNull, bOn = False, bStop = False, iActFreq = 0,
     iUsedFreq = 0, iLeftVolume = 0, iLeftVolRaw = 0, bIgnoreLoop = False, iRightVolume = 0,
     iRightVolRaw = 0, iRawPitch = 0, iIrqDone = False, s_1 = 0, s_2 = 0, bNoise = False, bFMod = 0,
     iOldNoise = 0, ADSRX = zero_adsrx\<rparr>"

definition zero_rvb :: REVERBInfo where
  "zero_rvb = \<lparr>StartAddr = 0, CurrAddr = 0, Enabled = 0, VolLeft = 0, VolRight = 0, iRVBLeft = 0,
     iRVBRight = 0, FB_SRC_A = 0, FB_SRC_B = 0, IIR_ALPHA = 0, ACC_COEF_A = 0, ACC_COEF_B = 0,
     ACC_COEF_C = 0, ACC_COEF_D = 0, IIR_COEF = 0, FB_ALPHA = 0, FB_X = 0, IIR_DEST_A0 = 0,
     IIR_DEST_A1 = 0, ACC_SRC_A0 = 0, ACC_SRC_A1 = 0, ACC_SRC_B0 = 0, ACC_SRC_B1 = 0,
     IIR_SRC_A0 = 0, IIR_SRC_A1 = 0, IIR_DEST_B0 = 0, IIR_DEST_B1 = 0, ACC_SRC_C0 = 0,
     ACC_SRC_C1 = 0, ACC_SRC_D0 = 0, ACC_SRC_D1 = 0, IIR_SRC_B1 = 0, IIR_SRC_B0 = 0,
     MIX_DEST_A0 = 0, MIX_DEST_A1 = 0, MIX_DEST_B0 = 0, MIX_DEST_B1 = 0, IN_COEF_L = 0,
     IN_COEF_R = 0\<rparr>"

text \<open>The program's initial globals (static storage).\<close>

definition spu_boot :: spu where
  "spu_boot = \<lparr>regArea = (\<lambda>_. 0), spuMem = (\<lambda>_. 0), pSpuIrq = SpuNull, iVolume = 0,
     s_chan = (\<lambda>_. zero_chan), rvb = zero_rvb, dwNoiseVal = 1, spuCtrl = 0, spuStat = 0, spuIrq = 0,
     spuAddr = 0xffffffff, bSPUIsOpen = False, RateTable = replicate 160 0, outbuf = (\<lambda>_. 0),
     pNextSample = 0, muted_channels = (\<lambda>_. False), g_sound_buffer_size = 0, sampcount = 0,
     decaybegin = 0, decayend = 0, shouldInfiniteLoop = False, shouldCheckSilence = False,
     silenceSamples = 0, nonSilenceSample = 0, seektime = 0, poo = 0, downbuf = (\<lambda>_ _. 0),
     upbuf = (\<lambda>_ _. 0), dbpos = 0, ubpos = 0\<rparr>"

end
