(* ===== verification/Adsr.thy ===== *)
theory Adsr
  imports SpuState
begin

text \<open>
  The envelope generator of \<^verbatim>\<open>psf/spu/adsr.c\<close>: the rate table built by \<^verbatim>\<open>InitADSR\<close>, and
  \<^verbatim>\<open>MixADSR\<close>, which advances the envelope of one channel by one sample. The envelope level is
  a C \<^verbatim>\<open>int\<close> combined with unsigned table entries, so it wraps; the code detects the wrap by the
  sign.
\<close>

section \<open>The rate table\<close>

fun rate_step :: "u32 \<times> u32 \<times> u32 \<Rightarrow> u32 \<times> u32 \<times> u32" where
  "rate_step (r, rs, rd) =
     (let (r1, rs1, rd1) =
            (if r < 0x3FFFFFFF then
               (if rd + 1 = 5 then (r + rs, rs * 2, 1) else (r + rs, rs, rd + 1))
             else (r, rs, rd))
      in (if r1 > 0x3FFFFFFF then 0x3FFFFFFF else r1, rs1, rd1))"

primrec rate_entries :: "nat \<Rightarrow> u32 \<times> u32 \<times> u32 \<Rightarrow> u32 list" where
  "rate_entries 0 st = []"
| "rate_entries (Suc n) st = (let st1 = rate_step st in fst st1 # rate_entries n st1)"

definition InitADSR :: "u32 list" where
  "InitADSR = replicate 32 0 @ rate_entries 128 (3, 1, 0)"

definition rate_at :: "u32 list \<Rightarrow> int \<Rightarrow> u32 res" where
  "rate_at tbl i = require (0 \<le> i \<and> i < int (length tbl)) OutOfBounds (Ok (tbl ! nat i))"

definition sexytable :: "int list" where
  "sexytable = [0, 4, 6, 8, 9, 10, 11, 12]"

definition sexy :: "s32 \<Rightarrow> int" where
  "sexy vol = sexytable ! unat (signed_drop_bit 28 vol AND 7)"

section \<open>One envelope step\<close>

definition StartADSR :: "SPUCHAN \<Rightarrow> SPUCHAN" where
  "StartADSR c = c\<lparr>ADSRX := (ADSRX c)\<lparr>lVolume := 1, State := 0, EnvelopeVol := 0\<rparr>\<rparr>"

text \<open>The common tail of every branch: store the level, derive and return \<^verbatim>\<open>lVolume\<close>.\<close>

definition adsr_out :: "s32 \<Rightarrow> SPUCHAN \<Rightarrow> s32 \<times> SPUCHAN" where
  "adsr_out v c = (signed_drop_bit 21 v,
     c\<lparr>ADSRX := (ADSRX c)\<lparr>EnvelopeVol := v, lVolume := signed_drop_bit 21 v\<rparr>\<rparr>)"

definition adsr_release :: "u32 list \<Rightarrow> SPUCHAN \<Rightarrow> (s32 \<times> SPUCHAN) res" where
  "adsr_release tbl c = (let a = ADSRX c; v = EnvelopeVol a in
     bind_res (if ReleaseModeExp a
               then rate_at tbl ((4 * (ReleaseRate a XOR 0x1F)) - 0x18 + 32 + sexy v)
               else rate_at tbl ((4 * (ReleaseRate a XOR 0x1F)) - 0x0C + 32)) (\<lambda>d.
     if v - d <s 0 then Ok (adsr_out 0 (c\<lparr>bOn := False, bNoise := False\<rparr>))
     else Ok (adsr_out (v - d) c)))"

definition adsr_attack :: "u32 list \<Rightarrow> SPUCHAN \<Rightarrow> (s32 \<times> SPUCHAN) res" where
  "adsr_attack tbl c = (let a = ADSRX c; v = EnvelopeVol a in
     bind_res (if AttackModeExp a then
                 if v <s 0x60000000 then rate_at tbl ((AttackRate a XOR 0x7F) - 0x10 + 32)
                 else rate_at tbl ((AttackRate a XOR 0x7F) - 0x18 + 32)
               else rate_at tbl ((AttackRate a XOR 0x7F) - 0x10 + 32)) (\<lambda>d.
     if v + d <s 0 then Ok (adsr_out 0x7FFFFFFF (c\<lparr>ADSRX := a\<lparr>State := 1\<rparr>\<rparr>))
     else Ok (adsr_out (v + d) c)))"

definition adsr_decay :: "u32 list \<Rightarrow> SPUCHAN \<Rightarrow> (s32 \<times> SPUCHAN) res" where
  "adsr_decay tbl c = (let a = ADSRX c; v = EnvelopeVol a in
     bind_res (rate_at tbl ((4 * (DecayRate a XOR 0x1F)) - 0x18 + 32 + sexy v)) (\<lambda>d.
     let v1 = (if v - d <s 0 then 0 else v - d) in
     Ok (adsr_out v1
       (if sint (signed_drop_bit 27 v1 AND 0xF) \<le> SustainLevel a
        then c\<lparr>ADSRX := a\<lparr>State := 2\<rparr>\<rparr> else c))))"

definition adsr_sustain :: "u32 list \<Rightarrow> SPUCHAN \<Rightarrow> (s32 \<times> SPUCHAN) res" where
  "adsr_sustain tbl c = (let a = ADSRX c; v = EnvelopeVol a in
     if SustainIncrease a then
       bind_res (if SustainModeExp a then
                   if v <s 0x60000000 then rate_at tbl ((SustainRate a XOR 0x7F) - 0x10 + 32)
                   else rate_at tbl ((SustainRate a XOR 0x7F) - 0x18 + 32)
                 else rate_at tbl ((SustainRate a XOR 0x7F) - 0x10 + 32)) (\<lambda>d.
       Ok (adsr_out (if v + d <s 0 then 0x7FFFFFFF else v + d) c))
     else
       bind_res (if SustainModeExp a
                 then rate_at tbl ((SustainRate a XOR 0x7F) - 0x1B + 32 + sexy v)
                 else rate_at tbl ((SustainRate a XOR 0x7F) - 0x0F + 32)) (\<lambda>d.
       Ok (adsr_out (if v - d <s 0 then 0 else v - d) c)))"

definition MixADSR :: "u32 list \<Rightarrow> SPUCHAN \<Rightarrow> (s32 \<times> SPUCHAN) res" where
  "MixADSR tbl c =
     (if bStop c then adsr_release tbl c
      else if State (ADSRX c) = 0 then adsr_attack tbl c
      else if State (ADSRX c) = 1 then adsr_decay tbl c
      else if State (ADSRX c) = 2 then adsr_sustain tbl c
      else Ok (0, c))"

section \<open>Laws\<close>

lemma int_xor_range: "0 \<le> (x :: int) \<Longrightarrow> x < 2 ^ n \<Longrightarrow> 0 \<le> x XOR (2 ^ n - 1) \<and> x XOR (2 ^ n - 1) < 2 ^ n"
  by (intro conjI XOR_upper) auto

lemma xor_127: "0 \<le> (x :: int) \<Longrightarrow> x \<le> 127 \<Longrightarrow> 0 \<le> x XOR 0x7F \<and> x XOR 0x7F \<le> 127"
  using int_xor_range[of x 7] by simp

lemma xor_31: "0 \<le> (x :: int) \<Longrightarrow> x \<le> 31 \<Longrightarrow> 0 \<le> x XOR 0x1F \<and> x XOR 0x1F \<le> 31"
  using int_xor_range[of x 5] by simp

lemma sexy_range: "0 \<le> sexy v \<and> sexy v \<le> 12"
proof -
  have "unat (signed_drop_bit 28 v AND 7) \<le> unat (7 :: s32)"
    by (rule word_le_nat_alt[THEN iffD1]) (rule word_and_le1)
  then have "unat (signed_drop_bit 28 v AND 7) < 8" by simp
  then have "sexy v \<in> set sexytable"
    unfolding sexy_def by (intro nth_mem) (simp add: sexytable_def)
  then show ?thesis by (auto simp: sexytable_def)
qed

definition adsr_ok :: "ADSRInfoEx \<Rightarrow> bool" where
  "adsr_ok a \<longleftrightarrow> 0 \<le> AttackRate a \<and> AttackRate a \<le> 127 \<and> 0 \<le> DecayRate a \<and> DecayRate a \<le> 15 \<and>
     0 \<le> SustainRate a \<and> SustainRate a \<le> 127 \<and> 0 \<le> ReleaseRate a \<and> ReleaseRate a \<le> 31 \<and>
     0 \<le>s EnvelopeVol a"

text \<open>The table index of the step and its direction, by phase and mode.\<close>

definition env_index :: "SPUCHAN \<Rightarrow> int" where
  "env_index c = (let a = ADSRX c; v = EnvelopeVol a in
     if bStop c then
       if ReleaseModeExp a then 4 * (ReleaseRate a XOR 0x1F) + 8 + sexy v
       else 4 * (ReleaseRate a XOR 0x1F) + 20
     else if State a = 0 then
       if AttackModeExp a \<and> 0x60000000 \<le> sint v then (AttackRate a XOR 0x7F) + 8
       else (AttackRate a XOR 0x7F) + 16
     else if State a = 1 then 4 * (DecayRate a XOR 0x1F) + 8 + sexy v
     else if SustainIncrease a then
       if SustainModeExp a \<and> 0x60000000 \<le> sint v then (SustainRate a XOR 0x7F) + 8
       else (SustainRate a XOR 0x7F) + 16
     else if SustainModeExp a then (SustainRate a XOR 0x7F) + 5 + sexy v
     else (SustainRate a XOR 0x7F) + 17)"

definition env_rises :: "SPUCHAN \<Rightarrow> bool" where
  "env_rises c \<longleftrightarrow> \<not> bStop c \<and>
     (State (ADSRX c) = 0 \<or> State (ADSRX c) = 2 \<and> SustainIncrease (ADSRX c))"

definition env_level :: "u32 list \<Rightarrow> SPUCHAN \<Rightarrow> int" where
  "env_level tbl c = (let v = sint (EnvelopeVol (ADSRX c)); d = uint (tbl ! nat (env_index c)) in
     if env_rises c then min 0x7FFFFFFF (v + d) else max 0 (v - d))"

lemma env_index_range:
  assumes "adsr_ok (ADSRX c)"
  shows "0 \<le> env_index c \<and> env_index c < 160"
proof -
  note a = assms[unfolded adsr_ok_def]
  show ?thesis
    using xor_127[of "AttackRate (ADSRX c)"] xor_31[of "DecayRate (ADSRX c)"]
      xor_127[of "SustainRate (ADSRX c)"] xor_31[of "ReleaseRate (ADSRX c)"]
      sexy_range[of "EnvelopeVol (ADSRX c)"] a
    unfolding env_index_def Let_def by (simp split: if_split)
qed

lemma InitADSR_length: "length InitADSR = 160"
proof -
  have "length (rate_entries n st) = n" for n st
    by (induction n arbitrary: st) (simp_all add: Let_def)
  then show ?thesis by (simp add: InitADSR_def)
qed

lemma InitADSR_bound: "i < 160 \<Longrightarrow> InitADSR ! i \<le> 0x3FFFFFFF"
proof -
  have "fst (rate_step st) \<le> 0x3FFFFFFF" for st
    by (cases st) (auto simp: Let_def not_less split: prod.split)
  then have "\<forall>x \<in> set (rate_entries n st). x \<le> 0x3FFFFFFF" for n st
    by (induction n arbitrary: st) (simp_all add: Let_def del: rate_step.simps)
  then have "\<forall>x \<in> set InitADSR. x \<le> 0x3FFFFFFF" by (auto simp: InitADSR_def)
  then show "i < 160 \<Longrightarrow> InitADSR ! i \<le> 0x3FFFFFFF" using InitADSR_length by (metis nth_mem)
qed

lemma sum_level:
  fixes v d :: s32
  assumes "0 \<le>s v" "d \<le> 0x3FFFFFFF"
  shows "sint (if v + d <s 0 then 0x7FFFFFFF else v + d) = min 0x7FFFFFFF (sint v + uint d)"
proof -
  obtain x y where xy: "uint v = x" "uint d = y" "0 \<le> x" "0 \<le> y" by simp
  have v: "x < 2147483648" "sint v = x"
    using assms(1) by (simp_all add: sle_zero_32 sint_32_eq xy)
  have d: "y \<le> 1073741823" using assms(2) by (simp add: word_le_def xy)
  have s: "uint (v + d) = x + y" using v d by (simp add: uint_plus_32 xy)
  show ?thesis using s v d xy by (auto simp: word_sless_alt sint_32_eq)
qed

lemma diff_level:
  fixes v d :: s32
  assumes "0 \<le>s v" "d \<le> 0x3FFFFFFF"
  shows "sint (if v - d <s 0 then 0 else v - d) = max 0 (sint v - uint d)"
proof -
  obtain x y where xy: "uint v = x" "uint d = y" "0 \<le> x" "0 \<le> y" by simp
  have v: "x < 2147483648" "sint v = x"
    using assms(1) by (simp_all add: sle_zero_32 sint_32_eq xy)
  have d: "y \<le> 1073741823" using assms(2) by (simp add: word_le_def xy)
  have s: "uint (v - d) = (if y \<le> x then x - y else x - y + 4294967296)"
    by (simp add: uint_minus_32 xy)
  show ?thesis using s v d xy by (auto simp: word_sless_alt sint_32_eq)
qed

lemma MixADSR_level:
  assumes ok: "adsr_ok (ADSRX c)" and st: "bStop c \<or> State (ADSRX c) \<in> {0, 1, 2}"
  shows "runs (MixADSR InitADSR c) (\<lambda>(vol, c').
    sint (EnvelopeVol (ADSRX c')) = env_level InitADSR c \<and>
    vol = signed_drop_bit 21 (EnvelopeVol (ADSRX c')) \<and> lVolume (ADSRX c') = vol)"
proof -
  define d where "d = InitADSR ! nat (env_index c)"
  have i: "0 \<le> env_index c" "env_index c < 160" using env_index_range[OF ok] by auto
  have rate: "rate_at InitADSR (env_index c) = Ok d"
    using i by (simp add: rate_at_def InitADSR_length d_def)
  have d: "d \<le> 0x3FFFFFFF" using i InitADSR_bound[of "nat (env_index c)"] by (simp add: d_def)
  have v: "0 \<le>s EnvelopeVol (ADSRX c)" using ok by (simp add: adsr_ok_def)
  note up = sum_level[OF v d] and down = diff_level[OF v d]
  consider (rel) "bStop c" | (att) "\<not> bStop c" "State (ADSRX c) = 0"
    | (dec) "\<not> bStop c" "State (ADSRX c) = 1" | (sus) "\<not> bStop c" "State (ADSRX c) = 2"
    using st by blast
  then show ?thesis
  proof cases
    case rel
    have "MixADSR InitADSR c = bind_res (Ok d) (\<lambda>d. let v = EnvelopeVol (ADSRX c) in
       if v - d <s 0 then Ok (adsr_out 0 (c\<lparr>bOn := False, bNoise := False\<rparr>)) else Ok (adsr_out (v - d) c))"
      using rel rate unfolding rate[symmetric]
      by (simp add: MixADSR_def adsr_release_def Let_def env_index_def algebra_simps)
    then show ?thesis using rel down
      by (auto simp: adsr_out_def env_level_def env_rises_def Let_def d_def)
  next
    case att
    have "MixADSR InitADSR c = bind_res (Ok d) (\<lambda>d. let v = EnvelopeVol (ADSRX c) in
       if v + d <s 0 then Ok (adsr_out 0x7FFFFFFF (c\<lparr>ADSRX := (ADSRX c)\<lparr>State := 1\<rparr>\<rparr>))
       else Ok (adsr_out (v + d) c))"
      using att unfolding rate[symmetric]
      by (auto simp add: MixADSR_def adsr_attack_def Let_def env_index_def algebra_simps word_sless_alt)
    then show ?thesis using att up
      by (auto simp: adsr_out_def env_level_def env_rises_def Let_def d_def)
  next
    case dec
    have "MixADSR InitADSR c = bind_res (Ok d) (\<lambda>d. let v = EnvelopeVol (ADSRX c);
       v1 = (if v - d <s 0 then 0 else v - d) in
       Ok (adsr_out v1 (if sint (signed_drop_bit 27 v1 AND 0xF) \<le> SustainLevel (ADSRX c)
        then c\<lparr>ADSRX := (ADSRX c)\<lparr>State := 2\<rparr>\<rparr> else c)))"
      using dec unfolding rate[symmetric]
      by (simp add: MixADSR_def adsr_decay_def Let_def env_index_def algebra_simps)
    then show ?thesis using dec down
      by (auto simp: adsr_out_def env_level_def env_rises_def Let_def d_def)
  next
    case sus
    show ?thesis
    proof (cases "SustainIncrease (ADSRX c)")
      case True
      have "MixADSR InitADSR c = bind_res (Ok d) (\<lambda>d. let v = EnvelopeVol (ADSRX c) in
         Ok (adsr_out (if v + d <s 0 then 0x7FFFFFFF else v + d) c))"
        using sus True unfolding rate[symmetric]
        by (auto simp add: MixADSR_def adsr_sustain_def Let_def env_index_def algebra_simps word_sless_alt)
      then show ?thesis using sus True up
        by (auto simp: adsr_out_def env_level_def env_rises_def Let_def d_def)
    next
      case False
      have "MixADSR InitADSR c = bind_res (Ok d) (\<lambda>d. let v = EnvelopeVol (ADSRX c) in
         Ok (adsr_out (if v - d <s 0 then 0 else v - d) c))"
        using sus False unfolding rate[symmetric]
        by (auto simp add: MixADSR_def adsr_sustain_def Let_def env_index_def algebra_simps)
      then show ?thesis using sus False down
        by (auto simp: adsr_out_def env_level_def env_rises_def Let_def d_def)
    qed
  qed
qed

lemma env_level_range:
  assumes "adsr_ok (ADSRX c)"
  shows "0 \<le> env_level tbl c \<and> env_level tbl c \<le> 0x7FFFFFFF"
proof -
  have "0 \<le> sint (EnvelopeVol (ADSRX c))" "sint (EnvelopeVol (ADSRX c)) < 2147483648"
    using assms uint_range_32[of "EnvelopeVol (ADSRX c)"]
    by (simp_all add: adsr_ok_def sle_zero_32 sint_32_eq)
  moreover obtain d where "uint (tbl ! nat (env_index c)) = d" "0 \<le> d" by simp
  ultimately show ?thesis unfolding env_level_def Let_def by simp
qed

lemma MixADSR_keeps:
  assumes ok: "adsr_ok (ADSRX c)" and len: "length tbl = 160"
  shows "ends (MixADSR tbl c) (\<lambda>(vol, c'). adsr_ok (ADSRX c') \<and> spos c' = spos c \<and> sinc c' = sinc c \<and>
     SB c' = SB c \<and> iSBPos c' = iSBPos c \<and> iRawPitch c' = iRawPitch c \<and> iLeftVolume c' = iLeftVolume c \<and>
     iRightVolume c' = iRightVolume c \<and> pLoop c' = pLoop c \<and> pStart c' = pStart c)"
proof -
  have z: "0 \<le>s (0 :: s32)" "0 \<le>s (0x7FFFFFFF :: s32)" by (simp_all add: word_sle_eq)
  have r: "rate_at tbl i \<noteq> Fail OutOfFuel" for i by (auto simp: rate_at_def require_def)
  show ?thesis
    unfolding MixADSR_def adsr_release_def adsr_attack_def adsr_decay_def adsr_sustain_def Let_def
    by (intro ends_if ends_bind_any; insert ok z; simp add: r adsr_out_def adsr_ok_def signed.not_less)
qed

section \<open>Properties\<close>

text \<open>C19: one envelope step refines the intended arithmetic on integers. With the rate table of
  \<open>InitADSR\<close> and register fields in range, \<open>MixADSR\<close> never faults (every table index is in
  range), the new level is the old one plus or minus the rate of the phase, clipped to
  \<open>0 .. 0x7FFFFFFF\<close> (the test on the sign of the wrapped \<^verbatim>\<open>int\<close> detects exactly the overflow), and
  the returned volume is its top ten bits.\<close>
theorem MixADSR_refines:
  assumes "adsr_ok (ADSRX c)" and "bStop c \<or> State (ADSRX c) \<in> {0, 1, 2}"
  shows "\<exists>vol c'. MixADSR InitADSR c = Ok (vol, c') \<and>
    sint (EnvelopeVol (ADSRX c')) = env_level InitADSR c \<and>
    sint vol = env_level InitADSR c div 2 ^ 21 \<and> 0 \<le> sint vol \<and> sint vol \<le> 1023"
proof -
  obtain vol c' where m: "MixADSR InitADSR c = Ok (vol, c')"
    "sint (EnvelopeVol (ADSRX c')) = env_level InitADSR c"
    "vol = signed_drop_bit 21 (EnvelopeVol (ADSRX c'))"
    using MixADSR_level[OF assms] by (auto simp: runs_def)
  have "sint vol = env_level InitADSR c div 2 ^ 21"
    using m(2,3) by (simp add: sint_signed_drop_bit_eq drop_bit_eq_div)
  moreover have "0 \<le> env_level InitADSR c div 2 ^ 21" "env_level InitADSR c div 2 ^ 21 \<le> 1023"
    using env_level_range[OF assms(1), of InitADSR]
      zdiv_mono1[of "env_level InitADSR c" 2147483647 "2 ^ 21"]
    by (simp_all add: pos_imp_zdiv_nonneg_iff)
  ultimately show ?thesis using m by auto
qed

theorem MixADSR_refines_witness:
  "\<exists>vol c'. MixADSR InitADSR zero_chan = Ok (vol, c') \<and>
    sint (EnvelopeVol (ADSRX c')) = env_level InitADSR zero_chan \<and>
    sint vol = env_level InitADSR zero_chan div 2 ^ 21 \<and> 0 \<le> sint vol \<and> sint vol \<le> 1023"
  by (rule MixADSR_refines) (simp_all add: zero_chan_def zero_adsrx_def adsr_ok_def)

end
