(* ===== verification/SpuGauss.thy ===== *)
theory SpuGauss
  imports SpuState
begin

text \<open>
  The interpolation table of \<^verbatim>\<open>psf/spu/gauss_i.h\<close>: four coefficients for each of the 256
  fractional sample positions.
\<close>

definition gauss :: "int list" where
  "gauss = [
     370, 1305, 374, 0, 366, 1305, 378, 0,
     362, 1304, 381, 0, 358, 1304, 385, 0,
     354, 1304, 389, 0, 351, 1304, 393, 0,
     347, 1304, 397, 0, 343, 1303, 401, 0,
     339, 1303, 405, 0, 336, 1303, 410, 0,
     332, 1302, 414, 0, 328, 1302, 418, 0,
     325, 1301, 422, 0, 321, 1300, 426, 0,
     318, 1300, 430, 0, 314, 1299, 434, 0,
     311, 1298, 439, 1, 307, 1297, 443, 1,
     304, 1297, 447, 1, 300, 1296, 451, 1,
     297, 1295, 456, 1, 293, 1294, 460, 1,
     290, 1293, 464, 1, 286, 1292, 469, 1,
     283, 1291, 473, 1, 280, 1290, 477, 1,
     276, 1288, 482, 1, 273, 1287, 486, 2,
     270, 1286, 491, 2, 267, 1284, 495, 2,
     263, 1283, 499, 2, 260, 1282, 504, 2,
     257, 1280, 508, 2, 254, 1279, 513, 2,
     251, 1277, 517, 3, 248, 1275, 522, 3,
     245, 1274, 527, 3, 242, 1272, 531, 3,
     239, 1270, 536, 3, 236, 1269, 540, 4,
     233, 1267, 545, 4, 230, 1265, 550, 4,
     227, 1263, 554, 4, 224, 1261, 559, 4,
     221, 1259, 563, 5, 218, 1257, 568, 5,
     215, 1255, 573, 5, 212, 1253, 577, 5,
     210, 1251, 582, 6, 207, 1248, 587, 6,
     204, 1246, 592, 6, 201, 1244, 596, 6,
     199, 1241, 601, 7, 196, 1239, 606, 7,
     193, 1237, 611, 7, 191, 1234, 615, 8,
     188, 1232, 620, 8, 186, 1229, 625, 8,
     183, 1227, 630, 9, 180, 1224, 635, 9,
     178, 1221, 640, 9, 175, 1219, 644, 10,
     173, 1216, 649, 10, 171, 1213, 654, 10,
     168, 1210, 659, 11, 166, 1207, 664, 11,
     163, 1205, 669, 11, 161, 1202, 674, 12,
     159, 1199, 678, 12, 156, 1196, 683, 13,
     154, 1193, 688, 13, 152, 1190, 693, 14,
     150, 1186, 698, 14, 147, 1183, 703, 15,
     145, 1180, 708, 15, 143, 1177, 713, 15,
     141, 1174, 718, 16, 139, 1170, 723, 16,
     137, 1167, 728, 17, 134, 1164, 732, 17,
     132, 1160, 737, 18, 130, 1157, 742, 19,
     128, 1153, 747, 19, 126, 1150, 752, 20,
     124, 1146, 757, 20, 122, 1143, 762, 21,
     120, 1139, 767, 21, 118, 1136, 772, 22,
     117, 1132, 777, 23, 115, 1128, 782, 23,
     113, 1125, 787, 24, 111, 1121, 792, 24,
     109, 1117, 797, 25, 107, 1113, 802, 26,
     106, 1109, 806, 27, 104, 1106, 811, 27,
     102, 1102, 816, 28, 100, 1098, 821, 29,
     99, 1094, 826, 29, 97, 1090, 831, 30,
     95, 1086, 836, 31, 94, 1082, 841, 32,
     92, 1078, 846, 32, 90, 1074, 851, 33,
     89, 1070, 855, 34, 87, 1066, 860, 35,
     86, 1061, 865, 36, 84, 1057, 870, 36,
     83, 1053, 875, 37, 81, 1049, 880, 38,
     80, 1045, 884, 39, 78, 1040, 889, 40,
     77, 1036, 894, 41, 76, 1032, 899, 42,
     74, 1027, 904, 43, 73, 1023, 908, 44,
     71, 1019, 913, 45, 70, 1014, 918, 46,
     69, 1010, 923, 47, 67, 1005, 927, 48,
     66, 1001, 932, 49, 65, 997, 937, 50,
     64, 992, 941, 51, 62, 988, 946, 52,
     61, 983, 951, 53, 60, 978, 955, 54,
     59, 974, 960, 55, 58, 969, 965, 56,
     56, 965, 969, 58, 55, 960, 974, 59,
     54, 955, 978, 60, 53, 951, 983, 61,
     52, 946, 988, 62, 51, 941, 992, 64,
     50, 937, 997, 65, 49, 932, 1001, 66,
     48, 927, 1005, 67, 47, 923, 1010, 69,
     46, 918, 1014, 70, 45, 913, 1019, 71,
     44, 908, 1023, 73, 43, 904, 1027, 74,
     42, 899, 1032, 76, 41, 894, 1036, 77,
     40, 889, 1040, 78, 39, 884, 1045, 80,
     38, 880, 1049, 81, 37, 875, 1053, 83,
     36, 870, 1057, 84, 36, 865, 1061, 86,
     35, 860, 1066, 87, 34, 855, 1070, 89,
     33, 851, 1074, 90, 32, 846, 1078, 92,
     32, 841, 1082, 94, 31, 836, 1086, 95,
     30, 831, 1090, 97, 29, 826, 1094, 99,
     29, 821, 1098, 100, 28, 816, 1102, 102,
     27, 811, 1106, 104, 27, 806, 1109, 106,
     26, 802, 1113, 107, 25, 797, 1117, 109,
     24, 792, 1121, 111, 24, 787, 1125, 113,
     23, 782, 1128, 115, 23, 777, 1132, 117,
     22, 772, 1136, 118, 21, 767, 1139, 120,
     21, 762, 1143, 122, 20, 757, 1146, 124,
     20, 752, 1150, 126, 19, 747, 1153, 128,
     19, 742, 1157, 130, 18, 737, 1160, 132,
     17, 732, 1164, 134, 17, 728, 1167, 137,
     16, 723, 1170, 139, 16, 718, 1174, 141,
     15, 713, 1177, 143, 15, 708, 1180, 145,
     15, 703, 1183, 147, 14, 698, 1186, 150,
     14, 693, 1190, 152, 13, 688, 1193, 154,
     13, 683, 1196, 156, 12, 678, 1199, 159,
     12, 674, 1202, 161, 11, 669, 1205, 163,
     11, 664, 1207, 166, 11, 659, 1210, 168,
     10, 654, 1213, 171, 10, 649, 1216, 173,
     10, 644, 1219, 175, 9, 640, 1221, 178,
     9, 635, 1224, 180, 9, 630, 1227, 183,
     8, 625, 1229, 186, 8, 620, 1232, 188,
     8, 615, 1234, 191, 7, 611, 1237, 193,
     7, 606, 1239, 196, 7, 601, 1241, 199,
     6, 596, 1244, 201, 6, 592, 1246, 204,
     6, 587, 1248, 207, 6, 582, 1251, 210,
     5, 577, 1253, 212, 5, 573, 1255, 215,
     5, 568, 1257, 218, 5, 563, 1259, 221,
     4, 559, 1261, 224, 4, 554, 1263, 227,
     4, 550, 1265, 230, 4, 545, 1267, 233,
     4, 540, 1269, 236, 3, 536, 1270, 239,
     3, 531, 1272, 242, 3, 527, 1274, 245,
     3, 522, 1275, 248, 3, 517, 1277, 251,
     2, 513, 1279, 254, 2, 508, 1280, 257,
     2, 504, 1282, 260, 2, 499, 1283, 263,
     2, 495, 1284, 267, 2, 491, 1286, 270,
     2, 486, 1287, 273, 1, 482, 1288, 276,
     1, 477, 1290, 280, 1, 473, 1291, 283,
     1, 469, 1292, 286, 1, 464, 1293, 290,
     1, 460, 1294, 293, 1, 456, 1295, 297,
     1, 451, 1296, 300, 1, 447, 1297, 304,
     1, 443, 1297, 307, 1, 439, 1298, 311,
     0, 434, 1299, 314, 0, 430, 1300, 318,
     0, 426, 1300, 321, 0, 422, 1301, 325,
     0, 418, 1302, 328, 0, 414, 1302, 332,
     0, 410, 1303, 336, 0, 405, 1303, 339,
     0, 401, 1303, 343, 0, 397, 1304, 347,
     0, 393, 1304, 351, 0, 389, 1304, 354,
     0, 385, 1304, 358, 0, 381, 1304, 362,
     0, 378, 1305, 366, 0, 374, 1305, 370
   ]"

text \<open>\<open>gauss_sum\<close> adds the four products of one interpolation (\<^verbatim>\<open>vr\<close> in \<^verbatim>\<open>SPUasync\<close>).\<close>

definition gauss_sum :: "nat \<Rightarrow> s32 \<Rightarrow> s32 \<Rightarrow> s32 \<Rightarrow> s32 \<Rightarrow> s32" where
  "gauss_sum vl g0 g1 g2 g3 =
     signed_drop_bit 9 (word_of_int (gauss ! vl) * g0)
     + signed_drop_bit 9 (word_of_int (gauss ! (vl + 1)) * g1)
     + signed_drop_bit 9 (word_of_int (gauss ! (vl + 2)) * g2)
     + signed_drop_bit 9 (word_of_int (gauss ! (vl + 3)) * g3)"

lemma length_gauss [simp]: "length gauss = 1024"
  by (simp add: gauss_def)

end
