(* ===== verification/SpuRegisters.thy ===== *)
theory SpuRegisters
  imports Adsr
begin

text \<open>
  The register file of the sound processor, \<^verbatim>\<open>psf/spu/registers.c\<close>: volume and pitch
  conversion, key on/off, frequency modulation and noise masks, the data port into sound
  memory, and the two dispatchers \<open>SPUwriteRegister\<close> and \<open>SPUreadRegister\<close>.
\<close>

section \<open>Channel registers\<close>

text \<open>The value \<^verbatim>\<open>SetVolumeLR\<close> stores; the argument is the raw 16-bit register (\<^verbatim>\<open>s16 vol\<close>).\<close>

definition volume_of :: "u16 \<Rightarrow> s32" where
  "volume_of vol =
     (if vol AND 0x8000 \<noteq> 0 then
        let v = (if vol AND 0x1000 \<noteq> 0 then NOT vol else vol);
            h = (uint (v AND 0x7f) + 1) div 2;
            s = h + (if vol AND 0x2000 \<noteq> 0 then - (h div 2) else h div 2)
        in word_of_int (s * 128) AND 0x3fff
      else if vol AND 0x4000 \<noteq> 0 then ucast (vol AND 0x3FFF) - 0x4000
      else ucast (vol AND 0x3FFF))"

definition SetVolumeLR :: "bool \<Rightarrow> nat \<Rightarrow> u16 \<Rightarrow> spu \<Rightarrow> spu" where
  "SetVolumeLR right ch vol = chan_update ch (\<lambda>c.
     if right then c\<lparr>iRightVolRaw := scast vol, iRightVolume := volume_of vol\<rparr>
     else c\<lparr>iLeftVolRaw := scast vol, iLeftVolume := volume_of vol\<rparr>)"

definition SetPitch :: "nat \<Rightarrow> u16 \<Rightarrow> spu \<Rightarrow> spu" where
  "SetPitch ch val =
     (let raw = (if val > 0x3fff then 0x3fff else uint val);
          NP = (44100 * raw) div 4096
      in chan_update ch (\<lambda>c. c\<lparr>iRawPitch := word_of_int raw,
                               iActFreq := word_of_int (if NP < 1 then 1 else NP)\<rparr>))"

text \<open>
  The mask loops: bit \<open>ch - start\<close> of the register value is the one tested for channel
  \<open>ch\<close> (\<^verbatim>\<open>val >>= 1\<close> in the loop header).
\<close>

definition mask_bit :: "u16 \<Rightarrow> nat \<Rightarrow> bool" where
  "mask_bit val k \<longleftrightarrow> drop_bit k val AND 1 \<noteq> 0"

definition SoundOn :: "nat \<Rightarrow> nat \<Rightarrow> u16 \<Rightarrow> spu \<Rightarrow> spu" where
  "SoundOn start fin val = fold (\<lambda>ch s.
     if mask_bit val (ch - start) \<and> pStart (s_chan s ch) \<noteq> SpuNull
     then chan_update ch (\<lambda>c. c\<lparr>bIgnoreLoop := False, bNew := True\<rparr>) s
     else s) [start..<fin]"

definition SoundOff :: "nat \<Rightarrow> nat \<Rightarrow> u16 \<Rightarrow> spu \<Rightarrow> spu" where
  "SoundOff start fin val = fold (\<lambda>ch s.
     if mask_bit val (ch - start) then chan_update ch (bStop_update (\<lambda>_. True)) s else s) [start..<fin]"

definition FModOn :: "nat \<Rightarrow> nat \<Rightarrow> u16 \<Rightarrow> spu \<Rightarrow> spu" where
  "FModOn start fin val = fold (\<lambda>ch s.
     if mask_bit val (ch - start) then
       (if 0 < ch then chan_update (ch - 1) (bFMod_update (\<lambda>_. 2))
                         (chan_update ch (bFMod_update (\<lambda>_. 1)) s)
        else s)
     else chan_update ch (bFMod_update (\<lambda>_. 0)) s) [start..<fin]"

definition NoiseOn :: "nat \<Rightarrow> nat \<Rightarrow> u16 \<Rightarrow> spu \<Rightarrow> spu" where
  "NoiseOn start fin val = fold (\<lambda>ch s.
     chan_update ch (bNoise_update (\<lambda>_. mask_bit val (ch - start))) s) [start..<fin]"

text \<open>The channel part of \<^verbatim>\<open>SPUwriteRegister\<close> (registers \<^verbatim>\<open>0xc00\<close> to \<^verbatim>\<open>0xd7f\<close>).\<close>

definition channel_write :: "u32 \<Rightarrow> nat \<Rightarrow> u16 \<Rightarrow> spu \<Rightarrow> spu" where
  "channel_write reg ch val s =
     (if reg = 0 then SetVolumeLR False ch val s
      else if reg = 2 then SetVolumeLR True ch val s
      else if reg = 4 then SetPitch ch val s
      else if reg = 6 then chan_update ch (\<lambda>c. c\<lparr>pStart := SpuAt (uint val * 8)\<rparr>) s
      else if reg = 8 then chan_update ch (\<lambda>c. c\<lparr>ADSRX := (ADSRX c)\<lparr>
        AttackModeExp := (val AND 0x8000 \<noteq> 0),
        AttackRate := uint (drop_bit 8 val AND 0x007f),
        DecayRate := uint (drop_bit 4 val AND 0x000f),
        SustainLevel := uint (val AND 0x000f)\<rparr>\<rparr>) s
      else if reg = 10 then chan_update ch (\<lambda>c. c\<lparr>ADSRX := (ADSRX c)\<lparr>
        SustainModeExp := (val AND 0x8000 \<noteq> 0),
        SustainIncrease := (val AND 0x4000 = 0),
        SustainRate := uint (drop_bit 6 val AND 0x007f),
        ReleaseModeExp := (val AND 0x0020 \<noteq> 0),
        ReleaseRate := uint (val AND 0x001f)\<rparr>\<rparr>) s
      else if reg = 0xE then
        chan_update ch (\<lambda>c. c\<lparr>pLoop := SpuAt (uint val * 8), bIgnoreLoop := True\<rparr>) s
      else s)"

section \<open>Global registers\<close>

text \<open>
  The reverb coefficient bank at \<^verbatim>\<open>H_Reverb\<close>. The first register is stored zero-extended,
  the others through the cast to \<^verbatim>\<open>s16\<close>.
\<close>

definition reverb_write :: "u32 \<Rightarrow> u16 \<Rightarrow> REVERBInfo \<Rightarrow> REVERBInfo" where
  "reverb_write r val R =
     (let v = scast val :: s32 in
      if r = 0xdc0 then R\<lparr>FB_SRC_A := ucast val\<rparr>
      else if r = 0xdc2 then R\<lparr>FB_SRC_B := v\<rparr>
      else if r = 0xdc4 then R\<lparr>IIR_ALPHA := v\<rparr>
      else if r = 0xdc6 then R\<lparr>ACC_COEF_A := v\<rparr>
      else if r = 0xdc8 then R\<lparr>ACC_COEF_B := v\<rparr>
      else if r = 0xdca then R\<lparr>ACC_COEF_C := v\<rparr>
      else if r = 0xdcc then R\<lparr>ACC_COEF_D := v\<rparr>
      else if r = 0xdce then R\<lparr>IIR_COEF := v\<rparr>
      else if r = 0xdd0 then R\<lparr>FB_ALPHA := v\<rparr>
      else if r = 0xdd2 then R\<lparr>FB_X := v\<rparr>
      else if r = 0xdd4 then R\<lparr>IIR_DEST_A0 := v\<rparr>
      else if r = 0xdd6 then R\<lparr>IIR_DEST_A1 := v\<rparr>
      else if r = 0xdd8 then R\<lparr>ACC_SRC_A0 := v\<rparr>
      else if r = 0xdda then R\<lparr>ACC_SRC_A1 := v\<rparr>
      else if r = 0xddc then R\<lparr>ACC_SRC_B0 := v\<rparr>
      else if r = 0xdde then R\<lparr>ACC_SRC_B1 := v\<rparr>
      else if r = 0xde0 then R\<lparr>IIR_SRC_A0 := v\<rparr>
      else if r = 0xde2 then R\<lparr>IIR_SRC_A1 := v\<rparr>
      else if r = 0xde4 then R\<lparr>IIR_DEST_B0 := v\<rparr>
      else if r = 0xde6 then R\<lparr>IIR_DEST_B1 := v\<rparr>
      else if r = 0xde8 then R\<lparr>ACC_SRC_C0 := v\<rparr>
      else if r = 0xdea then R\<lparr>ACC_SRC_C1 := v\<rparr>
      else if r = 0xdec then R\<lparr>ACC_SRC_D0 := v\<rparr>
      else if r = 0xdee then R\<lparr>ACC_SRC_D1 := v\<rparr>
      else if r = 0xdf0 then R\<lparr>IIR_SRC_B1 := v\<rparr>
      else if r = 0xdf2 then R\<lparr>IIR_SRC_B0 := v\<rparr>
      else if r = 0xdf4 then R\<lparr>MIX_DEST_A0 := v\<rparr>
      else if r = 0xdf6 then R\<lparr>MIX_DEST_A1 := v\<rparr>
      else if r = 0xdf8 then R\<lparr>MIX_DEST_B0 := v\<rparr>
      else if r = 0xdfa then R\<lparr>MIX_DEST_B1 := v\<rparr>
      else if r = 0xdfc then R\<lparr>IN_COEF_L := v\<rparr>
      else if r = 0xdfe then R\<lparr>IN_COEF_R := v\<rparr>
      else R)"

text \<open>One halfword of sound memory at the transfer address, and the advance with its wrap.\<close>

definition spu_index :: "u32 \<Rightarrow> nat res" where
  "spu_index a = require (unat (drop_bit 1 a) < spu_words) OutOfBounds (Ok (unat (drop_bit 1 a)))"

definition spuAddr_next :: "u32 \<Rightarrow> u32" where
  "spuAddr_next a = (if a + 2 > 0x7ffff then 0 else a + 2)"

definition spu_put :: "u16 \<Rightarrow> spu \<Rightarrow> spu res" where
  "spu_put v s = bind_res (spu_index (spuAddr s)) (\<lambda>i.
     Ok (s\<lparr>spuMem := (spuMem s)(i := v), spuAddr := spuAddr_next (spuAddr s)\<rparr>))"

definition spu_get :: "spu \<Rightarrow> (u16 \<times> spu) res" where
  "spu_get s = bind_res (spu_index (spuAddr s)) (\<lambda>i.
     Ok (spuMem s i, s\<lparr>spuAddr := spuAddr_next (spuAddr s)\<rparr>))"

definition set_reverb_addr :: "u16 \<Rightarrow> REVERBInfo \<Rightarrow> REVERBInfo" where
  "set_reverb_addr val R =
     (if val = 0xFFFF \<or> val \<le> 0x200 then R\<lparr>StartAddr := 0, CurrAddr := 0\<rparr>
      else let iv = push_bit 2 (ucast val) in
        if StartAddr R \<noteq> iv then R\<lparr>StartAddr := iv, CurrAddr := iv\<rparr> else R)"

definition global_write :: "u32 \<Rightarrow> u16 \<Rightarrow> spu \<Rightarrow> spu res" where
  "global_write r val s =
     (if r = 0xda6 then Ok (s\<lparr>spuAddr := push_bit 3 (ucast val)\<rparr>)
      else if r = 0xda8 then spu_put val s
      else if r = 0xdaa then Ok (s\<lparr>spuCtrl := val\<rparr>)
      else if r = 0xdae then Ok (s\<lparr>spuStat := val AND 0xf800\<rparr>)
      else if r = 0xda2 then Ok (s\<lparr>rvb := set_reverb_addr val (rvb s)\<rparr>)
      else if r = 0xda4 then Ok (s\<lparr>spuIrq := val, pSpuIrq := SpuAt (uint val * 8)\<rparr>)
      else if r = 0xd84 then Ok (s\<lparr>rvb := (rvb s)\<lparr>VolLeft := scast val\<rparr>\<rparr>)
      else if r = 0xd86 then Ok (s\<lparr>rvb := (rvb s)\<lparr>VolRight := scast val\<rparr>\<rparr>)
      else if r = 0xd88 then Ok (SoundOn 0 16 val s)
      else if r = 0xd8a then Ok (SoundOn 16 24 val s)
      else if r = 0xd8c then Ok (SoundOff 0 16 val s)
      else if r = 0xd8e then Ok (SoundOff 16 24 val s)
      else if r = 0xd90 then Ok (FModOn 0 16 val s)
      else if r = 0xd92 then Ok (FModOn 16 24 val s)
      else if r = 0xd94 then Ok (NoiseOn 0 16 val s)
      else if r = 0xd96 then Ok (NoiseOn 16 24 val s)
      else if r = 0xd98 then Ok (s\<lparr>rvb := (rvb s)\<lparr>Enabled :=
        (Enabled (rvb s) AND NOT 0xFFFF) OR ucast val\<rparr>\<rparr>)
      else if r = 0xd9a then Ok (s\<lparr>rvb := (rvb s)\<lparr>Enabled :=
        (Enabled (rvb s) AND 0xFFFF) OR push_bit 16 (ucast val)\<rparr>\<rparr>)
      else Ok (s\<lparr>rvb := reverb_write r val (rvb s)\<rparr>))"

section \<open>The dispatchers\<close>

definition reg_index :: "u32 \<Rightarrow> nat res" where
  "reg_index r = require (unat (drop_bit 1 (r - 0xc00)) < 0x200) OutOfBounds
     (Ok (unat (drop_bit 1 (r - 0xc00))))"

definition reg_chan :: "u32 \<Rightarrow> nat" where
  "reg_chan r = unat (drop_bit 4 r) - 0xc0"

definition SPUwriteRegister :: "u32 \<Rightarrow> u16 \<Rightarrow> spu \<Rightarrow> spu res" where
  "SPUwriteRegister reg val s =
     (let r = reg AND 0xfff in
      bind_res (reg_index r) (\<lambda>i.
      let s1 = s\<lparr>regArea := (regArea s)(i := val)\<rparr> in
      if r \<ge> 0x0c00 \<and> r < 0x0d80 then Ok (channel_write (r AND 0x0f) (reg_chan r) val s1)
      else global_write r val s1))"

definition SPUreadRegister :: "u32 \<Rightarrow> spu \<Rightarrow> (u16 \<times> spu) res" where
  "SPUreadRegister reg s =
     (let r = reg AND 0xfff; c = s_chan s (reg_chan r) in
      if r \<ge> 0x0c00 \<and> r < 0x0d80 \<and> r AND 0x0f = 0xC then
        (if bNew c then Ok (1, s)
         else if lVolume (ADSRX c) \<noteq> 0 \<and> EnvelopeVol (ADSRX c) = 0 then Ok (1, s)
         else Ok (ucast (drop_bit 16 (EnvelopeVol (ADSRX c))), s))
      else if r \<ge> 0x0c00 \<and> r < 0x0d80 \<and> r AND 0x0f = 0xE then
        (case pLoop c of SpuNull \<Rightarrow> Ok (0, s)
         | SpuStop \<Rightarrow> Fail Undefined
         | SpuAt k \<Rightarrow> Ok (word_of_int (k div 8), s))
      else if r = 0xdaa then Ok (spuCtrl s, s)
      else if r = 0xdae then Ok (spuStat s, s)
      else if r = 0xda6 then Ok (ucast (drop_bit 3 (spuAddr s)), s)
      else if r = 0xda8 then spu_get s
      else if r = 0xda4 then Ok (spuIrq s, s)
      else bind_res (reg_index r) (\<lambda>i. Ok (regArea s i, s)))"

section \<open>Invariant\<close>

text \<open>
  What the register file keeps: envelopes in range, a decoder cursor inside its buffer, sample
  positions and steps inside the interpolation range, volumes of 14 bits with sign, no channel
  that starts or loops at the stop sign, a reverb position inside its work area, a transfer
  address that is unset or inside sound memory, and an output buffer of clipped samples.
\<close>

definition vol_ok :: "s32 \<Rightarrow> bool" where
  "vol_ok v \<longleftrightarrow> - 0x4000 \<le> sint v \<and> sint v \<le> 0x3fff"

definition chan_ok :: "SPUCHAN \<Rightarrow> bool" where
  "chan_ok c \<longleftrightarrow> adsr_ok (ADSRX c) \<and> iSBPos c \<le> 28 \<and> unat (SB c 28) < 4 \<and>
     0 \<le> sint (spos c) \<and> sint (spos c) < 0x50000 \<and> 0 \<le> sint (sinc c) \<and> sint (sinc c) \<le> 0x3fff0 \<and>
     0 \<le> sint (iRawPitch c) \<and> sint (iRawPitch c) \<le> 0x3fff \<and> vol_ok (iLeftVolume c) \<and>
     vol_ok (iRightVolume c) \<and> pLoop c \<noteq> SpuStop \<and> pStart c \<noteq> SpuStop"

definition rvb_ok :: "REVERBInfo \<Rightarrow> bool" where
  "rvb_ok R \<longleftrightarrow> 0 \<le> sint (StartAddr R) \<and> sint (StartAddr R) \<le> 0x3fff8 \<and>
     sint (StartAddr R) \<le> sint (CurrAddr R) \<and> sint (CurrAddr R) \<le> 0x3ffff"

definition out_ok :: "spu \<Rightarrow> bool" where
  "out_ok s \<longleftrightarrow> pNextSample s \<le> out_words \<and> (\<forall>i < pNextSample s. - 32767 \<le> sint (outbuf s i))"

definition spu_ok :: "spu \<Rightarrow> bool" where
  "spu_ok s \<longleftrightarrow> (\<forall>ch. chan_ok (s_chan s ch)) \<and> rvb_ok (rvb s) \<and> length (RateTable s) = 160 \<and>
     (spuAddr s = 0xffffffff \<or> spuAddr s \<le> 0x7ffff) \<and> out_ok s"

lemma volume_of_ok: "vol_ok (volume_of vol)"
proof -
  have r: "vol_ok (w AND 0x3fff)" for w
  proof -
    obtain x where "uint (w AND 0x3fff) = x" "0 \<le> x" "x \<le> 0x3fff"
      using uint_and_le[of w "0x3fff"] by simp
    then show ?thesis by (simp add: vol_ok_def sint_32_eq)
  qed
  define y :: s32 where "y = ucast (vol AND 0x3FFF)"
  have "uint y \<le> 0x3fff" using uint_and_le[of vol "0x3FFF"] by (simp add: y_def)
  then obtain x where x: "uint y = x" "0 \<le> x" "x \<le> 0x3fff" using uint_range_32(1)[of y] by blast
  then have "vol_ok y" "vol_ok (y - 0x4000)"
    by (simp_all add: vol_ok_def sint_32_eq uint_minus_32)
  then show ?thesis using r unfolding volume_of_def Let_def y_def[symmetric] by (simp only: split: if_split) simp
qed

lemma out_ok_cong: "pNextSample t = pNextSample s \<Longrightarrow> outbuf t = outbuf s \<Longrightarrow> out_ok t = out_ok s"
  by (simp add: out_ok_def)

lemma chan_update_ok:
  "spu_ok s \<Longrightarrow> (\<And>c. chan_ok c \<Longrightarrow> chan_ok (f c)) \<Longrightarrow> spu_ok (chan_update ch f s)"
  by (simp add: spu_ok_def out_ok_def)

lemma uint_field:
  "uint (w AND 0x7f :: u16) \<le> 127" "uint (w AND 0xf :: u16) \<le> 15" "uint (w AND 0x1f :: u16) \<le> 31"
  using uint_and_le[of w "0x7f"] uint_and_le[of w "0xf"] uint_and_le[of w "0x1f"] by simp_all

lemma SetPitch_ok: "spu_ok s \<Longrightarrow> spu_ok (SetPitch ch val s)"
proof -
  define raw where "raw = (if val > 0x3fff then 0x3fff else uint val)"
  have "0 \<le> raw" "raw \<le> 0x3fff" by (auto simp: raw_def word_less_def)
  then show "spu_ok s \<Longrightarrow> spu_ok (SetPitch ch val s)"
    unfolding SetPitch_def raw_def[symmetric] Let_def
    by (intro chan_update_ok) (simp_all add: chan_ok_def sint_of_nonneg_32)
qed

lemma SetVolumeLR_ok: "spu_ok s \<Longrightarrow> spu_ok (SetVolumeLR right ch val s)"
  unfolding SetVolumeLR_def by (rule chan_update_ok) (simp_all add: chan_ok_def volume_of_ok)

lemma chan_ok_start: "chan_ok c \<Longrightarrow> chan_ok (c\<lparr>pStart := SpuAt k\<rparr>)"
  by (simp add: chan_ok_def)

lemma chan_ok_loop: "chan_ok c \<Longrightarrow> chan_ok (c\<lparr>pLoop := SpuAt k, bIgnoreLoop := True\<rparr>)"
  by (simp add: chan_ok_def)

lemma chan_ok_adsr: "chan_ok c \<Longrightarrow> adsr_ok a \<Longrightarrow> chan_ok (c\<lparr>ADSRX := a\<rparr>)"
  by (simp add: chan_ok_def)

lemma adsr_ok_attack:
  "adsr_ok a \<Longrightarrow> adsr_ok (a\<lparr>AttackModeExp := e, AttackRate := uint (drop_bit 8 (val :: u16) AND 0x007f),
     DecayRate := uint (drop_bit 4 val AND 0x000f), SustainLevel := l\<rparr>)"
  using uint_field(1)[of "drop_bit 8 val"] uint_field(2)[of "drop_bit 4 val"] by (simp add: adsr_ok_def)

lemma adsr_ok_release:
  "adsr_ok a \<Longrightarrow> adsr_ok (a\<lparr>SustainModeExp := e, SustainIncrease := i,
     SustainRate := uint (drop_bit 6 (val :: u16) AND 0x007f), ReleaseModeExp := m,
     ReleaseRate := uint (val AND 0x001f)\<rparr>)"
  using uint_field(1)[of "drop_bit 6 val"] uint_field(3)[of val] by (simp add: adsr_ok_def)

lemma chan_ok_adsrx: "chan_ok c \<Longrightarrow> adsr_ok (ADSRX c)"
  by (simp add: chan_ok_def)

lemma channel_write_ok: "spu_ok s \<Longrightarrow> spu_ok (channel_write reg ch val s)"
  unfolding channel_write_def
  by (simp only: SetVolumeLR_ok SetPitch_ok if_True if_False chan_update_ok chan_ok_start chan_ok_loop
      chan_ok_adsr adsr_ok_attack adsr_ok_release chan_ok_adsrx split: if_split) simp

lemma masks_ok:
  assumes "spu_ok s"
  shows "spu_ok (SoundOn b e val s)" "spu_ok (SoundOff b e val s)" "spu_ok (FModOn b e val s)"
    "spu_ok (NoiseOn b e val s)"
  unfolding SoundOn_def SoundOff_def FModOn_def NoiseOn_def
  using assms by (rule fold_inv; auto intro!: chan_update_ok simp: chan_ok_def)+

lemma reverb_write_addr [simp]:
  "StartAddr (reverb_write r val R) = StartAddr R" "CurrAddr (reverb_write r val R) = CurrAddr R"
  by (simp_all add: reverb_write_def Let_def)

lemma set_reverb_addr_ok:
  assumes "rvb_ok R"
  shows "rvb_ok (set_reverb_addr val R)"
proof -
  have "uint (push_bit 2 (ucast val) :: s32) = 4 * uint val" using uint_shift_u16[of 2 val] by simp
  moreover have "uint val \<le> 0xFFFE" if "val \<noteq> 0xFFFF"
  proof -
    have "uint val \<noteq> 0xFFFF" using that by (simp add: word_uint_eq_iff)
    then show ?thesis using uint_lt2p[of val] by simp
  qed
  ultimately show ?thesis using assms
    by (auto simp: set_reverb_addr_def rvb_ok_def Let_def sint_32_eq)
qed

lemma spuAddr_next_ok: "spuAddr_next a \<le> 0x7ffff"
  by (simp add: spuAddr_next_def not_less)

lemma spu_index_total: "a \<le> 0x7ffff \<Longrightarrow> spu_index a = Ok (unat a div 2)"
proof -
  assume "a \<le> 0x7ffff"
  then have "unat a \<le> 0x7ffff" by (simp add: word_le_nat_alt)
  then have "unat a div 2 < 262144" by linarith
  moreover have "unat (drop_bit 1 a) = unat a div 2"
    by (simp add: drop_bit_eq_div unat_div)
  ultimately show ?thesis by (simp add: spu_index_def spu_words_def require_def)
qed

lemma spu_put_runs:
  "spu_ok s \<Longrightarrow> spuAddr s \<le> 0x7ffff \<Longrightarrow> runs (spu_put v s) (\<lambda>t. spu_ok t \<and> spuAddr t \<le> 0x7ffff)"
  by (simp add: spu_put_def spu_index_total spu_ok_def out_ok_def spuAddr_next_ok)

lemma spu_put_post: "spu_ok s \<Longrightarrow> post (spu_put v s) spu_ok"
  unfolding spu_put_def by (intro post_bind_any) (simp add: spu_ok_def out_ok_def spuAddr_next_ok)

lemma reverb_write_ok: "rvb_ok R \<Longrightarrow> rvb_ok (reverb_write r val R)"
  by (simp add: rvb_ok_def)

lemma spu_ok_rvb: "spu_ok s \<Longrightarrow> rvb_ok R \<Longrightarrow> spu_ok (s\<lparr>rvb := R\<rparr>)"
  by (simp add: spu_ok_def out_ok_def)

lemma spu_ok_rvbD: "spu_ok s \<Longrightarrow> rvb_ok (rvb s)"
  by (simp add: spu_ok_def out_ok_def)

lemma shift3_le: "push_bit 3 (ucast (val :: u16)) \<le> (0x7ffff :: u32)"
  using uint_shift_u16[of 3 val] uint_lt2p[of val] by (simp add: word_le_def)

lemma global_write_post: "spu_ok s \<Longrightarrow> post (global_write r val s) spu_ok"
  unfolding global_write_def
  by (intro post_if; simp add: spu_put_post masks_ok set_reverb_addr_ok reverb_write_ok spu_ok_rvb spu_ok_rvbD)
    (simp_all add: spu_ok_def out_ok_def shift3_le rvb_ok_def)

lemma global_write_runs:
  "spu_ok s \<Longrightarrow> r = 0xda8 \<longrightarrow> spuAddr s \<noteq> 0xffffffff \<Longrightarrow> runs (global_write r val s) spu_ok"
proof -
  assume a: "spu_ok s" "r = 0xda8 \<longrightarrow> spuAddr s \<noteq> 0xffffffff"
  have "\<exists>t. global_write r val s = Ok t"
  proof (cases "r = 0xda8")
    case True
    then have "spuAddr s \<le> 0x7ffff" using a by (simp add: spu_ok_def out_ok_def)
    then show ?thesis using True by (simp add: global_write_def spu_put_def spu_index_total)
  next
    case False
    then show ?thesis unfolding global_write_def by (simp split: if_split)
  qed
  then show ?thesis using global_write_post[OF a(1), of r val] by (auto simp: runs_def)
qed

lemma channel_write_regArea [simp]: "regArea (channel_write r ch v s) = regArea s"
  unfolding channel_write_def SetVolumeLR_def SetPitch_def Let_def by (simp split: if_split)

lemma masks_regArea [simp]:
  "regArea (SoundOn b e val s) = regArea s" "regArea (SoundOff b e val s) = regArea s"
  "regArea (FModOn b e val s) = regArea s" "regArea (NoiseOn b e val s) = regArea s"
  unfolding SoundOn_def SoundOff_def FModOn_def NoiseOn_def
  by (rule fold_inv[where P = "\<lambda>t. regArea t = regArea s"]; simp)+

lemma global_write_regArea: "post (global_write r v s) (\<lambda>t. regArea t = regArea s)"
  unfolding global_write_def spu_put_def by (intro post_if; simp add: post_bind_any)

lemma reg_index_total: "0xc00 \<le> r \<Longrightarrow> r \<le> 0xfff \<Longrightarrow> \<exists>i. reg_index r = Ok i"
proof -
  assume "0xc00 \<le> r" "r \<le> 0xfff"
  then have "unat (r - 0xc00) \<le> 0x3ff" by (simp add: word_le_nat_alt unat_sub)
  then have "unat (drop_bit 1 (r - 0xc00)) < 0x200"
    by (simp add: drop_bit_eq_div unat_div)
  then show ?thesis by (simp add: reg_index_def)
qed

lemma and_fff_le: "(reg :: u32) AND 0xfff \<le> 0xfff"
  using word_and_le1[of reg "0xfff"] by (simp add: and.commute)

lemma spu_ok_regArea [simp]: "spu_ok (s\<lparr>regArea := f\<rparr>) = spu_ok s"
  by (simp add: spu_ok_def out_ok_def)

lemma SPUwriteRegister_post: "spu_ok s \<Longrightarrow> post (SPUwriteRegister reg val s) spu_ok"
  unfolding SPUwriteRegister_def Let_def
  by (intro post_bind_any post_if) (simp_all add: channel_write_ok global_write_post)

lemma drop_push_3: "ucast (drop_bit 3 (push_bit 3 (ucast v) :: u32)) = (v :: u16)"
  by (rule bit_word_eqI) (auto simp: bit_simps)

lemma global_write_readback:
  "post (global_write r v s) (\<lambda>t. (r = 0xdaa \<longrightarrow> spuCtrl t = v) \<and> (r = 0xda6 \<longrightarrow> ucast (drop_bit 3 (spuAddr t)) = v) \<and>
     (r = 0xda4 \<longrightarrow> spuIrq t = v))"
  unfolding global_write_def
  by (intro post_if; simp add: drop_push_3) (simp add: post_def)

lemma mask_bit_iff: "mask_bit v k = bit v k"
proof -
  have "drop_bit k v AND 1 = of_bool (bit v k)"
    by (rule bit_word_eqI) (auto simp: bit_simps)
  then show ?thesis by (simp add: mask_bit_def)
qed

lemma fold_channels:
  assumes "\<And>ch s k. k \<noteq> ch \<Longrightarrow> s_chan (f ch s) k = s_chan s k"
    and "\<And>ch s. s_chan (f ch s) ch = g ch (s_chan s ch)"
  shows "s_chan (fold f [a..<b] s) k = (if a \<le> k \<and> k < b then g k (s_chan s k) else s_chan s k)"
proof (induction b)
  case (Suc b)
  then show ?case using assms by (cases "a \<le> b") (auto simp: less_Suc_eq)
qed simp

lemma SoundOn_spec:
  "s_chan (SoundOn a b v s) ch =
    (if a \<le> ch \<and> ch < b \<and> bit v (ch - a) \<and> pStart (s_chan s ch) \<noteq> SpuNull
     then (s_chan s ch)\<lparr>bIgnoreLoop := False, bNew := True\<rparr> else s_chan s ch)"
  unfolding SoundOn_def
  by (subst fold_channels[where g = "\<lambda>ch c. if mask_bit v (ch - a) \<and> pStart c \<noteq> SpuNull
       then c\<lparr>bIgnoreLoop := False, bNew := True\<rparr> else c"]) (auto simp: mask_bit_iff)

lemma SoundOff_spec:
  "s_chan (SoundOff a b v s) ch = (if a \<le> ch \<and> ch < b \<and> bit v (ch - a)
     then (s_chan s ch)\<lparr>bStop := True\<rparr> else s_chan s ch)"
  unfolding SoundOff_def
  by (subst fold_channels[where g = "\<lambda>ch c. if mask_bit v (ch - a) then c\<lparr>bStop := True\<rparr> else c"])
    (auto simp: mask_bit_iff)

lemma NoiseOn_spec:
  "s_chan (NoiseOn a b v s) ch = (if a \<le> ch \<and> ch < b
     then (s_chan s ch)\<lparr>bNoise := bit v (ch - a)\<rparr> else s_chan s ch)"
  unfolding NoiseOn_def
  by (subst fold_channels[where g = "\<lambda>ch c. c\<lparr>bNoise := mask_bit v (ch - a)\<rparr>"])
    (auto simp: mask_bit_iff)

section \<open>Properties\<close>

text \<open>C18: a write to any register of the sound processor keeps the invariant \<open>spu_ok\<close> (volumes, pitch
  and envelope fields in range, reverb position inside its work area, transfer address inside sound
  memory) and never faults. The one exception is the data port before the transfer address is set.\<close>
theorem SPUwriteRegister_safe:
  assumes "spu_ok s" and "0xc00 \<le> reg AND 0xfff" and "reg AND 0xfff = 0xda8 \<longrightarrow> spuAddr s \<noteq> 0xffffffff"
  shows "\<exists>t. SPUwriteRegister reg val s = Ok t \<and> spu_ok t"
proof -
  obtain i where i: "reg_index (reg AND 0xfff) = Ok i" using reg_index_total[OF assms(2) and_fff_le] by blast
  have "\<exists>t. global_write (reg AND 0xfff) val (s\<lparr>regArea := f\<rparr>) = Ok t \<and> spu_ok t" for f
    using global_write_runs[of "s\<lparr>regArea := f\<rparr>" "reg AND 0xfff" val] assms(1,3) by (simp add: runs_def)
  moreover have "spu_ok (channel_write r ch val (s\<lparr>regArea := f\<rparr>))" for r ch f
    using assms(1) by (simp add: channel_write_ok)
  ultimately show ?thesis
    using i unfolding SPUwriteRegister_def Let_def by (simp only: bind_res_simps split: if_split) simp
qed

lemma spu_boot_ok: "spu_ok spu_boot"
  by (simp add: spu_ok_def out_ok_def spu_boot_def chan_ok_def zero_chan_def zero_adsrx_def adsr_ok_def vol_ok_def
      rvb_ok_def zero_rvb_def)

theorem SPUwriteRegister_safe_witness: "\<exists>t. SPUwriteRegister 0x1f801c04 0xffff spu_boot = Ok t \<and> spu_ok t"
  by (rule SPUwriteRegister_safe) (simp_all add: spu_boot_ok)

text \<open>Before the transfer address register has been written, \<^verbatim>\<open>spuAddr\<close> holds \<^verbatim>\<open>0xffffffff\<close>, and
  both directions of the data port index sound memory far outside its 512 KB.\<close>
theorem spu_data_port_unset:
  assumes "spuAddr s = 0xffffffff"
  shows "SPUwriteRegister 0x1f801da8 val s = Fail OutOfBounds \<and> SPUreadRegister 0x1f801da8 s = Fail OutOfBounds"
  using assms
  by (simp add: SPUwriteRegister_def SPUreadRegister_def reg_index_def global_write_def spu_put_def
      spu_get_def spu_index_def spu_words_def require_def)

theorem spu_data_port_unset_witness:
  "SPUwriteRegister 0x1f801da8 1 spu_boot = Fail OutOfBounds \<and> SPUreadRegister 0x1f801da8 spu_boot = Fail OutOfBounds"
  by (rule spu_data_port_unset) (simp add: spu_boot_def)

text \<open>A register reads back the value last written to it, whatever side effects the write had
  (key on, key off, masks, reverb set-up, loop address), except the status register, the data port
  and the envelope registers of the channels, which the processor itself changes.\<close>
theorem SPUreadRegister_write:
  assumes w: "SPUwriteRegister reg v s = Ok t"
    and "reg AND 0xfff \<noteq> 0xdae" "reg AND 0xfff \<noteq> 0xda8" 
    and "\<not> (reg AND 0xfff < 0xd80 \<and> (reg AND 0xfff) AND 0xf = 0xC)"
  shows "SPUreadRegister reg t = Ok (v, t)"
proof -
  define r where "r = reg AND 0xfff"
  obtain i where i: "reg_index r = Ok i" using w
    by (auto simp: SPUwriteRegister_def Let_def r_def bind_res_Ok_iff)
  define u where "u = s\<lparr>regArea := (regArea s)(i := v)\<rparr>"
  have ui: "regArea u i = v" by (simp add: u_def)
  have w': "(if 0xc00 \<le> r \<and> r < 0xd80 then Ok (channel_write (r AND 0xf) (reg_chan r) v u)
      else global_write r v u) = Ok t"
    using w i unfolding SPUwriteRegister_def Let_def r_def[symmetric] u_def by (simp only: bind_res_simps)
  show ?thesis
  proof (cases "0xc00 \<le> r \<and> r < 0xd80")
    case True
    then have t: "t = channel_write (r AND 0xf) (reg_chan r) v u" using w' by simp
    then have "regArea t i = v" using ui by simp
    moreover have "r AND 0xf \<noteq> 0xC" using True assms(4) unfolding r_def[symmetric] by simp
    moreover have "pLoop (s_chan t (reg_chan r)) = SpuAt (uint v * 8)" if "r AND 0xf = 0xE"
      using that by (simp add: t channel_write_def)
    moreover have "r \<noteq> 0xdaa" "r \<noteq> 0xdae" "r \<noteq> 0xda6" "r \<noteq> 0xda8" "r \<noteq> 0xda4"
      using True by auto
    ultimately show ?thesis using True i
      unfolding SPUreadRegister_def Let_def r_def[symmetric] by (simp split: if_split)
  next
    case False
    then have t: "global_write r v u = Ok t" using w' by (simp only: if_False)
    have "regArea t i = v" using postD[OF global_write_regArea t] ui by simp
    moreover have "r \<noteq> 0xdae" "r \<noteq> 0xda8" using assms(2,3) by (simp_all add: r_def)
    ultimately show ?thesis using False i postD[OF global_write_readback t]
      unfolding SPUreadRegister_def Let_def r_def[symmetric] by (auto split: if_split)
  qed
qed

theorem SPUreadRegister_write_witness:
  "\<exists>t. SPUwriteRegister 0x1f801c0e 0x1234 spu_boot = Ok t \<and> SPUreadRegister 0x1f801c0e t = Ok (0x1234, t)"
proof -
  obtain t where "SPUwriteRegister 0x1f801c0e 0x1234 spu_boot = Ok t"
    by (simp add: SPUwriteRegister_def reg_index_def)
  then show ?thesis using SPUreadRegister_write[of "0x1f801c0e" "0x1234" spu_boot] by simp
qed

text \<open>A write to one of the two key-on registers starts exactly the channels whose bit is set and whose
  start address has been set, and leaves every other channel as it was.\<close>
theorem key_on_keys_exactly:
  assumes "reg = 0x1f801d88 \<and> base = 0 \<and> fin = 16 \<or> reg = 0x1f801d8a \<and> base = 16 \<and> fin = 24"
  shows "\<exists>t. SPUwriteRegister reg v s = Ok t \<and> s_chan t ch =
    (if base \<le> ch \<and> ch < fin \<and> bit v (ch - base) \<and> pStart (s_chan s ch) \<noteq> SpuNull
     then (s_chan s ch)\<lparr>bIgnoreLoop := False, bNew := True\<rparr> else s_chan s ch)"
  using assms
  by (elim disjE conjE)
    (simp_all add: SPUwriteRegister_def reg_index_def global_write_def SoundOn_spec require_def)

theorem key_on_keys_exactly_witness:
  "\<exists>t. SPUwriteRegister 0x1f801d8a 1 (chan_update 16 (pStart_update (\<lambda>_. SpuAt 8)) spu_boot) = Ok t \<and>
     bNew (s_chan t 16)"
  using key_on_keys_exactly[of "0x1f801d8a" 16 24 1 "chan_update 16 (pStart_update (\<lambda>_. SpuAt 8)) spu_boot" 16]
  by auto

end
