(* ===== verification/SpuReverb.thy ===== *)
theory SpuReverb
  imports SpuRegisters
begin

text \<open>
  The reverberation unit of \<^verbatim>\<open>psf/spu/reverb.c\<close>: the work-area accessors with their index
  wrapping, and \<open>MixREVERBLeftRight\<close>, which filters every second stereo sample through the
  work area. Intermediate values have the widths of the C code (\<^verbatim>\<open>s64\<close> where \<^verbatim>\<open>g_buffer\<close> takes
  part, \<^verbatim>\<open>int\<close> elsewhere) and wrap in two's complement.
\<close>

section \<open>The work area\<close>

text \<open>
  The two wrap loops, on the index as an integer. Where the C loop would run for ever (a start
  address beyond the work area) the model is the fault \<^verbatim>\<open>OutOfFuel\<close>; no register write
  produces such a start address.
\<close>

function wrap_high :: "int \<Rightarrow> int \<Rightarrow> int res" where
  "wrap_high start i =
     (if i > 0x3FFFF then
        (if start \<ge> 0x40000 then Fail OutOfFuel else wrap_high start (start + (i - 0x40000)))
      else Ok i)"
  by pat_completeness auto
termination by (relation "measure (\<lambda>(start, i). nat (i - 0x3FFFF))") auto

function wrap_low :: "int \<Rightarrow> int \<Rightarrow> int res" where
  "wrap_low start i =
     (if i < start then
        (if start \<ge> 0x3FFFF then Fail OutOfFuel else wrap_low start (0x3FFFF - (start - i)))
      else Ok i)"
  by pat_completeness auto
termination by (relation "measure (\<lambda>(start, i). nat (start - i))") auto

declare wrap_high.simps [simp del] wrap_low.simps [simp del]

text \<open>The halfword index of \<open>iOff\<close> in the work area; \<open>k\<close> is the extra sample of \<^verbatim>\<open>s_buffer1\<close>.\<close>

definition rvb_index :: "s32 \<Rightarrow> int \<Rightarrow> spu \<Rightarrow> nat res" where
  "rvb_index iOff k s =
     (let R = rvb s in
      bind_res (wrap_high (sint (StartAddr R)) (sint iOff * 4 + sint (CurrAddr R) + k)) (\<lambda>i1.
      bind_res (wrap_low (sint (StartAddr R)) i1) (\<lambda>i2.
      require (0 \<le> i2 \<and> i2 < int spu_words) OutOfBounds (Ok (nat i2)))))"

definition g_buffer :: "s32 \<Rightarrow> spu \<Rightarrow> s64 res" where
  "g_buffer iOff s = bind_res (rvb_index iOff 0 s) (\<lambda>i. Ok (scast (spuMem s i)))"

definition clip16 :: "s32 \<Rightarrow> s32" where
  "clip16 v = (let v1 = (if v <s - 32768 then - 32768 else v) in
               if 32767 <s v1 then 32767 else v1)"

definition s_buffer :: "s32 \<Rightarrow> s32 \<Rightarrow> spu \<Rightarrow> spu res" where
  "s_buffer iOff iVal s = bind_res (rvb_index iOff 0 s) (\<lambda>i.
     Ok (s\<lparr>spuMem := (spuMem s)(i := ucast (clip16 iVal))\<rparr>))"

definition s_buffer1 :: "s32 \<Rightarrow> s32 \<Rightarrow> spu \<Rightarrow> spu res" where
  "s_buffer1 iOff iVal s = bind_res (rvb_index iOff 1 s) (\<lambda>i.
     Ok (s\<lparr>spuMem := (spuMem s)(i := ucast (clip16 iVal))\<rparr>))"

section \<open>Filtering\<close>

definition downcoeffs :: "s32 list" where
  "downcoeffs = [1283, 5344, 10895, 15243, 15243, 10895, 5344, 1283]"

text \<open>The eight-tap loops over \<^verbatim>\<open>downbuf\<close> and \<^verbatim>\<open>upbuf\<close>.\<close>

definition fir8 :: "(nat \<Rightarrow> s32) \<Rightarrow> nat \<Rightarrow> s32" where
  "fir8 buf pos = fold (\<lambda>x acc. acc + signed_drop_bit 8 (buf ((pos + x) mod 8) * downcoeffs ! x))
     [0..<8] 0"

definition q15 :: "'a::len word \<Rightarrow> 'a word \<Rightarrow> 'a word" where
  "q15 a b = signed_drop_bit 15 (a * b)"

text \<open>One of the four \<^verbatim>\<open>IIR_INPUT\<close>/\<^verbatim>\<open>IIR\<close> pairs.\<close>

definition iir :: "s32 \<Rightarrow> s32 \<Rightarrow> s32 \<Rightarrow> s32 \<Rightarrow> spu \<Rightarrow> s64 res" where
  "iir src dest insample incoef s =
     (let R = rvb s in
      bind_res (g_buffer src s) (\<lambda>g.
      bind_res (g_buffer dest s) (\<lambda>d.
      let input = q15 g (scast (IIR_COEF R)) + scast (q15 insample incoef) in
      Ok (q15 input (scast (IIR_ALPHA R)) + q15 d (32768 - scast (IIR_ALPHA R))))))"

definition acc4 :: "s32 \<Rightarrow> s32 \<Rightarrow> s32 \<Rightarrow> s32 \<Rightarrow> spu \<Rightarrow> s32 res" where
  "acc4 a b c d s =
     (let R = rvb s in
      bind_res (g_buffer a s) (\<lambda>ga. bind_res (g_buffer b s) (\<lambda>gb.
      bind_res (g_buffer c s) (\<lambda>gc. bind_res (g_buffer d s) (\<lambda>gd.
      Ok (ucast (q15 ga (scast (ACC_COEF_A R)) + q15 gb (scast (ACC_COEF_B R))
               + q15 gc (scast (ACC_COEF_C R)) + q15 gd (scast (ACC_COEF_D R)))))))))"

definition reverb_iir :: "s32 \<Rightarrow> s32 \<Rightarrow> spu \<Rightarrow> spu res" where
  "reverb_iir inL inR s =
     (let R = rvb s in
      bind_res (iir (IIR_SRC_A0 R) (IIR_DEST_A0 R) inL (IN_COEF_L R) s) (\<lambda>a0.
      bind_res (iir (IIR_SRC_A1 R) (IIR_DEST_A1 R) inR (IN_COEF_R R) s) (\<lambda>a1.
      bind_res (iir (IIR_SRC_B0 R) (IIR_DEST_B0 R) inL (IN_COEF_L R) s) (\<lambda>b0.
      bind_res (iir (IIR_SRC_B1 R) (IIR_DEST_B1 R) inR (IN_COEF_R R) s) (\<lambda>b1.
      bind_res (s_buffer1 (IIR_DEST_A0 R) (ucast a0) s) (\<lambda>s1.
      bind_res (s_buffer1 (IIR_DEST_A1 R) (ucast a1) s1) (\<lambda>s2.
      bind_res (s_buffer1 (IIR_DEST_B0 R) (ucast b0) s2) (\<lambda>s3.
      s_buffer1 (IIR_DEST_B1 R) (ucast b1) s3))))))))"

definition reverb_mix :: "spu \<Rightarrow> spu res" where
  "reverb_mix s =
     (let R = rvb s; al = FB_ALPHA R; nal = FB_ALPHA R XOR 0xFFFF8000 in
      bind_res (acc4 (ACC_SRC_A0 R) (ACC_SRC_B0 R) (ACC_SRC_C0 R) (ACC_SRC_D0 R) s) (\<lambda>acc0.
      bind_res (acc4 (ACC_SRC_A1 R) (ACC_SRC_B1 R) (ACC_SRC_C1 R) (ACC_SRC_D1 R) s) (\<lambda>acc1.
      bind_res (g_buffer (MIX_DEST_A0 R - FB_SRC_A R) s) (\<lambda>a0.
      bind_res (g_buffer (MIX_DEST_A1 R - FB_SRC_A R) s) (\<lambda>a1.
      bind_res (g_buffer (MIX_DEST_B0 R - FB_SRC_B R) s) (\<lambda>b0.
      bind_res (g_buffer (MIX_DEST_B1 R - FB_SRC_B R) s) (\<lambda>b1.
      let fa0 = ucast a0; fa1 = ucast a1; fb0 = ucast b0; fb1 = ucast b1 in
      bind_res (s_buffer (MIX_DEST_A0 R) (acc0 - q15 fa0 al) s) (\<lambda>s1.
      bind_res (s_buffer (MIX_DEST_A1 R) (acc1 - q15 fa1 al) s1) (\<lambda>s2.
      bind_res (s_buffer (MIX_DEST_B0 R) (q15 al acc0 - q15 fa0 nal - q15 fb0 (FB_X R)) s2) (\<lambda>s3.
      s_buffer (MIX_DEST_B1 R) (q15 al acc1 - q15 fa1 nal - q15 fb1 (FB_X R)) s3))))))))))"

definition third :: "s64 \<Rightarrow> s32" where
  "third v = word_of_int (sint v sdiv 3)"

definition reverb_out :: "spu \<Rightarrow> spu res" where
  "reverb_out s =
     (let R = rvb s in
      bind_res (g_buffer (MIX_DEST_A0 R) s) (\<lambda>a0. bind_res (g_buffer (MIX_DEST_B0 R) s) (\<lambda>b0.
      bind_res (g_buffer (MIX_DEST_A1 R) s) (\<lambda>a1. bind_res (g_buffer (MIX_DEST_B1 R) s) (\<lambda>b1.
      let l = ucast (signed_drop_bit 14 (scast (third (a0 + b0)) * scast (VolLeft R) :: s64));
          r = ucast (signed_drop_bit 14 (scast (third (a1 + b1)) * scast (VolRight R) :: s64)) in
      Ok (s\<lparr>rvb := R\<lparr>iRVBLeft := l, iRVBRight := r\<rparr>,
            upbuf := (upbuf s)(0 := (upbuf s 0)(ubpos s := l), 1 := (upbuf s 1)(ubpos s := r)),
            ubpos := (ubpos s + 1) mod 8\<rparr>))))))"

definition reverb_advance :: "spu \<Rightarrow> spu" where
  "reverb_advance s =
     (let c = CurrAddr (rvb s) + 1 in
      s\<lparr>rvb := (rvb s)\<lparr>CurrAddr := (if 0x3ffff <s c then StartAddr (rvb s) else c)\<rparr>\<rparr>)"

definition reverb_tail :: "s32 \<times> s32 \<Rightarrow> spu \<Rightarrow> (s32 \<times> s32) \<times> spu" where
  "reverb_tail io s =
     ((fst io + signed_drop_bit 7 (fir8 (upbuf s 0) (ubpos s)),
       snd io + signed_drop_bit 7 (fir8 (upbuf s 1) (ubpos s))), s)"

text \<open>
  \<open>io\<close> is the pair \<^verbatim>\<open>*oleft\<close>, \<^verbatim>\<open>*oright\<close>; the result is its new value with the new state.
\<close>

definition MixREVERBLeftRight ::
  "s32 \<times> s32 \<Rightarrow> s32 \<Rightarrow> s32 \<Rightarrow> spu \<Rightarrow> ((s32 \<times> s32) \<times> spu) res" where
  "MixREVERBLeftRight io inleft inright s =
     (if StartAddr (rvb s) = 0 then
        Ok (io, s\<lparr>rvb := (rvb s)\<lparr>iRVBLeft := 0, iRVBRight := 0\<rparr>\<rparr>)
      else
        let s1 = s\<lparr>downbuf := (downbuf s)(0 := (downbuf s 0)(dbpos s := inleft),
                                         1 := (downbuf s 1)(dbpos s := inright)),
                   dbpos := (dbpos s + 1) mod 8\<rparr> in
        if dbpos s1 mod 2 = 1 then
          if spuCtrl s1 AND 0x80 \<noteq> 0 then
            bind_res (reverb_iir (signed_drop_bit 8 (fir8 (downbuf s1 0) (dbpos s1)))
                                 (signed_drop_bit 8 (fir8 (downbuf s1 1) (dbpos s1))) s1) (\<lambda>s2.
            bind_res (reverb_mix s2) (\<lambda>s3.
            bind_res (reverb_out s3) (\<lambda>s4. Ok (reverb_tail io (reverb_advance s4)))))
          else Ok (io, s1\<lparr>rvb := (rvb s1)\<lparr>iRVBLeft := 0, iRVBRight := 0\<rparr>\<rparr>)
        else
          Ok (reverb_tail io (s1\<lparr>
            upbuf := (upbuf s1)(0 := (upbuf s1 0)(ubpos s1 := 0), 1 := (upbuf s1 1)(ubpos s1 := 0)),
            ubpos := (ubpos s1 + 1) mod 8\<rparr>)))"

section \<open>Laws\<close>

lemma wrap_high_range:
  "start \<le> 0x3fff8 \<Longrightarrow> runs (wrap_high start i) (\<lambda>j. j \<le> 0x3ffff \<and> (start \<le> i \<longrightarrow> start \<le> j) \<and> (i \<le> 0x3ffff \<longrightarrow> j = i))"
proof (induction start i rule: wrap_high.induct)
  case (1 start i)
  then show ?case
    by (subst wrap_high.simps) (auto elim!: runs_mono)
qed

lemma wrap_low_range:
  "start \<le> 0x3fff8 \<Longrightarrow> i \<le> 0x3ffff \<Longrightarrow> runs (wrap_low start i) (\<lambda>j. start \<le> j \<and> j \<le> 0x3ffff \<and> (start \<le> i \<longrightarrow> j = i))"
proof (induction start i rule: wrap_low.induct)
  case (1 start i)
  then show ?case
    by (subst wrap_low.simps) (auto elim!: runs_mono)
qed

lemma rvb_index_range:
  "rvb_ok (rvb s) \<Longrightarrow> runs (rvb_index off k s) (\<lambda>i. nat (sint (StartAddr (rvb s))) \<le> i \<and> i < 0x40000)"
  unfolding rvb_index_def Let_def
  by (intro runs_bind[OF wrap_high_range] runs_bind[OF wrap_low_range] runs_require)
    (auto simp: rvb_ok_def spu_words_def)

lemma g_buffer_total: "rvb_ok (rvb s) \<Longrightarrow> \<exists>v. g_buffer off s = Ok v"
  using rvb_index_range[of s off 0] by (auto simp: g_buffer_def runs_def)

definition mem_step :: "spu \<Rightarrow> spu \<Rightarrow> bool" where
  "mem_step s t \<longleftrightarrow> (\<exists>f. t = s\<lparr>spuMem := f\<rparr> \<and> (\<forall>i. int i < sint (StartAddr (rvb s)) \<or> 0x40000 \<le> i \<longrightarrow> f i = spuMem s i))"

lemma mem_step_refl: "mem_step s s"
  unfolding mem_step_def by (rule exI[of _ "spuMem s"]) simp

lemma mem_step_trans: "mem_step s t \<Longrightarrow> mem_step t u \<Longrightarrow> mem_step s u"
  by (auto simp: mem_step_def)

lemma mem_step_rvb: "mem_step s t \<Longrightarrow> rvb t = rvb s"
  by (auto simp: mem_step_def)

lemma mem_step_upd:
  "nat (sint (StartAddr (rvb s))) \<le> i \<Longrightarrow> i < 0x40000 \<Longrightarrow> mem_step s (s\<lparr>spuMem := (spuMem s)(i := w)\<rparr>)"
  unfolding mem_step_def by (rule exI[of _ "(spuMem s)(i := w)"]) auto

lemma s_buffer_step:
  assumes "rvb_ok (rvb s)"
  shows "runs (s_buffer off v s) (mem_step s)" "runs (s_buffer1 off v s) (mem_step s)"
  unfolding s_buffer_def s_buffer1_def
  by (rule runs_bind[OF rvb_index_range[OF assms]]; simp add: mem_step_upd)+

lemma s_buffer_chain:
  assumes "mem_step s t" "rvb_ok (rvb s)" 
  shows "runs (s_buffer off v t) (mem_step s)" "runs (s_buffer1 off v t) (mem_step s)"
  using s_buffer_step[of t off v] assms by (auto simp: mem_step_rvb intro: mem_step_trans elim!: runs_mono)

lemma iir_total: "rvb_ok (rvb s) \<Longrightarrow> \<exists>v. iir a b x c s = Ok v"
  using g_buffer_total[of s a] g_buffer_total[of s b] by (auto simp: iir_def Let_def)

lemma acc4_total: "rvb_ok (rvb s) \<Longrightarrow> \<exists>v. acc4 a b c d s = Ok v"
  using g_buffer_total[of s a] g_buffer_total[of s b] g_buffer_total[of s c] g_buffer_total[of s d]
  by (auto simp: acc4_def Let_def)

lemma reverb_iir_step: "rvb_ok (rvb s) \<Longrightarrow> runs (reverb_iir l r s) (mem_step s)"
  unfolding reverb_iir_def Let_def
  by (intro runs_value runs_bind[OF s_buffer_step(2)] runs_bind[OF s_buffer_chain(2)] s_buffer_chain(2) iir_total)

lemma reverb_mix_step: "rvb_ok (rvb s) \<Longrightarrow> runs (reverb_mix s) (mem_step s)"
  unfolding reverb_mix_def Let_def
  by (intro runs_value runs_bind[OF s_buffer_step(1)] runs_bind[OF s_buffer_chain(1)] s_buffer_chain(1)
      acc4_total g_buffer_total)

lemma reverb_out_step:
  "rvb_ok (rvb s) \<Longrightarrow> runs (reverb_out s) (\<lambda>t. spuMem t = spuMem s \<and> s_chan t = s_chan s \<and> spuAddr t = spuAddr s \<and>
     RateTable t = RateTable s \<and> outbuf t = outbuf s \<and> pNextSample t = pNextSample s \<and> StartAddr (rvb t) = StartAddr (rvb s) \<and> CurrAddr (rvb t) = CurrAddr (rvb s))"
  unfolding reverb_out_def Let_def
  by (intro runs_value g_buffer_total) simp_all

lemma reverb_advance_ok: "rvb_ok (rvb s) \<Longrightarrow> rvb_ok (rvb (reverb_advance s))"
proof -
  obtain x y where x: "uint (CurrAddr (rvb s)) = x" "0 \<le> x" "uint (StartAddr (rvb s)) = y" "0 \<le> y" by simp
  then show "rvb_ok (rvb s) \<Longrightarrow> rvb_ok (rvb (reverb_advance s))"
    by (auto simp: rvb_ok_def reverb_advance_def Let_def word_sless_alt sint_32_eq uint_plus_32 split: if_splits)
qed

lemma reverb_advance_fields [simp]:
  "spuMem (reverb_advance s) = spuMem s" "s_chan (reverb_advance s) = s_chan s"
  "spuAddr (reverb_advance s) = spuAddr s" "RateTable (reverb_advance s) = RateTable s"
  "outbuf (reverb_advance s) = outbuf s" "pNextSample (reverb_advance s) = pNextSample s"
  by (simp_all add: reverb_advance_def Let_def)

definition spu_changed :: "spu \<Rightarrow> spu \<Rightarrow> nat set" where
  "spu_changed s t = {i. spuMem t i \<noteq> spuMem s i}"

definition work_area :: "spu \<Rightarrow> nat set" where
  "work_area s = {nat (sint (StartAddr (rvb s)))..<0x40000}"

lemma mem_step_changed: "mem_step s t \<Longrightarrow> spu_changed s t \<subseteq> work_area s"
proof
  fix i assume m: "mem_step s t" and "i \<in> spu_changed s t"
  then have "\<not> (int i < sint (StartAddr (rvb s)) \<or> 0x40000 \<le> i)"
    unfolding mem_step_def spu_changed_def by fastforce
  then show "i \<in> work_area s" by (auto simp: work_area_def not_less nat_le_iff)
qed

lemma mem_step_ok: "mem_step s t \<Longrightarrow> spu_ok s \<Longrightarrow> spu_ok t"
  by (auto simp: mem_step_def spu_ok_def out_ok_def)

definition reverb_post :: "spu \<Rightarrow> spu \<Rightarrow> bool" where
  "reverb_post s t \<longleftrightarrow> spu_ok t \<and> spu_changed s t \<subseteq> work_area s"

lemma reverb_post_refl: "spu_ok t \<Longrightarrow> spuMem t = spuMem s \<Longrightarrow> reverb_post s t"
  by (simp add: reverb_post_def spu_changed_def)

lemma reverb_post_cong:
  "reverb_post s1 t \<Longrightarrow> spuMem s1 = spuMem s \<Longrightarrow> StartAddr (rvb s1) = StartAddr (rvb s) \<Longrightarrow> reverb_post s t"
  by (simp add: reverb_post_def spu_changed_def work_area_def)

lemma reverb_filter_runs:
  assumes "spu_ok s"
  shows "runs (bind_res (reverb_iir a b s) (\<lambda>s2. bind_res (reverb_mix s2) reverb_out))
    (\<lambda>t. reverb_post s (reverb_advance t))"
proof -
  have "runs (bind_res (reverb_mix s2) reverb_out) (\<lambda>t. reverb_post s (reverb_advance t))"
    if s2: "mem_step s s2" for s2
  proof (rule runs_bind)
    have "rvb_ok (rvb s2)" using s2 assms by (simp add: mem_step_rvb spu_ok_def out_ok_def)
    then show "runs (reverb_mix s2) (mem_step s)"
      using reverb_mix_step[of s2] s2 by (auto intro: mem_step_trans elim!: runs_mono)
    fix s3 assume s3: "mem_step s s3"
    then have ok: "spu_ok s3" using assms by (rule mem_step_ok)
    show "runs (reverb_out s3) (\<lambda>t. reverb_post s (reverb_advance t))"
    proof (rule runs_mono[OF reverb_out_step])
      show "rvb_ok (rvb s3)" using ok by (simp add: spu_ok_def out_ok_def)
      fix t :: spu assume t: "spuMem t = spuMem s3 \<and> s_chan t = s_chan s3 \<and> spuAddr t = spuAddr s3 \<and>
        RateTable t = RateTable s3 \<and> outbuf t = outbuf s3 \<and> pNextSample t = pNextSample s3 \<and> StartAddr (rvb t) = StartAddr (rvb s3) \<and> CurrAddr (rvb t) = CurrAddr (rvb s3)"
      then have "rvb_ok (rvb t)" using ok by (simp add: spu_ok_def out_ok_def rvb_ok_def)
      then show "reverb_post s (reverb_advance t)"
        using t ok mem_step_changed[OF s3] reverb_advance_ok[of t]
        by (simp add: reverb_post_def spu_ok_def out_ok_def spu_changed_def)
    qed
  qed
  moreover have "rvb_ok (rvb s)" using assms by (simp add: spu_ok_def out_ok_def)
  ultimately show ?thesis by (rule runs_bind[OF reverb_iir_step, rotated])
qed

lemma reverb_tail_case: "(case reverb_tail io t of (io', u) \<Rightarrow> Q u) = Q t"
  by (simp add: reverb_tail_def)

lemma MixREVERB_runs:
  assumes "spu_ok s"
  shows "runs (MixREVERBLeftRight io l r s) (\<lambda>(io', t). reverb_post s t)"
proof -
  define s1 where "s1 = s\<lparr>downbuf := (downbuf s)(0 := (downbuf s 0)(dbpos s := l),
    1 := (downbuf s 1)(dbpos s := r)), dbpos := (dbpos s + 1) mod 8\<rparr>"
  have s1: "spu_ok s1" "spuMem s1 = spuMem s" "StartAddr (rvb s1) = StartAddr (rvb s)"
    using assms by (simp_all add: spu_ok_def out_ok_def s1_def)
  have off: "spu_ok (u\<lparr>rvb := (rvb u)\<lparr>iRVBLeft := 0, iRVBRight := 0\<rparr>\<rparr>)" if "spu_ok u" for u
    using that by (simp add: spu_ok_def out_ok_def rvb_ok_def)
  have up: "spu_ok (s1\<lparr>upbuf := f, ubpos := n\<rparr>)" for f n
    using s1(1) by (simp add: spu_ok_def out_ok_def)
  have "runs (bind_res (bind_res (reverb_iir a b s1) (\<lambda>s2. bind_res (reverb_mix s2) reverb_out))
     (\<lambda>s4. Ok (reverb_tail io (reverb_advance s4)))) (\<lambda>(io', t). reverb_post s t)" for a b
    by (rule runs_bind[OF reverb_filter_runs[OF s1(1)]])
      (auto simp: reverb_tail_def reverb_post_def[symmetric] spu_changed_def
        intro: reverb_post_cong[OF _ s1(2,3)])
  then have filter: "runs (bind_res (reverb_iir a b s1) (\<lambda>s2. bind_res (reverb_mix s2) (\<lambda>s3.
      bind_res (reverb_out s3) (\<lambda>s4. Ok (reverb_tail io (reverb_advance s4)))))) (\<lambda>(io', t). reverb_post s t)" for a b
    by (simp only: bind_res_assoc)
  show ?thesis
    unfolding MixREVERBLeftRight_def Let_def s1_def[symmetric]
    by (simp only: filter runs_Ok reverb_tail_case off s1 up assms split: if_split)
      (simp add: reverb_post_refl off s1 up assms)
qed

section \<open>Properties\<close>

text \<open>C28: a reverb step is memory-safe. For every filter setting the registers can hold, the index
  wrapping ends, every access to the work area is inside sound memory, the step never faults, and it
  writes nothing outside the work area from the start address to the end of sound memory.\<close>
theorem MixREVERBLeftRight_safe:
  assumes "spu_ok s"
  shows "\<exists>io' t. MixREVERBLeftRight io l r s = Ok (io', t) \<and> spu_ok t \<and>
    {i. spuMem t i \<noteq> spuMem s i} \<subseteq> {nat (sint (StartAddr (rvb s)))..<0x40000}"
  using MixREVERB_runs[OF assms, of io l r] by (auto simp: runs_def reverb_post_def spu_changed_def work_area_def)

definition sample_reverb :: spu where
  "sample_reverb = spu_boot\<lparr>rvb := zero_rvb\<lparr>StartAddr := 0x1000, CurrAddr := 0x2000, FB_SRC_A := 0x7fff,
     MIX_DEST_A0 := 0x6000\<rparr>, spuCtrl := 0x80\<rparr>"

theorem MixREVERBLeftRight_safe_witness:
  "\<exists>io' t. MixREVERBLeftRight (5, 6) 7 8 sample_reverb = Ok (io', t) \<and> spu_ok t \<and>
    {i. spuMem t i \<noteq> spuMem sample_reverb i} \<subseteq> {nat (sint (StartAddr (rvb sample_reverb)))..<0x40000}"
  by (rule MixREVERBLeftRight_safe)
    (use spu_boot_ok in \<open>simp add: sample_reverb_def spu_ok_def out_ok_def rvb_ok_def zero_rvb_def\<close>)

end
