(* ===== verification/SpuDma.thy ===== *)
theory SpuDma
  imports SpuRegisters
begin

text \<open>
  Block transfers between main memory and sound memory, \<^verbatim>\<open>psf/spu/dma.c\<close>. The size is a C
  \<^verbatim>\<open>int\<close>, so a negative one transfers nothing. The pair of states is sound processor and memory;
  the loop counter \<^verbatim>\<open>usPSXMem\<close> advances by two bytes a halfword.
\<close>

definition dma_read_step :: "u32 \<Rightarrow> nat \<Rightarrow> spu \<times> psxmem \<Rightarrow> (spu \<times> psxmem) res" where
  "dma_read_step a i st = (case st of (s, m) \<Rightarrow>
     bind_res (deref (PSXM (a + 2 * of_nat i) m)) (\<lambda>p.
     bind_res (spu_get s) (\<lambda>(v, s1).
     bind_res (store_u16 p v m) (\<lambda>m1. Ok (s1, m1)))))"

definition SPUreadDMAMem :: "u32 \<Rightarrow> s32 \<Rightarrow> spu \<times> psxmem \<Rightarrow> (spu \<times> psxmem) res" where
  "SPUreadDMAMem a iSize = for_each [0..<nat (sint iSize)] (dma_read_step a)"

definition dma_write_step :: "u32 \<Rightarrow> psxmem \<Rightarrow> nat \<Rightarrow> spu \<Rightarrow> spu res" where
  "dma_write_step a m i s =
     bind_res (deref (PSXM (a + 2 * of_nat i) m)) (\<lambda>p.
     bind_res (load_u16 p m) (\<lambda>v. spu_put v s))"

definition SPUwriteDMAMem :: "u32 \<Rightarrow> s32 \<Rightarrow> psxmem \<Rightarrow> spu \<Rightarrow> spu res" where
  "SPUwriteDMAMem a iSize m = for_each [0..<nat (sint iSize)] (dma_write_step a m)"

section \<open>Laws\<close>

definition spu_pos :: "spu \<Rightarrow> nat" where
  "spu_pos s = unat (spuAddr s) div 2"

lemma spuAddr_next_pos:
  "a \<le> 0x7ffff \<Longrightarrow> unat (spuAddr_next a) div 2 = Suc (unat a div 2) mod 0x40000"
proof -
  assume "a \<le> 0x7ffff"
  then have a: "unat a \<le> 0x7ffff" by (simp add: word_le_nat_alt)
  then have "unat (a + 2) = unat a + 2" by (subst unat_add_lem[THEN iffD1]) auto
  then show ?thesis using a
    by (auto simp: spuAddr_next_def word_less_nat_alt not_less mod_Suc)
qed

lemma spu_put_pos:
  "spuAddr s \<le> 0x7ffff \<Longrightarrow> spu_put v s = Ok t \<Longrightarrow>
   spuMem t = (spuMem s)(spu_pos s := v) \<and> spuAddr t \<le> 0x7ffff \<and>
   spu_pos t = Suc (spu_pos s) mod 0x40000"
  by (auto simp: spu_put_def spu_index_total spuAddr_next_ok spuAddr_next_pos spu_pos_def)

lemma spu_get_pos:
  "spuAddr s \<le> 0x7ffff \<Longrightarrow> \<exists>t. spu_get s = Ok (spuMem s (spu_pos s), t) \<and>
   spuMem t = spuMem s \<and> spuAddr t \<le> 0x7ffff \<and> spu_pos t = Suc (spu_pos s) mod 0x40000"
  by (simp add: spu_get_def spu_index_total spuAddr_next_ok spuAddr_next_pos spu_pos_def)

lemma spu_pos_less: "spuAddr s \<le> 0x7ffff \<Longrightarrow> spu_pos s < 0x40000"
  by (simp add: spu_pos_def word_le_nat_alt)

definition half_at :: "u32 \<Rightarrow> psxmem \<Rightarrow> u16 res" where
  "half_at a m = bind_res (deref (PSXM a m)) (\<lambda>p. load_u16 p m)"

lemma distinct_slots:
  assumes "i < n" "n < 0x40000"
  shows "(k + i) mod 0x40000 \<noteq> (k + n) mod (0x40000 :: nat)"
proof
  assume "(k + i) mod 0x40000 = (k + n) mod (0x40000 :: nat)"
  then have "(0x40000 :: nat) dvd (k + n) - (k + i)" using assms(1) by (intro mod_eq_dvd_iff_nat[THEN iffD1]) auto
  then show False using assms by (auto dest: dvd_imp_le)
qed

lemma dma_write_window:
  assumes "spuAddr s \<le> 0x7ffff" and "n \<le> 0x40000"
  shows "for_each [0..<n] (dma_write_step a m) s = Ok t \<Longrightarrow>
    spuAddr t \<le> 0x7ffff \<and> spu_pos t = (spu_pos s + n) mod 0x40000 \<and>
    (\<forall>i<n. half_at (a + 2 * of_nat i) m = Ok (spuMem t ((spu_pos s + i) mod 0x40000)))"
  using assms(2)
proof (induction n arbitrary: t)
  case 0
  then show ?case using assms spu_pos_less[of s] by simp
next
  case (Suc n)
  obtain u where u: "for_each [0..<n] (dma_write_step a m) s = Ok u" "dma_write_step a m n u = Ok t"
    using Suc.prems(1) by (auto simp: for_each_append bind_res_Ok_iff)
  have iu: "spuAddr u \<le> 0x7ffff" "spu_pos u = (spu_pos s + n) mod 0x40000"
    "\<And>i. i < n \<Longrightarrow> half_at (a + 2 * of_nat i) m = Ok (spuMem u ((spu_pos s + i) mod 0x40000))"
    using Suc.IH[OF u(1)] Suc.prems(2) by auto
  obtain v where v: "half_at (a + 2 * of_nat n) m = Ok v" "spu_put v u = Ok t"
    using u(2) by (auto simp: dma_write_step_def half_at_def bind_res_Ok_iff)
  note t = spu_put_pos[OF iu(1) v(2)]
  have m: "spuMem t = (spuMem u)(spu_pos u := v)" using t by simp
  have "(spu_pos s + i) mod 0x40000 \<noteq> spu_pos u" if "i < n" for i
    using that Suc.prems(2) by (simp add: iu(2) distinct_slots)
  then have "half_at (a + 2 * of_nat i) m = Ok (spuMem t ((spu_pos s + i) mod 0x40000))" if "i < Suc n" for i
    using that iu(2,3) v(1) by (cases "i = n") (simp_all add: m)
  then show ?case using t iu(2) by (simp add: mod_Suc_eq)
qed

lemma dma_read_back:
  assumes "spuAddr s \<le> 0x7ffff"
    and "\<forall>i<n. half_at (a + 2 * of_nat i) m = Ok (spuMem s ((spu_pos s + i) mod 0x40000))"
  shows "\<exists>u. for_each [0..<n] (dma_read_step a) (s, m) = Ok (u, m) \<and> spuMem u = spuMem s \<and>
    spuAddr u \<le> 0x7ffff \<and> spu_pos u = (spu_pos s + n) mod 0x40000"
  using assms(2)
proof (induction n)
  case 0
  then show ?case using assms(1) spu_pos_less[of s] by simp
next
  case (Suc n)
  then obtain u where u: "for_each [0..<n] (dma_read_step a) (s, m) = Ok (u, m)" "spuMem u = spuMem s"
    "spuAddr u \<le> 0x7ffff" "spu_pos u = (spu_pos s + n) mod 0x40000" by auto
  obtain p where p: "deref (PSXM (a + 2 * of_nat n) m) = Ok p" "load_u16 p m = Ok (spuMem s (spu_pos u))"
    using Suc.prems u(4) by (auto simp: half_at_def bind_res_Ok_iff)
  obtain w where w: "spu_get u = Ok (spuMem u (spu_pos u), w)" "spuMem w = spuMem u"
    "spuAddr w \<le> 0x7ffff" "spu_pos w = Suc (spu_pos u) mod 0x40000" using spu_get_pos[OF u(3)] by blast
  have "dma_read_step a n (u, m) = Ok (w, m)"
    using p w(1) store_u16_same[OF p(2)] by (simp add: dma_read_step_def u(2))
  then show ?case using u(1,2,4) w(2-4) by (auto simp: for_each_append mod_Suc_eq)
qed

lemma SPUwriteDMAMem_post: "spu_ok s \<Longrightarrow> post (SPUwriteDMAMem a sz m s) spu_ok"
  unfolding SPUwriteDMAMem_def dma_write_step_def
  by (rule post_for_each) (auto intro!: post_bind_any spu_put_post)

lemma spu_get_post: "spu_ok s \<Longrightarrow> post (spu_get s) (\<lambda>(v, t). spu_ok t)"
  unfolding spu_get_def by (rule post_bind_any) (simp add: spu_ok_def out_ok_def spuAddr_next_ok)

lemma SPUreadDMAMem_post:
  "spu_ok (fst st) \<Longrightarrow> post (SPUreadDMAMem a sz st) (\<lambda>(s, m). spu_ok s \<and> same_map (snd st) m)"
  unfolding SPUreadDMAMem_def
proof (rule post_for_each)
  fix i st' assume "case st' of (s, m) \<Rightarrow> spu_ok s \<and> same_map (snd st) m"
  then obtain s m where st': "st' = (s, m)" "spu_ok s" "same_map (snd st) m" by auto
  show "post (dma_read_step a i st') (\<lambda>(s, m). spu_ok s \<and> same_map (snd st) m)"
    unfolding dma_read_step_def st'(1) prod.case
    by (rule post_bind_any, rule post_bind[OF spu_get_post[OF st'(2)]], clarify,
      rule post_bind[OF store_same_map(2)[OF st'(3)]]) simp
qed auto

text \<open>An upload from main memory does not fail.\<close>

lemma spu_put_total: "spuAddr s \<le> 0x7ffff \<Longrightarrow> \<exists>t. spu_put v s = Ok t \<and> spuAddr t \<le> 0x7ffff"
  by (simp add: spu_put_def spu_index_total spuAddr_next_ok)

lemma dma_write_total:
  assumes "spuAddr s \<le> 0x7ffff" "\<And>i. i < n \<Longrightarrow> \<exists>v. half_at (a + 2 * of_nat i) m = Ok v"
  shows "\<exists>t. for_each [0..<n] (dma_write_step a m) s = Ok t \<and> spuAddr t \<le> 0x7ffff"
  using assms(2)
proof (induction n)
  case (Suc n)
  then obtain t where t: "for_each [0..<n] (dma_write_step a m) s = Ok t" "spuAddr t \<le> 0x7ffff" by (meson less_Suc_eq)
  obtain v where "half_at (a + 2 * of_nat n) m = Ok v" using Suc.prems by blast
  then have "dma_write_step a m n t = spu_put v t" by (auto simp: dma_write_step_def half_at_def bind_res_Ok_iff)
  then show ?case using t spu_put_total[OF t(2), of v] by (auto simp: for_each_append)
qed (use assms(1) in simp)

lemma SPUwriteDMAMem_total:
  assumes "spuAddr s \<le> 0x7ffff" "\<And>i. int i < sint sz \<Longrightarrow> \<exists>v. half_at (a + 2 * of_nat i) m = Ok v"
  shows "\<exists>t. SPUwriteDMAMem a sz m s = Ok t"
  unfolding SPUwriteDMAMem_def using dma_write_total[OF assms(1), of "nat (sint sz)" a m] assms(2) by auto

section \<open>Properties\<close>

text \<open>An upload of up to 512 KB stores the halfwords of main memory at consecutive positions of sound
  memory from the transfer address on, wrapping at its end, none of them lost.\<close>
theorem SPUwriteDMAMem_stores:
  assumes "SPUwriteDMAMem a sz m s = Ok t" and "spuAddr s \<le> 0x7ffff" and "sint sz \<le> 0x40000"
    and "int i < sint sz"
  shows "half_at (a + 2 * of_nat i) m = Ok (spuMem t ((unat (spuAddr s) div 2 + i) mod 0x40000))"
  using dma_write_window[OF assms(2), of "nat (sint sz)" a m t] assms(1,3,4)
  by (simp add: SPUwriteDMAMem_def spu_pos_def)

definition sample_mem :: psxmem where
  "sample_mem = psxMemInit (\<lambda>_ i. of_nat i)"

lemma sample_upload:
  "\<exists>t. SPUwriteDMAMem 0x80010000 2 sample_mem (spu_boot\<lparr>spuAddr := 0x7fffe\<rparr>) = Ok t"
  by (simp add: SPUwriteDMAMem_def dma_write_step_def sample_mem_def psxMemInit_def PSXM_def deref_def
      lut_init_def lut_ram_def in_ram_window_def spu_put_def spu_index_def spu_words_def spuAddr_next_def
      upt_rec)

theorem SPUwriteDMAMem_stores_witness:
  "\<exists>t. SPUwriteDMAMem 0x80010000 2 sample_mem (spu_boot\<lparr>spuAddr := 0x7fffe\<rparr>) = Ok t \<and>
    half_at 0x80010002 sample_mem = Ok (spuMem t 0)"
proof -
  obtain t where t: "SPUwriteDMAMem 0x80010000 2 sample_mem (spu_boot\<lparr>spuAddr := 0x7fffe\<rparr>) = Ok t"
    using sample_upload by blast
  then show ?thesis using SPUwriteDMAMem_stores[OF t, of 1] by simp
qed

text \<open>An upload followed by a download of the same block from the same transfer address reads back
  what main memory holds: the download never faults and leaves main memory as it was.\<close>
theorem SPUreadDMAMem_write:
  assumes "SPUwriteDMAMem a sz m s = Ok t" and "spuAddr s \<le> 0x7ffff" and "sint sz \<le> 0x40000"
  shows "\<exists>u. SPUreadDMAMem a sz (t\<lparr>spuAddr := spuAddr s\<rparr>, m) = Ok (u, m) \<and> spuMem u = spuMem t"
proof -
  let ?t = "t\<lparr>spuAddr := spuAddr s\<rparr>"
  have "spu_pos ?t = spu_pos s" by (simp add: spu_pos_def)
  then show ?thesis
    using dma_write_window[OF assms(2), of "nat (sint sz)" a m t] dma_read_back[of ?t "nat (sint sz)" a m] assms
    by (auto simp: SPUwriteDMAMem_def SPUreadDMAMem_def)
qed

theorem SPUreadDMAMem_write_witness:
  "\<exists>t u. SPUwriteDMAMem 0x80010000 2 sample_mem (spu_boot\<lparr>spuAddr := 0x7fffe\<rparr>) = Ok t \<and>
    SPUreadDMAMem 0x80010000 2 (t\<lparr>spuAddr := 0x7fffe\<rparr>, sample_mem) = Ok (u, sample_mem)"
proof -
  obtain t where t: "SPUwriteDMAMem 0x80010000 2 sample_mem (spu_boot\<lparr>spuAddr := 0x7fffe\<rparr>) = Ok t"
    using sample_upload by blast
  then show ?thesis using SPUreadDMAMem_write[OF t] by auto
qed

end
