(* ===== verification/PsxCounters.thy ===== *)
theory PsxCounters
  imports PsxMem
begin

text \<open>
  The root counters of \<^verbatim>\<open>psf/PsxCounters.c\<close>: three timers and the VSync counter (index 3), each
  with the cycle \<^verbatim>\<open>sCycle\<close> at which it was last brought up to date and the distance \<^verbatim>\<open>Cycle\<close>
  to its next event (\<^verbatim>\<open>0xffffffff\<close> when it has none). The functions take the value of
  \<^verbatim>\<open>psxRegs.cycle\<close> as their first argument.
\<close>

section \<open>State and operations\<close>

record psxCounter =
  rc_count :: u32
  rc_mode :: u32
  rc_target :: u32
  rc_sCycle :: u32
  rc_Cycle :: u32
  rc_rate :: u32
  rc_interrupt :: u32

record rcnts =
  psxCounters :: "nat \<Rightarrow> psxCounter"
  psxNextCounter :: u32
  psxNextsCounter :: u32
  cnts :: nat
  last_cycle :: u32

definition PSXCLK :: u32 where "PSXCLK = 33868800"

definition BIAS :: u32 where "BIAS = 2"

definition counter_update :: "nat \<Rightarrow> (psxCounter \<Rightarrow> psxCounter) \<Rightarrow> rcnts \<Rightarrow> rcnts" where
  "counter_update i f rc = rc\<lparr>psxCounters := (psxCounters rc)(i := f (psxCounters rc i))\<rparr>"

definition psxRcntUpd :: "u32 \<Rightarrow> nat \<Rightarrow> rcnts \<Rightarrow> rcnts" where
  "psxRcntUpd cycle index rc = counter_update index (\<lambda>c. c\<lparr>rc_sCycle := cycle, rc_Cycle :=
     (if (rc_mode c AND 1 = 0 \<or> index \<noteq> 2) \<and> rc_mode c AND 0x30 \<noteq> 0 then
        if rc_mode c AND 0x10 \<noteq> 0 then ((rc_target c - rc_count c) * rc_rate c) div BIAS
        else ((0xffff - rc_count c) * rc_rate c) div BIAS
      else 0xffffffff)\<rparr>) rc"

text \<open>\<open>hw_or\<close> is the C statement \<^verbatim>\<open>psxHu32(a) |= v\<close>.\<close>

definition hw_or :: "u32 \<Rightarrow> u32 \<Rightarrow> psxmem \<Rightarrow> psxmem res" where
  "hw_or a v m = bind_res (psxHu32 a m) (\<lambda>old. psxHu32_set a (old OR v) m)"

definition hw_and :: "u32 \<Rightarrow> u32 \<Rightarrow> psxmem \<Rightarrow> psxmem res" where
  "hw_and a v m = bind_res (psxHu32 a m) (\<lambda>old. psxHu32_set a (old AND v) m)"

definition psxRcntReset :: "u32 \<Rightarrow> nat \<Rightarrow> rcnts \<times> psxmem \<Rightarrow> (rcnts \<times> psxmem) res" where
  "psxRcntReset cycle index st = (case st of (rc, m) \<Rightarrow>
     let rc1 = psxRcntUpd cycle index (counter_update index (rc_count_update (\<lambda>_. 0)) rc) in
     bind_res (hw_or 0x1070 (rc_interrupt (psxCounters rc1 index)) m) (\<lambda>m1. Ok (
       (if rc_mode (psxCounters rc1 index) AND 0x40 = 0
        then counter_update index (rc_Cycle_update (\<lambda>_. 0xffffffff)) rc1 else rc1), m1)))"

text \<open>The loop of \<^verbatim>\<open>psxRcntSet\<close>: \<open>nxt\<close> is \<^verbatim>\<open>psxNextCounter\<close> so far.\<close>

fun rcnt_scan :: "u32 \<Rightarrow> (nat \<Rightarrow> psxCounter) \<Rightarrow> nat list \<Rightarrow> u32 \<Rightarrow> u32" where
  "rcnt_scan cycle cs [] nxt = nxt"
| "rcnt_scan cycle cs (i # js) nxt =
     (if rc_Cycle (cs i) = 0xffffffff then rcnt_scan cycle cs js nxt
      else let n = rc_Cycle (cs i) - (cycle - rc_sCycle (cs i)) in
        if n <s 0 then 0
        else rcnt_scan cycle cs js (if n <s nxt then n else nxt))"

definition psxRcntSet :: "u32 \<Rightarrow> rcnts \<Rightarrow> rcnts" where
  "psxRcntSet cycle rc = rc\<lparr>
     psxNextCounter := rcnt_scan cycle (psxCounters rc) [0..<cnts rc] 0x7fffffff,
     psxNextsCounter := cycle\<rparr>"

definition psxUpdateVSyncRate :: "rcnts \<Rightarrow> rcnts" where
  "psxUpdateVSyncRate = counter_update 3 (rc_rate_update (\<lambda>_. PSXCLK div 60))"

definition psxRcntInit :: "u32 \<Rightarrow> rcnts \<Rightarrow> rcnts" where
  "psxRcntInit cycle rc =
     (let zero = \<lparr>rc_count = 0, rc_mode = 0, rc_target = 0, rc_sCycle = 0, rc_Cycle = 0,
                   rc_rate = 0, rc_interrupt = 0\<rparr>;
          rc1 = rc\<lparr>psxCounters := (\<lambda>_. zero)(
            0 := zero\<lparr>rc_rate := 1, rc_interrupt := 0x10\<rparr>,
            1 := zero\<lparr>rc_rate := 1, rc_interrupt := 0x20\<rparr>,
            2 := zero\<lparr>rc_rate := 1, rc_interrupt := 64\<rparr>,
            3 := zero\<lparr>rc_interrupt := 1, rc_mode := 0x58, rc_target := 1\<rparr>)\<rparr>;
          rc2 = (psxUpdateVSyncRate rc1)\<lparr>cnts := 4\<rparr>
      in (psxRcntSet cycle (psxRcntUpd cycle 3 (psxRcntUpd cycle 2 (psxRcntUpd cycle 1
            (psxRcntUpd cycle 0 rc2)))))\<lparr>last_cycle := 0\<rparr>)"

text \<open>
  \<open>CounterDeadLoopSkip\<close> returns the new value of \<^verbatim>\<open>psxRegs.cycle\<close>; \<open>dead_loop_min\<close> is its
  loop, with \<^verbatim>\<open>lmin\<close> as accumulator.
\<close>

fun dead_loop_min :: "u32 \<Rightarrow> (nat \<Rightarrow> psxCounter) \<Rightarrow> nat list \<Rightarrow> s32 \<Rightarrow> s32" where
  "dead_loop_min cycle cs [] lmin = lmin"
| "dead_loop_min cycle cs (x # xs) lmin =
     (if rc_Cycle (cs x) \<noteq> 0xffffffff then
        let min = rc_Cycle (cs x) - (cycle - rc_sCycle (cs x)) in
        dead_loop_min cycle cs xs (if min <s lmin then min else lmin)
      else dead_loop_min cycle cs xs lmin)"

definition CounterDeadLoopSkip :: "u32 \<Rightarrow> rcnts \<Rightarrow> u32" where
  "CounterDeadLoopSkip cycle rc =
     (let lmin = dead_loop_min cycle (psxCounters rc) [0..<4] 0x7fffffff in
      if 0 <s lmin then cycle + lmin else cycle)"

definition counter_due :: "u32 \<Rightarrow> nat \<Rightarrow> rcnts \<Rightarrow> bool" where
  "counter_due cycle i rc \<longleftrightarrow>
     rc_Cycle (psxCounters rc i) \<le> cycle - rc_sCycle (psxCounters rc i)"

definition rcnt_vsync :: "u32 \<Rightarrow> rcnts \<times> psxmem \<Rightarrow> (rcnts \<times> psxmem) res" where
  "rcnt_vsync cycle st = (case st of (rc, m) \<Rightarrow>
     if counter_due cycle 3 rc
     then bind_res (hw_or 0x1070 1 m) (\<lambda>m1. Ok (psxRcntUpd cycle 3 rc, m1))
     else Ok (rc, m))"

definition rcnt_timer :: "u32 \<Rightarrow> nat \<Rightarrow> rcnts \<times> psxmem \<Rightarrow> (rcnts \<times> psxmem) res" where
  "rcnt_timer cycle i st =
     (if counter_due cycle i (fst st) then psxRcntReset cycle i st else Ok st)"

definition psxRcntUpdate :: "u32 \<Rightarrow> rcnts \<times> psxmem \<Rightarrow> (rcnts \<times> psxmem) res" where
  "psxRcntUpdate cycle st =
     bind_res (rcnt_vsync cycle st) (\<lambda>st.
     bind_res (for_each [0, 1, 2] (rcnt_timer cycle) st) (\<lambda>st.
     Ok (psxRcntSet cycle (fst st), snd st)))"

definition psxRcntWcount :: "u32 \<Rightarrow> nat \<Rightarrow> u32 \<Rightarrow> rcnts \<Rightarrow> rcnts" where
  "psxRcntWcount cycle index v rc =
     psxRcntSet cycle (psxRcntUpd cycle index (counter_update index (rc_count_update (\<lambda>_. v)) rc))"

definition rate_for :: "nat \<Rightarrow> u32 \<Rightarrow> rcnts \<Rightarrow> u32 \<Rightarrow> u32" where
  "rate_for index v rc old =
     (if index = 0 then
        if v AND 0x300 = 0x100 then (rc_rate (psxCounters rc 3) div 386) div 262 else 1
      else if index = 1 then
        if v AND 0x300 = 0x100 then rc_rate (psxCounters rc 3) div 262 else 1
      else if index = 2 then
        if v AND 0x300 = 0x200 then 8 else 1
      else old)"

definition psxRcntWmode :: "u32 \<Rightarrow> nat \<Rightarrow> u32 \<Rightarrow> rcnts \<Rightarrow> rcnts" where
  "psxRcntWmode cycle index v rc =
     (let rc1 = counter_update index (\<lambda>c. c\<lparr>rc_mode := v, rc_count := 0\<rparr>) rc;
          rc2 = counter_update index (\<lambda>c. c\<lparr>rc_rate := rate_for index v rc1 (rc_rate c)\<rparr>) rc1
      in psxRcntSet cycle (psxRcntUpd cycle index rc2))"

definition psxRcntWtarget :: "u32 \<Rightarrow> nat \<Rightarrow> u32 \<Rightarrow> rcnts \<Rightarrow> rcnts" where
  "psxRcntWtarget cycle index v rc =
     psxRcntSet cycle (psxRcntUpd cycle index (counter_update index (rc_target_update (\<lambda>_. v)) rc))"

definition psxRcntRcount :: "u32 \<Rightarrow> nat \<Rightarrow> rcnts \<Rightarrow> u32 res" where
  "psxRcntRcount cycle index rc =
     (let c = psxCounters rc index in
      require (rc_rate c \<noteq> 0) Undefined (Ok (
        (if rc_mode c AND 0x08 \<noteq> 0
         then rc_count c + BIAS * ((cycle - rc_sCycle c) div rc_rate c)
         else rc_count c + BIAS * (cycle div rc_rate c)) AND 0xffff)))"

section \<open>Laws\<close>

lemma not_due:
  fixes e n d c :: u32
  assumes "e < 0x80000000" "0 \<le>s n" "d < n" "c - e = n"
  shows "\<not> c \<le> e + d"
proof -
  have b: "uint e < 2147483648" "uint d < uint n" "uint n < 2147483648"
    using assms by (simp_all add: word_less_def sle_zero_32)
  have "uint n = (if uint e \<le> uint c then uint c - uint e else uint c - uint e + 4294967296)"
    using assms(4) uint_minus_32[of c e] by simp
  moreover have "uint e \<le> uint c"
  proof (rule ccontr)
    assume "\<not> uint e \<le> uint c"
    then have "uint n = uint c - uint e + 4294967296" using calculation by simp
    then show False using b uint_range_32(1)[of c] by linarith
  qed
  ultimately have "uint e + uint d < uint c" using b by simp
  then show ?thesis using uint_range_32[of c] by (simp add: word_le_def uint_plus_32)
qed

definition remaining :: "u32 \<Rightarrow> psxCounter \<Rightarrow> u32" where
  "remaining cycle c = rc_Cycle c - (cycle - rc_sCycle c)"

definition armed :: "psxCounter \<Rightarrow> bool" where
  "armed c \<longleftrightarrow> rc_Cycle c \<noteq> 0xffffffff"

lemma rcnt_scan_spec:
  assumes "0 \<le>s nxt" 
  shows "0 \<le>s rcnt_scan cycle cs js nxt \<and> rcnt_scan cycle cs js nxt \<le>s nxt \<and>
    (rcnt_scan cycle cs js nxt \<noteq> 0 \<longrightarrow> (\<forall>i \<in> set js. armed (cs i) \<longrightarrow>
           rcnt_scan cycle cs js nxt \<le>s remaining cycle (cs i)))"
  using assms(1)
proof (induction js arbitrary: nxt)
  case (Cons i js)
  show ?case
  proof (cases "armed (cs i)")
    case False
    then show ?thesis using Cons by (simp add: armed_def)
  next
    case True
    define n where "n = remaining cycle (cs i)"
    show ?thesis
    proof (cases "n <s 0")
      case True
      then show ?thesis using \<open>armed (cs i)\<close> Cons.prems by (simp add: n_def remaining_def armed_def)
    next
      case nn: False
      let ?m = "if n <s nxt then n else nxt"
      have m: "0 \<le>s ?m" "?m \<le>s nxt" "?m \<le>s n" using nn Cons.prems by auto
      have "rcnt_scan cycle cs (i # js) nxt = rcnt_scan cycle cs js ?m"
        using True nn by (simp add: n_def remaining_def armed_def)
      moreover note ih = Cons.IH[OF m(1)]
      moreover have "rcnt_scan cycle cs js ?m \<le>s nxt" "rcnt_scan cycle cs js ?m \<le>s n"
        using ih m(2,3) signed.order.trans by blast+
      ultimately show ?thesis by (simp add: n_def)
    qed
  qed
qed simp

subsection \<open>Rates\<close>

inductive rcnt_step :: "rcnts \<Rightarrow> rcnts \<Rightarrow> bool" where
  st_count: "i < 3 \<Longrightarrow> rcnt_step rc (psxRcntWcount c i v rc)"
| st_mode: "i < 3 \<Longrightarrow> rcnt_step rc (psxRcntWmode c i v rc)"
| st_target: "i < 3 \<Longrightarrow> rcnt_step rc (psxRcntWtarget c i v rc)"
| st_update: "psxRcntUpdate c (rc, m) = Ok (rc', m') \<Longrightarrow> rcnt_step rc rc'"
| st_spu: "rcnt_step rc (rc\<lparr>last_cycle := c\<rparr>)"

inductive_cases rcnt_stepE: "rcnt_step rc rc'"

definition rcnt_start :: "rcnts \<Rightarrow> bool" where
  "rcnt_start rc \<longleftrightarrow> (\<exists>c rc0. rc = psxRcntInit c rc0)"

definition rates_ok :: "rcnts \<Rightarrow> bool" where
  "rates_ok rc \<longleftrightarrow> cnts rc = 4 \<and> rc_rate (psxCounters rc 3) = 564480 \<and>
     (\<forall>i < 3. rc_rate (psxCounters rc i) \<in> {1, 5, 8, 2154})"

lemma counter_update_simps [simp]:
  "cnts (counter_update i f rc) = cnts rc"
  "psxCounters (counter_update i f rc) = (psxCounters rc)(i := f (psxCounters rc i))"
  by (simp_all add: counter_update_def)

lemma psxRcntSet_simps [simp]:
  "cnts (psxRcntSet c rc) = cnts rc" "psxCounters (psxRcntSet c rc) = psxCounters rc"
  "psxNextsCounter (psxRcntSet c rc) = c"
  by (simp_all add: psxRcntSet_def)

lemma psxRcntUpd_simps [simp]:
  "cnts (psxRcntUpd c i rc) = cnts rc"
  "rc_rate (psxCounters (psxRcntUpd c i rc) j) = rc_rate (psxCounters rc j)"
  "rc_count (psxCounters (psxRcntUpd c i rc) j) = rc_count (psxCounters rc j)"
  "rc_mode (psxCounters (psxRcntUpd c i rc) j) = rc_mode (psxCounters rc j)"
  "rc_interrupt (psxCounters (psxRcntUpd c i rc) j) = rc_interrupt (psxCounters rc j)"
  "rc_sCycle (psxCounters (psxRcntUpd c i rc) j) =
     (if j = i then c else rc_sCycle (psxCounters rc j))"
  by (simp_all add: psxRcntUpd_def)

lemma rates_ok_cong:
  "\<lbrakk>cnts rc' = cnts rc; \<And>i. rc_rate (psxCounters rc' i) = rc_rate (psxCounters rc i)\<rbrakk>
   \<Longrightarrow> rates_ok rc' = rates_ok rc"
  by (simp add: rates_ok_def)

lemma rates_ok_simps [simp]:
  "rates_ok (psxRcntSet c rc) = rates_ok rc"
  "rates_ok (psxRcntUpd c i rc) = rates_ok rc"
  "rates_ok (psxRcntWcount c i v rc) = rates_ok rc"
  "rates_ok (psxRcntWtarget c i v rc) = rates_ok rc"
  "rates_ok (counter_update i (rc_Cycle_update g) rc) = rates_ok rc"
  "rates_ok (counter_update i (rc_count_update g) rc) = rates_ok rc"
  "rates_ok (rc\<lparr>last_cycle := c\<rparr>) = rates_ok rc"
  by (rule rates_ok_cong; simp add: psxRcntWcount_def psxRcntWtarget_def)+

lemma rates_ok_init: "rates_ok (psxRcntInit c rc)"
  by (simp add: rates_ok_def psxRcntInit_def Let_def psxUpdateVSyncRate_def less_3_iff PSXCLK_def)

lemma rate_for_ok: "rates_ok rc \<Longrightarrow> i < 3 \<Longrightarrow> rate_for i v rc old \<in> {1, 5, 8, 2154}"
  by (auto simp: rates_ok_def rate_for_def less_3_iff)

lemma rates_ok_counter_update:
  "\<lbrakk>rates_ok rc; i < 3; rc_rate (f (psxCounters rc i)) \<in> {1, 5, 8, 2154}\<rbrakk>
   \<Longrightarrow> rates_ok (counter_update i f rc)"
  by (auto simp: rates_ok_def)

lemma rates_ok_wmode: 
  assumes "rates_ok rc" "i < 3" 
  shows "rates_ok (psxRcntWmode c i v rc)"
proof -
  let ?rc1 = "counter_update i (\<lambda>c. c\<lparr>rc_mode := v, rc_count := 0\<rparr>) rc"
  have 1: "rates_ok ?rc1"
    using assms by (intro rates_ok_counter_update) (simp_all add: rates_ok_def)
  have "rates_ok (counter_update i (\<lambda>c. c\<lparr>rc_rate := rate_for i v ?rc1 (rc_rate c)\<rparr>) ?rc1)"
    by (rule rates_ok_counter_update[OF 1 assms(2)]) (use rate_for_ok[OF 1 assms(2)] in simp)
  then show ?thesis by (simp only: psxRcntWmode_def Let_def rates_ok_simps)
qed

lemma rates_ok_reset: 
  assumes "psxRcntReset c i (rc, m) = Ok (rc', m')"
  shows "rates_ok rc' = rates_ok rc"
proof -
  define rc1 where "rc1 = psxRcntUpd c i (counter_update i (rc_count_update (\<lambda>_. 0)) rc)"
  have "rates_ok rc1 = rates_ok rc" by (simp only: rc1_def rates_ok_simps)
  moreover have "rc' = rc1 \<or> rc' = counter_update i (rc_Cycle_update (\<lambda>_. 0xffffffff)) rc1"
    using assms unfolding psxRcntReset_def prod.case Let_def bind_res_Ok_iff rc1_def[symmetric]
    by (auto split: if_splits)
  ultimately show ?thesis by (auto simp only: rates_ok_simps)
qed

lemma rates_ok_timer: "rcnt_timer c i st = Ok st' \<Longrightarrow> rates_ok (fst st') = rates_ok (fst st)"
  by (cases st; cases st') (auto simp: rcnt_timer_def rates_ok_reset split: if_splits)

lemma rates_ok_update:
  assumes "psxRcntUpdate c (rc, m) = Ok (rc', m')"
  shows "rates_ok rc' = rates_ok rc"
proof -
  obtain st where st: "rcnt_vsync c (rc, m) = Ok st"
    and "bind_res (for_each [0, 1, 2] (rcnt_timer c) st)
           (\<lambda>st. Ok (psxRcntSet c (fst st), snd st)) = Ok (rc', m')"
    using assms unfolding psxRcntUpdate_def by (rule bind_res_OkE)
  then obtain st' where loop: "for_each [0, 1, 2] (rcnt_timer c) st = Ok st'"
    and rc': "rc' = psxRcntSet c (fst st')"
    by (auto elim!: bind_res_OkE simp del: for_each.simps)
  have "rates_ok (fst st) = rates_ok rc"
    using st by (auto simp: rcnt_vsync_def bind_res_Ok_iff split: if_splits)
  with loop have "rates_ok (fst st') = rates_ok rc"
    by (rule for_each_inv) (simp add: rates_ok_timer)
  then show ?thesis by (simp only: rc' rates_ok_simps)
qed

interpretation rcnt: invariant_of rcnt_start rcnt_step rates_ok
  by unfold_locales
    (auto simp: rcnt_start_def rates_ok_init rates_ok_wmode rates_ok_update elim!: rcnt_stepE)

lemma psxHu32_w32: "psxHu32 a m = load_u32 (psxHptr a) m" "psxHu32_set a v m = store_u32 (psxHptr a) v m"
  by (simp_all add: psxHu32_def psxHu32_set_def)

lemma hw_or_total:
  assumes "psxHu32 a m = Ok w"
  obtains m' where "hw_or a v m = Ok m'" "psxHu32 a m' = Ok (w OR v)"
proof -
  obtain m' where "bind_res (load_u32 (psxHptr a) m) (\<lambda>w. store_u32 (psxHptr a) (w OR v) m) = Ok m'"
    "load_u32 (psxHptr a) m' = Ok (w OR v)"
    using w32.update_cell[of "psxHptr a" m w "\<lambda>w. w OR v"] assms unfolding psxHu32_w32 by metis
  then show ?thesis by (intro that) (simp_all add: hw_or_def psxHu32_w32)
qed

lemma psxRcntReset_total:
  assumes "psxHu32 0x1070 m = Ok w" 
  obtains rc' m' where "psxRcntReset now i (rc, m) = Ok (rc', m')"
    "psxHu32 0x1070 m' = Ok (w OR rc_interrupt (psxCounters rc i))"
    "\<And>j. j \<noteq> i \<Longrightarrow> psxCounters rc' j = psxCounters rc j"
proof -
  obtain m' where m': "hw_or 0x1070 (rc_interrupt (psxCounters rc i)) m = Ok m'"
     "psxHu32 0x1070 m' = Ok (w OR rc_interrupt (psxCounters rc i))"
    using hw_or_total[OF assms] by blast
  show ?thesis
    by (rule that[of "fst (projr (psxRcntReset now i (rc, m)))" m'])
      (simp_all add: psxRcntReset_def Let_def m' psxRcntUpd_def)
qed

definition due_irq :: "u32 \<Rightarrow> nat \<Rightarrow> rcnts \<Rightarrow> u32" where
  "due_irq now i rc = (if counter_due now i rc then rc_interrupt (psxCounters rc i) else 0)"

lemma rcnt_timer_total:
  assumes "psxHu32 0x1070 m = Ok w" 
  obtains rc' m' where "rcnt_timer now i (rc, m) = Ok (rc', m')"
    "psxHu32 0x1070 m' = Ok (w OR due_irq now i rc)"
    "\<And>j. j \<noteq> i \<Longrightarrow> psxCounters rc' j = psxCounters rc j"
proof (cases "counter_due now i rc")
  case True
  obtain rc' m' where "psxRcntReset now i (rc, m) = Ok (rc', m')"
    "psxHu32 0x1070 m' = Ok (w OR rc_interrupt (psxCounters rc i))"
    "\<And>j. j \<noteq> i \<Longrightarrow> psxCounters rc' j = psxCounters rc j"
    using psxRcntReset_total[OF assms] by metis
  with True show ?thesis by (intro that[of rc' m']) (simp_all add: rcnt_timer_def due_irq_def)
next
  case False
  with assms show ?thesis by (intro that[of rc m]) (simp_all add: rcnt_timer_def due_irq_def)
qed

lemma due_irq_cong: "psxCounters rc' i = psxCounters rc i \<Longrightarrow> due_irq now i rc' = due_irq now i rc"
  by (simp add: due_irq_def counter_due_def)

lemma rcnt_vsync_total:
  assumes "psxHu32 0x1070 m = Ok w"
  obtains rc' m' where "rcnt_vsync now (rc, m) = Ok (rc', m')"
    "psxHu32 0x1070 m' = Ok (w OR (if counter_due now 3 rc then 1 else 0))"
    "\<And>j. j \<noteq> 3 \<Longrightarrow> psxCounters rc' j = psxCounters rc j"
proof (cases "counter_due now 3 rc")
  case True
  obtain m' where "hw_or 0x1070 1 m = Ok m'" "psxHu32 0x1070 m' = Ok (w OR 1)"
    using hw_or_total[OF assms] by metis
  with True show ?thesis
    by (intro that[of "psxRcntUpd now 3 rc" m']) (simp_all add: rcnt_vsync_def psxRcntUpd_def)
next
  case False
  with assms show ?thesis by (intro that[of rc m]) (simp_all add: rcnt_vsync_def)
qed

lemma dead_loop_min_spec:
  "dead_loop_min now cs xs l \<le>s l \<and>
   (\<forall>i \<in> set xs. armed (cs i) \<longrightarrow> dead_loop_min now cs xs l \<le>s remaining now (cs i)) \<and>
   (dead_loop_min now cs xs l = l \<or>
    (\<exists>i \<in> set xs. armed (cs i) \<and> dead_loop_min now cs xs l = remaining now (cs i)))"
proof (induction xs arbitrary: l)
  case (Cons x xs)
  show ?case
  proof (cases "armed (cs x)")
    case True
    let ?m = "if remaining now (cs x) <s l then remaining now (cs x) else l"
    have eq: "dead_loop_min now cs (x # xs) l = dead_loop_min now cs xs ?m"
      using True by (simp add: armed_def remaining_def Let_def)
    have "?m \<le>s l" "?m \<le>s remaining now (cs x)" by auto
    moreover note Cons.IH[of ?m]
    ultimately show ?thesis unfolding eq using True signed.order.trans by auto
  qed (use Cons in \<open>simp add: armed_def\<close>)
qed simp

lemma CounterDeadLoopSkip_cases:
  assumes "CounterDeadLoopSkip now rc \<noteq> now"
  defines "l \<equiv> dead_loop_min now (psxCounters rc) [0..<4] 0x7fffffff"
  shows "CounterDeadLoopSkip now rc = now + l" "0 <s l" "l \<le>s 0x7fffffff"
    "\<And>i. i < 4 \<Longrightarrow> armed (psxCounters rc i) \<Longrightarrow> l \<le>s remaining now (psxCounters rc i)"
    "l = 0x7fffffff \<or> (\<exists>i<4. armed (psxCounters rc i) \<and> l = remaining now (psxCounters rc i))"
proof -
  have "CounterDeadLoopSkip now rc = (if 0 <s l then now + l else now)"
    by (simp only: CounterDeadLoopSkip_def Let_def l_def)
  then show "CounterDeadLoopSkip now rc = now + l" "0 <s l" using assms(1) by (auto split: if_splits)
  have "(0::nat) \<le> i" for i by simp
  then show "l \<le>s 0x7fffffff"
    "\<And>i. i < 4 \<Longrightarrow> armed (psxCounters rc i) \<Longrightarrow> l \<le>s remaining now (psxCounters rc i)"
    "l = 0x7fffffff \<or> (\<exists>i<4. armed (psxCounters rc i) \<and> l = remaining now (psxCounters rc i))"
    using dead_loop_min_spec[of now "psxCounters rc" "[0..<4]" "0x7fffffff"]
    unfolding l_def[symmetric] set_upt atLeastLessThan_iff Ball_def Bex_def by blast+
qed

lemma sless_zero_32: "0 <s (w :: u32) \<Longrightarrow> 0 \<le>s w"
  by auto

lemma not_due_before:
  assumes e: "now - rc_sCycle (psxCounters rc i) < 0x80000000"
    and l: "0 <s l" "l \<le>s 0x7fffffff" "armed (psxCounters rc i) \<Longrightarrow> l \<le>s remaining now (psxCounters rc i)"
    and d: "d < l"
  shows "\<not> counter_due (now + d) i rc"
proof -
  let ?c = "psxCounters rc i"
  define e where "e = now - rc_sCycle ?c"
  have el: "now + d - rc_sCycle ?c = e + d" by (simp add: e_def)
  have e: "e < 0x80000000" using e by (simp add: e_def)
  note l0 = sless_zero_32[OF l(1)]
  show ?thesis
  proof (cases "armed ?c")
    case True
    have "0 \<le>s remaining now ?c" "d < remaining now ?c"
      using nonneg_sle_le[OF l0] l(3)[OF True] order_less_le_trans[OF d] by blast+
    then have "\<not> rc_Cycle ?c \<le> e + d"
      by (intro not_due[OF e, of "remaining now ?c"]) (simp_all add: remaining_def e_def)
    then show ?thesis by (simp add: counter_due_def el)
  next
    case False
    have "l \<le> 0x7fffffff" using nonneg_sle_le[OF l0 l(2)] by simp
    then have "\<not> 0xffffffff \<le> e + d"
      using e d uint_range_32[of e] uint_range_32[of d]
      by (auto simp: word_le_def word_less_def uint_plus_32)
    then show ?thesis using False by (simp add: counter_due_def el armed_def)
  qed
qed

section \<open>Properties\<close>

text \<open>Four counters, each due 100 cycles after cycle 0, and memory after a fresh start.\<close>

definition sample_rcnts :: rcnts where
  "sample_rcnts = \<lparr>psxCounters = (\<lambda>_. \<lparr>rc_count = 0, rc_mode = 0x58, rc_target = 1, rc_sCycle = 0,
     rc_Cycle = 100, rc_rate = 1, rc_interrupt = 0x10\<rparr>), psxNextCounter = 0, psxNextsCounter = 0,
     cnts = 4, last_cycle = 0\<rparr>"

definition zero_mem :: psxmem where
  "zero_mem = psxMemInit (\<lambda>_ _. 0)"

text \<open>C13: scheduling. When \<open>psxRcntSet\<close> has computed the time of the next event, no counter is due at
  any later cycle before that time; the interpreter can therefore skip \<open>psxRcntUpdate\<close> until then.
  The hypothesis says that no counter was last updated more than \<open>2 ^ 31\<close> cycles ago.\<close>
theorem psxRcntSet_misses_none:
  assumes "\<forall>i < cnts rc. now - rc_sCycle (psxCounters rc i) < 0x80000000"
    and "later - psxNextsCounter (psxRcntSet now rc) < psxNextCounter (psxRcntSet now rc)"
    and "i < cnts rc"
  shows "\<not> counter_due later i (psxRcntSet now rc)"
proof -
  let ?c = "psxCounters rc i" and ?r = "psxNextCounter (psxRcntSet now rc)"
  define e where "e = now - rc_sCycle ?c"
  have e: "e < 0x80000000" using assms by (simp add: e_def)
  have r: "0 \<le>s ?r" "?r \<le>s 0x7fffffff" "?r \<noteq> 0 \<Longrightarrow> armed ?c \<Longrightarrow> ?r \<le>s remaining now ?c"
    using rcnt_scan_spec[of "0x7fffffff" now "psxCounters rc" "[0..<cnts rc]"] assms(3)
    by (auto simp: psxRcntSet_def sle_zero_32)
  have d: "later - now < ?r" using assms(2) by (simp add: psxRcntSet_def)
  then have "?r \<noteq> 0" by auto
  have el: "later - rc_sCycle ?c = e + (later - now)" by (simp add: e_def)
  show ?thesis
  proof (cases "armed ?c")
    case True
    have "?r \<le>s remaining now ?c" using r(3) \<open>?r \<noteq> 0\<close> True by simp
    then have "0 \<le>s remaining now ?c" "later - now < remaining now ?c"
      using nonneg_sle_le[OF r(1)] order_less_le_trans[OF d] by blast+
    then have "\<not> rc_Cycle ?c \<le> e + (later - now)"
      by (intro not_due[OF e, of "remaining now ?c"]) (simp_all add: remaining_def e_def)
    then show ?thesis by (simp add: counter_due_def el psxRcntSet_def)
  next
    case False
    have "?r \<le> 0x7fffffff" using nonneg_sle_le[OF r(1,2)] by simp
    then have "\<not> 0xffffffff \<le> e + (later - now)"
      using e d uint_range_32[of e] uint_range_32[of "later - now"]
      by (auto simp: word_le_def word_less_def uint_plus_32)
    then show ?thesis using False by (simp add: counter_due_def el psxRcntSet_def armed_def)
  qed
qed


theorem psxRcntSet_misses_none_witness:
  "\<not> counter_due 50 2 (psxRcntSet 0 sample_rcnts)"
  by (rule psxRcntSet_misses_none) (simp_all add: sample_rcnts_def psxRcntSet_def upt_small word_sless_alt)

text \<open>In every state the counters can reach from \<open>psxRcntInit\<close> by writes to their ports and by
  updates, reading a counter returns a 16-bit value: the division by the rate is never by zero.\<close>
theorem psxRcntRcount_total:
  assumes "reach rcnt_start rcnt_step rc" and "i < 4"
  shows "\<exists>v. psxRcntRcount c i rc = Ok v \<and> v < 0x10000"
proof -
  have ok: "rates_ok rc" by (rule rcnt.reach_inv[OF assms(1)])
  have "rc_rate (psxCounters rc i) \<noteq> 0"
  proof (cases "i = 3")
    case False
    then have "i < 3" using assms(2) by linarith
    then have "rc_rate (psxCounters rc i) \<in> {1, 5, 8, 2154}"
      using ok unfolding rates_ok_def by blast
    then show ?thesis by auto
  qed (use ok in \<open>simp add: rates_ok_def\<close>)
  moreover have "x AND 0xffff < 0x10000" for x :: u32
    using word_and_le1[of x "0xffff"] by (rule order.strict_trans1) simp
  ultimately show ?thesis by (simp add: psxRcntRcount_def Let_def)
qed

theorem psxRcntRcount_total_witness:
  "\<exists>v. psxRcntRcount 1000 1 (psxRcntWmode 10 1 0x100 (psxRcntInit 0 sample_rcnts)) = Ok v \<and> v < 0x10000"
proof (rule psxRcntRcount_total)
  have "reach rcnt_start rcnt_step (psxRcntInit 0 sample_rcnts)"
    by (rule reach_init) (unfold rcnt_start_def, blast)
  then show "reach rcnt_start rcnt_step (psxRcntWmode 10 1 0x100 (psxRcntInit 0 sample_rcnts))"
    by (rule reach_step) (simp add: st_mode)
qed simp

text \<open>\<open>psxRcntUpdate\<close> never faults, and the interrupts it raises in \<^verbatim>\<open>I_STAT\<close> are exactly those
  of the counters that are due (VSync and timers 0 to 2), added to what was pending.\<close>
theorem psxRcntUpdate_raises:
  assumes "psxHu32 0x1070 m = Ok w"
  shows "\<exists>rc' m'. psxRcntUpdate now (rc, m) = Ok (rc', m') \<and>
    psxHu32 0x1070 m' = Ok (w OR (if counter_due now 3 rc then 1 else 0) OR
      due_irq now 0 rc OR due_irq now 1 rc OR due_irq now 2 rc)"
proof -
  obtain rc3 m3 where 3: "rcnt_vsync now (rc, m) = Ok (rc3, m3)"
    "psxHu32 0x1070 m3 = Ok (w OR (if counter_due now 3 rc then 1 else 0))"
    "\<And>j. j \<noteq> 3 \<Longrightarrow> psxCounters rc3 j = psxCounters rc j"
    by (rule rcnt_vsync_total[OF assms, of now rc]) (rule that)
  obtain rc0 m0 where 0: "rcnt_timer now 0 (rc3, m3) = Ok (rc0, m0)"
    "psxHu32 0x1070 m0 = Ok ((w OR (if counter_due now 3 rc then 1 else 0)) OR due_irq now 0 rc3)"
    "\<And>j. j \<noteq> 0 \<Longrightarrow> psxCounters rc0 j = psxCounters rc3 j"
    by (rule rcnt_timer_total[OF 3(2), of now 0 rc3]) (rule that)
  obtain rc1 m1 where 1: "rcnt_timer now 1 (rc0, m0) = Ok (rc1, m1)"
    "psxHu32 0x1070 m1 = Ok (((w OR (if counter_due now 3 rc then 1 else 0)) OR due_irq now 0 rc3)
       OR due_irq now 1 rc0)"
    "\<And>j. j \<noteq> 1 \<Longrightarrow> psxCounters rc1 j = psxCounters rc0 j"
    by (rule rcnt_timer_total[OF 0(2), of now 1 rc0]) (rule that)
  obtain rc2 m2 where 2: "rcnt_timer now 2 (rc1, m1) = Ok (rc2, m2)"
    "psxHu32 0x1070 m2 = Ok ((((w OR (if counter_due now 3 rc then 1 else 0)) OR due_irq now 0 rc3)
       OR due_irq now 1 rc0) OR due_irq now 2 rc1)"
    by (rule rcnt_timer_total[OF 1(2), of now 2 rc1]) (rule that)
  have "due_irq now 0 rc3 = due_irq now 0 rc" "due_irq now 1 rc0 = due_irq now 1 rc"
    "due_irq now 2 rc1 = due_irq now 2 rc"
    by (rule due_irq_cong; simp add: 3(3) 0(3) 1(3))+
  then show ?thesis using 0(1) 1(1) 2 3(1) by (simp add: psxRcntUpdate_def or.assoc)
qed

theorem psxRcntUpdate_raises_witness:
  "\<exists>rc' m'. psxRcntUpdate 200 (sample_rcnts, zero_mem) = Ok (rc', m') \<and>
    psxHu32 0x1070 m' = Ok (0 OR (if counter_due 200 3 sample_rcnts then 1 else 0) OR
      due_irq 200 0 sample_rcnts OR due_irq 200 1 sample_rcnts OR due_irq 200 2 sample_rcnts)"
  by (rule psxRcntUpdate_raises)
    (simp add: zero_mem_def psxMemInit_def psxHu32_def psxHptr_def le32_def)

text \<open>A counter in wrap-at-target mode counts from the value written to it, by \<open>BIAS\<close> for each
  period of its rate, modulo \<open>2 ^ 16\<close>.\<close>
theorem psxRcntRcount_counts:
  assumes "rc_mode (psxCounters rc i) AND 0x08 \<noteq> 0" and "rc_rate (psxCounters rc i) \<noteq> 0"
  shows "psxRcntRcount later i (psxRcntWcount now i v rc) =
     Ok ((v + BIAS * ((later - now) div rc_rate (psxCounters rc i))) AND 0xffff)"
  using assms by (simp add: psxRcntRcount_def psxRcntWcount_def Let_def)

theorem psxRcntRcount_counts_witness:
  "psxRcntRcount 15 1 (psxRcntWcount 5 1 7 sample_rcnts) = Ok 27"
  using psxRcntRcount_counts[of sample_rcnts 1 15 5 7] by (simp add: sample_rcnts_def BIAS_def)

text \<open>Skipping an idle loop is exact. When \<open>CounterDeadLoopSkip\<close> advances the cycle counter, no
  counter is due at any cycle it skips, and one is due at the cycle it stops at (unless the skip
  is the maximal one).\<close>
theorem CounterDeadLoopSkip_exact:
  assumes "\<forall>i < 4. now - rc_sCycle (psxCounters rc i) < 0x80000000"
    and "later = CounterDeadLoopSkip now rc" and "later \<noteq> now"
  shows "(\<forall>i < 4. \<forall>d < later - now. \<not> counter_due (now + d) i rc) \<and>
    (later - now = 0x7fffffff \<or> (\<exists>i < 4. counter_due later i rc))"
proof -
  define l where "l = dead_loop_min now (psxCounters rc) [0..<4] 0x7fffffff"
  note c = CounterDeadLoopSkip_cases[of now rc, folded assms(2) l_def, OF assms(3)]
  have l: "later - now = l" using c(1) by simp
  have "\<not> counter_due (now + d) i rc" if "i < 4" "d < l" for i d
    using assms(1) that by (intro not_due_before[where l = l] c(2-4)) auto
  moreover have "counter_due later i rc" if "l = remaining now (psxCounters rc i)" for i
    using that by (simp add: counter_due_def c(1) remaining_def)
  ultimately show ?thesis unfolding l using c(5) by blast
qed

theorem CounterDeadLoopSkip_exact_witness:
  "CounterDeadLoopSkip 0 sample_rcnts = 100 \<and> \<not> counter_due 99 2 sample_rcnts"
proof -
  have skip: "CounterDeadLoopSkip 0 sample_rcnts = 100"
    by (simp add: sample_rcnts_def CounterDeadLoopSkip_def Let_def upt_small word_sless_alt)
  have "\<forall>i < 4. 0 - rc_sCycle (psxCounters sample_rcnts i) < 0x80000000" "(100 :: u32) \<noteq> 0"
    by (simp_all add: sample_rcnts_def)
  then have "\<forall>i < 4. \<forall>d < 100 - 0. \<not> counter_due (0 + d) i sample_rcnts"
    using CounterDeadLoopSkip_exact[OF _ skip[symmetric]] by blast
  moreover have "2 < (4::nat)" "99 < (100 - 0 :: u32)" by simp_all
  ultimately have "\<not> counter_due (0 + 99) 2 sample_rcnts" by blast
  then show ?thesis using skip by simp
qed

end
