(* ===== verification/SpuMixer.thy ===== *)
theory SpuMixer
  imports Adsr SpuGauss SpuReverb SpuDma PsxCounters
begin

text \<open>
  The mixer of \<^verbatim>\<open>psf/spu/spu.c\<close>: ADPCM decoding, the per-channel sample step, the sample
  loop of \<open>SPUasync\<close>, song length, seeking and silence detection, and set-up and shutdown.
  A channel step can raise the sound interrupt in the hardware registers, so it acts on the
  pair of sound processor and memory. Signed overflow in the mixing arithmetic wraps.
\<close>

section \<open>The sound interrupt (Spu.c)\<close>

definition SPUirq :: "psxmem \<Rightarrow> psxmem res" where
  "SPUirq m = hw_or 0x1070 0x200 m"

section \<open>ADPCM\<close>

definition filter_tab :: "(s32 \<times> s32) list" where
  "filter_tab = [(0, 0), (60, 0), (115, - 52), (98, - 55), (122, - 60)]"

definition spu_byte :: "spu \<Rightarrow> int \<Rightarrow> u8 res" where
  "spu_byte s k = require (0 \<le> k \<and> k < 0x80000) OutOfBounds
     (Ok (byte_of (nat (k mod 2)) (spuMem s (nat (k div 2)))))"

definition nibble_low :: "u8 \<Rightarrow> s32" where
  "nibble_low d = (let s = push_bit 12 (ucast d AND 0xf) in
     if s AND 0x8000 \<noteq> 0 then s OR 0xffff0000 else s)"

definition nibble_high :: "u8 \<Rightarrow> s32" where
  "nibble_high d = (let s = push_bit 8 (ucast d AND 0xf0) in
     if s AND 0x8000 \<noteq> 0 then s OR 0xffff0000 else s)"

definition adpcm_one :: "nat \<Rightarrow> s32 \<times> s32 \<Rightarrow> s32 \<Rightarrow> s32 \<times> s32 \<Rightarrow> s32" where
  "adpcm_one shift k s hist = signed_drop_bit shift s
     + signed_drop_bit 6 (fst hist * fst k) + signed_drop_bit 6 (snd hist * snd k)"

text \<open>\<open>adpcm_bytes\<close> decodes the data bytes of a block; \<open>hist\<close> is the pair \<^verbatim>\<open>s_1\<close>, \<^verbatim>\<open>s_2\<close>.\<close>

fun adpcm_bytes :: "nat \<Rightarrow> s32 \<times> s32 \<Rightarrow> u8 list \<Rightarrow> s32 \<times> s32 \<Rightarrow> s32 list \<times> (s32 \<times> s32)" where
  "adpcm_bytes shift k [] hist = ([], hist)"
| "adpcm_bytes shift k (d # ds) hist =
     (let a = adpcm_one shift k (nibble_low d) hist;
          b = adpcm_one shift k (nibble_high d) (a, fst hist);
          (out, h) = adpcm_bytes shift k ds (b, a)
      in (a # b # out, h))"

primrec spu_bytes :: "nat \<Rightarrow> int \<Rightarrow> spu \<Rightarrow> u8 list res" where
  "spu_bytes 0 k s = Ok []"
| "spu_bytes (Suc n) k s = bind_res (spu_byte s k) (\<lambda>b.
     bind_res (spu_bytes n (k + 1) s) (\<lambda>bs. Ok (b # bs)))"

text \<open>The comparisons \<^verbatim>\<open>p > q - 16 && p <= q\<close> of the interrupt check; NULL is below every block.\<close>

definition irq_window :: "spuptr \<Rightarrow> spuptr \<Rightarrow> bool" where
  "irq_window p q = (case (p, q) of (SpuAt i, SpuAt j) \<Rightarrow> j - 16 < i \<and> i \<le> j | _ \<Rightarrow> False)"

definition block_irq :: "u8 \<Rightarrow> spuptr \<Rightarrow> SPUCHAN \<Rightarrow> spu \<Rightarrow> bool" where
  "block_irq flags start c s \<longleftrightarrow> spuCtrl s AND 0x40 \<noteq> 0 \<and>
     (irq_window (pSpuIrq s) start \<or> (flags AND 1 \<noteq> 0 \<and> irq_window (pSpuIrq s) (pLoop c)))"

definition block_flags :: "u8 \<Rightarrow> int \<Rightarrow> SPUCHAN \<Rightarrow> SPUCHAN" where
  "block_flags flags start c =
     (let c1 = (if flags AND 4 \<noteq> 0 \<and> \<not> bIgnoreLoop c then c\<lparr>pLoop := SpuAt (start - 16)\<rparr> else c)
      in c1\<lparr>pCurr :=
        (if flags AND 1 \<noteq> 0 then
           if flags \<noteq> 3 \<or> pLoop c1 = SpuNull then SpuStop else pLoop c1
         else SpuAt start)\<rparr>)"

text \<open>
  \<open>decode_block\<close> is the body of \<^verbatim>\<open>if (iSBPos == 28)\<close>; \<open>False\<close> in the result is the
  \<^verbatim>\<open>goto ENDX\<close> of the stop sign.
\<close>

definition decode_block :: "nat \<Rightarrow> spu \<times> psxmem \<Rightarrow> (bool \<times> spu \<times> psxmem) res" where
  "decode_block ch st = (case st of (s, m) \<Rightarrow>
     let c = s_chan s ch in
     case pCurr c of
       SpuNull \<Rightarrow> Fail NullPointer
     | SpuStop \<Rightarrow> Ok (False, chan_update ch (\<lambda>c. c\<lparr>bOn := False,
         ADSRX := (ADSRX c)\<lparr>lVolume := 0, EnvelopeVol := 0\<rparr>\<rparr>) s, m)
     | SpuAt p \<Rightarrow>
         bind_res (spu_bytes 16 p s) (\<lambda>blk.
         let head = blk ! 0; flags = blk ! 1; pred = unat (drop_bit 4 head);
             shift = unat (head AND 0xf); start = p + 16 in
         require (pred < length filter_tab) OutOfBounds (
         let (out, h) = adpcm_bytes shift (filter_tab ! pred) (drop 2 blk) (s_1 c, s_2 c);
             irq = block_irq flags (SpuAt start) c s in
         bind_res (if irq then SPUirq m else Ok m) (\<lambda>m1.
         Ok (True, chan_update ch (\<lambda>c. (block_flags flags start c)\<lparr>
               iSBPos := 0, SB := (\<lambda>i. if i < 28 then out ! i else SB c i),
               iIrqDone := (iIrqDone c \<or> irq), s_1 := fst h, s_2 := snd h\<rparr>) s, m1)))))"

section \<open>One sample of one channel\<close>

definition StartSound :: "nat \<Rightarrow> spu \<Rightarrow> spu" where
  "StartSound ch = chan_update ch (\<lambda>c. (StartADSR c)\<lparr>
     pCurr := pStart c, s_1 := 0, s_2 := 0, iSBPos := 28, bNew := False, bStop := False,
     bOn := True, SB := (SB c)(29 := 0, 30 := 0, 28 := 0), spos := 0x40000\<rparr>)"

definition clip15 :: "s32 \<Rightarrow> s32" where
  "clip15 x = (let y = (if 32767 <s x then 32767 else x) in if y <s - 32767 then - 32767 else y)"

text \<open>
  \<open>fetch_sample\<close> takes the next decoded sample into the four-entry ring of the
  interpolation (\<^verbatim>\<open>SB[29..32]\<close>, cursor in \<^verbatim>\<open>SB[28]\<close>); \<open>fetch\<close> is the loop around it, with
  \<open>False\<close> for the exit at the stop sign.
\<close>

definition fetch_sample :: "nat \<Rightarrow> spu \<Rightarrow> spu res" where
  "fetch_sample ch s =
     (let c = s_chan s ch; gpos = unat (SB c 28);
          fa = (if spuCtrl s AND 0x4000 = 0 then 0 else clip15 (SB c (iSBPos c))) in
      require (iSBPos c < 33 \<and> gpos < 4) OutOfBounds (
      Ok (chan_update ch (\<lambda>c. c\<lparr>iSBPos := iSBPos c + 1,
            SB := (SB c)(29 + gpos := fa, 28 := (SB c 28 + 1) AND 3),
            spos := spos c - 0x10000\<rparr>) s)))"

primrec fetch :: "nat \<Rightarrow> nat \<Rightarrow> spu \<times> psxmem \<Rightarrow> (bool \<times> spu \<times> psxmem) res" where
  "fetch 0 ch st = Fail OutOfFuel"
| "fetch (Suc n) ch st =
     (if spos (s_chan (fst st) ch) <s 0x10000 then Ok (True, st)
      else bind_res (if iSBPos (s_chan (fst st) ch) = 28 then decode_block ch st else Ok (True, st))
        (\<lambda>(go, s1, m1). if \<not> go then Ok (False, s1, m1)
          else bind_res (fetch_sample ch s1) (\<lambda>s2. fetch n ch (s2, m1))))"

definition fetch_fuel :: nat where "fetch_fuel = 0x8000"

text \<open>The noise generator; the result is the sample and the new state.\<close>

definition noise_sample :: "nat \<Rightarrow> spu \<Rightarrow> s32 \<times> spu" where
  "noise_sample ch s =
     (let d = push_bit 1 (dwNoiseVal s);
          (d1, fa) = (if d AND 0x80000000 \<noteq> 0 then
                        let d1 = d XOR 0x0040001 in (d1, - (drop_bit 2 d1 AND 0x7fff))
                      else (d, drop_bit 2 d AND 0x7fff));
          old = iOldNoise (s_chan s ch);
          n = ucast (drop_bit 9 (spuCtrl s AND 0x3f00)) :: s32;
          fb = clip15 (old + c_div (fa - old) ((0x1f - n) + 1))
      in (fb, chan_update ch (iOldNoise_update (\<lambda>_. fb)) (s\<lparr>dwNoiseVal := d1\<rparr>)))"

definition gauss_sample :: "SPUCHAN \<Rightarrow> s32 res" where
  "gauss_sample c =
     (let vl = signed_drop_bit 6 (spos c) AND NOT 3; gpos = unat (SB c 28);
          g = (\<lambda>x. SB c (29 + (gpos + x) mod 4)) in
      require (0 \<le> sint vl \<and> sint vl + 3 < 1024 \<and> gpos < 4) OutOfBounds
        (Ok (signed_drop_bit 2 (gauss_sum (unat vl) (g 0) (g 1) (g 2) (g 3)))))"

text \<open>The frequency-modulation branch, which retunes the next channel.\<close>

definition fmod_next :: "s32 \<Rightarrow> SPUCHAN \<Rightarrow> SPUCHAN" where
  "fmod_next sv c =
     (let NP0 = sint (word_of_int (((32768 + sint sv) * sint (iRawPitch c)) div 32768) :: s32);
          NP1 = (if NP0 > 0x3fff then 0x3fff else NP0);
          NP2 = (if NP1 < 1 then 1 else NP1);
          NP = (44100 * NP2) div 4096;
          sc = ((NP div 10) * 65536) div 4410
      in c\<lparr>iActFreq := word_of_int NP, iUsedFreq := word_of_int NP,
           sinc := (if sc = 0 then 1 else word_of_int sc)\<rparr>)"

text \<open>The accumulators of one output sample: \<^verbatim>\<open>sl\<close>, \<^verbatim>\<open>sr\<close>, \<^verbatim>\<open>revLeft\<close>, \<^verbatim>\<open>revRight\<close>.\<close>

type_synonym accs = "s32 \<times> s32 \<times> s32 \<times> s32"

definition mix_out :: "nat \<Rightarrow> spu \<Rightarrow> accs \<Rightarrow> accs" where
  "mix_out ch s acc = (case acc of (sl, sr, rl, rr) \<Rightarrow>
     let c = s_chan s ch;
         tmpl = signed_drop_bit 14 (sval c * iLeftVolume c);
         tmpr = signed_drop_bit 14 (sval c * iRightVolume c);
         rv = (signed_drop_bit ch (Enabled (rvb s)) AND 1 \<noteq> 0 \<and> spuCtrl s AND 0x80 \<noteq> 0)
     in (sl + tmpl, sr + tmpr, if rv then rl + tmpl else rl, if rv then rr + tmpr else rr))"

definition take_pitch :: "SPUCHAN \<Rightarrow> SPUCHAN" where
  "take_pitch c =
     (if iActFreq c \<noteq> iUsedFreq c
      then c\<lparr>iUsedFreq := iActFreq c,
             sinc := (if push_bit 4 (iRawPitch c) = 0 then 1 else push_bit 4 (iRawPitch c))\<rparr>
      else c)"

text \<open>The raw sample of a channel, and what is done with it: envelope, modulation or mixing, advance.\<close>

definition raw_sample :: "nat \<Rightarrow> spu \<Rightarrow> (s32 \<times> spu) res" where
  "raw_sample ch s =
     (if bNoise (s_chan s ch) then Ok (noise_sample ch s)
      else bind_res (gauss_sample (s_chan s ch)) (\<lambda>fa. Ok (fa, s)))"

definition apply_sample :: "nat \<Rightarrow> accs \<Rightarrow> spu \<Rightarrow> accs \<times> spu" where
  "apply_sample ch acc s =
     (let r = (if bFMod (s_chan s ch) = 2
               then (acc, chan_update (ch + 1) (fmod_next (sval (s_chan s ch))) s)
               else (mix_out ch s acc, s))
      in (fst r, chan_update ch (\<lambda>c. c\<lparr>spos := spos c + sinc c\<rparr>) (snd r)))"

definition play_sample :: "nat \<Rightarrow> accs \<Rightarrow> spu \<Rightarrow> (accs \<times> spu) res" where
  "play_sample ch acc s =
     bind_res (raw_sample ch s) (\<lambda>(fa, s1).
     bind_res (MixADSR (RateTable s1) (s_chan s1 ch)) (\<lambda>(vol, c).
     Ok (apply_sample ch acc (chan_update ch (\<lambda>_. c\<lparr>sval := signed_drop_bit 10 (vol * fa)\<rparr>) s1))))"

definition channel_step :: "nat \<Rightarrow> accs \<times> spu \<times> psxmem \<Rightarrow> (accs \<times> spu \<times> psxmem) res" where
  "channel_step ch ast = (case ast of (acc, s, m) \<Rightarrow>
     if muted_channels s ch then Ok ast
     else
       let s1 = (if bNew (s_chan s ch) then StartSound ch s else s) in
       if \<not> bOn (s_chan s1 ch) then Ok (acc, s1, m)
       else bind_res (fetch fetch_fuel ch (chan_update ch take_pitch s1, m)) (\<lambda>(go, s2, m1).
         if \<not> go then Ok (acc, s2, m1)
         else bind_res (play_sample ch acc s2) (\<lambda>(acc1, s3). Ok (acc1, s3, m1))))"

section \<open>Song length and silence\<close>

definition SilenceThreshold :: u32 where "SilenceThreshold = 3 * 44100"

definition NonSilenceThreshold :: u32 where "NonSilenceThreshold = 15 * 44100"

definition SpuShouldGotoExit :: "spu \<Rightarrow> bool \<times> spu" where
  "SpuShouldGotoExit s =
     (if shouldInfiniteLoop s then
        if decayend s = 0 then (True, s)
        else if sampcount s \<ge> decayend s then
          let s1 = (if \<not> shouldCheckSilence s \<and> nonSilenceSample s < NonSilenceThreshold
                    then s\<lparr>shouldCheckSilence := True\<rparr>
                    else if shouldCheckSilence s \<and> nonSilenceSample s \<ge> NonSilenceThreshold
                    then s\<lparr>shouldCheckSilence := False\<rparr>
                    else s)
          in (silenceSamples s1 \<ge> SilenceThreshold, s1)
        else (False, s)
      else (sampcount s \<ge> decaybegin s, s))"

definition out_byte :: "spu \<Rightarrow> nat \<Rightarrow> u8" where
  "out_byte s i = byte_of (i mod 2) (outbuf s (i div 2))"

definition CheckSilenceSamples :: "u32 \<Rightarrow> spu \<Rightarrow> spu" where
  "CheckSilenceSamples count s =
     (let zeroCount = of_nat (length (filter (\<lambda>i. out_byte s i = 0) [0..<unat count])) in
      if zeroCount > count div 2
      then s\<lparr>silenceSamples := silenceSamples s + count div 2\<rparr>
      else s\<lparr>nonSilenceSample := nonSilenceSample s + count div 2\<rparr>)"

definition SPUsetlength :: "s32 \<Rightarrow> s32 \<Rightarrow> spu \<Rightarrow> spu" where
  "SPUsetlength stop fade s =
     (let s1 = (if stop = - 1 then s\<lparr>decaybegin := - 1\<rparr>
                else let st = c_div (stop * 441) 10; fd = c_div (fade * 441) 10
                  in s\<lparr>decaybegin := st, decayend := st + fd\<rparr>)
      in s1\<lparr>shouldCheckSilence := False, shouldInfiniteLoop := False,
            silenceSamples := 0, nonSilenceSample := 0\<rparr>)"

definition SPUSetInfiniteLoop :: "s32 \<Rightarrow> spu \<Rightarrow> spu" where
  "SPUSetInfiniteLoop v s = s\<lparr>shouldInfiniteLoop := (v \<noteq> 0)\<rparr>"

definition sexy_seek :: "u32 \<Rightarrow> spu \<Rightarrow> s32 \<times> spu" where
  "sexy_seek t s =
     (let s1 = s\<lparr>seektime := t * 441 div 10\<rparr> in
      (if seektime s1 > sampcount s1 then 1 else 0, s1))"

definition my_sexy_seek :: "s32 \<Rightarrow> spu \<Rightarrow> s32 \<times> spu" where
  "my_sexy_seek t s =
     (let st = sampcount s + c_div (t * 441) 10;
          s1 = s\<lparr>seektime := (if st <s 0 then 0 else st)\<rparr> in
      (c_div (seektime s1 * 10) 441, s1))"

definition my_sexy_get_cur_time :: "spu \<Rightarrow> s32" where
  "my_sexy_get_cur_time s = sampcount s * 10 div 441"

definition sexy_stop :: "spu \<Rightarrow> spu" where
  "sexy_stop s = s\<lparr>decaybegin := 0, decayend := 0\<rparr>"

section \<open>The sample loop\<close>

definition put_sample :: "s32 \<Rightarrow> s32 \<Rightarrow> spu \<Rightarrow> spu res" where
  "put_sample sl sr s = require (bSPUIsOpen s \<and> pNextSample s + 2 \<le> out_words) OutOfBounds
     (Ok (s\<lparr>outbuf := (outbuf s)(pNextSample s := ucast (clip15 sl), pNextSample s + 1 := ucast (clip15 sr)),
            pNextSample := pNextSample s + 2\<rparr>))"

text \<open>
  The fade of one sample pair: \<open>None\<close> is the \<^verbatim>\<open>return (0)\<close> at the end of the song. A zero
  divisor is the fault \<^verbatim>\<open>Undefined\<close>.
\<close>

definition fade_samples :: "s32 \<times> s32 \<Rightarrow> spu \<Rightarrow> (s32 \<times> s32) option res" where
  "fade_samples io s =
     (if decaybegin s = - 1 then Ok (Some io)
      else if sampcount s \<ge> decayend s then Ok None
      else require (decayend s - decaybegin s \<noteq> 0) Undefined (
        let dmul = 256 - (256 * (sampcount s - decaybegin s) div (decayend s - decaybegin s)) in
        Ok (Some (signed_drop_bit 8 (fst io * dmul), signed_drop_bit 8 (snd io * dmul)))))"

text \<open>
  One run of the \<^verbatim>\<open>while (temp)\<close> body; \<open>False\<close> is \<^verbatim>\<open>return (0)\<close>. \<open>finish_sample\<close> is its end: song
  length, fade, volume and output.
\<close>

definition finish_sample :: "s32 \<times> s32 \<Rightarrow> spu \<Rightarrow> (bool \<times> spu) res" where
  "finish_sample io s =
     (let s1 = snd (SpuShouldGotoExit s) in
      bind_res (if fst (SpuShouldGotoExit s) then fade_samples io s1 else Ok (Some io)) (\<lambda>r.
      case r of
        None \<Rightarrow> Ok (False, s1)
      | Some p \<Rightarrow>
          bind_res (put_sample (signed_drop_bit 8 (fst p * iVolume s)) (signed_drop_bit 8 (snd p * iVolume s))
            (s1\<lparr>sampcount := sampcount s1 + 1\<rparr>)) (\<lambda>s2. Ok (True, s2))))"

definition mix_sample :: "spu \<times> psxmem \<Rightarrow> (bool \<times> spu \<times> psxmem) res" where
  "mix_sample st =
     bind_res (for_each [0..<MAXCHAN] channel_step ((0, 0, 0, 0), st)) (\<lambda>((sl, sr, rl, rr), s1, m1).
     bind_res (MixREVERBLeftRight (sl, sr) rl rr s1) (\<lambda>(io, s2).
     bind_res (finish_sample io s2) (\<lambda>(go, s3). Ok (go, s3, m1))))"

primrec mix_loop :: "nat \<Rightarrow> spu \<times> psxmem \<Rightarrow> (bool \<times> spu \<times> psxmem) res" where
  "mix_loop 0 st = Ok (True, st)"
| "mix_loop (Suc n) st = bind_res (mix_sample st) (\<lambda>(go, st1).
     if go then mix_loop n st1 else Ok (False, st1))"

definition SPUasync :: "u32 \<Rightarrow> spu \<times> psxmem \<Rightarrow> (bool \<times> spu \<times> psxmem) res" where
  "SPUasync cycles st = (case st of (s, m) \<Rightarrow>
     let p = poo s + cycles; dosampies = c_div p 384 in
     if dosampies = 0 then Ok (True, s\<lparr>poo := p\<rparr>, m)
     else mix_loop (unat dosampies) (s\<lparr>poo := p - dosampies * 384\<rparr>, m))"

text \<open>The second component of the result is \<^verbatim>\<open>*executed\<close>.\<close>

definition SPUendflush :: "u64 \<Rightarrow> spu \<Rightarrow> spu \<times> u64" where
  "SPUendflush executed s =
     (if seektime s \<noteq> - 1 \<and> seektime s > sampcount s then (s\<lparr>pNextSample := 0\<rparr>, executed)
      else if 2 * pNextSample s > 1024 then
        let s1 = s\<lparr>g_sound_buffer_size := 2 * pNextSample s\<rparr>;
            s2 = (if shouldCheckSilence s1
                  then CheckSilenceSamples (of_nat (2 * pNextSample s)) s1 else s1)
        in (s2, 0)
      else (s\<lparr>g_sound_buffer_size := 0\<rparr>, executed))"

section \<open>Set-up and shutdown\<close>

definition SPUinit :: "spu \<Rightarrow> spu" where
  "SPUinit s = s\<lparr>s_chan := (\<lambda>i. if i < MAXCHAN then zero_chan else s_chan s i), rvb := zero_rvb,
     regArea := (\<lambda>_. 0), spuMem := (\<lambda>_. 0), RateTable := InitADSR, sampcount := 0, poo := 0,
     seektime := - 1\<rparr>"

text \<open>What the fresh mixing buffer holds is the argument \<open>junk\<close>.\<close>

definition SetupStreams :: "(nat \<Rightarrow> s16) \<Rightarrow> spu \<Rightarrow> spu" where
  "SetupStreams junk s = s\<lparr>outbuf := junk, pNextSample := 0,
     s_chan := (\<lambda>i. let c = s_chan s i in
       if i < MAXCHAN
       then c\<lparr>ADSRX := (ADSRX c)\<lparr>SustainLevel := 1024\<rparr>, iIrqDone := False, pLoop := SpuAt 0,
              pStart := SpuAt 0, pCurr := SpuAt 0\<rparr>
       else c)\<rparr>"

definition SPUopen :: "(nat \<Rightarrow> s16) \<Rightarrow> spu \<Rightarrow> bool \<times> spu" where
  "SPUopen junk s =
     (if bSPUIsOpen s then (False, s)
      else (True, (SetupStreams junk (s\<lparr>spuIrq := 0, spuStat := 0, spuCtrl := 0,
        spuAddr := 0xffffffff, dwNoiseVal := 1,
        s_chan := (\<lambda>i. if i < MAXCHAN + 1 then zero_chan else s_chan s i), pSpuIrq := SpuNull,
        iVolume := 128\<rparr>))\<lparr>bSPUIsOpen := True\<rparr>))"

definition SPUclose :: "spu \<Rightarrow> spu" where
  "SPUclose s = (if bSPUIsOpen s then s\<lparr>bSPUIsOpen := False\<rparr> else s)"

definition reset_sound_buffer_size :: "spu \<Rightarrow> spu" where
  "reset_sound_buffer_size s = s\<lparr>pNextSample := 0\<rparr>"

section \<open>Laws\<close>

lemma chan_update_same: "spu_ok s \<Longrightarrow> chan_ok (f (s_chan s ch)) \<Longrightarrow> spu_ok (chan_update ch f s)"
  by (simp add: spu_ok_def out_ok_def)

lemma spu_ok_chan: "spu_ok s \<Longrightarrow> chan_ok (s_chan s ch)"
  by (simp add: spu_ok_def out_ok_def)

lemma StartADSR_ok: "adsr_ok (ADSRX c) \<Longrightarrow> adsr_ok (ADSRX (StartADSR c))"
  by (simp add: StartADSR_def adsr_ok_def word_sle_eq)

lemma StartADSR_fields [simp]:
  "iRawPitch (StartADSR c) = iRawPitch c" "sinc (StartADSR c) = sinc c" "iLeftVolume (StartADSR c) = iLeftVolume c"
  "iRightVolume (StartADSR c) = iRightVolume c" "pLoop (StartADSR c) = pLoop c" "pStart (StartADSR c) = pStart c"
  by (simp_all add: StartADSR_def)

lemma StartSound_ok: "spu_ok s \<Longrightarrow> spu_ok (StartSound ch s)"
  unfolding StartSound_def
  by (rule chan_update_ok) (auto simp: chan_ok_def StartADSR_ok sint_32_eq)

lemma take_pitch_ok:
  assumes "chan_ok c" shows "chan_ok (take_pitch c)"
proof -
  define x where "x = sint (iRawPitch c)"
  have x: "0 \<le> x" "x \<le> 0x3fff" using assms by (simp_all add: x_def chan_ok_def)
  have "push_bit 4 (iRawPitch c) = word_of_int (x * 16)"
    by (simp add: x_def push_bit_eq_mult mult.commute)
  then have "sint (push_bit 4 (iRawPitch c)) = x * 16"
    using x by (simp only:) (rule sint_of_nonneg_32, simp_all)
  then show ?thesis using assms x by (simp add: take_pitch_def chan_ok_def)
qed

lemma and_3_less: "unat ((w :: s32) AND 3) < 4"
proof -
  have "unat (w AND 3) \<le> unat (3 :: s32)" using word_and_le1[of w 3] by (simp add: word_le_nat_alt and.commute)
  then show ?thesis by simp
qed

lemma fetch_sample_runs:
  assumes "spu_ok s" "0x10000 \<le> sint (spos (s_chan s ch))" "iSBPos (s_chan s ch) < 28"
  shows "runs (fetch_sample ch s) (\<lambda>t. spu_ok t \<and> sint (spos (s_chan t ch)) = sint (spos (s_chan s ch)) - 0x10000)"
proof -
  have c: "chan_ok (s_chan s ch)" using assms(1) by (rule spu_ok_chan)
  have sp: "sint (spos (s_chan s ch) - 0x10000) = sint (spos (s_chan s ch)) - 0x10000"
    using assms(2) c by (subst sint_minus_32) (simp_all add: chan_ok_def)
  show ?thesis
    unfolding fetch_sample_def Let_def
    by (rule runs_require)
      (use c assms sp and_3_less in \<open>auto simp: chan_ok_def intro!: chan_update_same\<close>)
qed

lemma same_map_ends:
  "same_map m0 m \<Longrightarrow> store_u32 p v m \<noteq> Fail OutOfFuel \<Longrightarrow> ends (store_u32 p v m) (same_map m0)"
  using store_same_map(3) by (simp add: ends_def)

lemma store_u32_fuel [simp]: "store_u32 p v m \<noteq> Fail OutOfFuel" "load_u32 p m \<noteq> Fail OutOfFuel"
  by (cases p; simp add: require_def)+

lemma hw_or_ends: "same_map m0 m \<Longrightarrow> ends (hw_or a v m) (same_map m0)"
  unfolding hw_or_def psxHu32_w32
  by (rule ends_bind_any, simp_all add: same_map_ends)

lemma spu_bytes_ends: "ends (spu_bytes n k s) (\<lambda>bs. length bs = n)"
proof (induction n arbitrary: k)
  case (Suc n)
  show ?case
    by (simp, rule ends_bind_any) (auto simp: spu_byte_def require_def intro: ends_bind[OF Suc])
qed simp

lemma block_flags_ok:
  "chan_ok c \<Longrightarrow> chan_ok (block_flags f p c)"
  "spos (block_flags f p c) = spos c" "SB (block_flags f p c) = SB c"
  by (auto simp: block_flags_def Let_def chan_ok_def)

lemma decode_block_ends:
  assumes "spu_ok s" "same_map m0 m"
  shows "ends (decode_block ch (s, m)) (\<lambda>(go, t, m'). spu_ok t \<and> same_map m0 m' \<and>
    (go \<longrightarrow> iSBPos (s_chan t ch) = 0 \<and> spos (s_chan t ch) = spos (s_chan s ch)))"
proof (cases "pCurr (s_chan s ch)")
  case (SpuAt p)
  have c: "chan_ok (s_chan s ch)" using assms(1) by (rule spu_ok_chan)
  define c1 where "c1 f st = block_flags f st (s_chan s ch)" for f st
  have c1: "chan_ok (c1 f st)" "spos (c1 f st) = spos (s_chan s ch)" "SB (c1 f st) = SB (s_chan s ch)" for f st
    unfolding c1_def using block_flags_ok c by auto
  have "ends (SPUirq m) (same_map m0)" unfolding SPUirq_def by (rule hw_or_ends[OF assms(2)])
  then have irq: "ends (if b then SPUirq m else Ok m) (same_map m0)" for b using assms(2) by simp
  show ?thesis
    unfolding decode_block_def prod.case Let_def SpuAt spuptr.case
    by (rule ends_bind[OF spu_bytes_ends], rule ends_require, simp, simp only: split_beta,
      rule ends_bind[OF irq], simp add: c1_def[symmetric] c1(2), rule chan_update_same[OF assms(1)])
      (use c1(1,3) in \<open>simp add: c1_def[symmetric] chan_ok_def\<close>)
qed (use assms in \<open>auto simp: decode_block_def chan_ok_def adsr_ok_def word_sle_eq intro!: chan_update_ok\<close>)

lemma sless_spos: "(w :: s32) <s 0x10000 \<longleftrightarrow> sint w < 0x10000"
  by (simp add: word_sless_alt)

definition mix_inv :: "psxmem \<Rightarrow> spu \<times> psxmem \<Rightarrow> bool" where
  "mix_inv m0 st \<longleftrightarrow> spu_ok (fst st) \<and> same_map m0 (snd st)"

lemma fetch_ends:
  "mix_inv m0 st \<Longrightarrow> sint (spos (s_chan (fst st) ch)) < 0x10000 * int n \<Longrightarrow>
   ends (fetch n ch st) (\<lambda>(go, st'). mix_inv m0 st' \<and> (go \<longrightarrow> sint (spos (s_chan (fst st') ch)) < 0x10000))"
proof (induction n arbitrary: st)
  case 0
  then have "chan_ok (s_chan (fst st) ch)" by (simp add: mix_inv_def spu_ok_chan)
  then show ?case using 0 by (simp add: chan_ok_def)
next
  case (Suc n)
  obtain s m where st: "st = (s, m)" by fastforce
  have ok: "spu_ok s" "same_map m0 m" using Suc.prems(1) by (simp_all add: st mix_inv_def)
  show ?case
  proof (cases "spos (s_chan s ch) <s 0x10000")
    case True
    then show ?thesis using Suc.prems(1) by (simp add: st sless_spos)
  next
    case False
    then have big: "0x10000 \<le> sint (spos (s_chan s ch))" by (simp add: sless_spos)
    have c28: "iSBPos (s_chan s ch) \<le> 28" using spu_ok_chan[OF ok(1), of ch] by (simp add: chan_ok_def)
    have dec: "ends (if iSBPos (s_chan s ch) = 28 then decode_block ch (s, m) else Ok (True, s, m))
      (\<lambda>(go, t, m'). spu_ok t \<and> same_map m0 m' \<and>
        (go \<longrightarrow> iSBPos (s_chan t ch) < 28 \<and> spos (s_chan t ch) = spos (s_chan s ch)))"
      using c28 ok by (auto intro: ends_mono[OF decode_block_ends[OF ok]])
    have rest: "ends (if \<not> go then Ok (False, t, m') else bind_res (fetch_sample ch t) (\<lambda>s2. fetch n ch (s2, m')))
      (\<lambda>(go, st'). mix_inv m0 st' \<and> (go \<longrightarrow> sint (spos (s_chan (fst st') ch)) < 0x10000))"
      if t: "spu_ok t" "same_map m0 m'" "go \<longrightarrow> iSBPos (s_chan t ch) < 28 \<and> spos (s_chan t ch) = spos (s_chan s ch)" for go t m'
    proof (cases go)
      case True
      have f: "runs (fetch_sample ch t) (\<lambda>u. spu_ok u \<and> sint (spos (s_chan u ch)) = sint (spos (s_chan s ch)) - 0x10000)"
        using fetch_sample_runs[of t ch] t True big by simp
      have nx: "ends (fetch n ch (u, m')) (\<lambda>(go, st'). mix_inv m0 st' \<and> (go \<longrightarrow> sint (spos (s_chan (fst st') ch)) < 0x10000))"
        if "spu_ok u \<and> sint (spos (s_chan u ch)) = sint (spos (s_chan s ch)) - 0x10000" for u
        using Suc.IH[of "(u, m')"] Suc.prems(2) that t(2) by (simp add: mix_inv_def st algebra_simps)
      show ?thesis using True ends_bind[OF runs_ends[OF f] nx] by simp
    qed (use t in \<open>simp add: mix_inv_def\<close>)
    show ?thesis
      unfolding st fetch.simps fst_conv using False
      by (simp only: if_False) (rule ends_bind[OF dec], clarify, rule rest, simp_all)
  qed
qed

lemma noise_sample_ok:
  "spu_ok s \<Longrightarrow> spu_ok (snd (noise_sample ch s)) \<and>
   spos (s_chan (snd (noise_sample ch s)) ch) = spos (s_chan s ch)"
proof -
  have "\<exists>f d. snd (noise_sample ch s) = chan_update ch (iOldNoise_update (\<lambda>_. f)) (s\<lparr>dwNoiseVal := d\<rparr>)"
    unfolding noise_sample_def Let_def split_beta snd_conv by blast
  then obtain f d where n: "snd (noise_sample ch s) = chan_update ch (iOldNoise_update (\<lambda>_. f)) (s\<lparr>dwNoiseVal := d\<rparr>)"
    by blast
  have "spu_ok (s\<lparr>dwNoiseVal := d\<rparr>) = spu_ok s" by (simp add: spu_ok_def out_ok_def)
  then show "spu_ok s \<Longrightarrow> ?thesis"
    unfolding n by (auto intro!: chan_update_ok simp: chan_ok_def)
qed

lemma fmod_next_ok: "chan_ok c \<Longrightarrow> chan_ok (fmod_next sv c)"
proof -
  define p where "p = sint (word_of_int (((32768 + sint sv) * sint (iRawPitch c)) div 32768) :: s32)"
  define q where "q = (let b = (if p > 0x3fff then 0x3fff else p) in if b < 1 then 1 else b)"
  define sc where "sc = (((44100 * q) div 4096 div 10) * 65536) div 4410"
  have q: "1 \<le> q" "q \<le> 0x3fff" by (auto simp: q_def Let_def)
  then have "0 \<le> (44100 * q) div 4096" "(44100 * q) div 4096 \<le> 176389" by simp_all
  then obtain t where t: "(44100 * q) div 4096 div 10 = t" "0 \<le> t" "t \<le> 17638" by simp
  have "(t * 65536) div 4410 \<le> (17638 * 65536) div 4410" using t(3) by (intro zdiv_mono1) simp_all
  then have "0 \<le> sc" "sc \<le> 0x3fff0" using t(2) unfolding sc_def t(1) by (simp_all add: pos_imp_zdiv_nonneg_iff)
  moreover have "fmod_next sv c = c\<lparr>iActFreq := word_of_int ((44100 * q) div 4096),
      iUsedFreq := word_of_int ((44100 * q) div 4096), sinc := (if sc = 0 then 1 else word_of_int sc)\<rparr>"
    unfolding fmod_next_def Let_def p_def q_def sc_def by (rule refl)
  ultimately show "chan_ok c \<Longrightarrow> ?thesis" by (simp add: chan_ok_def sint_of_nonneg_32)
qed

lemma word_of_int_sint_32: "word_of_int (sint (w :: s32)) = w"
  by simp

lemma and_not_3: "(w :: s32) AND NOT 3 = push_bit 2 (drop_bit 2 w)"
proof (rule bit_word_eqI)
  fix n assume n: "n < LENGTH(32)"
  have m: "(3 :: s32) = mask 2" by (simp add: mask_eq_exp_minus_1)
  have "Suc (Suc (n - 2)) = n" if "2 \<le> n" using that by arith
  then show "bit (w AND NOT 3) n = bit (push_bit 2 (drop_bit 2 w)) n"
    using n unfolding m by (auto simp: bit_simps)
qed

lemma gauss_index:
  fixes w :: s32
  assumes "0 \<le> sint w" "sint w < 0x10000"
  shows "sint (signed_drop_bit 6 w AND NOT 3) = 4 * (sint w div 256)"
proof -
  define x where "x = sint w"
  have x: "0 \<le> x" "x < 0x10000" using assms by (simp_all add: x_def)
  have "sint (signed_drop_bit 6 w) = x div 64" by (simp add: sint_signed_drop_bit_eq drop_bit_eq_div x_def)
  then have "signed_drop_bit 6 w = word_of_int (x div 64)" by (metis word_of_int_sint_32)
  moreover have "uint (word_of_int (x div 64) :: s32) = x div 64" using x by (simp add: uint_word_of_int)
  ultimately have u: "uint (signed_drop_bit 6 w) = x div 64" by simp
  have "uint (drop_bit 2 (signed_drop_bit 6 w)) = x div 256"
    using zdiv_zmult2_eq[of 4 x 64] by (simp add: drop_bit_eq_div uint_div u)
  then have "uint (push_bit 2 (drop_bit 2 (signed_drop_bit 6 w))) = 4 * (x div 256)"
    using x by (simp add: push_bit_eq_mult uint_word_ariths mult.commute)
  moreover have "4 * (x div 256) < 2147483648" using x by simp
  ultimately have "sint (push_bit 2 (drop_bit 2 (signed_drop_bit 6 w))) = 4 * (x div 256)"
    by (subst sint_32_eq) simp
  then show ?thesis by (simp only: and_not_3 x_def)
qed

lemma gauss_sample_runs:
  assumes "chan_ok c" "sint (spos c) < 0x10000"
  shows "runs (gauss_sample c) (\<lambda>_. True)"
proof -
  have g: "sint (signed_drop_bit 6 (spos c) AND NOT 3) = 4 * (sint (spos c) div 256)"
    using assms by (intro gauss_index) (auto simp: chan_ok_def)
  have "0 \<le> sint (spos c) div 256" "sint (spos c) div 256 \<le> 255"
    using assms by (simp_all add: chan_ok_def pos_imp_zdiv_nonneg_iff)
  then show ?thesis
    unfolding gauss_sample_def Let_def using assms(1)
    by (intro runs_require) (simp_all only: g runs_Ok, simp add: chan_ok_def)
qed

lemma spos_advance:
  assumes "chan_ok c" "sint (spos c) < 0x10000"
  shows "chan_ok (c\<lparr>spos := spos c + sinc c\<rparr>)"
proof -
  have "sint (spos c + sinc c) = sint (spos c) + sint (sinc c)"
    using assms by (subst sint_plus_32) (simp_all add: chan_ok_def)
  then show ?thesis using assms by (simp add: chan_ok_def)
qed

definition voice_inv :: "nat \<Rightarrow> spu \<Rightarrow> bool" where
  "voice_inv ch s \<longleftrightarrow> spu_ok s \<and> sint (spos (s_chan s ch)) < 0x10000"

lemma raw_sample_ends: "voice_inv ch s \<Longrightarrow> ends (raw_sample ch s) (\<lambda>(fa, t). voice_inv ch t)"
proof -
  assume v: "voice_inv ch s"
  then have g: "runs (gauss_sample (s_chan s ch)) (\<lambda>_. True)"
    using gauss_sample_runs spu_ok_chan by (simp add: voice_inv_def)
  show ?thesis
    unfolding raw_sample_def
    using v noise_sample_ok[of s ch]
    by (intro ends_if ends_bind[OF runs_ends[OF g]]) (simp_all add: voice_inv_def split_beta)
qed

lemma apply_sample_ok: "voice_inv ch s \<Longrightarrow> spu_ok (snd (apply_sample ch acc s))"
proof -
  have adv: "spu_ok (chan_update ch (\<lambda>c. c\<lparr>spos := spos c + sinc c\<rparr>) u)" if "voice_inv ch u" for u
    using that spos_advance[OF spu_ok_chan] by (simp add: voice_inv_def chan_update_same)
  have "voice_inv ch (chan_update (ch + 1) (fmod_next sv) u)" if "voice_inv ch u" for sv u
    using that by (simp add: voice_inv_def chan_update_ok fmod_next_ok)
  then show "voice_inv ch s \<Longrightarrow> ?thesis"
    unfolding apply_sample_def Let_def by (simp add: adv)
qed

lemma play_sample_ends:
  assumes v: "voice_inv ch s"
  shows "ends (play_sample ch acc s) (\<lambda>(acc, t). spu_ok t)"
proof -
  have step: "ends (bind_res (MixADSR (RateTable t) (s_chan t ch)) (\<lambda>(vol, c).
     Ok (apply_sample ch acc (chan_update ch (\<lambda>_. c\<lparr>sval := signed_drop_bit 10 (vol * fa)\<rparr>) t))))
     (\<lambda>(acc, t). spu_ok t)" if t: "voice_inv ch t" for fa t
  proof -
    have c: "chan_ok (s_chan t ch)" "length (RateTable t) = 160"
      using t by (simp_all add: voice_inv_def spu_ok_def out_ok_def)
    show ?thesis
    proof (rule ends_bind[OF MixADSR_keeps[OF chan_ok_adsrx[OF c(1)] c(2)]], clarify)
      fix vol and c1 :: SPUCHAN
      assume k: "adsr_ok (ADSRX c1)" "spos c1 = spos (s_chan t ch)" "sinc c1 = sinc (s_chan t ch)"
        "SB c1 = SB (s_chan t ch)" "iSBPos c1 = iSBPos (s_chan t ch)" "iRawPitch c1 = iRawPitch (s_chan t ch)"
        "iLeftVolume c1 = iLeftVolume (s_chan t ch)" "iRightVolume c1 = iRightVolume (s_chan t ch)"
        "pLoop c1 = pLoop (s_chan t ch)" "pStart c1 = pStart (s_chan t ch)"
      have "chan_ok (c1\<lparr>sval := x\<rparr>)" for x using c(1) k by (simp add: chan_ok_def)
      then have "voice_inv ch (chan_update ch (\<lambda>_. c1\<lparr>sval := x\<rparr>) t)" for x
        using t k(2) by (simp add: voice_inv_def chan_update_same)
      then show "ends (Ok (apply_sample ch acc (chan_update ch (\<lambda>_. c1\<lparr>sval := signed_drop_bit 10 (vol * fa)\<rparr>) t)))
          (\<lambda>(acc, t). spu_ok t)"
        using apply_sample_ok by (simp add: split_beta)
    qed
  qed
  show ?thesis
    unfolding play_sample_def by (rule ends_bind[OF raw_sample_ends[OF v]], clarify, rule step)
qed

lemma channel_step_ends:
  assumes inv: "mix_inv m0 (snd ast)"
  shows "ends (channel_step ch ast) (\<lambda>(acc, st). mix_inv m0 st)"
proof -
  obtain acc s m where ast: "ast = (acc, s, m)" by (cases ast) auto
  define s1 where "s1 = (if bNew (s_chan s ch) then StartSound ch s else s)"
  have s1: "mix_inv m0 (s1, m)" using inv by (simp add: ast mix_inv_def s1_def StartSound_ok)
  define s2 where "s2 = chan_update ch take_pitch s1"
  have s2: "mix_inv m0 (s2, m)" using s1 by (simp add: s2_def mix_inv_def chan_update_ok take_pitch_ok)
  then have "chan_ok (s_chan s2 ch)" by (simp add: mix_inv_def spu_ok_chan)
  then have lt: "sint (spos (s_chan (fst (s2, m)) ch)) < 0x10000 * int fetch_fuel"
    by (simp add: fetch_fuel_def chan_ok_def)
  have tail: "ends (if \<not> go then Ok (acc, t, m1) else bind_res (play_sample ch acc t) (\<lambda>(acc1, s3). Ok (acc1, s3, m1)))
      (\<lambda>(acc, st). mix_inv m0 st)" if "mix_inv m0 (t, m1)" "go \<longrightarrow> sint (spos (s_chan t ch)) < 0x10000" for go t m1
    using that by (intro ends_if ends_bind[OF play_sample_ends]) (auto simp: voice_inv_def mix_inv_def)
  show ?thesis
    unfolding channel_step_def ast prod.case Let_def s1_def[symmetric] s2_def[symmetric]
    using inv s1 by (intro ends_if ends_bind[OF fetch_ends[OF s2 lt]]) (auto simp: ast intro!: tail)
qed

lemma clip15_range: "- 32767 \<le> sint (ucast (clip15 x) :: s16)"
proof -
  define y where "y = clip15 x"
  have y: "- 32767 \<le> sint y" "sint y \<le> 32767"
    by (auto simp: y_def clip15_def Let_def word_sless_alt)
  have "signed_take_bit 15 (sint y) = signed_take_bit 15 (uint y)" by (simp add: sint_uint)
  then have "sint (ucast y :: s16) = sint y"
    using y by (simp add: signed_ucast_eq signed_take_bit_int_eq_self)
  then show ?thesis using y by (simp add: y_def)
qed

lemma SpuShouldGotoExit_keeps:
  "s_chan (snd (SpuShouldGotoExit s)) = s_chan s" "rvb (snd (SpuShouldGotoExit s)) = rvb s"
  "RateTable (snd (SpuShouldGotoExit s)) = RateTable s" "spuAddr (snd (SpuShouldGotoExit s)) = spuAddr s"
  "outbuf (snd (SpuShouldGotoExit s)) = outbuf s" "pNextSample (snd (SpuShouldGotoExit s)) = pNextSample s"
  "sampcount (snd (SpuShouldGotoExit s)) = sampcount s" "decayend (snd (SpuShouldGotoExit s)) = decayend s"
  "decaybegin (snd (SpuShouldGotoExit s)) = decaybegin s" 
  by (simp_all add: SpuShouldGotoExit_def Let_def)

lemma SpuShouldGotoExit_ok: "spu_ok s \<Longrightarrow> spu_ok (snd (SpuShouldGotoExit s))"
  by (simp add: spu_ok_def out_ok_def SpuShouldGotoExit_keeps)

lemma exit_in_song:
  "fst (SpuShouldGotoExit s) \<Longrightarrow> sampcount s < decayend s \<Longrightarrow> decayend s \<noteq> decaybegin s"
  by (auto simp: SpuShouldGotoExit_def Let_def split: if_splits)

lemma fade_total:
  "fst (SpuShouldGotoExit s) \<Longrightarrow> \<exists>r. fade_samples io (snd (SpuShouldGotoExit s)) = Ok r"
  using exit_in_song[of s]
  by (auto simp: fade_samples_def SpuShouldGotoExit_keeps Let_def not_le require_def)

lemma put_sample_ends: "spu_ok s \<Longrightarrow> ends (put_sample l r s) spu_ok"
  unfolding put_sample_def
  by (rule ends_require, simp) (auto simp: spu_ok_def out_ok_def clip15_range less_Suc_eq)

lemma finish_sample_ends:
  assumes "spu_ok s"
  shows "ends (finish_sample io s) (\<lambda>(go, t). spu_ok t)"
proof -
  define v where "v = snd (SpuShouldGotoExit s)"
  have v: "spu_ok v" "spu_ok (v\<lparr>sampcount := n\<rparr>)" for n
    using SpuShouldGotoExit_ok[OF assms] by (simp_all add: v_def spu_ok_def out_ok_def)
  have f: "ends (if fst (SpuShouldGotoExit s) then fade_samples io v else Ok (Some io)) (\<lambda>_. True)"
    using fade_total[of s io] by (auto simp: v_def)
  show ?thesis
    unfolding finish_sample_def Let_def v_def[symmetric]
    by (rule ends_bind[OF f]) (auto simp: v intro!: ends_bind[OF put_sample_ends] split: option.split)
qed

lemma mix_sample_ends:
  assumes inv: "mix_inv m0 st"
  shows "ends (mix_sample st) (\<lambda>(go, st'). mix_inv m0 st')"
proof -
  have chans: "ends (for_each [0..<MAXCHAN] channel_step ((0, 0, 0, 0), st)) (\<lambda>(acc, st). mix_inv m0 st)"
    by (rule ends_for_each) (use inv channel_step_ends in \<open>auto simp: split_beta\<close>)
  have rev: "ends (MixREVERBLeftRight io rl rr s) (\<lambda>(io, t). spu_ok t)" if "spu_ok s" for io rl rr s
    using MixREVERB_runs[OF that, of io rl rr]
    by (auto intro!: runs_ends elim!: runs_mono simp: reverb_post_def)
  have fin: "ends (bind_res (finish_sample io s) (\<lambda>(go, t). Ok (go, t, m))) (\<lambda>(go, st'). mix_inv m0 st')"
    if "spu_ok s" "same_map m0 m" for io s m
    by (rule ends_bind[OF finish_sample_ends[OF that(1)]]) (use that in \<open>auto simp: mix_inv_def\<close>)
  show ?thesis
    unfolding mix_sample_def
    by (rule ends_bind[OF chans], clarify, rule ends_bind[OF rev])
      (auto simp: mix_inv_def intro!: fin)
qed

lemma mix_loop_ends: "mix_inv m0 st \<Longrightarrow> ends (mix_loop n st) (\<lambda>(go, st'). mix_inv m0 st')"
proof (induction n arbitrary: st)
  case (Suc n)
  show ?case
    by (simp, rule ends_bind[OF mix_sample_ends[OF Suc.prems]]) (auto intro!: Suc.IH)
qed simp

lemma SPUasync_ends: "mix_inv m0 st \<Longrightarrow> ends (SPUasync cycles st) (\<lambda>(go, st'). mix_inv m0 st')"
proof -
  assume inv: "mix_inv m0 st"
  obtain s m where st: "st = (s, m)" by fastforce
  have "mix_inv m0 (s\<lparr>poo := p\<rparr>, m)" for p
    using inv by (simp add: st mix_inv_def spu_ok_def out_ok_def)
  then show ?thesis
    unfolding SPUasync_def st prod.case Let_def by (auto intro!: ends_if mix_loop_ends)
qed

subsection \<open>ADPCM against a reference\<close>

text \<open>A nibble is a signed four-bit number scaled by \<^verbatim>\<open>2 ^ 12\<close>.\<close>

definition nibble_value :: "4 word \<Rightarrow> s32" where
  "nibble_value n = word_of_int (4096 * sint n)"

fun adpcm_ref :: "nat \<Rightarrow> s32 \<times> s32 \<Rightarrow> 4 word list \<Rightarrow> s32 \<times> s32 \<Rightarrow> s32 list" where
  "adpcm_ref shift k [] hist = []"
| "adpcm_ref shift k (n # ns) hist =
     (let x = adpcm_one shift k (nibble_value n) hist in x # adpcm_ref shift k ns (x, fst hist))"

definition nibbles :: "u8 list \<Rightarrow> 4 word list" where
  "nibbles ds = concat (map (\<lambda>d. [ucast d, ucast (drop_bit 4 d)]) ds)"

lemma sign_extend_nibble:
  "(let s = push_bit 12 (ucast n :: s32) in if s AND 0x8000 \<noteq> 0 then s OR 0xffff0000 else s) = nibble_value n"
proof -
  define x where "x = unat n"
  have "unat n < 2 ^ LENGTH(4)" by (rule unsigned_less)
  then have "x < 16" by (simp add: x_def)
  moreover have "n = of_nat x" by (simp add: x_def)
  moreover have "x = 0 \<or> x = 1 \<or> x = 2 \<or> x = 3 \<or> x = 4 \<or> x = 5 \<or> x = 6 \<or> x = 7 \<or> x = 8 \<or> x = 9 \<or>
      x = 10 \<or> x = 11 \<or> x = 12 \<or> x = 13 \<or> x = 14 \<or> x = 15"
    using \<open>x < 16\<close> by arith
  ultimately show ?thesis
    by (elim disjE) (simp_all add: nibble_value_def)
qed

lemma nibble_low_value: "nibble_low d = nibble_value (ucast d)"
proof -
  have m: "(0xf :: s32) = mask 4" by (simp add: mask_eq_exp_minus_1)
  have "ucast d AND 0xf = (ucast (ucast d :: 4 word) :: s32)"
    unfolding m by (rule bit_word_eqI) (auto simp: bit_simps)
  then show ?thesis by (simp add: nibble_low_def sign_extend_nibble[symmetric])
qed

lemma nibble_high_value: "nibble_high d = nibble_value (ucast (drop_bit 4 d))"
proof -
  have m: "(0xf0 :: s32) = push_bit 4 (mask 4)" by (simp add: mask_eq_exp_minus_1)
  have "push_bit 8 (ucast d AND 0xf0) = push_bit 12 (ucast (ucast (drop_bit 4 d) :: 4 word) :: s32)"
    unfolding m
  proof (rule bit_word_eqI)
    fix n assume "n < LENGTH(32)"
    have "4 + (n - 12) = n - 8" if "12 \<le> n" using that by arith
    then show "bit (push_bit 8 (ucast d AND push_bit 4 (mask 4)) :: s32) n =
        bit (push_bit 12 (ucast (ucast (drop_bit 4 d) :: 4 word)) :: s32) n"
      by (auto simp: bit_simps)
  qed
  then show ?thesis by (simp add: nibble_high_def sign_extend_nibble[symmetric])
qed

subsection \<open>Song length\<close>

lemma c_div_10:
  assumes "0 \<le> sint t" "sint t \<le> 4000000"
  shows "sint (c_div (t * 441) 10) = sint t * 441 div 10"
proof -
  define x where "x = sint t"
  have x: "0 \<le> x" "x \<le> 4000000" using assms by (simp_all add: x_def)
  have "t * 441 = word_of_int (x * 441)" by (simp add: x_def)
  then have "sint (t * 441) = x * 441" using x by (simp only:) (rule sint_of_nonneg_32, simp_all)
  moreover have "(x * 441) sdiv 10 = x * 441 div 10"
    using x by (cases "x = 0") (simp_all add: signed_divide_int_def sgn_mult)
  ultimately show ?thesis using x
    by (simp add: c_div_def x_def[symmetric] sint_of_nonneg_32 pos_imp_zdiv_nonneg_iff)
qed

lemma uint_of_sint_32: "0 \<le> sint (w :: s32) \<Longrightarrow> uint w = sint w"
  using uint_range_32[of w] by (auto simp: sint_32_eq split: if_splits)

text \<open>Where the decay begins and ends, in samples.\<close>

lemma SPUsetlength_decay:
  assumes "0 \<le> sint stop" "0 \<le> sint fade" "sint stop \<le> 4000000" "sint fade \<le> 380000"
  shows "uint (decaybegin (SPUsetlength stop fade s)) = sint stop * 441 div 10"
    and "uint (decayend (SPUsetlength stop fade s)) = sint stop * 441 div 10 + sint fade * 441 div 10"
proof -
  define a b where "a = sint stop * 441 div 10" and "b = sint fade * 441 div 10"
  have ab: "0 \<le> a" "a \<le> 176400000" "0 \<le> b" "b \<le> 16758000"
    using assms by (simp_all add: a_def b_def pos_imp_zdiv_nonneg_iff)
  have "uint (c_div (stop * 441) 10) = a" "uint (c_div (fade * 441) 10) = b"
    using c_div_10[of stop] c_div_10[of fade] assms ab
    by (simp_all add: uint_of_sint_32 a_def[symmetric] b_def[symmetric])
  moreover have "stop \<noteq> - 1" using assms(1) by auto
  ultimately show "uint (decaybegin (SPUsetlength stop fade s)) = sint stop * 441 div 10"
    and "uint (decayend (SPUsetlength stop fade s)) = sint stop * 441 div 10 + sint fade * 441 div 10"
    using ab unfolding a_def[symmetric] b_def[symmetric]
    by (simp_all add: SPUsetlength_def Let_def uint_plus_32)
qed

lemma song_exit:
  assumes "\<not> shouldInfiniteLoop t"
  shows "SpuShouldGotoExit t = (sampcount t \<ge> decaybegin t, t)"
  using assms by (simp add: SpuShouldGotoExit_def)

lemma put_sample_not_end: "bind_res (put_sample a b u) (\<lambda>s. Ok (True, s)) \<noteq> Ok (False, v)"
  by (cases "put_sample a b u") auto

section \<open>Properties\<close>

text \<open>C17: the mixer keeps the invariant of the sound processor and always ends. From a state with
  \<open>spu_ok\<close>, a call of \<open>SPUasync\<close> is never cut off by the bound on the sample fetch loop (a channel
  takes at most five decoded samples per output sample); if it does not fault, the new state
  satisfies \<open>spu_ok\<close> again, so every sample in the output buffer is clipped and every interpolation
  index was in its table, and the address table of main memory is untouched.\<close>
theorem SPUasync_keeps:
  assumes "spu_ok s"
  shows "SPUasync cycles (s, m) \<noteq> Fail OutOfFuel \<and>
    (case SPUasync cycles (s, m) of Inl e \<Rightarrow> True | Inr (go, t, m') \<Rightarrow> spu_ok t \<and> same_map m m')"
proof -
  have "ends (SPUasync cycles (s, m)) (\<lambda>(go, st'). mix_inv m st')"
    by (rule SPUasync_ends) (simp add: mix_inv_def assms)
  then show ?thesis
    by (auto simp: ends_def post_def mix_inv_def split: sum.split)
qed

theorem SPUasync_keeps_witness:
  "SPUasync 768 (spu_boot, sample_mem) \<noteq> Fail OutOfFuel \<and>
   (case SPUasync 768 (spu_boot, sample_mem) of Inl e \<Rightarrow> True
    | Inr (go, t, m') \<Rightarrow> spu_ok t \<and> same_map sample_mem m')"
  by (rule SPUasync_keeps[OF spu_boot_ok])

text \<open>C23: the block decoder, which is unrolled over the two nibbles of a byte and shuffles its history
  between two variables, computes the recurrence of the sample format: each signed four-bit value,
  scaled and shifted, plus the two filter terms of the two samples before it.\<close>
theorem adpcm_bytes_reference:
  "fst (adpcm_bytes shift k ds hist) = adpcm_ref shift k (nibbles ds) hist"
  by (induction shift k ds hist rule: adpcm_bytes.induct)
    (auto simp: nibbles_def Let_def nibble_low_value nibble_high_value split_beta)

text \<open>C37: a song of \<open>stop\<close> milliseconds with a fade of \<open>fade\<close> milliseconds ends at exactly the sample where
  both are over (44.1 samples per millisecond), and the fade before it never divides by zero.\<close>
theorem song_ends_after_fade:
  assumes "0 \<le> sint stop" "0 \<le> sint fade" "sint stop \<le> 4000000" "sint fade \<le> 380000"
    and t: "t = (SPUsetlength stop fade s)\<lparr>sampcount := n\<rparr>"
  shows "finish_sample io t = Ok (False, t) \<longleftrightarrow> sint stop * 441 div 10 + sint fade * 441 div 10 \<le> uint n"
proof -
  define a b where "a = sint stop * 441 div 10" and "b = sint fade * 441 div 10"
  have b: "0 \<le> b" using assms by (simp add: b_def pos_imp_zdiv_nonneg_iff)
  have d: "uint (decaybegin t) = a" "uint (decayend t) = a + b"
    using SPUsetlength_decay[OF assms(1-4), of s] by (simp_all add: t a_def b_def)
  have "uint (decaybegin t) \<le> 176400000" using assms(3) by (simp add: d(1) a_def)
  then have nz: "decaybegin t \<noteq> - 1" by (auto simp: unsigned_minus_1_eq_mask mask_eq_exp_minus_1)
  have il: "\<not> shouldInfiniteLoop t" by (simp add: t SPUsetlength_def Let_def)
  have n: "sampcount t = n" by (simp add: t)
  have "finish_sample io t = Ok (False, t)" if "a + b \<le> uint n"
    using that b nz d by (simp add: finish_sample_def song_exit[OF il] fade_samples_def word_le_def n)
  moreover have "finish_sample io t \<noteq> Ok (False, t)" if "uint n < a + b"
  proof (cases "uint n < a")
    case True
    then show ?thesis using d put_sample_not_end
      by (simp add: finish_sample_def song_exit[OF il] word_le_def n)
  next
    case False
    have "decayend t \<noteq> decaybegin t" using that False d by auto
    then show ?thesis using that False d nz put_sample_not_end
      by (simp add: finish_sample_def song_exit[OF il] fade_samples_def Let_def word_le_def n)
  qed
  ultimately show ?thesis unfolding a_def[symmetric] b_def[symmetric] by (meson not_less)
qed

theorem song_ends_after_fade_witness:
  "finish_sample (1, 2) ((SPUsetlength 1000 100 spu_boot)\<lparr>sampcount := 48510\<rparr>) =
     Ok (False, (SPUsetlength 1000 100 spu_boot)\<lparr>sampcount := 48510\<rparr>) \<longleftrightarrow> (48510 :: int) \<le> 48510"
  using song_ends_after_fade[of 1000 100 "(SPUsetlength 1000 100 spu_boot)\<lparr>sampcount := 48510\<rparr>" 48510 spu_boot "(1, 2)"]
  by simp

end
