(* ===== verification/Machine.thy ===== *)
theory Machine
  imports SpuMixer
begin

text \<open>
  The whole emulated console: the processor registers of \<^verbatim>\<open>psf/R3000A.h\<close>, the branch state of
  \<^verbatim>\<open>psf/PsxInterpreter.c\<close>, the file-scope state of \<^verbatim>\<open>psf/PsxBios.c\<close>, and the states of memory,
  counters and sound. \<open>GPR\<close> has 34 entries: the 32 general registers, \<^verbatim>\<open>lo\<close> at 32 and \<^verbatim>\<open>hi\<close> at 33
  (the order of the members of the C struct).

  Two host facilities are parts of the state: the generator behind \<^verbatim>\<open>rand\<close> and \<^verbatim>\<open>srand\<close>
  (\<open>host_rand seed k\<close> is the \<open>k\<close>-th value after seeding), and the conversion
  \<^verbatim>\<open>(u32) (cycles / g_time_scaling_factor)\<close>, which goes through \<^verbatim>\<open>double\<close> in C.
\<close>

record TCB =
  th_status :: u32
  th_mode :: u32
  th_reg :: "nat \<Rightarrow> u32"
  th_func :: u32

record bios =
  jmp_int :: "ptr option"
  saved_regs :: "nat \<Rightarrow> u32"
  heap_addr :: u32
  SysIntRP :: "nat \<Rightarrow> u32"
  Thread :: "nat \<Rightarrow> TCB"
  CurThread :: nat

record psx =
  GPR :: "nat \<Rightarrow> u32"
  CP0 :: "nat \<Rightarrow> u32"
  pc :: u32
  code :: u32
  cycle :: u32
  interrupt :: u32
  branch :: bool
  branch2 :: bool
  branchPC :: u32
  mem :: psxmem
  cnt :: rcnts
  snd_unit :: spu
  bios_st :: bios
  times_executed :: u64
  mem_freed :: bool
  host_rand :: "u32 \<Rightarrow> nat \<Rightarrow> nat"
  rand_seed :: u32
  rand_pos :: nat
  spu_scale :: "u32 \<Rightarrow> u32"

section \<open>Register names\<close>

abbreviation v0 :: nat where "v0 \<equiv> 2"
abbreviation a0 :: nat where "a0 \<equiv> 4"
abbreviation a1 :: nat where "a1 \<equiv> 5"
abbreviation a2 :: nat where "a2 \<equiv> 6"
abbreviation a3 :: nat where "a3 \<equiv> 7"
abbreviation t1 :: nat where "t1 \<equiv> 9"
abbreviation s0 :: nat where "s0 \<equiv> 16"
abbreviation gp :: nat where "gp \<equiv> 28"
abbreviation sp :: nat where "sp \<equiv> 29"
abbreviation fp :: nat where "fp \<equiv> 30"
abbreviation ra :: nat where "ra \<equiv> 31"
abbreviation lo :: nat where "lo \<equiv> 32"
abbreviation hi :: nat where "hi \<equiv> 33"
abbreviation Status :: nat where "Status \<equiv> 12"
abbreviation Cause :: nat where "Cause \<equiv> 13"
abbreviation EPC :: nat where "EPC \<equiv> 14"

definition set_gpr :: "nat \<Rightarrow> u32 \<Rightarrow> psx \<Rightarrow> psx" where
  "set_gpr r v s = s\<lparr>GPR := (GPR s)(r := v)\<rparr>"

definition set_cp0 :: "nat \<Rightarrow> u32 \<Rightarrow> psx \<Rightarrow> psx" where
  "set_cp0 r v s = s\<lparr>CP0 := (CP0 s)(r := v)\<rparr>"

definition set_pc :: "u32 \<Rightarrow> psx \<Rightarrow> psx" where
  "set_pc v s = s\<lparr>pc := v\<rparr>"

lemma set_gpr_simps [simp]:
  "GPR (set_gpr r v s) = (GPR s)(r := v)" "CP0 (set_gpr r v s) = CP0 s" "pc (set_gpr r v s) = pc s"
  "mem (set_gpr r v s) = mem s" "cnt (set_gpr r v s) = cnt s" "snd_unit (set_gpr r v s) = snd_unit s"
  "bios_st (set_gpr r v s) = bios_st s" "cycle (set_gpr r v s) = cycle s" "code (set_gpr r v s) = code s"
  "branch (set_gpr r v s) = branch s"
  by (simp_all add: set_gpr_def)

lemma set_cp0_simps [simp]:
  "CP0 (set_cp0 r v s) = (CP0 s)(r := v)" "GPR (set_cp0 r v s) = GPR s" "pc (set_cp0 r v s) = pc s"
  "mem (set_cp0 r v s) = mem s" "cnt (set_cp0 r v s) = cnt s" "snd_unit (set_cp0 r v s) = snd_unit s"
  "bios_st (set_cp0 r v s) = bios_st s" "cycle (set_cp0 r v s) = cycle s" "code (set_cp0 r v s) = code s"
  by (simp_all add: set_cp0_def)

lemma set_pc_simps [simp]:
  "pc (set_pc v s) = v" "GPR (set_pc v s) = GPR s" "CP0 (set_pc v s) = CP0 s"
  "mem (set_pc v s) = mem s" "cnt (set_pc v s) = cnt s" "snd_unit (set_pc v s) = snd_unit s"
  "bios_st (set_pc v s) = bios_st s" "cycle (set_pc v s) = cycle s" "code (set_pc v s) = code s"
  by (simp_all add: set_pc_def)

section \<open>Lifting the operations of the parts\<close>

definition on_mem :: "(psxmem \<Rightarrow> psxmem res) \<Rightarrow> psx \<Rightarrow> psx res" where
  "on_mem f s = bind_res (f (mem s)) (\<lambda>m. Ok (s\<lparr>mem := m\<rparr>))"

definition read_mem :: "(psxmem \<Rightarrow> 'v res) \<Rightarrow> psx \<Rightarrow> ('v \<times> psx) res" where
  "read_mem f s = bind_res (f (mem s)) (\<lambda>v. Ok (v, s))"

definition on_cnt :: "(u32 \<Rightarrow> rcnts \<Rightarrow> rcnts) \<Rightarrow> psx \<Rightarrow> psx" where
  "on_cnt f s = s\<lparr>cnt := f (cycle s) (cnt s)\<rparr>"

definition on_spu :: "(spu \<Rightarrow> spu res) \<Rightarrow> psx \<Rightarrow> psx res" where
  "on_spu f s = bind_res (f (snd_unit s)) (\<lambda>u. Ok (s\<lparr>snd_unit := u\<rparr>))"

text \<open>A machine after a fresh start with all memory zero, for concrete instances.\<close>

definition sample_psx :: psx where
  "sample_psx = \<lparr>GPR = (\<lambda>_. 0), CP0 = (\<lambda>_. 0), pc = 0, code = 0, cycle = 0, interrupt = 0, branch = False,
     branch2 = False, branchPC = 0, mem = psxMemInit (\<lambda>_ _. 0), cnt = psxRcntInit 0 sample_rcnts,
     snd_unit = spu_boot, bios_st = \<lparr>jmp_int = None, saved_regs = (\<lambda>_. 0), heap_addr = 0,
       SysIntRP = (\<lambda>_. 0), Thread = (\<lambda>_. \<lparr>th_status = 0, th_mode = 0, th_reg = (\<lambda>_. 0), th_func = 0\<rparr>),
       CurThread = 0\<rparr>,
     times_executed = 0, mem_freed = False, host_rand = (\<lambda>_ _. 0), rand_seed = 0, rand_pos = 0,
     spu_scale = id\<rparr>"

end
