(* ===== verification/PsxHw.thy ===== *)
theory PsxHw
  imports Machine
begin

text \<open>
  The bus: hardware registers (\<^verbatim>\<open>psf/PsxHw.c\<close>), the DMA channels (\<^verbatim>\<open>psf/PsxDma.c\<close>), the guest memory
  accesses (\<^verbatim>\<open>psxMemRead8\<close> to \<^verbatim>\<open>psxMemWrite32\<close> of \<^verbatim>\<open>psf/PsxMem.c\<close>), and the clocking of the sound
  processor (\<^verbatim>\<open>CounterSPURun\<close>). A read can move the transfer address of the sound processor, so
  reads return a value and a state.
\<close>

section \<open>Hardware registers\<close>

definition psxHwReset :: "psx \<Rightarrow> psx" where
  "psxHwReset s = s\<lparr>mem := (mem s)\<lparr>bytes := (bytes (mem s))(psxH := (\<lambda>_. 0))\<rparr>,
                    cnt := psxRcntInit (cycle s) (cnt s)\<rparr>"

text \<open>
  The case labels of the root counters, shared by the four accessors: counter index and which
  of count, mode and target.
\<close>

datatype rcnt_port = CountPort | ModePort | TargetPort

definition rcnt_reg :: "u32 \<Rightarrow> (nat \<times> rcnt_port) option" where
  "rcnt_reg add =
     (if add = 0x1f801100 then Some (0, CountPort)
      else if add = 0x1f801104 then Some (0, ModePort)
      else if add = 0x1f801108 then Some (0, TargetPort)
      else if add = 0x1f801110 then Some (1, CountPort)
      else if add = 0x1f801114 then Some (1, ModePort)
      else if add = 0x1f801118 then Some (1, TargetPort)
      else if add = 0x1f801120 then Some (2, CountPort)
      else if add = 0x1f801124 then Some (2, ModePort)
      else if add = 0x1f801128 then Some (2, TargetPort)
      else None)"

definition rcnt_read :: "nat \<Rightarrow> rcnt_port \<Rightarrow> psx \<Rightarrow> u32 res" where
  "rcnt_read i p s = (case p of
     CountPort \<Rightarrow> psxRcntRcount (cycle s) i (cnt s)
   | ModePort \<Rightarrow> Ok (rc_mode (psxCounters (cnt s) i))
   | TargetPort \<Rightarrow> Ok (rc_target (psxCounters (cnt s) i)))"

definition rcnt_write :: "nat \<Rightarrow> rcnt_port \<Rightarrow> u32 \<Rightarrow> psx \<Rightarrow> psx" where
  "rcnt_write i p v s = (case p of
     CountPort \<Rightarrow> on_cnt (\<lambda>c. psxRcntWcount c i (v AND 0xffff)) s
   | ModePort \<Rightarrow> on_cnt (\<lambda>c. psxRcntWmode c i v) s
   | TargetPort \<Rightarrow> on_cnt (\<lambda>c. psxRcntWtarget c i (v AND 0xffff)) s)"

definition psxHwRead8 :: "u32 \<Rightarrow> psx \<Rightarrow> (u8 \<times> psx) res" where
  "psxHwRead8 add s = read_mem (psxHu8 add) s"

definition psxHwRead16 :: "u32 \<Rightarrow> psx \<Rightarrow> (u16 \<times> psx) res" where
  "psxHwRead16 add s = (case rcnt_reg add of
     Some (i, p) \<Rightarrow> bind_res (rcnt_read i p s) (\<lambda>v. Ok (ucast v, s))
   | None \<Rightarrow>
       if add \<ge> 0x1f801c00 \<and> add < 0x1f801e00
       then bind_res (SPUreadRegister add (snd_unit s)) (\<lambda>(v, u). Ok (v, s\<lparr>snd_unit := u\<rparr>))
       else read_mem (psxHu16 add) s)"

definition psxHwRead32 :: "u32 \<Rightarrow> psx \<Rightarrow> (u32 \<times> psx) res" where
  "psxHwRead32 add s = (case rcnt_reg add of
     Some (i, p) \<Rightarrow> bind_res (rcnt_read i p s) (\<lambda>v. Ok (v, s))
   | None \<Rightarrow> read_mem (psxHu32 add) s)"

definition psxHwWrite8 :: "u32 \<Rightarrow> u8 \<Rightarrow> psx \<Rightarrow> psx res" where
  "psxHwWrite8 add v = on_mem (psxHu8_set add v)"

definition psxHwWrite16 :: "u32 \<Rightarrow> u16 \<Rightarrow> psx \<Rightarrow> psx res" where
  "psxHwWrite16 add v s =
     (if add = 0x1f801070 then
        on_mem (\<lambda>m. bind_res (psxHu16 0x1070 m) (\<lambda>st. bind_res (psxHu16 0x1074 m) (\<lambda>mask.
          psxHu16_set 0x1070 (st AND (mask AND v)) m))) s
      else case rcnt_reg add of
        Some (i, p) \<Rightarrow> Ok (rcnt_write i p (ucast v) s)
      | None \<Rightarrow>
          if add \<ge> 0x1f801c00 \<and> add < 0x1f801e00 then on_spu (SPUwriteRegister add v) s
          else on_mem (psxHu16_set add v) s)"

section \<open>DMA\<close>

definition psxDma4 :: "u32 \<Rightarrow> u32 \<Rightarrow> u32 \<Rightarrow> spu \<times> psxmem \<Rightarrow> (spu \<times> psxmem) res" where
  "psxDma4 madr bcr chcr st =
     (let size = drop_bit 16 bcr * (bcr AND 0xffff) * 2 in
      if chcr = 0x01000201 then
        bind_res (SPUwriteDMAMem madr size (snd st) (fst st)) (\<lambda>u. Ok (u, snd st))
      else if chcr = 0x01000200 then SPUreadDMAMem madr size st
      else Ok st)"

text \<open>
  The ordering-table clear. \<^verbatim>\<open>mem\<close> walks down through the allocation; its offset is an integer
  so that running below the start is seen. (No caller in this program: \<^verbatim>\<open>DmaExec\<close> is only used
  for channel 4.)
\<close>

definition store_at :: "region \<Rightarrow> int \<Rightarrow> u32 \<Rightarrow> psxmem \<Rightarrow> psxmem res" where
  "store_at r off v m = require (0 \<le> off) OutOfBounds (store_u32 (r, nat off) v m)"

definition psxDma6 :: "u32 \<Rightarrow> u32 \<Rightarrow> u32 \<Rightarrow> psxmem \<Rightarrow> psxmem res" where
  "psxDma6 madr bcr chcr m =
     (if chcr = 0x11000002 then
        bind_res (deref (PSXM madr m)) (\<lambda>(r, base).
        bind_res (repeat (unat bcr) (\<lambda>(off, ma, m).
          bind_res (store_at r off ((ma - 4) AND 0xffffff) m) (\<lambda>m1. Ok (off - 4, ma - 4, m1)))
          (int base, madr, m)) (\<lambda>(off, ma, m). store_at r (off + 4) 0xffffff m))
      else Ok m)"

definition DMA_INTERRUPT :: "nat \<Rightarrow> psxmem \<Rightarrow> psxmem res" where
  "DMA_INTERRUPT n m = bind_res (psxHu32 0x10f4 m) (\<lambda>icr.
     if icr AND push_bit (16 + n) 1 \<noteq> 0
     then bind_res (hw_or 0x10f4 (push_bit (24 + n) 1) m) (hw_or 0x1070 8)
     else Ok m)"

text \<open>\<^verbatim>\<open>DmaExec(4)\<close>.\<close>

definition DmaExec4 :: "spu \<times> psxmem \<Rightarrow> (spu \<times> psxmem) res" where
  "DmaExec4 st =
     bind_res (psxHu32 0x10c8 (snd st)) (\<lambda>chcr.
     bind_res (psxHu32 0x10f0 (snd st)) (\<lambda>pcr.
     if chcr AND 0x01000000 \<noteq> 0 \<and> pcr AND push_bit 16 8 \<noteq> 0 then
       bind_res (psxHu32 0x10c0 (snd st)) (\<lambda>madr.
       bind_res (psxHu32 0x10c4 (snd st)) (\<lambda>bcr.
       bind_res (psxDma4 madr bcr chcr st) (\<lambda>(u, m1).
       bind_res (hw_and 0x10c8 (NOT 0x01000000) m1) (\<lambda>m2.
       bind_res (DMA_INTERRUPT 4 m2) (\<lambda>m3. Ok (u, m3))))))
     else Ok st))"

definition icr_write :: "u32 \<Rightarrow> u32 \<Rightarrow> u32" where
  "icr_write icr value = (let tmp = NOT value AND icr in ((tmp XOR value) AND 0xffffff) XOR tmp)"

definition psxHwWrite32 :: "u32 \<Rightarrow> u32 \<Rightarrow> psx \<Rightarrow> psx res" where
  "psxHwWrite32 add v s =
     (if add = 0x1f801070 then
        on_mem (\<lambda>m. bind_res (psxHu32 0x1074 m) (\<lambda>mask. hw_and 0x1070 (mask AND v) m)) s
      else if add = 0x1f8010c8 then
        bind_res (psxHu32_set 0x10c8 v (mem s)) (\<lambda>m1.
        bind_res (DmaExec4 (snd_unit s, m1)) (\<lambda>(u, m2). Ok (s\<lparr>snd_unit := u, mem := m2\<rparr>)))
      else if add = 0x1f8010f4 then
        on_mem (\<lambda>m. bind_res (psxHu32 0x10f4 m) (\<lambda>icr. psxHu32_set 0x10f4 (icr_write icr v) m)) s
      else case rcnt_reg add of
        Some (i, p) \<Rightarrow> Ok (rcnt_write i p v s)
      | None \<Rightarrow> on_mem (psxHu32_set add v) s)"

section \<open>Guest memory accesses\<close>

text \<open>The host pointer of a guest access outside the \<^verbatim>\<open>0x1f80\<close> page; unmapped reads give 0.\<close>

definition mapped_read :: "(ptr \<Rightarrow> psxmem \<Rightarrow> 'v::zero res) \<Rightarrow> u32 \<Rightarrow> psx \<Rightarrow> ('v \<times> psx) res" where
  "mapped_read ld a s = (case PSXM a (mem s) of None \<Rightarrow> Ok (0, s) | Some p \<Rightarrow> read_mem (ld p) s)"

definition psxMemRead8 :: "u32 \<Rightarrow> psx \<Rightarrow> (u8 \<times> psx) res" where
  "psxMemRead8 a s =
     (if drop_bit 16 a = 0x1f80 then
        if a < 0x1f801000 then read_mem (psxHu8 a) s else psxHwRead8 a s
      else mapped_read load_u8 a s)"

definition psxMemRead16 :: "u32 \<Rightarrow> psx \<Rightarrow> (u16 \<times> psx) res" where
  "psxMemRead16 a s =
     (if drop_bit 16 a = 0x1f80 then
        if a < 0x1f801000 then read_mem (psxHu16 a) s else psxHwRead16 a s
      else mapped_read load_u16 a s)"

definition psxMemRead32 :: "u32 \<Rightarrow> psx \<Rightarrow> (u32 \<times> psx) res" where
  "psxMemRead32 a s =
     (if drop_bit 16 a = 0x1f80 then
        if a < 0x1f801000 then read_mem (psxHu32 a) s else psxHwRead32 a s
      else mapped_read load_u32 a s)"

definition psxMemWrite8 :: "u32 \<Rightarrow> u8 \<Rightarrow> psx \<Rightarrow> psx res" where
  "psxMemWrite8 a v s =
     (if drop_bit 16 a = 0x1f80 then
        if a < 0x1f801000 then on_mem (psxHu8_set a v) s else psxHwWrite8 a v s
      else case PSXM a (mem s) of None \<Rightarrow> Ok s | Some p \<Rightarrow> on_mem (store_u8 p v) s)"

definition psxMemWrite16 :: "u32 \<Rightarrow> u16 \<Rightarrow> psx \<Rightarrow> psx res" where
  "psxMemWrite16 a v s =
     (if drop_bit 16 a = 0x1f80 then
        if a < 0x1f801000 then on_mem (psxHu16_set a v) s else psxHwWrite16 a v s
      else case PSXM a (mem s) of None \<Rightarrow> Ok s | Some p \<Rightarrow> on_mem (store_u16 p v) s)"

definition psxMemWrite32 :: "u32 \<Rightarrow> u32 \<Rightarrow> psx \<Rightarrow> psx res" where
  "psxMemWrite32 a v s =
     (if drop_bit 16 a = 0x1f80 then
        if a < 0x1f801000 then on_mem (psxHu32_set a v) s else psxHwWrite32 a v s
      else case PSXM a (mem s) of
        None \<Rightarrow> if a \<noteq> 0xfffe0130 then Ok s else Ok (s\<lparr>mem := cache_control v (mem s)\<rparr>)
      | Some p \<Rightarrow> on_mem (store_u32 p v) s)"

section \<open>Clocking the sound processor\<close>

definition spu_cycles :: "u32 \<Rightarrow> u32 \<Rightarrow> u32" where
  "spu_cycles now prev = (if now < prev then (0xFFFFFFFF - prev) + now else now - prev)"

definition CounterSPURun :: "psx \<Rightarrow> (bool \<times> psx) res" where
  "CounterSPURun s =
     (let cycles = spu_cycles (cycle s) (last_cycle (cnt s)) in
      if cycles \<ge> 16 then
        bind_res (SPUasync (spu_scale s cycles) (snd_unit s, mem s)) (\<lambda>(go, u, m).
          let s1 = s\<lparr>snd_unit := u, mem := m\<rparr> in
          if \<not> go then Ok (False, s1)
          else Ok (True, s1\<lparr>cnt := (cnt s1)\<lparr>last_cycle := cycle s1\<rparr>\<rparr>))
      else Ok (True, s))"

section \<open>Laws\<close>

definition ram_addr :: "u32 \<Rightarrow> bool" where
  "ram_addr a \<longleftrightarrow> in_ram_window (unat a div 65536)"

lemma lut_init_window: "in_ram_window i \<Longrightarrow> lut_init i = Some (psxM, (i mod 32) * 65536)"
  by (auto simp: lut_init_def lut_ram_def in_ram_window_def)

lemma ram_offset: "(unat (a :: u32) div 65536 mod 32) * 65536 + unat a mod 65536 = unat a mod 0x200000"
proof -
  have "unat a mod (65536 * 32) = 65536 * (unat a div 65536 mod 32) + unat a mod 65536"
    by (rule mod_mult2_eq)
  then show ?thesis by simp
qed

lemma PSXM_ram:
  "lut_ok m \<Longrightarrow> ram_addr a \<Longrightarrow> PSXM a m = (if writeok m then Some (psxM, unat a mod 0x200000) else None)"
  by (simp add: PSXM_def lut_ok_def ram_addr_def addr_hi addr_lo lut_init_window lut_clear_def ram_offset)

lemma window_blocks:
  "in_ram_window (i div 65536) \<longleftrightarrow> (let k = i div 0x200000 in k < 4 \<or> (0x400 \<le> k \<and> k < 0x404) \<or> (0x500 \<le> k \<and> k < 0x504))"
proof -
  have "i div 0x200000 = i div 65536 div 32" by (simp add: div_mult2_eq[symmetric])
  then show ?thesis
    by (simp add: in_ram_window_def Let_def div_less_iff_less_mult less_eq_div_iff_mult_less_eq)
qed

lemma PSXM_ram_add:
  assumes "lut_ok m" "writeok m" "ram_addr a" "unat a mod 0x200000 + k < 0x200000"
  shows "PSXM (a + of_nat k) m = Some (psxM, unat a mod 0x200000 + k)"
    and "ram_addr (a + of_nat k)" and "unat (a + of_nat k) mod 0x200000 = unat a mod 0x200000 + k"
proof -
  have hi: "unat a < 0xc0000000" using assms(3) by (simp add: ram_addr_def in_ram_window_def) linarith
  have k: "k < 0x200000" using assms(4) by linarith
  have u: "unat (a + of_nat k) = unat a + k"
    using hi k by (simp add: unat_word_ariths unat_of_nat_u32)
  define q r where "q = unat a div 0x200000" and "r = unat a mod 0x200000"
  have a: "unat a = 0x200000 * q + r" by (simp add: q_def r_def)
  have dm: "(unat a + k) div 0x200000 = q" "(unat a + k) mod 0x200000 = r + k"
    using assms(4) unfolding r_def[symmetric] by (simp_all add: a add.assoc)
  show 1: "unat (a + of_nat k) mod 0x200000 = unat a mod 0x200000 + k"
    using dm(2) by (simp add: u r_def)
  show 2: "ram_addr (a + of_nat k)"
    using assms(3) unfolding ram_addr_def window_blocks u dm(1) q_def .
  show "PSXM (a + of_nat k) m = Some (psxM, unat a mod 0x200000 + k)"
    using PSXM_ram[OF assms(1) 2] assms(2) 1 by simp
qed

lemma ram_not_hw: "ram_addr a \<Longrightarrow> drop_bit 16 a \<noteq> 0x1f80"
proof
  assume "ram_addr a" "drop_bit 16 a = 0x1f80"
  then have "unat a div 65536 = 0x1f80" using addr_hi[of a] by simp
  with \<open>ram_addr a\<close> show False by (simp add: ram_addr_def in_ram_window_def)
qed

lemma ram_read32:
  "lut_ok (mem s) \<Longrightarrow> ram_addr a \<Longrightarrow>
   psxMemRead32 a s = (if writeok (mem s) then read_mem (load_u32 (psxM, unat a mod 0x200000)) s else Ok (0, s))"
  by (simp add: psxMemRead32_def ram_not_hw mapped_read_def PSXM_ram del: load_u32.simps)

lemma ram_write32:
  "lut_ok (mem s) \<Longrightarrow> ram_addr a \<Longrightarrow>
   psxMemWrite32 a v s = (if writeok (mem s) then on_mem (store_u32 (psxM, unat a mod 0x200000) v) s else Ok s)"
  by (auto simp: psxMemWrite32_def ram_not_hw PSXM_ram ram_addr_def in_ram_window_def simp del: store_u32.simps)

lemma on_mem_Ok: "on_mem f s = Ok t \<longleftrightarrow> (\<exists>m. f (mem s) = Ok m \<and> t = s\<lparr>mem := m\<rparr>)"
  by (auto simp: on_mem_def bind_res_Ok_iff)

lemma ram_fits:
  assumes "unat (a :: u32) mod 4 = 0"
  shows "unat a mod 0x200000 + 4 \<le> 0x200000"
proof -
  have "unat a mod 0x200000 mod 4 = 0" using assms by (simp add: mod_mod_cancel)
  then obtain k where k: "unat a mod 0x200000 = 4 * k" by auto
  have "unat a mod 0x200000 < 0x200000" by simp
  then show ?thesis unfolding k by simp
qed

lemma hw_and_total:
  assumes "psxHu32 a m = Ok w"
  obtains m' where "hw_and a v m = Ok m'" "psxHu32 a m' = Ok (w AND v)"
proof -
  obtain m' where "bind_res (load_u32 (psxHptr a) m) (\<lambda>w. store_u32 (psxHptr a) (w AND v) m) = Ok m'"
    "load_u32 (psxHptr a) m' = Ok (w AND v)"
    using w32.update_cell[of "psxHptr a" m w "\<lambda>w. w AND v"] assms unfolding psxHu32_w32 by metis
  then show ?thesis by (intro that) (simp_all add: hw_and_def psxHu32_w32)
qed

lemma hw_reads: "unat (a AND 0xffff) + 4 \<le> 0x10000 \<Longrightarrow> \<exists>w. psxHu32 a m = Ok w"
  by (simp add: psxHu32_def psxHptr_def require_def)

lemma psxHu32_1f80: "psxHu32 0x1f801070 = psxHu32 0x1070"
  by (intro ext) (simp add: psxHu32_def psxHptr_def)

definition hw_sep :: "u32 \<Rightarrow> u32 \<Rightarrow> bool" where
  "hw_sep a b \<longleftrightarrow> sep32 (psxHptr a) (psxHptr b)"

lemma hw_sep_regs: "hw_sep 0x10c8 0x10f4" "hw_sep 0x10c8 0x10f0" "hw_sep 0x10c8 0x1070" "hw_sep 0x10f4 0x1070"
  "hw_sep 0x10f4 0x10c8" "hw_sep 0x1070 0x10c8" "hw_sep 0x1070 0x10f4" "hw_sep 0x10c8 0x10c0" "hw_sep 0x10c8 0x10c4"
  by (simp_all add: hw_sep_def sep32_def psxHptr_def)

lemma hw_set_get: "psxHu32_set a v m = Ok m' \<Longrightarrow> psxHu32 a m' = Ok v"
  unfolding psxHu32_w32 by (rule w32.ld_st)

lemma hw_set_other: "psxHu32_set a v m = Ok m' \<Longrightarrow> hw_sep a b \<Longrightarrow> psxHu32 b m' = psxHu32 b m"
  unfolding psxHu32_w32 hw_sep_def by (rule w32.ld_st_sep)

lemma hw_rmw:
  assumes "hw_or a v m = Ok m'"
  shows "\<exists>w. psxHu32 a m = Ok w \<and> psxHu32 a m' = Ok (w OR v)" "hw_sep a b \<Longrightarrow> psxHu32 b m' = psxHu32 b m"
  using assms unfolding hw_or_def by (auto simp: bind_res_Ok_iff dest: hw_set_get hw_set_other)

lemma hw_rmw_and:
  assumes "hw_and a v m = Ok m'"
  shows "\<exists>w. psxHu32 a m = Ok w \<and> psxHu32 a m' = Ok (w AND v)" "hw_sep a b \<Longrightarrow> psxHu32 b m' = psxHu32 b m"
  using assms unfolding hw_and_def by (auto simp: bind_res_Ok_iff dest: hw_set_get hw_set_other)

lemma hw_set_ram:
  assumes "psxHu32_set a v m = Ok m'"
  shows "bytes m' psxM = bytes m psxM" "lut_ok m' = lut_ok m" "writeok m' = writeok m"
  using assms by (auto simp: psxHu32_set_def psxHptr_def require_Ok_iff bytes_set_bytes fun_eq_iff lut_ok_def)

text \<open>\<open>dma_block a k\<close>: \<open>k\<close> halfwords from the address \<open>a\<close> on lie in main memory, up to its end.\<close>

definition dma_block :: "u32 \<Rightarrow> nat \<Rightarrow> bool" where
  "dma_block a k \<longleftrightarrow> ram_addr a \<and> unat a mod 0x200000 + 2 * k \<le> 0x200000"

lemma dma_block_half:
  assumes "lut_ok m" "writeok m" "dma_block a k" "i < k"
  shows "half_at (a + 2 * of_nat i) m = Ok (le16 (bytes m psxM (unat a mod 0x200000 + 2 * i)) (bytes m psxM (unat a mod 0x200000 + 2 * i + 1)))"
proof -
  have "PSXM (a + of_nat (2 * i)) m = Some (psxM, unat a mod 0x200000 + 2 * i)"
    by (rule PSXM_ram_add(1)) (use assms in \<open>auto simp: dma_block_def\<close>)
  then show ?thesis using assms(3,4) by (simp add: half_at_def deref_def dma_block_def)
qed

section \<open>Properties\<close>

text \<open>A word written to main memory reads back through every mirror: cached, uncached and user segment share the same 2 MB, whatever mirror the write went through.\<close>
theorem ram_read_after_write:
  assumes "lut_ok (mem s)" "writeok (mem s)" "ram_addr a" "ram_addr b" "unat a mod 4 = 0"
    and "unat b mod 0x200000 = unat a mod 0x200000"
  shows "\<exists>t. psxMemWrite32 a v s = Ok t \<and> psxMemRead32 b t = Ok (v, t)"
proof -
  have "\<exists>m. store_u32 (psxM, unat a mod 0x200000) v (mem s) = Ok m"
    using ram_fits[OF assms(5)] unfolding store_u32.simps region_size.simps by (simp only: require_simps) blast
  then obtain m where m: "store_u32 (psxM, unat a mod 0x200000) v (mem s) = Ok m" by blast
  have "psxMemWrite32 a v s = Ok (s\<lparr>mem := m\<rparr>)"
    using assms m by (simp add: ram_write32 on_mem_def del: store_u32.simps)
  moreover have "lut_ok m \<and> writeok m"
    using store_frame(3)[OF m] assms(1,2) by (simp add: lut_ok_def)
  ultimately show ?thesis
    using w32.ld_st[OF m] assms by (simp add: ram_read32 read_mem_def del: load_u32.simps)
qed

theorem ram_read_after_write_witness:
  "\<exists>t. psxMemWrite32 0x80010000 7 sample_psx = Ok t \<and> psxMemRead32 0xa0010000 t = Ok (7, t)"
  by (rule ram_read_after_write) (simp_all add: sample_psx_def lut_ok_def psxMemInit_def ram_addr_def in_ram_window_def)

text \<open>Isolating the cache makes main memory ignore writes and read as zero, and leaving isolation restores the machine exactly.\<close>
theorem cache_isolation:
  assumes "lut_ok (mem s)" "writeok (mem s)" "ram_addr a" "v = 0x800 \<or> v = 0x804"
  shows "\<exists>t. psxMemWrite32 0xfffe0130 v s = Ok t \<and> psxMemWrite32 a w t = Ok t \<and>
    psxMemRead32 a t = Ok (0, t) \<and> psxMemWrite32 0xfffe0130 0x1e988 t = Ok s"
proof -
  have unmapped: "PSXM 0xfffe0130 m = None" if "lut_ok m" for m
    using that by (simp add: PSXM_def lut_ok_def addr_hi lut_init_def lut_ram_def lut_clear_def in_ram_window_def)
  define t where "t = s\<lparr>mem := cache_control v (mem s)\<rparr>"
  have ok: "lut_ok (mem t)" "\<not> writeok (mem t)"
    using assms by (auto simp: t_def lut_ok_cache_control) (auto simp: cache_control_def)
  have restored: "cache_control 0x1e988 (mem t) = mem s"
    using assms by (intro psxmem_eqI) (auto simp: t_def cache_control_def lut_ok_def lut_ram_init)
  have "psxMemWrite32 0xfffe0130 v s = Ok t" "psxMemWrite32 0xfffe0130 0x1e988 t = Ok s"
    using unmapped[OF assms(1)] unmapped[OF ok(1)] restored by (simp_all add: psxMemWrite32_def t_def[symmetric]) (simp add: t_def)
  then show ?thesis using ok assms(3) by (auto simp: ram_read32 ram_write32)
qed

theorem cache_isolation_witness:
  "\<exists>t. psxMemWrite32 0xfffe0130 0x804 sample_psx = Ok t \<and> psxMemWrite32 0x80010000 9 t = Ok t \<and>
    psxMemRead32 0x80010000 t = Ok (0, t) \<and> psxMemWrite32 0xfffe0130 0x1e988 t = Ok sample_psx"
  by (rule cache_isolation) (simp_all add: sample_psx_def lut_ok_def psxMemInit_def ram_addr_def in_ram_window_def)

text \<open>The DMA interrupt register: the low 24 bits take the value written, the flag bits above are cleared by writing ones.\<close>
theorem icr_write_bits:
  "bit (icr_write icr v) n = (if n < 24 then bit v n else n < 32 \<and> bit icr n \<and> \<not> bit v n)"
proof -
  have m: "(0xffffff :: u32) = mask 24" by (simp add: mask_eq_exp_minus_1)
  have "n < 32" if "bit icr n" using bit_imp_le_length[OF that] by simp
  moreover have "\<not> bit w n" if "32 \<le> n" for w :: u32 using that by (simp add: impossible_bit)
  ultimately show ?thesis unfolding icr_write_def Let_def m by (auto simp: bit_simps)
qed

text \<open>A write to the interrupt status register keeps only the pending bits that are enabled in the mask and set in the value written.\<close>
theorem irq_acknowledge:
  assumes "psxHu32 0x1070 (mem s) = Ok st" "psxHu32 0x1074 (mem s) = Ok msk"
  shows "\<exists>t. psxMemWrite32 0x1f801070 v s = Ok t \<and> psxMemRead32 0x1f801070 t = Ok (st AND msk AND v, t)"
proof -
  obtain m where m: "hw_and 0x1070 (msk AND v) (mem s) = Ok m" "psxHu32 0x1070 m = Ok (st AND msk AND v)"
    using hw_and_total[OF assms(1)] by (metis and.assoc)
  then show ?thesis
    using assms(2)
    by (simp add: psxMemWrite32_def psxMemRead32_def psxHwWrite32_def psxHwRead32_def on_mem_def read_mem_def
        rcnt_reg_def psxHu32_1f80)
qed

theorem irq_acknowledge_witness:
  "\<exists>t. psxMemWrite32 0x1f801070 0xffffffff sample_psx = Ok t \<and> psxMemRead32 0x1f801070 t = Ok (0 AND 0 AND 0xffffffff, t)"
  by (rule irq_acknowledge) (simp_all add: sample_psx_def psxMemInit_def psxHu32_def psxHptr_def le32_def)


text \<open>A machine with the sound channel and its interrupt enabled and a block of one word of main memory, to be stored at the end of sound memory.\<close>

definition dma_psx :: psx where
  "dma_psx = sample_psx\<lparr>mem := set_bytes psxM 0x10000 [1, 2, 3, 4] (set_bytes psxH 0x10c0 [0, 0, 1, 0x80, 1, 0, 1, 0]
     (set_bytes psxH 0x10f0 [0, 0, 8, 0, 0, 0, 0x10, 0] (mem sample_psx))), snd_unit := (snd_unit sample_psx)\<lparr>spuAddr := 0x7fffe\<rparr>\<rparr>"


end
