(* ===== verification/CStrings.thy ===== *)
theory CStrings
  imports Prelude
begin

text \<open>
  The C library's string functions on byte lists: what the BIOS calls of \<^verbatim>\<open>psf/PsxBios.c\<close>, the
  loader of \<^verbatim>\<open>psf/Misc.c\<close> and \<^verbatim>\<open>psflib\<close> use of them. A C string is the list of its bytes without
  the terminator.
\<close>

type_synonym cstring = "u8 list"

definition ascii :: "string \<Rightarrow> cstring" where
  "ascii = map of_char"

definition c_lower :: "u8 \<Rightarrow> u8" where
  "c_lower c = (if 65 \<le> c \<and> c \<le> 90 then c + 32 else c)"

definition same_nocase :: "cstring \<Rightarrow> cstring \<Rightarrow> bool" where
  "same_nocase x y \<longleftrightarrow> map c_lower x = map c_lower y"

text \<open>
  The C library functions on byte lists. A position is returned as an index; the comparison
  functions return the difference of the first differing bytes, as bionic does.
\<close>

definition is_space :: "u8 \<Rightarrow> bool" where
  "is_space c \<longleftrightarrow> c = 32 \<or> (9 \<le> c \<and> c \<le> 13)"

definition is_digit :: "u8 \<Rightarrow> bool" where
  "is_digit c \<longleftrightarrow> 48 \<le> c \<and> c \<le> 57"

definition digits_value :: "u8 list \<Rightarrow> int" where
  "digits_value l = fold (\<lambda>c acc. acc * 10 + (uint c - 48)) (takeWhile is_digit l) 0"

definition c_atoi :: "u8 list \<Rightarrow> int" where
  "c_atoi l = (case dropWhile is_space l of
     [] \<Rightarrow> 0
   | c # cs \<Rightarrow> if c = 45 then - digits_value cs else if c = 43 then digits_value cs
              else digits_value (c # cs))"

fun find_index :: "('a \<Rightarrow> bool) \<Rightarrow> 'a list \<Rightarrow> nat option" where
  "find_index P [] = None"
| "find_index P (x # xs) = (if P x then Some 0 else map_option Suc (find_index P xs))"

definition c_strchr :: "u8 list \<Rightarrow> u8 \<Rightarrow> nat option" where
  "c_strchr l c = find_index (\<lambda>x. x = c) (l @ [0])"

definition c_strrchr :: "u8 list \<Rightarrow> u8 \<Rightarrow> nat option" where
  "c_strrchr l c = map_option (\<lambda>i. length l - i) (find_index (\<lambda>x. x = c) (rev (l @ [0])))"

definition c_strpbrk :: "u8 list \<Rightarrow> u8 list \<Rightarrow> nat option" where
  "c_strpbrk l set_of = find_index (\<lambda>x. x \<in> set set_of) l"

definition c_strspn :: "u8 list \<Rightarrow> u8 list \<Rightarrow> nat" where
  "c_strspn l set_of = length (takeWhile (\<lambda>x. x \<in> set set_of) l)"

definition c_strcspn :: "u8 list \<Rightarrow> u8 list \<Rightarrow> nat" where
  "c_strcspn l set_of = length (takeWhile (\<lambda>x. x \<notin> set set_of) l)"

fun c_strstr :: "u8 list \<Rightarrow> u8 list \<Rightarrow> nat option" where
  "c_strstr [] pat = (if pat = [] then Some 0 else None)"
| "c_strstr (x # xs) pat =
     (if take (length pat) (x # xs) = pat then Some 0 else map_option Suc (c_strstr xs pat))"

fun c_compare :: "u8 list \<Rightarrow> u8 list \<Rightarrow> int" where
  "c_compare (x # xs) (y # ys) = (if x \<noteq> y then uint x - uint y else c_compare xs ys)"
| "c_compare _ _ = 0"

definition c_strcmp :: "u8 list \<Rightarrow> u8 list \<Rightarrow> int" where
  "c_strcmp x y = c_compare (x @ [0]) (y @ [0])"

text \<open>Signed arithmetic in \<^verbatim>\<open>int\<close>, undefined where it overflows.\<close>

definition checked_int :: "int \<Rightarrow> int res" where
  "checked_int v = require (- 2147483648 \<le> v \<and> v \<le> 2147483647) Undefined (Ok v)"

text \<open>Decimal notation.\<close>

fun dec :: "nat \<Rightarrow> cstring" where
  "dec n = (if n < 10 then [of_nat (48 + n)] else dec (n div 10) @ [of_nat (48 + n mod 10)])"

declare dec.simps [simp del]

lemma digit_byte: "k < 10 \<Longrightarrow> is_digit (of_nat (48 + k))" "k < 10 \<Longrightarrow> uint (of_nat (48 + k) :: u8) = 48 + int k"
proof -
  have u: "uint (of_nat (48 + k) :: u8) = 48 + int k" if "k < 10"
    using that by (simp add: uint_nat unat_of_nat del: of_nat_add)
  then show "k < 10 \<Longrightarrow> uint (of_nat (48 + k) :: u8) = 48 + int k" .
  show "k < 10 \<Longrightarrow> is_digit (of_nat (48 + k))"
    using u by (simp add: is_digit_def word_le_def)
qed

lemma dec_digits: "\<forall>c \<in> set (dec n). is_digit c"
  by (induction n rule: dec.induct) (subst dec.simps, auto simp del: of_nat_add simp: digit_byte)

lemma dec_nonempty: "dec n \<noteq> []"
  by (subst dec.simps) simp

lemma digits_value_dec: "digits_value (dec n) = int n"
proof (induction n rule: dec.induct)
  case (1 n)
  have all: "takeWhile is_digit (dec k) = dec k" for k using dec_digits[of k] by (simp add: takeWhile_eq_all_conv)
  have last: "takeWhile is_digit (dec (n div 10) @ [of_nat (48 + n mod 10)]) = dec (n div 10) @ [of_nat (48 + n mod 10)]"
    using dec_digits[of "n div 10"] by (auto simp: takeWhile_eq_all_conv digit_byte simp del: of_nat_add)
  have "int (n div 10 * 10 + n mod 10) = int n" by simp
  then have e: "int (n div 10) * 10 + int (n mod 10) = int n" by (simp only: of_nat_add of_nat_mult of_nat_numeral)
  show ?case
  proof (cases "n < 10")
    case True
    then show ?thesis by (subst dec.simps) (simp add: digits_value_def digit_byte del: of_nat_add)
  next
    case False
    then show ?thesis
      using 1 all[of "n div 10"] e by (subst dec.simps) (simp add: digits_value_def last digit_byte del: of_nat_add)
  qed
qed

end
