(* ===== verification/PsxBios.thy ===== *)
theory PsxBios
  imports PsxHw CStrings
begin

text \<open>
  The BIOS calls of \<^verbatim>\<open>psf/PsxBios.c\<close> that do not run guest code: string and memory routines,
  the heap, random numbers, root counters, events, threads and the kernel tables. The calls that
  re-enter the processor (event delivery, interrupts, exceptions) are in \<^verbatim>\<open>Cpu\<close>. Every call ends by
  returning to the address in \<^verbatim>\<open>ra\<close>.
\<close>

section \<open>Returning\<close>

definition bios_end :: "psx \<Rightarrow> psx" where
  "bios_end s = set_pc (GPR s ra) s"

definition bios_ret :: "u32 \<Rightarrow> psx \<Rightarrow> psx" where
  "bios_ret v s = bios_end (set_gpr v0 v s)"

text \<open>
  The guest loops below step an address or a chunk pointer that has \<open>2 ^ 32\<close> values; a scan that
  has not stopped after that many steps never does.
\<close>

definition scan_fuel :: nat where "scan_fuel = 4294967297"

section \<open>Host strings\<close>

text \<open>
  \<open>cstr\<close> is the byte string the C library sees through a host pointer: up to the terminator,
  which has to be inside the allocation.
\<close>

function cstr_from :: "nat \<Rightarrow> (nat \<Rightarrow> u8) \<Rightarrow> nat \<Rightarrow> u8 list option" where
  "cstr_from fin f i =
     (if i \<ge> fin then None
      else if f i = 0 then Some []
      else case cstr_from fin f (Suc i) of None \<Rightarrow> None | Some l \<Rightarrow> Some (f i # l))"
  by pat_completeness auto
termination by (relation "measure (\<lambda>(fin, f, i). fin - i)") auto

declare cstr_from.simps [simp del]

definition cstr :: "u32 \<Rightarrow> psxmem \<Rightarrow> u8 list res" where
  "cstr a m = bind_res (deref (PSXM a m)) (\<lambda>(r, off).
     case cstr_from (region_size r) (bytes m r) off of
       None \<Rightarrow> Fail OutOfBounds
     | Some l \<Rightarrow> Ok l)"

definition host_bytes :: "u32 \<Rightarrow> nat \<Rightarrow> psxmem \<Rightarrow> u8 list res" where
  "host_bytes a n m = bind_res (deref (PSXM a m)) (\<lambda>(r, off).
     require (off + n \<le> region_size r) OutOfBounds (Ok (map (\<lambda>i. bytes m r (off + i)) [0..<n])))"

section \<open>Strings and memory\<close>

definition bios_abs :: "psx \<Rightarrow> psx res" where
  "bios_abs s = Ok (bios_ret (if GPR s a0 <s 0 then 0 - GPR s a0 else GPR s a0) s)"

definition bios_labs :: "psx \<Rightarrow> psx res" where
  "bios_labs s = Ok (bios_ret (if GPR s a0 <s 0 then 0 - GPR s a0 else GPR s a0) s)"

definition bios_atoi :: "psx \<Rightarrow> psx res" where
  "bios_atoi s = bind_res (cstr (GPR s a0) (mem s)) (\<lambda>l.
     require (- 2147483648 \<le> c_atoi l \<and> c_atoi l \<le> 2147483647) Undefined
       (Ok (bios_ret (word_of_int (c_atoi l)) s)))"

definition bios_atol :: "psx \<Rightarrow> psx res" where
  "bios_atol s = bios_atoi s"

text \<open>The register layout of a jump buffer: word index and register.\<close>

definition jmp_layout :: "(nat \<times> nat) list" where
  "jmp_layout = [(0, ra), (1, sp), (2, fp), (3, 16), (4, 17), (5, 18), (6, 19), (7, 20), (8, 21),
     (9, 22), (10, 23), (11, gp)]"

definition jmp_save :: "ptr \<Rightarrow> (nat \<Rightarrow> u32) \<Rightarrow> psxmem \<Rightarrow> psxmem res" where
  "jmp_save p g = for_each jmp_layout (\<lambda>(i, r) m. store_u32 (ptr_add p (4 * i)) (g r) m)"

definition jmp_load :: "ptr \<Rightarrow> psx \<Rightarrow> psx res" where
  "jmp_load p = for_each jmp_layout (\<lambda>(i, r) s.
     bind_res (load_u32 (ptr_add p (4 * i)) (mem s)) (\<lambda>v. Ok (set_gpr r v s)))"

definition bios_setjmp :: "psx \<Rightarrow> psx res" where
  "bios_setjmp s = bind_res (deref (PSXM (GPR s a0) (mem s))) (\<lambda>p.
     bind_res (on_mem (jmp_save p (GPR s)) s) (\<lambda>s1. Ok (bios_ret 0 s1)))"

definition bios_longjmp :: "psx \<Rightarrow> psx res" where
  "bios_longjmp s = bind_res (deref (PSXM (GPR s a0) (mem s))) (\<lambda>p.
     bind_res (jmp_load p s) (\<lambda>s1. Ok (bios_ret (GPR s1 a1) s1)))"

text \<open>\<^verbatim>\<open>while (PSXMu8(a) != 0) a++\<close>, with the final address as result.\<close>

definition scan_nul :: "u32 \<Rightarrow> psxmem \<Rightarrow> u32 res" where
  "scan_nul a m = while_res scan_fuel (\<lambda>a. bind_res (PSXMu8 a m) (\<lambda>b. Ok (b \<noteq> 0))) (\<lambda>a. Ok (a + 1)) a"

definition copy_byte :: "u32 \<Rightarrow> u32 \<Rightarrow> psxmem \<Rightarrow> psxmem res" where
  "copy_byte dest src m = bind_res (PSXMu8 src m) (\<lambda>b. PSXMu8_set dest b m)"

definition copy_if_mapped :: "u32 \<Rightarrow> u32 \<Rightarrow> psxmem \<Rightarrow> psxmem res" where
  "copy_if_mapped dest src m =
     (if PSXM dest m \<noteq> None \<and> PSXM src m \<noteq> None then copy_byte dest src m else Ok m)"

definition guest_strcat :: "u32 \<Rightarrow> u32 \<Rightarrow> psxmem \<Rightarrow> psxmem res" where
  "guest_strcat dest src m =
     bind_res (scan_nul dest m) (\<lambda>d.
     bind_res (while_res scan_fuel (\<lambda>(d, s, m). bind_res (PSXMu8 s m) (\<lambda>b. Ok (b \<noteq> 0)))
       (\<lambda>(d, s, m). bind_res (copy_if_mapped d s m) (\<lambda>m1. Ok (d + 1, s + 1, m1))) (d, src, m))
     (\<lambda>(d, s, m). PSXMu8_set d 0 m))"

definition bios_strcat :: "psx \<Rightarrow> psx res" where
  "bios_strcat s = bind_res (on_mem (guest_strcat (GPR s a0) (GPR s a1)) s) (\<lambda>s1.
     Ok (bios_ret (GPR s a0) s1))"

definition guest_strncat :: "u32 \<Rightarrow> u32 \<Rightarrow> u32 \<Rightarrow> psxmem \<Rightarrow> psxmem res" where
  "guest_strncat dest src count m =
     bind_res (scan_nul dest m) (\<lambda>d.
     bind_res (while_res scan_fuel (\<lambda>(d, s, c, m). bind_res (PSXMu8 s m) (\<lambda>b. Ok (b \<noteq> 0 \<and> c \<noteq> 0)))
       (\<lambda>(d, s, c, m). bind_res (copy_if_mapped d s m) (\<lambda>m1. Ok (d + 1, s + 1, c - 1, m1)))
       (d, src, count, m))
     (\<lambda>(d, s, c, m). PSXMu8_set d 0 m))"

definition bios_strncat :: "psx \<Rightarrow> psx res" where
  "bios_strncat s = bind_res (on_mem (guest_strncat (GPR s a0) (GPR s a1) (GPR s a2)) s) (\<lambda>s1.
     Ok (bios_ret (GPR s a0) s1))"

definition bios_strcmp :: "psx \<Rightarrow> psx res" where
  "bios_strcmp s = bind_res (cstr (GPR s a0) (mem s)) (\<lambda>x. bind_res (cstr (GPR s a1) (mem s)) (\<lambda>y.
     Ok (bios_ret (word_of_int (c_strcmp x y)) s)))"

text \<open>The loop of \<^verbatim>\<open>bios_strncmp\<close>; the result is \<^verbatim>\<open>tmpv\<close>, an \<^verbatim>\<open>s8\<close>.\<close>

primrec strncmp_loop :: "nat \<Rightarrow> u32 \<Rightarrow> u32 \<Rightarrow> psxmem \<Rightarrow> u8 \<Rightarrow> u8 res" where
  "strncmp_loop 0 x y m tmpv = Ok tmpv"
| "strncmp_loop (Suc n) x y m tmpv =
     bind_res (PSXMuR8 x m) (\<lambda>b1. bind_res (PSXMuR8 y m) (\<lambda>b2.
     if b1 = 0 \<or> b2 = 0 then Ok tmpv
     else if b1 - b2 \<noteq> 0 then Ok (b1 - b2)
     else if PSXM x m = None \<or> PSXM y m = None then Ok (b1 - b2)
     else strncmp_loop n (x + 1) (y + 1) m (b1 - b2)))"

definition bios_strncmp :: "psx \<Rightarrow> psx res" where
  "bios_strncmp s =
     bind_res (strncmp_loop (unat (GPR s a2)) (GPR s a0) (GPR s a1) (mem s) 0) (\<lambda>t.
     Ok (bios_ret (if 0 <s t then 1 else if t <s 0 then - 1 else 0) s))"

definition guest_strcpy :: "u32 \<Rightarrow> u32 \<Rightarrow> psxmem \<Rightarrow> psxmem res" where
  "guest_strcpy dest src m =
     bind_res (do_res scan_fuel (\<lambda>(d, s, m).
       bind_res (PSXMu8 s m) (\<lambda>v. bind_res (PSXMu8_set d v m) (\<lambda>m1.
       Ok (v \<noteq> 0, d + 1, s + 1, m1)))) (dest, src, m)) (\<lambda>(d, s, m). Ok m)"

definition bios_strcpy :: "psx \<Rightarrow> psx res" where
  "bios_strcpy s = bind_res (on_mem (guest_strcpy (GPR s a0) (GPR s a1)) s) (\<lambda>s1.
     Ok (bios_ret (GPR s a0) s1))"

definition guest_strncpy :: "u32 \<Rightarrow> u32 \<Rightarrow> u32 \<Rightarrow> psxmem \<Rightarrow> psxmem res" where
  "guest_strncpy dest src count m =
     bind_res (do_res scan_fuel (\<lambda>(d, s, c, m).
       bind_res (PSXMu8 s m) (\<lambda>v. bind_res (PSXMu8_set d v m) (\<lambda>m1.
       Ok (v \<noteq> 0 \<and> c - 1 \<noteq> 0, d + 1, s + 1, c - 1, m1)))) (dest, src, count, m))
     (\<lambda>(d, s, c, m). Ok m)"

definition bios_strncpy :: "psx \<Rightarrow> psx res" where
  "bios_strncpy s = bind_res (on_mem (guest_strncpy (GPR s a0) (GPR s a1) (GPR s a2)) s) (\<lambda>s1.
     Ok (bios_ret (GPR s a0) s1))"

definition bios_strlen :: "psx \<Rightarrow> psx res" where
  "bios_strlen s = bind_res (scan_nul (GPR s a0) (mem s)) (\<lambda>e. Ok (bios_ret (e - GPR s a0) s))"

text \<open>The common form of the searches: a position becomes a guest address, NULL becomes 0.\<close>

definition ret_pos :: "nat option \<Rightarrow> psx \<Rightarrow> psx" where
  "ret_pos p s = bios_ret (case p of None \<Rightarrow> 0 | Some i \<Rightarrow> GPR s a0 + of_nat i) s"

definition bios_index :: "psx \<Rightarrow> psx res" where
  "bios_index s = bind_res (cstr (GPR s a0) (mem s)) (\<lambda>l. Ok (ret_pos (c_strchr l (ucast (GPR s a1))) s))"

definition bios_rindex :: "psx \<Rightarrow> psx res" where
  "bios_rindex s = bind_res (cstr (GPR s a0) (mem s)) (\<lambda>l. Ok (ret_pos (c_strrchr l (ucast (GPR s a1))) s))"

definition bios_strchr :: "psx \<Rightarrow> psx res" where
  "bios_strchr s = bind_res (cstr (GPR s a0) (mem s)) (\<lambda>l. Ok (ret_pos (c_strchr l (ucast (GPR s a1))) s))"

definition bios_strrchr :: "psx \<Rightarrow> psx res" where
  "bios_strrchr s = bind_res (cstr (GPR s a0) (mem s)) (\<lambda>l. Ok (ret_pos (c_strrchr l (ucast (GPR s a1))) s))"

definition with_strings :: "(u8 list \<Rightarrow> u8 list \<Rightarrow> psx \<Rightarrow> psx) \<Rightarrow> psx \<Rightarrow> psx res" where
  "with_strings f s = bind_res (cstr (GPR s a0) (mem s)) (\<lambda>x. bind_res (cstr (GPR s a1) (mem s)) (\<lambda>y.
     Ok (f x y s)))"

definition bios_strpbrk :: "psx \<Rightarrow> psx res" where
  "bios_strpbrk = with_strings (\<lambda>x y. ret_pos (c_strpbrk x y))"

definition bios_strspn :: "psx \<Rightarrow> psx res" where
  "bios_strspn = with_strings (\<lambda>x y. bios_ret (of_nat (c_strspn x y)))"

definition bios_strcspn :: "psx \<Rightarrow> psx res" where
  "bios_strcspn = with_strings (\<lambda>x y. bios_ret (of_nat (c_strcspn x y)))"

definition bios_strstr :: "psx \<Rightarrow> psx res" where
  "bios_strstr = with_strings (\<lambda>x y. ret_pos (c_strstr x y))"

text \<open>\<^verbatim>\<open>toupper\<close> and \<^verbatim>\<open>tolower\<close> are defined on \<^verbatim>\<open>unsigned char\<close> values and \<^verbatim>\<open>EOF\<close> only.\<close>

definition ctype_arg :: "u32 \<Rightarrow> bool" where
  "ctype_arg c \<longleftrightarrow> c < 256 \<or> c = - 1"

definition bios_toupper :: "psx \<Rightarrow> psx res" where
  "bios_toupper s = (let c = GPR s a0 in require (ctype_arg c) Undefined
     (Ok (bios_ret (if 97 \<le> c \<and> c \<le> 122 then c - 32 else c) s)))"

definition bios_tolower :: "psx \<Rightarrow> psx res" where
  "bios_tolower s = (let c = GPR s a0 in require (ctype_arg c) Undefined
     (Ok (bios_ret (if 65 \<le> c \<and> c \<le> 90 then c + 32 else c) s)))"

text \<open>The byte loops of \<^verbatim>\<open>bcopy\<close>, \<^verbatim>\<open>memcpy\<close>, \<^verbatim>\<open>bzero\<close> and \<^verbatim>\<open>memset\<close>.\<close>

definition guest_memcpy :: "u32 \<Rightarrow> u32 \<Rightarrow> u32 \<Rightarrow> psxmem \<Rightarrow> psxmem res" where
  "guest_memcpy dest src len m =
     bind_res (repeat (unat len) (\<lambda>(d, s, m). bind_res (copy_byte d s m) (\<lambda>m1. Ok (d + 1, s + 1, m1)))
       (dest, src, m)) (\<lambda>(d, s, m). Ok m)"

definition bios_bcopy :: "psx \<Rightarrow> psx res" where
  "bios_bcopy s = bind_res (on_mem (guest_memcpy (GPR s a1) (GPR s a0) (GPR s a2)) s) (\<lambda>s1.
     Ok (bios_end s1))"

definition guest_bzero :: "u32 \<Rightarrow> u32 \<Rightarrow> psxmem \<Rightarrow> psxmem res" where
  "guest_bzero dest len m =
     bind_res (repeat (unat len) (\<lambda>(d, m). bind_res (PSXMu8_set d 0 m) (\<lambda>m1. Ok (d + 1, m1))) (dest, m))
       (\<lambda>(d, m). Ok m)"

definition bios_bzero :: "psx \<Rightarrow> psx res" where
  "bios_bzero s = bind_res (on_mem (guest_bzero (GPR s a0) (GPR s a1)) s) (\<lambda>s1. Ok (bios_end s1))"

definition host_memcmp :: "psx \<Rightarrow> psx res" where
  "host_memcmp s =
     bind_res (host_bytes (GPR s a0) (unat (GPR s a2)) (mem s)) (\<lambda>x.
     bind_res (host_bytes (GPR s a1) (unat (GPR s a2)) (mem s)) (\<lambda>y.
     Ok (bios_ret (word_of_int (c_compare x y)) s)))"

definition bios_bcmp :: "psx \<Rightarrow> psx res" where
  "bios_bcmp s = host_memcmp s"

definition bios_memcpy :: "psx \<Rightarrow> psx res" where
  "bios_memcpy s = bind_res (on_mem (guest_memcpy (GPR s a0) (GPR s a1) (GPR s a2)) s) (\<lambda>s1.
     Ok (bios_ret (GPR s a0) s1))"

definition guest_memset :: "u32 \<Rightarrow> u8 \<Rightarrow> u32 \<Rightarrow> psxmem \<Rightarrow> psxmem res" where
  "guest_memset dest v len m =
     bind_res (repeat (unat len) (\<lambda>(d, m).
       bind_res (if PSXM d m \<noteq> None then PSXMu8_set d v m else Ok m) (\<lambda>m1. Ok (d + 1, m1))) (dest, m))
       (\<lambda>(d, m). Ok m)"

definition bios_memset :: "psx \<Rightarrow> psx res" where
  "bios_memset s = bind_res (on_mem (guest_memset (GPR s a0) (ucast (GPR s a1)) (GPR s a2)) s) (\<lambda>s1.
     Ok (bios_ret (GPR s a0) s1))"

definition bios_memcmp :: "psx \<Rightarrow> psx res" where
  "bios_memcmp s = host_memcmp s"

text \<open>\<^verbatim>\<open>memchr\<close> reads up to the match only.\<close>

definition host_memchr :: "u32 \<Rightarrow> u8 \<Rightarrow> nat \<Rightarrow> psxmem \<Rightarrow> nat option res" where
  "host_memchr a c n m = bind_res (deref (PSXM a m)) (\<lambda>(r, off).
     let avail = min n (region_size r - off) in
     case find_index (\<lambda>i. bytes m r (off + i) = c) [0..<avail] of
       Some i \<Rightarrow> Ok (Some i)
     | None \<Rightarrow> if avail < n then Fail OutOfBounds else Ok None)"

definition bios_memchr :: "psx \<Rightarrow> psx res" where
  "bios_memchr s =
     bind_res (host_memchr (GPR s a0) (ucast (GPR s a1)) (unat (GPR s a2)) (mem s)) (\<lambda>p.
     Ok (ret_pos p s))"

section \<open>Random numbers and the heap\<close>

definition bios_rand :: "psx \<Rightarrow> psx res" where
  "bios_rand s =
     (let r = host_rand s (rand_seed s) (rand_pos s) in
      Ok (bios_ret (1 + of_nat ((32767 * r) div 2147483648)) (s\<lparr>rand_pos := rand_pos s + 1\<rparr>)))"

definition bios_srand :: "psx \<Rightarrow> psx res" where
  "bios_srand s = Ok (bios_end (s\<lparr>rand_seed := GPR s a0, rand_pos := 0\<rparr>))"

text \<open>A field of a \<^verbatim>\<open>malloc_chunk\<close>: \<^verbatim>\<open>stat\<close> at 0, \<^verbatim>\<open>size\<close> at 4, \<^verbatim>\<open>fd\<close> at 8, \<^verbatim>\<open>bk\<close> at 12.\<close>

definition chunk_get :: "u32 \<Rightarrow> nat \<Rightarrow> psxmem \<Rightarrow> u32 res" where
  "chunk_get c k m = bind_res (deref (PSXM c m)) (\<lambda>p. load_u32 (ptr_add p k) m)"

definition chunk_set :: "u32 \<Rightarrow> nat \<Rightarrow> u32 \<Rightarrow> psxmem \<Rightarrow> psxmem res" where
  "chunk_set c k v m = bind_res (deref (PSXM c m)) (\<lambda>p. store_u32 (ptr_add p k) v m)"

definition INUSE :: u32 where "INUSE = 1"

definition find_chunk :: "u32 \<Rightarrow> u32 \<Rightarrow> psxmem \<Rightarrow> u32 res" where
  "find_chunk n c m = while_res scan_fuel
     (\<lambda>c. bind_res (chunk_get c 4 m) (\<lambda>sz.
        if n > sz then Ok True else bind_res (chunk_get c 0 m) (\<lambda>st. Ok (st = INUSE))))
     (\<lambda>c. chunk_get c 8 m) c"

definition guest_malloc :: "u32 \<Rightarrow> u32 \<Rightarrow> psxmem \<Rightarrow> (u32 \<times> psxmem) res" where
  "guest_malloc n heap m =
     bind_res (find_chunk n heap m) (\<lambda>c. let fd = c + 16 + n in
     bind_res (chunk_get c 0 m) (\<lambda>st. bind_res (chunk_set fd 0 st m) (\<lambda>m1.
     bind_res (chunk_get c 4 m1) (\<lambda>sz. bind_res (chunk_set fd 4 (sz - n) m1) (\<lambda>m2.
     bind_res (chunk_get c 8 m2) (\<lambda>nx. bind_res (chunk_set fd 8 nx m2) (\<lambda>m3.
     bind_res (chunk_set fd 12 c m3) (\<lambda>m4.
     bind_res (chunk_set c 0 INUSE m4) (\<lambda>m5.
     bind_res (chunk_set c 4 n m5) (\<lambda>m6.
     bind_res (chunk_set c 8 fd m6) (\<lambda>m7. Ok ((c + 16) OR 0x80000000, m7))))))))))))"

definition bios_malloc :: "psx \<Rightarrow> psx res" where
  "bios_malloc s = bind_res (guest_malloc (GPR s a0) (heap_addr (bios_st s)) (mem s)) (\<lambda>(v, m).
     Ok (bios_ret v (s\<lparr>mem := m\<rparr>)))"

definition guest_InitHeap :: "u32 \<Rightarrow> u32 \<Rightarrow> psxmem \<Rightarrow> psxmem res" where
  "guest_InitHeap base sz m =
     bind_res (chunk_set base 0 0 m) (\<lambda>m1.
     bind_res (chunk_set base 4
       (if (base AND 0x1fffff) + sz \<ge> 0x200000 then 0x1ffffc - (base AND 0x1fffff) else sz) m1) (\<lambda>m2.
     bind_res (chunk_set base 8 0 m2) (chunk_set base 12 0)))"

definition bios_InitHeap :: "psx \<Rightarrow> psx res" where
  "bios_InitHeap s =
     bind_res (on_mem (guest_InitHeap (GPR s a0) (GPR s a1))
       (s\<lparr>bios_st := (bios_st s)\<lparr>heap_addr := GPR s a0\<rparr>\<rparr>)) (\<lambda>s1. Ok (bios_end s1))"

definition bios_FlushCache :: "psx \<Rightarrow> psx res" where
  "bios_FlushCache s = Ok (bios_end s)"

definition bios__96_init :: "psx \<Rightarrow> psx res" where
  "bios__96_init s = Ok (bios_end s)"

definition bios__96_remove :: "psx \<Rightarrow> psx res" where
  "bios__96_remove s = Ok (bios_end s)"

section \<open>Root counters\<close>

definition rcnt_sel :: "psx \<Rightarrow> psx" where
  "rcnt_sel s = set_gpr a0 (GPR s a0 AND 3) s"

definition bios_SetRCnt :: "psx \<Rightarrow> psx res" where
  "bios_SetRCnt si =
     (let s = rcnt_sel si; i = unat (GPR s a0); f = GPR s a2 in
      if i \<noteq> 3 then
        let mode = (if f AND 0x1000 \<noteq> 0 then 0x050 else 0) OR (if f AND 0x0100 \<noteq> 0 then 0x008 else 0)
                   OR (if f AND 0x0010 \<noteq> 0 then 0x001 else 0)
                   OR (if f AND 0x0001 \<noteq> 0 then if i = 2 then 0x200 else 0x100 else 0) in
        Ok (bios_end (on_cnt (\<lambda>c. psxRcntWmode c i mode)
              (on_cnt (\<lambda>c. psxRcntWtarget c i (GPR s a1)) s)))
      else Ok (bios_end s))"

definition bios_GetRCnt :: "psx \<Rightarrow> psx res" where
  "bios_GetRCnt si =
     (let s = rcnt_sel si; i = unat (GPR s a0) in
      bind_res (if i \<noteq> 3 then psxRcntRcount (cycle s) i (cnt s) else Ok 0) (\<lambda>v. Ok (bios_ret v s)))"

definition rcnt_mask :: "nat \<Rightarrow> u32" where
  "rcnt_mask i = (if i \<noteq> 3 then push_bit (i + 4) 1 else 1)"

definition bios_StartRCnt :: "psx \<Rightarrow> psx res" where
  "bios_StartRCnt si =
     (let s = rcnt_sel si in
      bind_res (on_mem (hw_or 0x1074 (rcnt_mask (unat (GPR s a0)))) s) (\<lambda>s1. Ok (bios_ret 1 s1)))"

definition bios_StopRCnt :: "psx \<Rightarrow> psx res" where
  "bios_StopRCnt si =
     (let s = rcnt_sel si in
      bind_res (on_mem (hw_and 0x1074 (NOT (rcnt_mask (unat (GPR s a0))))) s) (\<lambda>s1. Ok (bios_end s1)))"

definition bios_ResetRCnt :: "psx \<Rightarrow> psx res" where
  "bios_ResetRCnt si =
     (let s = rcnt_sel si; i = unat (GPR s a0) in
      if i \<noteq> 3 then
        Ok (bios_end (on_cnt (\<lambda>c. psxRcntWcount c i 0) (on_cnt (\<lambda>c. psxRcntWtarget c i 0)
              (on_cnt (\<lambda>c. psxRcntWmode c i 0) s))))
      else Ok (bios_end s))"

section \<open>Events\<close>

text \<open>
  The event control blocks \<^verbatim>\<open>Event[ev][spec]\<close> lie in the boot ROM block from offset \<^verbatim>\<open>0x1000\<close>:
  32 of 16 bytes in each row. \<^verbatim>\<open>RcEV\<close> is row 64.
\<close>

definition EvStUNUSED :: u32 where "EvStUNUSED = 0"
definition EvStWAIT :: u32 where "EvStWAIT = 0x1000"
definition EvStACTIVE :: u32 where "EvStACTIVE = 0x2000"
definition EvStALREADY :: u32 where "EvStALREADY = 0x4000"
definition EvMdINTR :: u32 where "EvMdINTR = 0x1000"
definition EvMdNOINTR :: u32 where "EvMdNOINTR = 0x2000"

lemmas ev_consts = EvStUNUSED_def EvStWAIT_def EvStACTIVE_def EvStALREADY_def EvMdINTR_def EvMdNOINTR_def

datatype ev_field = Ev_desc | Ev_status | Ev_mode | Ev_fhandler

fun ev_off :: "ev_field \<Rightarrow> nat" where
  "ev_off Ev_desc = 0"
| "ev_off Ev_status = 4"
| "ev_off Ev_mode = 8"
| "ev_off Ev_fhandler = 12"

definition ev_ptr :: "nat \<Rightarrow> nat \<Rightarrow> ev_field \<Rightarrow> ptr" where
  "ev_ptr ev spec f = (psxR, 0x1000 + ev * 512 + spec * 16 + ev_off f)"

definition ev_get :: "nat \<Rightarrow> nat \<Rightarrow> ev_field \<Rightarrow> psxmem \<Rightarrow> u32 res" where
  "ev_get ev spec f m = load_u32 (ev_ptr ev spec f) m"

definition ev_set :: "nat \<Rightarrow> nat \<Rightarrow> ev_field \<Rightarrow> u32 \<Rightarrow> psxmem \<Rightarrow> psxmem res" where
  "ev_set ev spec f v m = store_u32 (ev_ptr ev spec f) v m"

definition GetEv :: "u32 \<Rightarrow> nat" where
  "GetEv a = (let e = unat (drop_bit 24 a AND 0xf) in
     (if e = 0xf then 0x5 else e) * 32 + unat (a AND 0x1f))"

definition GetSpec :: "u32 \<Rightarrow> nat" where
  "GetSpec a = (if a = 0x0301 then 16 else if a = 0x0302 then 17
     else case find_index (\<lambda>i. a AND push_bit i 1 \<noteq> 0) [0..<16] of None \<Rightarrow> 0 | Some i \<Rightarrow> i)"

definition bios_OpenEvent :: "psx \<Rightarrow> psx res" where
  "bios_OpenEvent s =
     (let ev = GetEv (GPR s a0); spec = GetSpec (GPR s a1) in
      bind_res (on_mem (\<lambda>m. bind_res (ev_set ev spec Ev_status EvStWAIT m) (\<lambda>m1.
        bind_res (ev_set ev spec Ev_mode (GPR s a2) m1) (ev_set ev spec Ev_fhandler (GPR s a3)))) s)
      (\<lambda>s1. Ok (bios_ret (of_nat ev OR push_bit 8 (of_nat spec)) s1)))"

text \<open>The calls on an event descriptor: row in the low byte, column in the next.\<close>

definition desc_ev :: "u32 \<Rightarrow> nat" where
  "desc_ev d = unat (d AND 0xff)"

definition desc_spec :: "u32 \<Rightarrow> nat" where
  "desc_spec d = unat (drop_bit 8 d AND 0xff)"

definition set_event :: "u32 \<Rightarrow> psx \<Rightarrow> psx res" where
  "set_event st s =
     bind_res (on_mem (ev_set (desc_ev (GPR s a0)) (desc_spec (GPR s a0)) Ev_status st) s) (\<lambda>s1.
     Ok (bios_ret 1 s1))"

definition bios_CloseEvent :: "psx \<Rightarrow> psx res" where
  "bios_CloseEvent = set_event EvStUNUSED"

definition bios_WaitEvent :: "psx \<Rightarrow> psx res" where
  "bios_WaitEvent = set_event EvStACTIVE"

definition bios_TestEvent :: "psx \<Rightarrow> psx res" where
  "bios_TestEvent s =
     (let ev = desc_ev (GPR s a0); spec = desc_spec (GPR s a0) in
      bind_res (ev_get ev spec Ev_status (mem s)) (\<lambda>st.
      if st = EvStALREADY then
        bind_res (on_mem (ev_set ev spec Ev_status EvStACTIVE) s) (\<lambda>s1. Ok (bios_ret 1 s1))
      else Ok (bios_ret 0 s)))"

definition bios_EnableEvent :: "psx \<Rightarrow> psx res" where
  "bios_EnableEvent = set_event EvStACTIVE"

definition bios_DisableEvent :: "psx \<Rightarrow> psx res" where
  "bios_DisableEvent = set_event EvStWAIT"

definition bios_UnDeliverEvent :: "psx \<Rightarrow> psx res" where
  "bios_UnDeliverEvent s =
     (let ev = GetEv (GPR s a0); spec = GetSpec (GPR s a1) in
      bind_res (ev_get ev spec Ev_status (mem s)) (\<lambda>st.
      bind_res (ev_get ev spec Ev_mode (mem s)) (\<lambda>md.
      bind_res (if st = EvStALREADY \<and> md = EvMdNOINTR
                then on_mem (ev_set ev spec Ev_status EvStACTIVE) s else Ok s) (\<lambda>s1.
      Ok (bios_end s1)))))"

section \<open>Threads\<close>

definition set_thread :: "nat \<Rightarrow> (TCB \<Rightarrow> TCB) \<Rightarrow> psx \<Rightarrow> psx" where
  "set_thread th f s = s\<lparr>bios_st := (bios_st s)\<lparr>Thread :=
     (Thread (bios_st s))(th := f (Thread (bios_st s) th))\<rparr>\<rparr>"

definition free_thread :: "psx \<Rightarrow> nat" where
  "free_thread s = (case find (\<lambda>th. th_status (Thread (bios_st s) th) = 0) [1..<8] of
     None \<Rightarrow> 8 | Some th \<Rightarrow> th)"

definition bios_OpenTh :: "psx \<Rightarrow> psx res" where
  "bios_OpenTh s =
     (let th = free_thread s in
      require (th < 8) OutOfBounds (
      Ok (bios_ret (of_nat th) (set_thread th (\<lambda>t. t\<lparr>th_status := 1, th_func := GPR s a0,
            th_reg := (th_reg t)(29 := GPR s a1, 28 := GPR s a2)\<rparr>) s))))"

definition bios_CloseTh :: "psx \<Rightarrow> psx res" where
  "bios_CloseTh s =
     (let th = unat (GPR s a0 AND 0xff) in
      require (th < 8) OutOfBounds (
      if th_status (Thread (bios_st s) th) = 0 then Ok (bios_ret 0 s)
      else Ok (bios_ret 1 (set_thread th (th_status_update (\<lambda>_. 0)) s))))"

text \<open>\<^verbatim>\<open>memcpy\<close> of the 32 general registers; \<^verbatim>\<open>lo\<close> and \<^verbatim>\<open>hi\<close> are not part of it.\<close>

definition copy_gpr :: "(nat \<Rightarrow> u32) \<Rightarrow> (nat \<Rightarrow> u32) \<Rightarrow> nat \<Rightarrow> u32" where
  "copy_gpr src dst i = (if i < 32 then src i else dst i)"

definition bios_ChangeTh :: "psx \<Rightarrow> psx res" where
  "bios_ChangeTh s =
     (let th = unat (GPR s a0 AND 0xff); cur = CurThread (bios_st s) in
      require (th < 8) OutOfBounds (
      if th_status (Thread (bios_st s) th) = 0 \<or> cur = th then Ok (bios_ret 0 s)
      else
        let s1 = set_gpr v0 1 s;
            s2 = (if th_status (Thread (bios_st s1) cur) = 2
                  then set_thread cur (\<lambda>t. t\<lparr>th_status := 1, th_func := GPR s1 ra,
                         th_reg := copy_gpr (GPR s1) (th_reg t)\<rparr>) s1
                  else s1);
            t = Thread (bios_st s2) th;
            s3 = set_thread th (th_status_update (\<lambda>_. 2))
                   (set_pc (th_func t) (s2\<lparr>GPR := copy_gpr (th_reg t) (GPR s2)\<rparr>))
        in Ok (s3\<lparr>bios_st := (bios_st s3)\<lparr>CurThread := th\<rparr>\<rparr>)))"

section \<open>Exceptions and kernel tables\<close>

text \<open>The pop of the interrupt-enable stack in the status register (\<^verbatim>\<open>rfe\<close>).\<close>

definition status_pop :: "u32 \<Rightarrow> u32" where
  "status_pop v = (v AND 0xfffffff0) OR drop_bit 2 (v AND 0x3c)"

definition return_epc :: "psx \<Rightarrow> psx" where
  "return_epc s = set_cp0 Status (status_pop (CP0 s Status))
     (set_pc (if CP0 s Cause AND 0x80000000 \<noteq> 0 then CP0 s EPC + 4 else CP0 s EPC) s)"

definition SaveRegs :: "psx \<Rightarrow> psx" where
  "SaveRegs s = s\<lparr>bios_st := (bios_st s)\<lparr>saved_regs :=
     (\<lambda>i. if i < 34 then GPR s i else if i = 34 then pc s else saved_regs (bios_st s) i)\<rparr>\<rparr>"

definition bios_ReturnFromException :: "psx \<Rightarrow> psx res" where
  "bios_ReturnFromException s =
     Ok (return_epc (s\<lparr>GPR := (\<lambda>i. if i < 34 then saved_regs (bios_st s) i else GPR s i)\<rparr>))"

definition bios_ResetEntryInt :: "psx \<Rightarrow> psx res" where
  "bios_ResetEntryInt s = Ok (bios_end (s\<lparr>bios_st := (bios_st s)\<lparr>jmp_int := None\<rparr>\<rparr>))"

definition bios_HookEntryInt :: "psx \<Rightarrow> psx res" where
  "bios_HookEntryInt s =
     Ok (bios_end (s\<lparr>bios_st := (bios_st s)\<lparr>jmp_int := PSXM (GPR s a0) (mem s)\<rparr>\<rparr>))"

definition bios_GetC0Table :: "psx \<Rightarrow> psx res" where
  "bios_GetC0Table s = Ok (bios_ret 0x674 s)"

definition bios_GetB0Table :: "psx \<Rightarrow> psx res" where
  "bios_GetB0Table s = Ok (bios_ret 0x874 s)"

definition set_SysIntRP :: "u32 \<Rightarrow> psx \<Rightarrow> psx res" where
  "set_SysIntRP v s = require (unat (GPR s a0) < 8) OutOfBounds
     (Ok (bios_ret 0 (s\<lparr>bios_st := (bios_st s)\<lparr>SysIntRP :=
        (SysIntRP (bios_st s))(unat (GPR s a0) := v)\<rparr>\<rparr>)))"

definition bios_SysEnqIntRP :: "psx \<Rightarrow> psx res" where
  "bios_SysEnqIntRP s = set_SysIntRP (GPR s a1) s"

definition bios_SysDeqIntRP :: "psx \<Rightarrow> psx res" where
  "bios_SysDeqIntRP s = set_SysIntRP 0 s"

definition bios_ChangeClearRCnt :: "psx \<Rightarrow> psx res" where
  "bios_ChangeClearRCnt s =
     bind_res (deref (PSXM (push_bit 2 (GPR s a0) + 0x8600) (mem s))) (\<lambda>p.
     bind_res (load_u32 p (mem s)) (\<lambda>v.
     bind_res (on_mem (store_u32 p (GPR s a1)) (set_gpr v0 v s)) (\<lambda>s1. Ok (bios_end s1))))"

definition bios_dummy :: "psx \<Rightarrow> psx res" where
  "bios_dummy s = Ok (bios_end s)"

section \<open>Initialisation\<close>

definition hle_op :: "u32 \<Rightarrow> u32" where
  "hle_op k = push_bit 26 0x3b OR k"

definition zero_tcb :: TCB where
  "zero_tcb = \<lparr>th_status = 0, th_mode = 0, th_reg = (\<lambda>_. 0), th_func = 0\<rparr>"

text \<open>The words the BIOS plants in RAM: offset and value.\<close>

definition bios_words :: "(nat \<times> u32) list" where
  "bios_words = [(0x874, 0x4c54 - 0x884), (0x674 + 24, 0xc80), (0x150, 0x160), (0x154, 0x320),
     (0x160, 0x248)]"

definition bios_hle_words :: "(nat \<times> u32) list" where
  "bios_hle_words = [(0x0000, hle_op 0), (0x00a0, hle_op 1), (0x00b0, hle_op 2), (0x00c0, hle_op 3),
     (0x4c54, hle_op 0), (0x8000, hle_op 5), (0x07a0, hle_op 0), (0x0884, hle_op 0), (0x0894, hle_op 0)]"

definition put_word :: "nat \<times> u32 \<Rightarrow> psxmem \<Rightarrow> psxmem" where
  "put_word w m = set_bytes psxM (fst w) (map (\<lambda>k. byte_of k (snd w)) [0..<4]) m"

definition psxBiosInit :: "psx \<Rightarrow> psx" where
  "psxBiosInit s =
     (let m0 = set_bytes psxR 0x1000 (replicate (512 * 32 * 6) 0) (mem s);
          m1 = fold put_word bios_words m0;
          m2 = set_bytes psxM 0x248 [98, 117, 0] m1;
          m3 = set_bytes psxR 0 (map (\<lambda>k. byte_of k (hle_op 4)) [0..<4]) m2;
          m4 = fold put_word bios_hle_words m3
      in s\<lparr>mem := m4, bios_st := (bios_st s)\<lparr>heap_addr := 0, CurThread := 0, jmp_int := None,
             SysIntRP := (\<lambda>_. 0), Thread := (\<lambda>_. zero_tcb)(0 := zero_tcb\<lparr>th_status := 2\<rparr>)\<rparr>\<rparr>)"

section \<open>Laws\<close>

lemma for_each_map: "for_each (map h xs) f = for_each xs (\<lambda>x. f (h x))"
  by (induction xs) (auto intro!: ext)

subsection \<open>Jump buffers\<close>

text \<open>Restoring a set of registers from consecutive words, as \<^verbatim>\<open>longjmp\<close> and the return from \<^verbatim>\<open>Exec\<close> do.\<close>

lemma load_regs:
  assumes "\<forall>(i, r) \<in> set xs. load_u32 (f i) (mem s) = Ok (g r)"
  shows "\<exists>t. for_each xs (\<lambda>(i, r) s. bind_res (load_u32 (f i) (mem s)) (\<lambda>v. Ok (set_gpr r v s))) s = Ok t \<and>
    t = s\<lparr>GPR := (\<lambda>k. if k \<in> snd ` set xs then g k else GPR s k)\<rparr>"
  using assms
proof (induction xs arbitrary: s)
  case (Cons x xs)
  obtain i r where x: "x = (i, r)" by fastforce
  have "\<forall>(i, r) \<in> set xs. load_u32 (f i) (mem (set_gpr r0 v s)) = Ok (g r)" for r0 v using Cons.prems by simp
  from Cons.IH[OF this[of r "g r"]] show ?case
    using Cons.prems by (auto simp: x set_gpr_def fun_eq_iff intro!: arg_cong[where f = "\<lambda>h. s\<lparr>GPR := h\<rparr>"])
qed simp

definition jmp_regs :: "nat set" where
  "jmp_regs = {ra, sp, fp, gp} \<union> {16..23}"

lemma jmp_layout_regs: "snd ` set jmp_layout = jmp_regs"
  by (auto simp: jmp_layout_def jmp_regs_def)

lemma jmp_save_load:
  assumes "jmp_save p g m = Ok m'"
  shows "\<forall>(i, r) \<in> set jmp_layout. load_u32 (ptr_add p (4 * i)) m' = Ok (g r)"
proof -
  let ?pvs = "map (\<lambda>(i, r). (ptr_add p (4 * i), g r)) jmp_layout"
  have s: "for_each ?pvs (\<lambda>(p, v). store_u32 p v) m = Ok m'"
    using assms by (simp add: jmp_save_def for_each_map case_prod_unfold del: store_u32.simps)
  have sep: "sep32 (ptr_add p (4 * i)) (ptr_add p (4 * j))" if "i \<noteq> j" for i j
    using that by (cases p) (auto simp: sep32_def)
  have sorted: "distinct (map fst xs) \<Longrightarrow> sorted_wrt (\<lambda>a b. sep32 (fst b) (fst a))
      (map (\<lambda>(i, r). (ptr_add p (4 * i), g r)) xs)" for xs :: "(nat \<times> nat) list"
    by (induction xs) (force intro!: sep)+
  have s1: "sorted_wrt (\<lambda>a b. sep32 (fst b) (fst a)) ?pvs" by (rule sorted) (simp add: jmp_layout_def)
  show ?thesis
  proof clarify
    fix i r assume "(i, r) \<in> set jmp_layout"
    then have "(ptr_add p (4 * i), g r) \<in> set ?pvs" by force
    then show "load_u32 (ptr_add p (4 * i)) m' = Ok (g r)" by (rule w32.load_store_list[OF s s1])
  qed
qed

subsection \<open>Events\<close>

lemma ev_sep: "f \<noteq> g \<Longrightarrow> sep32 (ev_ptr ev sc f) (ev_ptr ev sc g)"
  by (cases f; cases g) (simp_all add: sep32_def ev_ptr_def)

lemma ev_set_get: "ev_set ev sc f v m = Ok m' \<Longrightarrow> ev_get ev sc f m' = Ok v"
  unfolding ev_set_def ev_get_def by (rule w32.ld_st)

lemma ev_set_other: "ev_set ev sc f v m = Ok m' \<Longrightarrow> f \<noteq> g \<Longrightarrow> ev_get ev sc g m' = ev_get ev sc g m"
  unfolding ev_set_def ev_get_def by (rule w32.ld_st_sep) (auto intro: ev_sep)

lemma ev_fits: "ev < 512 \<Longrightarrow> sc < 256 \<Longrightarrow> snd (ev_ptr ev sc f) + 4 \<le> region_size psxR"
  by (cases f) (simp_all add: ev_ptr_def)

lemma ev_total:
  assumes "ev < 512" "sc < 256"
  shows "\<exists>v. ev_get ev sc f m = Ok v" "\<exists>m'. ev_set ev sc f v m = Ok m'"
  using ev_fits[OF assms, of f] unfolding ev_get_def ev_set_def
  by (simp_all add: ev_ptr_def require_def)

lemma and_less: "n < LENGTH('a) \<Longrightarrow> unat (w AND mask n :: 'a::len word) < 2 ^ n"
  by (simp add: unsigned_take_bit_eq flip: take_bit_eq_mask)

lemma desc_bounds: "desc_ev d < 256" "desc_spec d < 256"
proof -
  have m: "(0xff :: u32) = mask 8" by (simp add: mask_eq_exp_minus_1)
  show "desc_ev d < 256" "desc_spec d < 256"
    unfolding desc_ev_def desc_spec_def m using and_less[of 8 d] and_less[of 8 "drop_bit 8 d"] by simp_all
qed

lemma find_index_less: "find_index P xs = Some i \<Longrightarrow> i < length xs"
  by (induction xs arbitrary: i) (auto split: if_splits)

lemma GetEv_bounds: "GetEv a < 512" "GetSpec a < 32"
proof -
  have m: "(0xf :: u32) = mask 4" "(0x1f :: u32) = mask 5" by (simp_all add: mask_eq_exp_minus_1)
  show "GetEv a < 512"
    unfolding GetEv_def Let_def m using and_less[of 4 "drop_bit 24 a"] and_less[of 5 a] by simp
  show "GetSpec a < 32"
    using find_index_less[of "\<lambda>i. a AND push_bit i 1 \<noteq> 0" "[0..<16]"]
    by (auto simp: GetSpec_def split: option.split)
qed

lemma pack_desc:
  assumes "ev < 256" "sc < 256"
  shows "desc_ev (of_nat ev OR push_bit 8 (of_nat sc)) = ev" "desc_spec (of_nat ev OR push_bit 8 (of_nat sc)) = sc"
proof -
  have m: "(0xff :: u32) = mask 8" by (simp add: mask_eq_exp_minus_1)
  define x y :: u32 where "x = of_nat ev" and "y = of_nat sc"
  have t: "take_bit 8 x = x" "take_bit 8 y = y"
    using assms by (simp_all add: x_def y_def take_bit_of_nat take_bit_nat_eq_self)
  have b: "bit x n \<Longrightarrow> n < 8" "bit y n \<Longrightarrow> n < 8" for n
    using t by (metis bit_take_bit_iff)+
  have "(x OR push_bit 8 y) AND mask 8 = x" "drop_bit 8 (x OR push_bit 8 y) AND mask 8 = y"
    by (rule bit_word_eqI, auto simp: bit_simps dest: b)+
  then show "desc_ev (of_nat ev OR push_bit 8 (of_nat sc)) = ev" "desc_spec (of_nat ev OR push_bit 8 (of_nat sc)) = sc"
    using assms unfolding desc_ev_def desc_spec_def m x_def y_def by (simp_all add: unat_of_nat_u32)
qed

subsection \<open>Threads and exceptions\<close>

lemma set_thread_simps [simp]:
  "GPR (set_thread th f s) = GPR s" "pc (set_thread th f s) = pc s" "CurThread (bios_st (set_thread th f s)) = CurThread (bios_st s)"
  "Thread (bios_st (set_thread th f s)) = (Thread (bios_st s))(th := f (Thread (bios_st s) th))"
  by (simp_all add: set_thread_def)

subsection \<open>Strings\<close>

lemma while_res_run:
  assumes "\<And>k. k < n \<Longrightarrow> b (st k) = Ok True \<and> f (st k) = Ok (st (Suc k))" "b (st n) = Ok False" "n < N"
  shows "while_res N b f (st 0) = Ok (st n)"
  using assms
proof (induction n arbitrary: N st)
  case 0
  then show ?case by (cases N) simp_all
next
  case (Suc n)
  then obtain N' where N: "N = Suc N'" "n < N'" by (cases N) auto
  have "while_res N' b f (st (Suc 0)) = Ok (st (Suc n))"
    using Suc.IH[of "\<lambda>k. st (Suc k)" N'] Suc.prems N by simp
  then show ?case using Suc.prems(1)[of 0] N by simp
qed

lemma cstr_from_Some:
  "cstr_from fin f i = Some l \<Longrightarrow>
   i + length l < fin \<and> (\<forall>k < length l. f (i + k) = l ! k \<and> l ! k \<noteq> 0) \<and> f (i + length l) = 0"
proof (induction fin f i arbitrary: l rule: cstr_from.induct)
  case (1 fin f i)
  have lt: "\<not> i \<ge> fin" using 1(2) by (subst (asm) cstr_from.simps) (auto split: if_splits)
  show ?case
  proof (cases "f i = 0")
    case True
    then have "l = []" using 1(2) lt by (subst (asm) cstr_from.simps) simp
    then show ?thesis using lt True by simp
  next
    case False
    then obtain l' where l': "cstr_from fin f (Suc i) = Some l'" "l = f i # l'"
      using 1(2) lt by (subst (asm) cstr_from.simps) (auto split: option.splits)
    have "f (i + k) = l ! k \<and> l ! k \<noteq> 0" if "k < length l" for k
      using 1(1)[OF lt False l'(1)] l'(2) False that by (cases k) auto
    then show ?thesis using 1(1)[OF lt False l'(1)] l'(2) by simp
  qed
qed

lemma set_bytes_snoc:
  "set_bytes r (off + length bs) [b] (set_bytes r off bs m) = set_bytes r off (bs @ [b]) m"
  by (rule psxmem_eqI) (auto simp: bytes_set_bytes nth_append)

lemma PSXMu8_ram:
  assumes "lut_ok m" "writeok m" "ram_addr a" "unat a mod 0x200000 + k < 0x200000"
  shows "PSXMu8 (a + of_nat k) m = Ok (bytes m psxM (unat a mod 0x200000 + k))"
    and "PSXMu8_set (a + of_nat k) v m = Ok (set_bytes psxM (unat a mod 0x200000 + k) [v] m)"
  using PSXM_ram_add(1)[OF assms] assms(4) by (simp_all add: PSXMu8_def PSXMu8_set_def deref_def)

lemma repeat_snoc: "repeat (Suc n) f s = bind_res (repeat n f s) f"
  using repeat_add[of n 1 f s] by (simp add: bind_res_def split: sum.split)

lemma PSXMu8_mapped: "PSXMu8 a m = Ok b \<Longrightarrow> PSXM a m \<noteq> None \<and> PSXMuR8 a m = Ok b"
  by (auto simp: PSXMu8_def PSXMuR8_def deref_def split: option.splits)

lemma strncmp_prefix:
  "(\<And>i. i < k \<Longrightarrow> \<exists>b. b \<noteq> 0 \<and> PSXMu8 (x + of_nat i) m = Ok b \<and> PSXMu8 (y + of_nat i) m = Ok b) \<Longrightarrow>
   PSXMuR8 (x + of_nat k) m = Ok b1 \<Longrightarrow> PSXMuR8 (y + of_nat k) m = Ok b2 \<Longrightarrow> b1 = 0 \<or> b2 = 0 \<Longrightarrow> k < n \<Longrightarrow>
   strncmp_loop n x y m 0 = Ok 0"
proof (induction k arbitrary: n x y)
  case 0
  then show ?case by (cases n) auto
next
  case (Suc k)
  obtain n' where n: "n = Suc n'" using Suc.prems(5) by (cases n) auto
  obtain b where b: "b \<noteq> 0" "PSXMu8 x m = Ok b" "PSXMu8 y m = Ok b" using Suc.prems(1)[of 0] by auto
  have "\<exists>b. b \<noteq> 0 \<and> PSXMu8 (x + 1 + of_nat i) m = Ok b \<and> PSXMu8 (y + 1 + of_nat i) m = Ok b" if "i < k" for i
    using Suc.prems(1)[of "Suc i"] that by (simp add: add.assoc)
  then have "strncmp_loop n' (x + 1) (y + 1) m 0 = Ok 0"
    using Suc.IH[of "x + 1" "y + 1" n'] Suc.prems(2-5) n by (simp add: add.assoc)
  then show ?case using b PSXMu8_mapped[OF b(2)] PSXMu8_mapped[OF b(3)] by (simp add: n)
qed

subsection \<open>Heap\<close>

lemma chunk_phys:
  assumes "lut_ok m" "writeok m" "ram_addr c"
  shows "chunk_get c k m = load_u32 (psxM, unat c mod 0x200000 + k) m"
    and "chunk_set c k v m = store_u32 (psxM, unat c mod 0x200000 + k) v m"
  using assms by (simp_all add: chunk_get_def chunk_set_def PSXM_ram deref_def)

definition phys_put :: "nat \<Rightarrow> u32 \<Rightarrow> psxmem \<Rightarrow> psxmem \<Rightarrow> bool" where
  "phys_put off v m m' \<longleftrightarrow> store_u32 (psxM, off) v m = Ok m' \<and> lut_ok m' \<and> writeok m' \<and>
     load_u32 (psxM, off) m' = Ok v \<and>
     (\<forall>j. off + 4 \<le> j \<or> j + 4 \<le> off \<longrightarrow> load_u32 (psxM, j) m' = load_u32 (psxM, j) m)"

lemma phys_put_total:
  assumes "off + 4 \<le> 0x200000" "lut_ok m" "writeok m"
  shows "\<exists>m'. phys_put off v m m'"
proof -
  have "\<exists>m'. store_u32 (psxM, off) v m = Ok m'" using assms(1) by (simp add: require_def)
  then obtain m' where m': "store_u32 (psxM, off) v m = Ok m'" by blast
  have "load_u32 (psxM, j) m' = load_u32 (psxM, j) m" if "off + 4 \<le> j \<or> j + 4 \<le> off" for j
    using that by (intro w32.ld_st_sep[OF m']) (auto simp: sep32_def)
  then have "phys_put off v m m'"
    using store_frame(3)[OF m'] assms m' w32.ld_st[OF m'] unfolding phys_put_def lut_ok_def by auto
  then show ?thesis ..
qed

lemma phys_putD:
  assumes "phys_put off v m m'"
  shows "store_u32 (psxM, off) v m = Ok m'" "lut_ok m'" "writeok m'" "load_u32 (psxM, off) m' = Ok v"
    "off + 4 \<le> j \<or> j + 4 \<le> off \<Longrightarrow> load_u32 (psxM, j) m' = load_u32 (psxM, j) m"
  using assms by (auto simp: phys_put_def)

section \<open>Properties\<close>

text \<open>C32: a \<^verbatim>\<open>longjmp\<close> through a buffer filled by \<^verbatim>\<open>setjmp\<close> goes back to the return address of the \<^verbatim>\<open>setjmp\<close> call with all callee-saved registers of that moment and the given value in \<^verbatim>\<open>v0\<close>; the other registers are untouched.\<close>
theorem longjmp_returns_to_setjmp:
  assumes "bios_setjmp s = Ok t" and "mem u = mem t" "GPR u a0 = GPR s a0"
  shows "\<exists>w. bios_longjmp u = Ok w \<and> pc w = GPR s ra \<and> GPR w v0 = GPR u a1 \<and>
    GPR w = (\<lambda>k. if k = v0 then GPR u a1 else if k \<in> jmp_regs then GPR s k else GPR u k)"
proof -
  obtain p m where p: "PSXM (GPR s a0) (mem s) = Some p" "jmp_save p (GPR s) (mem s) = Ok m" "mem t = m"
    using assms(1)
    by (auto simp: bios_setjmp_def bind_res_Ok_iff deref_def on_mem_Ok bios_ret_def bios_end_def split: option.splits)
  have lut: "psxMemLUT m = psxMemLUT (mem s)"
    using p(2) unfolding jmp_save_def by (rule for_each_inv) (auto dest: store_frame(3) simp del: store_u32.simps)
  then have pu: "PSXM (GPR u a0) (mem u) = Some p" using p assms(2,3) by (simp add: PSXM_def)
  have "\<forall>(i, r) \<in> set jmp_layout. load_u32 (ptr_add p (4 * i)) (mem u) = Ok (GPR s r)"
    using jmp_save_load[OF p(2)] p(3) assms(2) by simp
  from load_regs[OF this] obtain w where "jmp_load p u = Ok w"
    "w = u\<lparr>GPR := (\<lambda>k. if k \<in> jmp_regs then GPR s k else GPR u k)\<rparr>"
    unfolding jmp_load_def jmp_layout_regs by blast
  then show ?thesis using pu
    by (auto simp: bios_longjmp_def deref_def bios_ret_def bios_end_def jmp_regs_def fun_eq_iff)
qed

definition jmp_psx :: psx where
  "jmp_psx = sample_psx\<lparr>GPR := (\<lambda>_. 0)(a0 := 0x80010000, ra := 0x80020000, sp := 0x801ff000)\<rparr>"

lemma jmp_psx_set: "\<exists>t. bios_setjmp jmp_psx = Ok t"
  by (simp add: jmp_psx_def sample_psx_def psxMemInit_def bios_setjmp_def PSXM_def deref_def lut_init_def
      lut_ram_def in_ram_window_def on_mem_def jmp_save_def jmp_layout_def)

theorem longjmp_returns_to_setjmp_witness:
  "\<exists>t w. bios_setjmp jmp_psx = Ok t \<and> bios_longjmp (t\<lparr>GPR := (GPR jmp_psx)(sp := 1, a1 := 3)\<rparr>) = Ok w \<and>
     pc w = 0x80020000 \<and> GPR w sp = 0x801ff000 \<and> GPR w v0 = 3"
proof -
  obtain t where t: "bios_setjmp jmp_psx = Ok t" using jmp_psx_set by blast
  let ?u = "t\<lparr>GPR := (GPR jmp_psx)(sp := 1, a1 := 3)\<rparr>"
  have u: "mem ?u = mem t" "GPR ?u a0 = GPR jmp_psx a0" "GPR ?u a1 = 3" by simp_all
  obtain w where "bios_longjmp ?u = Ok w" "pc w = GPR jmp_psx ra" "GPR w v0 = GPR ?u a1"
    "GPR w = (\<lambda>k. if k = v0 then GPR ?u a1 else if k \<in> jmp_regs then GPR jmp_psx k else GPR ?u k)"
    using longjmp_returns_to_setjmp[OF t u(1,2)] by blast
  then show ?thesis using t u(3) by (intro exI[of _ t] exI[of _ w]) (auto simp: jmp_psx_def jmp_regs_def)
qed

text \<open>\<^verbatim>\<open>TestEvent\<close> never faults, whatever the descriptor; it answers 1 exactly when the event has been delivered, and then consumes the delivery by making the event active again.\<close>
theorem TestEvent_consumes:
  fixes s :: psx
  defines "ev \<equiv> desc_ev (GPR s a0)" and "sc \<equiv> desc_spec (GPR s a0)"
  shows "\<exists>st t. ev_get ev sc Ev_status (mem s) = Ok st \<and> bios_TestEvent s = Ok t \<and> pc t = GPR s ra \<and>
    GPR t v0 = (if st = EvStALREADY then 1 else 0) \<and>
    ev_get ev sc Ev_status (mem t) = Ok (if st = EvStALREADY then EvStACTIVE else st)"
proof -
  have "ev < 512" "sc < 256" using desc_bounds[of "GPR s a0"] by (simp_all add: ev_def sc_def)
  note tot = ev_total[OF this]
  obtain st where st: "ev_get ev sc Ev_status (mem s) = Ok st" using tot(1) by blast
  obtain m where m: "ev_set ev sc Ev_status EvStACTIVE (mem s) = Ok m" using tot(2) by blast
  show ?thesis
    using st m ev_set_get[OF m]
    by (auto simp: bios_TestEvent_def Let_def ev_def[symmetric] sc_def[symmetric] on_mem_def bios_ret_def bios_end_def)
qed

text \<open>\<^verbatim>\<open>OpenEvent\<close> never faults; the descriptor it returns names the control block it filled in (for every event class whose row fits the descriptor), and the event waits with the mode and handler given.\<close>
theorem OpenEvent_descriptor:
  fixes s :: psx
  defines "ev \<equiv> GetEv (GPR s a0)" and "sc \<equiv> GetSpec (GPR s a1)"
  assumes "ev < 256"
  shows "\<exists>t. bios_OpenEvent s = Ok t \<and> desc_ev (GPR t v0) = ev \<and> desc_spec (GPR t v0) = sc \<and>
    ev_get ev sc Ev_status (mem t) = Ok EvStWAIT \<and> ev_get ev sc Ev_mode (mem t) = Ok (GPR s a2) \<and>
    ev_get ev sc Ev_fhandler (mem t) = Ok (GPR s a3)"
proof -
  have b: "ev < 512" "sc < 256" "sc < 32"
    using GetEv_bounds[of "GPR s a0"] GetEv_bounds(2)[of "GPR s a1"] by (simp_all add: ev_def sc_def)
  note tot = ev_total[OF b(1,2)]
  obtain m1 where m1: "ev_set ev sc Ev_status EvStWAIT (mem s) = Ok m1" using tot(2) by blast
  obtain m2 where m2: "ev_set ev sc Ev_mode (GPR s a2) m1 = Ok m2" using tot(2) by blast
  obtain m3 where m3: "ev_set ev sc Ev_fhandler (GPR s a3) m2 = Ok m3" using tot(2) by blast
  have m: "(0xff :: u32) = mask 8" by (simp add: mask_eq_exp_minus_1)
  have d: "desc_ev (of_nat ev OR push_bit 8 (of_nat sc)) = ev" "desc_spec (of_nat ev OR push_bit 8 (of_nat sc)) = sc"
    using pack_desc[of ev sc] b(3) assms(3) by simp_all
  show ?thesis
    using m1 m2 m3 d ev_set_get[OF m1] ev_set_get[OF m2] ev_set_get[OF m3]
      ev_set_other[OF m2, of Ev_status] ev_set_other[OF m3, of Ev_status] ev_set_other[OF m3, of Ev_mode]
    by (auto simp: bios_OpenEvent_def Let_def ev_def[symmetric] sc_def[symmetric] on_mem_def bios_ret_def bios_end_def)
qed

theorem OpenEvent_descriptor_witness:
  "\<exists>t. bios_OpenEvent (sample_psx\<lparr>GPR := (\<lambda>_. 0)(a0 := 0xf2000003, a1 := 2, a2 := 0x2000)\<rparr>) = Ok t \<and>
    desc_ev (GPR t v0) = 67 \<and> desc_spec (GPR t v0) = 1 \<and> ev_get 67 1 Ev_status (mem t) = Ok EvStWAIT"
proof -
  have e: "GetEv 0xf2000003 = 67" "GetSpec 2 = 1" by (simp_all add: GetEv_def GetSpec_def Let_def upt_rec)
  show ?thesis
    using OpenEvent_descriptor[of "sample_psx\<lparr>GPR := (\<lambda>_. 0)(a0 := 0xf2000003, a1 := 2, a2 := 0x2000)\<rparr>"]
    by (auto simp: e)
qed

text \<open>C33: switching to a ready thread starts it at its entry point, and switching back from it continues the first thread at the return address of its call with all 32 registers it had.\<close>
theorem ChangeTh_switch_back:
  fixes s u :: psx
  defines "cur \<equiv> CurThread (bios_st s)" and "th \<equiv> unat (GPR s a0 AND 0xff)"
  assumes "th < 8" "cur < 8" "cur \<noteq> th" and run: "th_status (Thread (bios_st s) cur) = 2"
    and ready: "th_status (Thread (bios_st s) th) = 1"
    and out: "bios_ChangeTh s = Ok t" and "bios_st u = bios_st t" "unat (GPR u a0 AND 0xff) = cur"
  shows "pc t = th_func (Thread (bios_st s) th) \<and>
    (\<exists>w. bios_ChangeTh u = Ok w \<and> pc w = GPR s ra \<and> CurThread (bios_st w) = cur \<and>
     GPR w = copy_gpr ((GPR s)(v0 := 1)) (GPR u))"
proof -
  have t: "bios_st t = (bios_st s)\<lparr>Thread := (Thread (bios_st s))
      (cur := (Thread (bios_st s) cur)\<lparr>th_status := 1, th_func := GPR s ra,
          th_reg := copy_gpr ((GPR s)(v0 := 1)) (th_reg (Thread (bios_st s) cur))\<rparr>,
       th := (Thread (bios_st s) th)\<lparr>th_status := 2\<rparr>), CurThread := th\<rparr>"
    "pc t = th_func (Thread (bios_st s) th)"
    using out assms(3,5) run ready unfolding bios_ChangeTh_def Let_def cur_def[symmetric] th_def[symmetric]
    by (auto simp: set_thread_def)
  have u: "bios_st u = bios_st t" "CurThread (bios_st u) = th" using assms(9) t by simp_all
  show ?thesis
    unfolding bios_ChangeTh_def Let_def assms(10) u(2)
    using t u assms(4,5) by (auto simp: copy_gpr_def fun_eq_iff)
qed

definition thread_psx :: psx where
  "thread_psx = sample_psx\<lparr>GPR := (\<lambda>_. 0)(a0 := 1, ra := 0x80020000), bios_st := (bios_st sample_psx)\<lparr>Thread :=
     (\<lambda>_. zero_tcb)(0 := zero_tcb\<lparr>th_status := 2\<rparr>, 1 := zero_tcb\<lparr>th_status := 1, th_func := 0x80030000\<rparr>)\<rparr>\<rparr>"

theorem ChangeTh_switch_back_witness:
  "\<exists>t w. bios_ChangeTh thread_psx = Ok t \<and> pc t = 0x80030000 \<and>
    bios_ChangeTh (t\<lparr>GPR := (\<lambda>_. 0)\<rparr>) = Ok w \<and> pc w = 0x80020000"
proof -
  have th: "unat (GPR thread_psx a0 AND 0xff) = 1" "CurThread (bios_st thread_psx) = 0"
    "th_status (Thread (bios_st thread_psx) 0) = 2" "th_status (Thread (bios_st thread_psx) (Suc 0)) = 1"
    "th_func (Thread (bios_st thread_psx) (Suc 0)) = 0x80030000" "GPR thread_psx ra = 0x80020000"
    by (simp_all add: thread_psx_def sample_psx_def)
  obtain t where t: "bios_ChangeTh thread_psx = Ok t"
    unfolding bios_ChangeTh_def Let_def th(1,2) using th(3,4) by auto
  show ?thesis
    using ChangeTh_switch_back[of thread_psx t "t\<lparr>GPR := (\<lambda>_. 0)\<rparr>"] t by (auto simp: th)
qed

text \<open>On a terminated string in main memory \<^verbatim>\<open>strlen\<close> ends without a fault and returns its length.\<close>
theorem strlen_counts:
  assumes "lut_ok (mem s)" "writeok (mem s)" "ram_addr (GPR s a0)" "cstr (GPR s a0) (mem s) = Ok l"
  shows "\<exists>t. bios_strlen s = Ok t \<and> GPR t v0 = of_nat (length l) \<and> pc t = GPR s ra \<and> mem t = mem s"
proof -
  define a where "a = GPR s a0"
  define off where "off = unat a mod 0x200000"
  have "PSXM a (mem s) = Some (psxM, off)" using PSXM_ram assms(1-3) by (simp add: a_def off_def)
  then have l: "cstr_from 0x200000 (bytes (mem s) psxM) off = Some l"
    using assms(4) by (simp add: cstr_def deref_def a_def split: option.splits)
  note c = cstr_from_Some[OF l]
  have rd: "PSXMu8 (a + of_nat k) (mem s) = Ok (bytes (mem s) psxM (off + k))" if "k \<le> length l" for k
    using PSXM_ram_add(1)[OF assms(1,2), of a k] assms(3) c that
    by (simp add: PSXMu8_def deref_def a_def off_def)
  have "while_res scan_fuel (\<lambda>a. bind_res (PSXMu8 a (mem s)) (\<lambda>b. Ok (b \<noteq> 0))) (\<lambda>a. Ok (a + 1)) (a + of_nat 0) = Ok (a + of_nat (length l))"
    by (rule while_res_run[where st = "\<lambda>k. a + of_nat k"]) (use c in \<open>auto simp: rd scan_fuel_def\<close>)
  then have "scan_nul a (mem s) = Ok (a + of_nat (length l))" by (simp add: scan_nul_def)
  then show ?thesis by (simp add: bios_strlen_def a_def[symmetric] bios_ret_def bios_end_def)
qed

definition str_psx :: psx where
  "str_psx = sample_psx\<lparr>GPR := (\<lambda>_. 0)(a0 := 0x80010000, a1 := 0x80020000, a2 := 3),
     mem := set_bytes psxM 0x10000 [65] (set_bytes psxM 0x20000 [65, 66] (mem sample_psx))\<rparr>"

lemma str_psx_mem [simp]:
  "lut_ok (mem str_psx)" "writeok (mem str_psx)" "GPR str_psx = (\<lambda>_. 0)(a0 := 0x80010000, a1 := 0x80020000, a2 := 3)"
  by (simp_all add: str_psx_def sample_psx_def psxMemInit_def lut_ok_def)

lemma str_psx_bytes:
  "bytes (mem str_psx) psxM i = (if i = 0x10000 \<or> i = 0x20000 then 65 else if i = 0x20001 then 66 else 0)"
  by (auto simp: str_psx_def sample_psx_def psxMemInit_def bytes_set_bytes nth_Cons')

theorem strlen_counts_witness: "\<exists>t. bios_strlen str_psx = Ok t \<and> GPR t v0 = 1"
proof -
  have "cstr (GPR str_psx a0) (mem str_psx) = Ok [65]"
    using PSXM_ram[of "mem str_psx" "0x80010000"]
    by (simp add: cstr_def deref_def ram_addr_def in_ram_window_def cstr_from.simps str_psx_bytes)
  then show ?thesis
    using strlen_counts[of str_psx "[65]"] by (auto simp: ram_addr_def in_ram_window_def)
qed

text \<open>\<^verbatim>\<open>memcpy\<close> between two ranges of main memory that do not overlap, or overlap with the destination first, copies exactly the source bytes, touches nothing else, and returns the destination.\<close>
theorem memcpy_copies:
  fixes s :: psx
  defines "n \<equiv> unat (GPR s a2)" and "d \<equiv> unat (GPR s a0) mod 0x200000" and "e \<equiv> unat (GPR s a1) mod 0x200000"
  assumes lut: "lut_ok (mem s)" "writeok (mem s)" and ram: "ram_addr (GPR s a0)" "ram_addr (GPR s a1)"
    and fits: "d + n \<le> 0x200000" "e + n \<le> 0x200000" and sep: "d \<le> e \<or> e + n \<le> d"
  shows "bios_memcpy s = Ok (bios_ret (GPR s a0) (s\<lparr>mem :=
    set_bytes psxM d (map (\<lambda>i. bytes (mem s) psxM (e + i)) [0..<n]) (mem s)\<rparr>))"
proof -
  define m where "m = mem s"
  define img where "img k = map (\<lambda>i. bytes m psxM (e + i)) [0..<k]" for k
  let ?f = "\<lambda>(d, s, m). bind_res (copy_byte d s m) (\<lambda>m1. Ok (d + 1, s + 1, m1))"
  have "repeat k ?f (GPR s a0, GPR s a1, m) =
      Ok (GPR s a0 + of_nat k, GPR s a1 + of_nat k, set_bytes psxM d (img k) m)" if "k \<le> n" for k
    using that
  proof (induction k)
    case 0
    then show ?case by (simp add: img_def)
  next
    case (Suc k)
    let ?m = "set_bytes psxM d (img k) m"
    have ok: "lut_ok ?m" "writeok ?m" using lut by (simp_all add: lut_ok_def m_def)
    have lt: "e + k < 0x200000" "d + k < 0x200000" using Suc.prems fits by simp_all
    have "bytes ?m psxM (e + k) = bytes m psxM (e + k)"
      using sep Suc.prems by (auto simp: bytes_set_bytes img_def)
    moreover have "set_bytes psxM (d + k) [x] ?m = set_bytes psxM d (img k @ [x]) m" for x
      using set_bytes_snoc[of psxM d "img k" x m] by (simp add: img_def)
    moreover have "img (Suc k) = img k @ [bytes m psxM (e + k)]" by (simp add: img_def)
    ultimately have "copy_byte (GPR s a0 + of_nat k) (GPR s a1 + of_nat k) ?m = Ok (set_bytes psxM d (img (Suc k)) m)"
      using PSXMu8_ram(1)[OF ok ram(2), of k] PSXMu8_ram(2)[OF ok ram(1), of k] lt
      by (simp add: copy_byte_def d_def e_def)
    then show ?case using Suc by (simp add: repeat_snoc add.commute add.left_commute del: repeat.simps)
  qed
  from this[of n] show ?thesis
    by (simp add: bios_memcpy_def on_mem_def guest_memcpy_def n_def[symmetric] m_def img_def)
qed

theorem memcpy_copies_witness:
  "bios_memcpy str_psx = Ok (bios_ret 0x80010000 (str_psx\<lparr>mem := set_bytes psxM 0x10000
    (map (\<lambda>i. bytes (mem str_psx) psxM (0x20000 + i)) [0..<3]) (mem str_psx)\<rparr>))"
  using memcpy_copies[of str_psx] by (simp add: ram_addr_def in_ram_window_def)

text \<open>When one string ends where the other goes on, \<^verbatim>\<open>strncmp\<close> answers 0, as if they were equal: the loop leaves at the terminator of either string with the difference of the characters before it.\<close>
theorem strncmp_ignores_length:
  assumes "\<And>i. i < k \<Longrightarrow> \<exists>b. b \<noteq> 0 \<and> PSXMu8 (GPR s a0 + of_nat i) (mem s) = Ok b \<and>
      PSXMu8 (GPR s a1 + of_nat i) (mem s) = Ok b"
    and "PSXMuR8 (GPR s a0 + of_nat k) (mem s) = Ok b1" "PSXMuR8 (GPR s a1 + of_nat k) (mem s) = Ok b2"
    and "b1 = 0 \<or> b2 = 0" "k < unat (GPR s a2)"
  shows "bios_strncmp s = Ok (bios_ret 0 s)"
  using strncmp_prefix[OF assms] by (simp add: bios_strncmp_def)

theorem strncmp_ignores_length_witness: "bios_strncmp str_psx = Ok (bios_ret 0 str_psx)"
proof (rule strncmp_ignores_length[where k = 1 and ?b1.0 = 0 and ?b2.0 = 66])
  have r: "ram_addr 0x80010000" "ram_addr 0x80020000" by (simp_all add: ram_addr_def in_ram_window_def)
  note b = PSXMu8_ram(1)[of "mem str_psx" "0x80010000"] PSXMu8_ram(1)[of "mem str_psx" "0x80020000"]
  show "\<exists>b. b \<noteq> 0 \<and> PSXMu8 (GPR str_psx a0 + of_nat i) (mem str_psx) = Ok b \<and>
      PSXMu8 (GPR str_psx a1 + of_nat i) (mem str_psx) = Ok b" if "i < 1" for i
    using that b(1)[of 0] b(2)[of 0] r by (simp add: str_psx_bytes)
  show "PSXMuR8 (GPR str_psx a0 + of_nat 1) (mem str_psx) = Ok 0" "PSXMuR8 (GPR str_psx a1 + of_nat 1) (mem str_psx) = Ok 66"
    using b(1)[of 1] b(2)[of 1] r by (auto simp: str_psx_bytes dest: PSXMu8_mapped)
qed simp_all

text \<open>C31: \<^verbatim>\<open>malloc\<close> from a heap whose first chunk is free and large enough ends without a fault, returns the address behind the 16-byte header of that chunk in the cached segment, and links a new free chunk behind the allocated bytes. The new chunk is given the old size less the request: its own header is not accounted for, so the free list claims 16 bytes more than it has.\<close>
theorem malloc_splits:
  assumes lut: "lut_ok m" "writeok m" and c: "ram_addr c" "unat c mod 0x200000 + 32 + unat n \<le> 0x200000"
    and st: "chunk_get c 0 m = Ok st" "st \<noteq> INUSE" and sz: "chunk_get c 4 m = Ok sz" "n \<le> sz"
    and nx: "chunk_get c 8 m = Ok nx"
  shows "\<exists>m'. guest_malloc n c m = Ok ((c + 16) OR 0x80000000, m') \<and>
    chunk_get c 0 m' = Ok INUSE \<and> chunk_get c 4 m' = Ok n \<and> chunk_get c 8 m' = Ok (c + 16 + n) \<and>
    chunk_get (c + 16 + n) 0 m' = Ok st \<and> chunk_get (c + 16 + n) 4 m' = Ok (sz - n) \<and>
    chunk_get (c + 16 + n) 8 m' = Ok nx \<and> chunk_get (c + 16 + n) 12 m' = Ok c"
proof -
  define a where "a = unat c mod 0x200000"
  define b where "b = a + 16 + unat n"
  have fd: "ram_addr (c + 16 + n)" "unat (c + 16 + n) mod 0x200000 = b"
    using PSXM_ram_add(2,3)[OF lut c(1), of "16 + unat n"] c(2) by (simp_all add: a_def b_def add.assoc)
  have bnd: "b + 16 \<le> 0x200000" "a + 16 \<le> b" using c(2) by (simp_all add: a_def b_def)
  note phys = chunk_phys[OF _ _ c(1)] chunk_phys[OF _ _ fd(1)]
  note ld = st(1) sz(1) nx
  have ld: "load_u32 (psxM, a) m = Ok st" "load_u32 (psxM, a + 4) m = Ok sz" "load_u32 (psxM, a + 8) m = Ok nx"
    using ld lut by (simp_all add: phys a_def[symmetric] del: load_u32.simps)
  obtain m1 where m1: "phys_put b st m m1" using phys_put_total[of b m] lut bnd by auto
  obtain m2 where m2: "phys_put (b + 4) (sz - n) m1 m2" using phys_put_total[of "b + 4" m1] phys_putD[OF m1] bnd by auto
  obtain m3 where m3: "phys_put (b + 8) nx m2 m3" using phys_put_total[of "b + 8" m2] phys_putD[OF m2] bnd by auto
  obtain m4 where m4: "phys_put (b + 12) c m3 m4" using phys_put_total[of "b + 12" m3] phys_putD[OF m3] bnd by auto
  obtain m5 where m5: "phys_put a INUSE m4 m5" using phys_put_total[of a m4] phys_putD[OF m4] bnd by auto
  obtain m6 where m6: "phys_put (a + 4) n m5 m6" using phys_put_total[of "a + 4" m5] phys_putD[OF m5] bnd by auto
  obtain m7 where m7: "phys_put (a + 8) (c + 16 + n) m6 m7" using phys_put_total[of "a + 8" m6] phys_putD[OF m6] bnd by auto
  note puts = m1 m2 m3 m4 m5 m6 m7
  note ok = puts[THEN phys_putD(1)] puts[THEN phys_putD(2)] puts[THEN phys_putD(3)]
  note vals = puts[THEN phys_putD(4)] and frames = puts[THEN phys_putD(5)]
  have "\<not> sz < n" using sz(2) by simp
  then have "find_chunk n c m = Ok c"
    using st sz by (simp add: find_chunk_def scan_fuel_def)
  moreover have "load_u32 (psxM, a) m = Ok st" "load_u32 (psxM, a + 4) m1 = Ok sz" "load_u32 (psxM, a + 8) m2 = Ok nx"
    using ld bnd by (simp_all add: frames del: load_u32.simps)
  ultimately have g: "guest_malloc n c m = Ok ((c + 16) OR 0x80000000, m7)"
    using ok lut by (simp add: guest_malloc_def Let_def phys a_def[symmetric] fd(2) del: load_u32.simps store_u32.simps)
  show ?thesis
    using vals bnd ok by (intro exI[of _ m7] conjI g) (simp_all add: phys a_def[symmetric] fd(2) frames del: load_u32.simps)
qed

definition heap_mem :: psxmem where
  "heap_mem = set_bytes psxM 0x10000 [0, 0, 0, 0, 0, 1, 0, 0, 0, 0, 0, 0] (mem sample_psx)"

theorem malloc_splits_witness:
  "\<exists>m'. guest_malloc 16 0x80010000 heap_mem = Ok (0x80010010, m') \<and> chunk_get 0x80010020 4 m' = Ok 240"
proof -
  have h: "lut_ok heap_mem" "writeok heap_mem" "ram_addr 0x80010000"
    by (simp_all add: heap_mem_def sample_psx_def psxMemInit_def lut_ok_def ram_addr_def in_ram_window_def)
  have "chunk_get 0x80010000 0 heap_mem = Ok 0" "chunk_get 0x80010000 4 heap_mem = Ok 0x100"
    "chunk_get 0x80010000 8 heap_mem = Ok 0"
    unfolding chunk_phys(1)[OF h]
    by (simp_all add: heap_mem_def bytes_set_bytes le32_def nth_Cons' sample_psx_def psxMemInit_def)
  from malloc_splits[OF h _ this(1) _ this(2) _ this(3), of 16] show ?thesis
    by (auto simp: INUSE_def)
qed

end
