(* ===== verification/CpuOps.thy ===== *)
theory CpuOps
  imports PsxBios
begin

text \<open>
  The instructions of \<^verbatim>\<open>psf/PsxInterpreter.c\<close> that neither branch nor raise an exception: integer
  arithmetic, shifts, multiplication and division, moves, loads and stores. The field macros are
  those of \<^verbatim>\<open>psf/R3000A.h\<close>. A write to register 0 is suppressed by the early return of each handler.
\<close>

section \<open>Instruction fields\<close>

definition f_op :: "u32 \<Rightarrow> nat" where "f_op c = unat (drop_bit 26 c)"
definition f_funct :: "u32 \<Rightarrow> nat" where "f_funct c = unat (c AND 0x3F)"
definition f_rd :: "u32 \<Rightarrow> nat" where "f_rd c = unat (drop_bit 11 c AND 0x1F)"
definition f_rt :: "u32 \<Rightarrow> nat" where "f_rt c = unat (drop_bit 16 c AND 0x1F)"
definition f_rs :: "u32 \<Rightarrow> nat" where "f_rs c = unat (drop_bit 21 c AND 0x1F)"
definition f_sa :: "u32 \<Rightarrow> nat" where "f_sa c = unat (drop_bit 6 c AND 0x1F)"
definition f_im :: "u32 \<Rightarrow> u16" where "f_im c = ucast c"
definition f_imm :: "u32 \<Rightarrow> u32" where "f_imm c = scast (ucast c :: u16)"
definition f_immu :: "u32 \<Rightarrow> u32" where "f_immu c = c AND 0xffff"
definition f_target :: "u32 \<Rightarrow> u32" where "f_target c = c AND 0x03ffffff"

definition Rd :: "psx \<Rightarrow> nat" where "Rd s = f_rd (code s)"
definition Rt :: "psx \<Rightarrow> nat" where "Rt s = f_rt (code s)"
definition Rs :: "psx \<Rightarrow> nat" where "Rs s = f_rs (code s)"
definition rRs :: "psx \<Rightarrow> u32" where "rRs s = GPR s (Rs s)"
definition rRt :: "psx \<Rightarrow> u32" where "rRt s = GPR s (Rt s)"

definition JumpTarget :: "psx \<Rightarrow> u32" where
  "JumpTarget s = f_target (code s) * 4 + (pc s AND 0xf0000000)"

definition BranchTarget :: "psx \<Rightarrow> u32" where
  "BranchTarget s = f_imm (code s) * 4 + pc s"

definition SetLink :: "nat \<Rightarrow> psx \<Rightarrow> psx" where
  "SetLink x s = set_gpr x (pc s + 4) s"

section \<open>Arithmetic and logic\<close>

text \<open>\<^verbatim>\<open>if (!_Rt_) return; _rRt_ = v;\<close> and the same for \<^verbatim>\<open>_Rd_\<close>.\<close>

definition put_rt :: "u32 \<Rightarrow> psx \<Rightarrow> psx" where
  "put_rt v s = (if Rt s = 0 then s else set_gpr (Rt s) v s)"

definition put_rd :: "u32 \<Rightarrow> psx \<Rightarrow> psx" where
  "put_rd v s = (if Rd s = 0 then s else set_gpr (Rd s) v s)"

definition psxADDI :: "psx \<Rightarrow> psx" where "psxADDI s = put_rt (rRs s + f_imm (code s)) s"
definition psxADDIU :: "psx \<Rightarrow> psx" where "psxADDIU s = put_rt (rRs s + f_imm (code s)) s"
definition psxANDI :: "psx \<Rightarrow> psx" where "psxANDI s = put_rt (rRs s AND f_immu (code s)) s"
definition psxORI :: "psx \<Rightarrow> psx" where "psxORI s = put_rt (rRs s OR f_immu (code s)) s"
definition psxXORI :: "psx \<Rightarrow> psx" where "psxXORI s = put_rt (rRs s XOR f_immu (code s)) s"
definition psxSLTI :: "psx \<Rightarrow> psx" where
  "psxSLTI s = put_rt (if rRs s <s f_imm (code s) then 1 else 0) s"
definition psxSLTIU :: "psx \<Rightarrow> psx" where
  "psxSLTIU s = put_rt (if rRs s < f_immu (code s) then 1 else 0) s"

definition psxADD :: "psx \<Rightarrow> psx" where "psxADD s = put_rd (rRs s + rRt s) s"
definition psxADDU :: "psx \<Rightarrow> psx" where "psxADDU s = put_rd (rRs s + rRt s) s"
definition psxSUB :: "psx \<Rightarrow> psx" where "psxSUB s = put_rd (rRs s - rRt s) s"
definition psxSUBU :: "psx \<Rightarrow> psx" where "psxSUBU s = put_rd (rRs s - rRt s) s"
definition psxAND :: "psx \<Rightarrow> psx" where "psxAND s = put_rd (rRs s AND rRt s) s"
definition psxOR :: "psx \<Rightarrow> psx" where "psxOR s = put_rd (rRs s OR rRt s) s"
definition psxXOR :: "psx \<Rightarrow> psx" where "psxXOR s = put_rd (rRs s XOR rRt s) s"
definition psxNOR :: "psx \<Rightarrow> psx" where "psxNOR s = put_rd (NOT (rRs s OR rRt s)) s"
definition psxSLT :: "psx \<Rightarrow> psx" where "psxSLT s = put_rd (if rRs s <s rRt s then 1 else 0) s"
definition psxSLTU :: "psx \<Rightarrow> psx" where "psxSLTU s = put_rd (if rRs s < rRt s then 1 else 0) s"

section \<open>Multiplication and division\<close>

definition psxDIV :: "psx \<Rightarrow> psx res" where
  "psxDIV s =
     (if rRt s \<noteq> 0 then
        require (\<not> (sint (rRs s) = - 2147483648 \<and> rRt s = - 1)) Undefined
          (Ok (set_gpr hi (c_mod (rRs s) (rRt s)) (set_gpr lo (c_div (rRs s) (rRt s)) s)))
      else Ok s)"

definition psxDIVU :: "psx \<Rightarrow> psx" where
  "psxDIVU s =
     (if rRt s \<noteq> 0 then set_gpr hi (rRs s mod rRt s) (set_gpr lo (rRs s div rRt s) s) else s)"

definition set_hilo :: "u64 \<Rightarrow> psx \<Rightarrow> psx" where
  "set_hilo r s = set_gpr hi (ucast (drop_bit 32 r)) (set_gpr lo (ucast r) s)"

definition psxMULT :: "psx \<Rightarrow> psx" where
  "psxMULT s = set_hilo (scast (rRs s) * scast (rRt s)) s"

definition psxMULTU :: "psx \<Rightarrow> psx" where
  "psxMULTU s = set_hilo (ucast (rRs s) * ucast (rRt s)) s"

section \<open>Shifts and moves\<close>

definition psxSLL :: "psx \<Rightarrow> psx" where "psxSLL s = put_rd (push_bit (f_sa (code s)) (rRt s)) s"
definition psxSRA :: "psx \<Rightarrow> psx" where
  "psxSRA s = put_rd (signed_drop_bit (f_sa (code s)) (rRt s)) s"
definition psxSRL :: "psx \<Rightarrow> psx" where "psxSRL s = put_rd (drop_bit (f_sa (code s)) (rRt s)) s"

text \<open>The variable shifts use the whole register as the amount.\<close>

definition var_shift :: "(nat \<Rightarrow> u32 \<Rightarrow> u32) \<Rightarrow> psx \<Rightarrow> psx res" where
  "var_shift f s =
     (if Rd s = 0 then Ok s
      else require (unat (rRs s) < 32) Undefined (Ok (put_rd (f (unat (rRs s)) (rRt s)) s)))"

definition psxSLLV :: "psx \<Rightarrow> psx res" where "psxSLLV = var_shift push_bit"
definition psxSRAV :: "psx \<Rightarrow> psx res" where "psxSRAV = var_shift signed_drop_bit"
definition psxSRLV :: "psx \<Rightarrow> psx res" where "psxSRLV = var_shift drop_bit"

definition psxLUI :: "psx \<Rightarrow> psx" where "psxLUI s = put_rt (push_bit 16 (code s)) s"
definition psxMFHI :: "psx \<Rightarrow> psx" where "psxMFHI s = put_rd (GPR s hi) s"
definition psxMFLO :: "psx \<Rightarrow> psx" where "psxMFLO s = put_rd (GPR s lo) s"
definition psxMTHI :: "psx \<Rightarrow> psx" where "psxMTHI s = set_gpr hi (rRs s) s"
definition psxMTLO :: "psx \<Rightarrow> psx" where "psxMTLO s = set_gpr lo (rRs s) s"

definition psxBREAK :: "psx \<Rightarrow> psx" where "psxBREAK s = s"
definition psxNULL :: "psx \<Rightarrow> psx" where "psxNULL s = s"

definition psxRFE :: "psx \<Rightarrow> psx" where
  "psxRFE s = set_cp0 Status (status_pop (CP0 s Status)) s"

definition psxMFC0 :: "psx \<Rightarrow> psx" where "psxMFC0 s = put_rt (CP0 s (Rd s)) s"
definition psxCFC0 :: "psx \<Rightarrow> psx" where "psxCFC0 s = put_rt (CP0 s (Rd s)) s"

section \<open>Loads and stores\<close>

definition oB :: "psx \<Rightarrow> u32" where "oB s = rRs s + f_imm (code s)"

definition load_rt :: "('v \<Rightarrow> u32) \<Rightarrow> ('v \<times> psx) res \<Rightarrow> psx res" where
  "load_rt f r = bind_res r (\<lambda>(v, s). Ok (put_rt (f v) s))"

definition psxLB :: "psx \<Rightarrow> psx res" where "psxLB s = load_rt scast (psxMemRead8 (oB s) s)"
definition psxLBU :: "psx \<Rightarrow> psx res" where "psxLBU s = load_rt ucast (psxMemRead8 (oB s) s)"
definition psxLH :: "psx \<Rightarrow> psx res" where "psxLH s = load_rt scast (psxMemRead16 (oB s) s)"
definition psxLHU :: "psx \<Rightarrow> psx res" where "psxLHU s = load_rt ucast (psxMemRead16 (oB s) s)"
definition psxLW :: "psx \<Rightarrow> psx res" where "psxLW s = load_rt id (psxMemRead32 (oB s) s)"

definition LWL_MASK :: "u32 list" where "LWL_MASK = [0xffffff, 0xffff, 0xff, 0]"
definition LWL_SHIFT :: "nat list" where "LWL_SHIFT = [24, 16, 8, 0]"
definition LWR_MASK :: "u32 list" where "LWR_MASK = [0, 0xff000000, 0xffff0000, 0xffffff00]"
definition LWR_SHIFT :: "nat list" where "LWR_SHIFT = [0, 8, 16, 24]"
definition SWL_MASK :: "u32 list" where "SWL_MASK = [0xffffff00, 0xffff0000, 0xff000000, 0]"
definition SWL_SHIFT :: "nat list" where "SWL_SHIFT = [24, 16, 8, 0]"
definition SWR_MASK :: "u32 list" where "SWR_MASK = [0, 0xff, 0xffff, 0xffffff]"
definition SWR_SHIFT :: "nat list" where "SWR_SHIFT = [0, 8, 16, 24]"

definition word_addr :: "u32 \<Rightarrow> u32" where "word_addr a = a AND NOT 3"
definition byte_shift :: "u32 \<Rightarrow> nat" where "byte_shift a = unat (a AND 3)"

text \<open>The four merges of an unaligned access: old register or memory word with the new one.\<close>

definition lwl_merge :: "nat \<Rightarrow> u32 \<Rightarrow> u32 \<Rightarrow> u32" where
  "lwl_merge k reg m = (reg AND LWL_MASK ! k) OR push_bit (LWL_SHIFT ! k) m"
definition lwr_merge :: "nat \<Rightarrow> u32 \<Rightarrow> u32 \<Rightarrow> u32" where
  "lwr_merge k reg m = (reg AND LWR_MASK ! k) OR drop_bit (LWR_SHIFT ! k) m"
definition swl_merge :: "nat \<Rightarrow> u32 \<Rightarrow> u32 \<Rightarrow> u32" where
  "swl_merge k reg m = drop_bit (SWL_SHIFT ! k) reg OR (m AND SWL_MASK ! k)"
definition swr_merge :: "nat \<Rightarrow> u32 \<Rightarrow> u32 \<Rightarrow> u32" where
  "swr_merge k reg m = push_bit (SWR_SHIFT ! k) reg OR (m AND SWR_MASK ! k)"

definition psxLWL :: "psx \<Rightarrow> psx res" where
  "psxLWL s = bind_res (psxMemRead32 (word_addr (oB s)) s) (\<lambda>(m, t).
     Ok (put_rt (lwl_merge (byte_shift (oB s)) (rRt t) m) t))"

definition psxLWR :: "psx \<Rightarrow> psx res" where
  "psxLWR s = bind_res (psxMemRead32 (word_addr (oB s)) s) (\<lambda>(m, t).
     Ok (put_rt (lwr_merge (byte_shift (oB s)) (rRt t) m) t))"

definition psxSB :: "psx \<Rightarrow> psx res" where "psxSB s = psxMemWrite8 (oB s) (ucast (rRt s)) s"
definition psxSH :: "psx \<Rightarrow> psx res" where "psxSH s = psxMemWrite16 (oB s) (ucast (rRt s)) s"
definition psxSW :: "psx \<Rightarrow> psx res" where "psxSW s = psxMemWrite32 (oB s) (rRt s) s"

definition psxSWL :: "psx \<Rightarrow> psx res" where
  "psxSWL s = bind_res (psxMemRead32 (word_addr (oB s)) s) (\<lambda>(m, t).
     psxMemWrite32 (word_addr (oB s)) (swl_merge (byte_shift (oB s)) (rRt t) m) t)"

definition psxSWR :: "psx \<Rightarrow> psx res" where
  "psxSWR s = bind_res (psxMemRead32 (word_addr (oB s)) s) (\<lambda>(m, t).
     psxMemWrite32 (word_addr (oB s)) (swr_merge (byte_shift (oB s)) (rRt t) m) t)"

section \<open>Laws\<close>

lemma byte_shift_less: "byte_shift a < 4"
proof -
  have "(3 :: u32) = mask 2" by (simp add: mask_eq_exp_minus_1)
  then show ?thesis using and_less[of 2 a] by (simp add: byte_shift_def)
qed

text \<open>The word that starts at byte \<open>k\<close> of two consecutive little-endian words.\<close>

definition straddle :: "nat \<Rightarrow> u32 \<Rightarrow> u32 \<Rightarrow> u32" where
  "straddle k w0 w1 = drop_bit (8 * k) w0 OR (if k = 0 then 0 else push_bit (32 - 8 * k) w1)"

lemma masks:
  "(0xffffff :: u32) = mask 24" "(0xffff :: u32) = mask 16" "(0xff :: u32) = mask 8"
  "(0xff000000 :: u32) = NOT (mask 24)" "(0xffff0000 :: u32) = NOT (mask 16)" "(0xffffff00 :: u32) = NOT (mask 8)"
  by (simp_all add: mask_eq_exp_minus_1)

lemma unaligned_pair:
  assumes "k < 4"
  shows "lwr_merge k (lwl_merge ((k + 3) mod 4) reg (if k = 0 then w0 else w1)) w0 = straddle k w0 w1"
proof -
  from assms consider "k = 0" | "k = 1" | "k = 2" | "k = 3" by linarith
  then show ?thesis
    by cases (rule bit_word_eqI; auto simp: lwr_merge_def lwl_merge_def straddle_def LWL_MASK_def LWL_SHIFT_def
      LWR_MASK_def LWR_SHIFT_def masks bit_simps)+
qed

lemma mult_signed:
  "sint (rRs s) * sint (rRt s) = sint (scast (rRs s) * scast (rRt s) :: u64)"
proof -
  obtain x y where xy: "sint (rRs s) = x" "sint (rRt s) = y" by simp
  have b: "- 2147483648 \<le> x" "x < 2147483648" "- 2147483648 \<le> y" "y < 2147483648"
    using sint_range_size[of "rRs s"] sint_range_size[of "rRt s"] by (simp_all add: xy word_size)
  have "\<bar>x\<bar> * \<bar>y\<bar> \<le> 2147483648 * 2147483648" using b by (intro mult_mono) auto
  then have "\<bar>x * y\<bar> \<le> 2147483648 * 2147483648" by (simp add: abs_mult)
  then have "- (2 ^ 63) \<le> x * y" "x * y < 2 ^ 63" by (simp_all add: abs_le_iff)
  then show ?thesis
    using b by (simp add: xy sint_word_ariths signed_scast_eq signed_take_bit_int_eq_self)
qed

lemma hilo_join: "(ucast (drop_bit 32 r) :: u32, ucast r :: u32) = (h, l) \<Longrightarrow> (r :: u64) = push_bit 32 (ucast h) OR ucast l"
  by (auto intro!: bit_word_eqI simp: bit_simps)

lemma hilo_set [simp]: "push_bit 32 (ucast (GPR (set_hilo r s) hi)) OR ucast (GPR (set_hilo r s) lo) = r"
  using hilo_join[of r] by (simp add: set_hilo_def)

lemma mult_unsigned: "uint (ucast (x :: u32) * ucast (y :: u32) :: u64) = uint x * uint y"
proof -
  have "uint x * uint y < 2 ^ 32 * 2 ^ 32"
    using uint_range_32[of x] uint_range_32[of y] by (intro mult_strict_mono) auto
  then show ?thesis
    using uint_range_32[of x] uint_range_32[of y]
    by (simp add: uint_word_ariths unsigned_ucast_eq take_bit_int_eq_self)
qed

text \<open>The register pair hi and lo holds the full 64-bit product of the two operands, signed after MULT and unsigned after MULTU.\<close>
theorem psxMULT_product:
  "sint (push_bit 32 (ucast (GPR (psxMULT s) hi)) OR ucast (GPR (psxMULT s) lo) :: u64) = sint (rRs s) * sint (rRt s) \<and>
   uint (push_bit 32 (ucast (GPR (psxMULTU s) hi)) OR ucast (GPR (psxMULTU s) lo) :: u64) = uint (rRs s) * uint (rRt s)"
  by (simp add: psxMULT_def psxMULTU_def mult_signed mult_unsigned del: set_gpr_simps)

lemma sdiv_bounds:
  fixes x y :: int
  assumes "- 2147483648 \<le> x" "x < 2147483648" "y \<noteq> 0" "\<not> (x = - 2147483648 \<and> y = - 1)"
  shows "- 2147483648 \<le> x sdiv y \<and> x sdiv y < 2147483648"
proof (cases "y = - 1 \<or> y = 1")
  case True
  then show ?thesis using assms by (auto simp: signed_divide_int_def sgn_mult_abs)
next
  case False
  then have "2 \<le> \<bar>y\<bar>" using assms(3) by linarith
  moreover have "\<bar>x\<bar> \<le> 2147483648" using assms(1,2) by linarith
  ultimately have "\<bar>x\<bar> div \<bar>y\<bar> \<le> 2147483648 div 2"
    by (meson abs_ge_zero order_trans zdiv_mono1 zdiv_mono2 zero_less_numeral)
  then have "\<bar>x\<bar> div \<bar>y\<bar> \<le> 1073741824" "0 \<le> \<bar>x\<bar> div \<bar>y\<bar>"
    using False assms(3) by (simp_all add: pos_imp_zdiv_nonneg_iff)
  then show ?thesis
    by (cases "sgn x * sgn y" "0 :: int" rule: linorder_cases) (auto simp: signed_divide_int_def sgn_if split: if_splits)
qed

lemma smod_bounds:
  fixes x y :: int
  assumes "y \<noteq> 0"
  shows "\<bar>x smod y\<bar> < \<bar>y\<bar>" "0 \<le> (x smod y) * x"
proof -
  have e: "x smod y = sgn x * (\<bar>x\<bar> mod \<bar>y\<bar>)"
    using assms by (cases "x < 0"; cases "y < 0") (auto simp: signed_modulo_int_def signed_divide_int_def sgn_if minus_div_mult_eq_mod algebra_simps)
  show "\<bar>x smod y\<bar> < \<bar>y\<bar>" using assms by (auto simp: e abs_mult sgn_if)
  show "0 \<le> (x smod y) * x" using assms by (auto simp: e sgn_if mult_nonneg_nonneg mult_nonneg_nonpos)
qed

lemma sint_word_of_int_32:
  assumes "- 2147483648 \<le> x" "x < 2147483648"
  shows "sint (word_of_int x :: u32) = x"
proof -
  have "x mod 4294967296 = (if 0 \<le> x then x else x + 4294967296)" using assms mod_add_self2[of x 4294967296]
    by (auto intro: mod_pos_pos_trivial simp: mod_pos_pos_trivial[of "x + 4294967296" 4294967296] simp del: mod_add_self2)
  then show ?thesis using assms by (simp add: sint_32_eq uint_word_of_int)
qed

text \<open>C35: signed division truncates towards zero: quotient times divisor plus remainder is the dividend, the remainder is smaller than the divisor and does not have the opposite sign of the dividend; the one quotient that does not fit is undefined.\<close>
theorem psxDIV_division:
  assumes "rRt s \<noteq> 0"
  shows "if sint (rRs s) = - 2147483648 \<and> rRt s = - 1 then psxDIV s = Fail Undefined
    else \<exists>t. psxDIV s = Ok t \<and> sint (GPR t lo) * sint (rRt s) + sint (GPR t hi) = sint (rRs s) \<and>
      \<bar>sint (GPR t hi)\<bar> < \<bar>sint (rRt s)\<bar> \<and> 0 \<le> sint (GPR t hi) * sint (rRs s)"
proof (cases "sint (rRs s) = - 2147483648 \<and> rRt s = - 1")
  case True
  then show ?thesis by (simp add: psxDIV_def)
next
  case False
  define x y where "x = sint (rRs s)" and "y = sint (rRt s)"
  have b: "- 2147483648 \<le> x" "x < 2147483648" "- 2147483648 \<le> y" "y < 2147483648"
    using sint_range_size[of "rRs s"] sint_range_size[of "rRt s"] by (simp_all add: x_def y_def word_size)
  have y0: "y \<noteq> 0" using assms(1) signed_word_eqI[of "rRt s" 0] by (auto simp: y_def)
  have "\<not> (x = - 2147483648 \<and> y = - 1)"
    using False signed_word_eqI[of "rRt s" "- 1"] by (auto simp: x_def y_def)
  note q = sdiv_bounds[OF b(1,2) y0 this]
  note r = smod_bounds[OF y0, of x]
  have "sint (c_div (rRs s) (rRt s)) = x sdiv y"
    using q by (simp add: c_div_def x_def y_def sint_word_of_int_32)
  moreover have "sint (c_mod (rRs s) (rRt s)) = x smod y"
    using r(1) b by (simp add: c_mod_def x_def y_def sint_word_of_int_32)
  ultimately show ?thesis
    using assms r False by (simp add: psxDIV_def sdiv_mult_smod_eq x_def y_def)
qed

lemma word_addr_unat: "unat (word_addr a) = 4 * (unat a div 4)"
proof -
  have "unat a < 4294967296" by (rule order.strict_trans2[OF unsigned_less]) simp
  moreover have "4 * (unat a div 4) \<le> unat a" by simp
  ultimately have m: "4 * (unat a div 4) mod 4294967296 = 4 * (unat a div 4)"
    by (meson mod_less order.strict_trans1)
  have "unat (push_bit 2 (drop_bit 2 a)) = take_bit 32 (push_bit 2 (drop_bit 2 (unat a)))"
    using take_bit_nat_eq_self[of "unat a" 32] \<open>unat a < 4294967296\<close> by (simp add: unsigned_push_bit_eq unsigned_drop_bit_eq)
  also have "\<dots> = 4 * (unat a div 4) mod 4294967296"
    by (simp add: push_bit_eq_mult drop_bit_eq_div take_bit_eq_mod mult.commute)
  finally show ?thesis using m by (simp only: word_addr_def and_not_3)
qed

lemma byte_shift_unat: "byte_shift a = unat a mod 4"
proof -
  have "a AND 3 = take_bit 2 a" by (simp add: take_bit_eq_mask mask_eq_exp_minus_1)
  then have "byte_shift a = take_bit 2 (unat a)" by (simp only: byte_shift_def unsigned_take_bit_eq)
  then show ?thesis by (simp add: take_bit_eq_mod)
qed

lemma straddle_le32:
  "straddle 0 (le32 b0 b1 b2 b3) w = le32 b0 b1 b2 b3"
  "straddle 1 (le32 b0 b1 b2 b3) (le32 b4 b5 b6 b7) = le32 b1 b2 b3 b4"
  "straddle 2 (le32 b0 b1 b2 b3) (le32 b4 b5 b6 b7) = le32 b2 b3 b4 b5"
  "straddle 3 (le32 b0 b1 b2 b3) (le32 b4 b5 b6 b7) = le32 b3 b4 b5 b6"
  by (simp_all add: straddle_def le32_def) (rule bit_word_eqI; auto simp: bit_simps bit_u8_big)+

lemma straddle_load:
  assumes "k < 4" "off mod 4 = 0" "off + 8 \<le> 0x200000"
    "load_u32 (psxM, off) m = Ok w0" "load_u32 (psxM, off + 4) m = Ok w1"
  shows "load_u32 (psxM, off + k) m = Ok (straddle k w0 w1)"
proof -
  from assms(1) consider "k = 0" | "k = 1" | "k = 2" | "k = 3" by linarith
  then show ?thesis
    using assms by cases (auto simp: require_Ok_iff straddle_le32 add.assoc simp del: One_nat_def add_Suc_right add_2_eq_Suc')
qed


lemma ram_addr_block: "ram_addr a \<longleftrightarrow> (let j = unat a div 0x200000 in j < 4 \<or> (0x400 \<le> j \<and> j < 0x404) \<or> (0x500 \<le> j \<and> j < 0x504))"
  by (simp add: ram_addr_def in_ram_window_def div_less_iff_less_mult less_eq_div_iff_mult_less_eq Let_def)

lemma word_index:
  "4 * ((x :: nat) div 4) div 0x200000 = x div 0x200000" "4 * (x div 4) mod 0x200000 = 4 * (x mod 0x200000 div 4)"
proof -
  have "x mod (4 * 524288) = 4 * (x div 4 mod 524288) + x mod 4" by (rule mod_mult2_eq)
  then have "x mod 0x200000 div 4 = x div 4 mod 524288" by simp
  then show "4 * (x div 4) mod 0x200000 = 4 * (x mod 0x200000 div 4)" by (simp add: mult_mod_right)
  show "4 * (x div 4) div 0x200000 = x div 0x200000"
    using div_mult2_eq[of x 4 524288] div_mult2_eq[of "4 * (x div 4)" 4 524288] by simp
qed

lemma mod_add_small:
  assumes "(x :: nat) mod m + j < m"
  shows "(x + j) mod m = x mod m + j \<and> (x + j) div m = x div m"
proof -
  obtain p r where pr: "m * (x div m) = p" "x mod m = r" by simp
  have x: "x = p + r" using mult_div_mod_eq[of m x] pr by simp
  then have d: "(x + j) div m = x div m" using assms pr by (intro div_nat_eqI) simp_all
  have "p + (x + j) mod m = x + j" using mult_div_mod_eq[of m "x + j"] unfolding d pr .
  then show ?thesis using x d pr by simp
qed

lemma read_word_at:
  assumes "lut_ok (mem s)" "writeok (mem s)" "ram_addr a" "unat a mod 0x200000 + j < 0x200000" "a' = a + of_nat j" "j < 4"
    "load_u32 (psxM, 4 * ((unat a mod 0x200000 + j) div 4)) (mem s) = Ok w"
  shows "psxMemRead32 (word_addr a') s = Ok (w, s) \<and> byte_shift a' = (unat a + j) mod 4"
proof -
  have lt: "unat a + j < 4294967296" using assms(3,6) by (auto simp: ram_addr_def in_ram_window_def)
  then have u: "unat a' = unat a + j" using assms(5) by (simp add: unat_word_ariths unat_of_nat_u32)
  note sm = mod_add_small[OF assms(4)]
  have "ram_addr (word_addr a')"
    using assms(3) sm by (simp add: ram_addr_block word_addr_unat u word_index)
  then have "psxMemRead32 (word_addr a') s = Ok (w, s)"
    using assms(1,2,7) sm by (simp add: ram_read32 read_mem_def word_addr_unat u word_index del: load_u32.simps)
  then show ?thesis by (simp add: byte_shift_unat u)
qed

text \<open>C8: the pair of partial loads LWL at a+3 and LWR at a puts into the register the word stored at any address a of main memory, aligned or not.\<close>
theorem load_unaligned:
  assumes m: "lut_ok (mem s)" "writeok (mem s)" "ram_addr a" "unat a mod 0x200000 + 8 \<le> 0x200000"
    and l: "f_rt c1 = r" "GPR s (f_rs c1) + f_imm c1 = a + 3"
    and w: "f_rt c2 = r" "f_rs c2 \<noteq> r" "GPR s (f_rs c2) + f_imm c2 = a" and "r \<noteq> 0"
  shows "\<exists>t u. psxLWL (s\<lparr>code := c1\<rparr>) = Ok t \<and> psxLWR (t\<lparr>code := c2\<rparr>) = Ok u \<and>
    psxMemRead32 a s = Ok (GPR u r, s)"
proof -
  define k off where "k = unat a mod 4" and "off = 4 * (unat a mod 0x200000 div 4)"
  have k: "k < 4" "unat a mod 0x200000 = off + k" "off mod 4 = 0"
    using mult_div_mod_eq[of 4 "unat a mod 0x200000"] by (simp_all add: k_def off_def mod_mod_cancel)
  have "\<exists>w0. load_u32 (psxM, off) (mem s) = Ok w0" "\<exists>w1. load_u32 (psxM, off + 4) (mem s) = Ok w1"
    using m(4) k(2) by simp_all
  then obtain w0 w1 where w01: "load_u32 (psxM, off) (mem s) = Ok w0" "load_u32 (psxM, off + 4) (mem s) = Ok w1"
    by blast
  define t where "t = set_gpr r (lwl_merge ((k + 3) mod 4) (GPR s r) (if k = 0 then w0 else w1)) (s\<lparr>code := c1\<rparr>)"
  have off: "4 * ((off + k) div 4) = off" using k(2) by (simp add: off_def)
  have "4 * ((off + k + 3) div 4) = (if k = 0 then off else off + 4)"
  proof -
    obtain q where "off = 4 * q" using k(3) by auto
    then show ?thesis using k(1) unfolding less_4_iff by auto
  qed
  then have "psxMemRead32 (word_addr (a + 3)) (s\<lparr>code := c1\<rparr>) = Ok (if k = 0 then w0 else w1, s\<lparr>code := c1\<rparr>)
      \<and> byte_shift (a + 3) = (unat a + 3) mod 4"
    using m k(2) w01 by (intro read_word_at[where j = 3]) (auto simp del: load_u32.simps)
  then have lwl: "psxLWL (s\<lparr>code := c1\<rparr>) = Ok t"
    using l \<open>r \<noteq> 0\<close>
    by (simp add: psxLWL_def oB_def rRs_def rRt_def Rs_def Rt_def put_rt_def t_def k_def mod_add_left_eq)
  have "psxMemRead32 (word_addr a) (t\<lparr>code := c2\<rparr>) = Ok (w0, t\<lparr>code := c2\<rparr>) \<and> byte_shift a = (unat a + 0) mod 4"
    using m k w01 by (intro read_word_at[where j = 0]) (auto simp: t_def off simp del: load_u32.simps)
  moreover have "GPR t (f_rs c2) = GPR s (f_rs c2)" using w by (simp add: t_def)
  ultimately have "psxLWR (t\<lparr>code := c2\<rparr>) = Ok (set_gpr r (lwr_merge k (GPR t r) w0) (t\<lparr>code := c2\<rparr>))"
    using w \<open>r \<noteq> 0\<close>
    by (simp add: psxLWR_def oB_def rRs_def rRt_def Rs_def Rt_def put_rt_def k_def)
  moreover have "psxMemRead32 a s = Ok (straddle k w0 w1, s)"
    using m k straddle_load[OF k(1,3) _ w01] by (simp add: ram_read32 read_mem_def del: load_u32.simps)
  moreover have "lwr_merge k (GPR t r) w0 = straddle k w0 w1"
    using unaligned_pair[OF k(1), of "GPR s r" w0 w1] by (simp add: t_def)
  ultimately show ?thesis using lwl by (intro exI conjI) (assumption | simp)+
qed


theorem load_unaligned_witness:
  "\<exists>t u. psxLWL (sample_psx\<lparr>GPR := (\<lambda>_. 0)(4 := 0x80010002), code := 0x88820003\<rparr>) = Ok t \<and>
    psxLWR (t\<lparr>code := 0x98820000\<rparr>) = Ok u \<and>
    psxMemRead32 0x80010002 (sample_psx\<lparr>GPR := (\<lambda>_. 0)(4 := 0x80010002)\<rparr>) =
      Ok (GPR u 2, sample_psx\<lparr>GPR := (\<lambda>_. 0)(4 := 0x80010002)\<rparr>)"
  by (rule load_unaligned[of "sample_psx\<lparr>GPR := (\<lambda>_. 0)(4 := 0x80010002)\<rparr>" "0x80010002" "0x88820003" 2 "0x98820000"])
    (simp_all add: sample_psx_def lut_ok_def psxMemInit_def ram_addr_def in_ram_window_def f_rt_def f_rs_def f_imm_def)

section \<open>Stores\<close>

lemma swr_bytes:
  assumes "k < 4" "i < 4"
  shows "byte_of i (swr_merge k v (le32 b0 b1 b2 b3)) = (if i < k then [b0, b1, b2, b3] ! i else byte_of (i - k) v)"
  using assms unfolding less_4_iff
  by (elim disjE; simp add: swr_merge_def SWR_MASK_def SWR_SHIFT_def masks byte_of_def le32_def; intro bit_word_eqI;
      auto simp: bit_simps bit_u8_big)

lemma swl_bytes:
  assumes "k < 4" "i < 4"
  shows "byte_of i (swl_merge k v (le32 b0 b1 b2 b3)) = (if k < i then [b0, b1, b2, b3] ! i else byte_of (i + 3 - k) v)"
  using assms unfolding less_4_iff
  by (elim disjE; simp add: swl_merge_def SWL_MASK_def SWL_SHIFT_def masks byte_of_def le32_def; intro bit_word_eqI;
      auto simp: bit_simps bit_u8_big)


lemma nth4: "i < 4 \<Longrightarrow> [0, Suc 0, 2, 3] ! i = i"
  by (auto simp: less_4_iff)

lemma nth4_bytes:
  "i < 4 \<Longrightarrow> [f 0, f (Suc 0), f 2, f 3] ! i = f i" "i < 4 \<Longrightarrow> [f 4, f 5, f 6, f 7] ! i = f (4 + i)" for f :: "nat \<Rightarrow> u8"
  by (auto simp: less_4_iff)

text \<open>The two partial words of an unaligned store make one store of four bytes.\<close>

lemma unaligned_store_pair:
  fixes m :: psxmem and v :: u32
  assumes "0 < k" "k < 4" "off + 8 \<le> 0x200000"
    and b: "\<And>i. b i = bytes m psxM (off + i)"
    and w0: "w0 = le32 (b 0) (b 1) (b 2) (b 3)" and w1: "w1 = le32 (b 4) (b 5) (b 6) (b 7)"
  shows "bind_res (store_u32 (psxM, off + 4) (swl_merge (k - 1) v w1) m) (store_u32 (psxM, off) (swr_merge k v w0)) =
    store_u32 (psxM, off + k) v m"
proof -
  have "set_bytes psxM off (map (\<lambda>i. byte_of i (swr_merge k v w0)) [0, 1, 2, 3])
      (set_bytes psxM (off + 4) (map (\<lambda>i. byte_of i (swl_merge (k - 1) v w1)) [0, 1, 2, 3]) m) =
    set_bytes psxM (off + k) (map (\<lambda>i. byte_of i v) [0, 1, 2, 3]) m" (is "?l = ?r")
  proof (rule psxmem_eqI)
    fix q i
    consider "off \<le> i" "i < off + 8" | "i < off \<or> off + 8 \<le> i" by linarith
    then show "bytes ?l q i = bytes ?r q i"
    proof cases
      case 1
      then obtain j where j: "i = off + j" "j < 8" using le_Suc_ex by force
      have l: "bytes ?l psxM (off + j) = (if j < 4 then byte_of j (swr_merge k v w0) else byte_of (j - 4) (swl_merge (k - 1) v w1))"
        using j(2) by (auto simp: bytes_set_bytes nth4 simp del: list.map)
      have r: "bytes ?r psxM (off + j) = (if k \<le> j \<and> j < k + 4 then byte_of (j - k) v else b j)"
        by (auto simp: bytes_set_bytes nth4 b simp del: list.map)
      have "byte_of j (swr_merge k v w0) = (if j < k then b j else byte_of (j - k) v)" if "j < 4"
        using that assms(2) by (simp add: w0 swr_bytes nth4_bytes)
      moreover have "byte_of (j - 4) (swl_merge (k - 1) v w1) = (if k - 1 < j - 4 then b j else byte_of (j - k) v)" if "4 \<le> j"
      proof -
        obtain i where "j = 4 + i" "i < 4" using \<open>4 \<le> j\<close> j(2) by (intro that[of "j - 4"]) simp_all
        then show ?thesis using assms(1,2) by (simp add: w1 swl_bytes nth4_bytes del: nth_Cons_pos)
      qed
      ultimately have "bytes ?l psxM i = bytes ?r psxM i" unfolding j(1) l r using assms(1,2) j(2) by auto
      then show ?thesis by (cases "q = psxM") (simp_all add: bytes_set_bytes)
    next
      case 2
      then show ?thesis using assms(1,2) by (auto simp: bytes_set_bytes)
    qed
  qed simp_all
  then show ?thesis using assms(1-3) by simp
qed


lemma store_twice: "store_u32 p v m = Ok m1 \<Longrightarrow> store_u32 p v m1 = Ok m1"
proof (cases p)
  fix q off assume p: "p = (q, off)" and st: "store_u32 p v m = Ok m1"
  have "set_bytes q off bs (set_bytes q off bs m) = set_bytes q off bs m" for bs
    by (rule psxmem_eqI) (auto simp: bytes_set_bytes)
  then show ?thesis using st by (auto simp: p require_Ok_iff)
qed

lemma unaligned_store:
  assumes "k < 4" "off + 8 \<le> 0x200000" "load_u32 (psxM, off) m = Ok w0" "load_u32 (psxM, off + 4) m = Ok w1"
  obtains m1 w m2 where
    "store_u32 (psxM, if k = 0 then off else off + 4) (swl_merge ((k + 3) mod 4) v (if k = 0 then w0 else w1)) m = Ok m1"
    "load_u32 (psxM, off) m1 = Ok w" "store_u32 (psxM, off) (swr_merge k v w) m1 = Ok m2" "store_u32 (psxM, off + k) v m = Ok m2"
proof (cases "k = 0")
  case True
  have e: "swl_merge 3 v w = v" "swr_merge 0 v w = v" for w
    by (simp_all add: swl_merge_def swr_merge_def SWL_MASK_def SWL_SHIFT_def SWR_MASK_def SWR_SHIFT_def)
  obtain m1 where m1: "store_u32 (psxM, off) v m = Ok m1" using w32.st_total[OF assms(3)] by blast
  then show ?thesis
    using that[of m1 v m1] store_twice[OF m1] w32.ld_st[OF m1] True by (simp add: e del: store_u32.simps load_u32.simps)
next
  case False
  then have k1: "(k + 3) mod 4 = k - 1" using assms(1) by (auto simp: less_4_iff)
  define b where "b i = bytes m psxM (off + i)" for i
  have w: "w0 = le32 (b 0) (b 1) (b 2) (b 3)" "w1 = le32 (b 4) (b 5) (b 6) (b 7)"
    using assms(2-4) by (auto simp: b_def require_Ok_iff ac_simps)
  obtain m1 where m1: "store_u32 (psxM, off + 4) (swl_merge (k - 1) v w1) m = Ok m1"
    using w32.st_total[OF assms(4)] by blast
  have "load_u32 (psxM, off) m1 = Ok w0"
    using w32.ld_st_sep[OF m1, of "(psxM, off)"] assms(3) by (simp add: sep32_def del: load_u32.simps)
  moreover have "store_u32 (psxM, off) (swr_merge k v w0) m1 = store_u32 (psxM, off + k) v m"
    using unaligned_store_pair[OF _ assms(1,2) b_def w, of v] m1 False by simp
  moreover have "\<exists>m2. store_u32 (psxM, off + k) v m = Ok m2"
    using assms(1,2) by simp
  ultimately show ?thesis using that[of m1 w0] m1 k1 False by (auto simp del: store_u32.simps load_u32.simps)
qed

lemma write_word_at:
  assumes "lut_ok (mem s)" "writeok (mem s)" "ram_addr a" "unat a mod 0x200000 + j < 0x200000" "a' = a + of_nat j" "j < 4"
    "store_u32 (psxM, 4 * ((unat a mod 0x200000 + j) div 4)) v (mem s) = Ok m'"
  shows "psxMemWrite32 (word_addr a') v s = Ok (s\<lparr>mem := m'\<rparr>)"
proof -
  have lt: "unat a + j < 4294967296" using assms(3,6) by (auto simp: ram_addr_def in_ram_window_def)
  then have u: "unat a' = unat a + j" using assms(5) by (simp add: unat_word_ariths unat_of_nat_u32)
  note sm = mod_add_small[OF assms(4)]
  have "ram_addr (word_addr a')"
    using assms(3) sm by (simp add: ram_addr_block word_addr_unat u word_index)
  then show ?thesis
    using assms(1,2,7) sm by (simp add: ram_write32 on_mem_def word_addr_unat u word_index del: store_u32.simps)
qed

text \<open>C12: the pair of partial stores SWL at a+3 and SWR at a stores exactly the four bytes of the register at any address a of main memory and no others.\<close>
theorem store_unaligned:
  assumes m: "lut_ok (mem s)" "writeok (mem s)" "ram_addr a" "unat a mod 0x200000 + 8 \<le> 0x200000"
    and l: "f_rt c1 = r" "GPR s (f_rs c1) + f_imm c1 = a + 3"
    and w: "f_rt c2 = r" "GPR s (f_rs c2) + f_imm c2 = a"
  shows "\<exists>t u. psxSWL (s\<lparr>code := c1\<rparr>) = Ok t \<and> psxSWR (t\<lparr>code := c2\<rparr>) = Ok u \<and>
    store_u32 (psxM, unat a mod 0x200000) (GPR s r) (mem s) = Ok (mem u) \<and> psxMemRead32 a u = Ok (GPR s r, u)"
proof -
  define k off where "k = unat a mod 4" and "off = 4 * (unat a mod 0x200000 div 4)"
  have k: "k < 4" "unat a mod 0x200000 = off + k" "off mod 4 = 0" "off + 8 \<le> 0x200000"
    using mult_div_mod_eq[of 4 "unat a mod 0x200000"] m(4) by (simp_all add: k_def off_def mod_mod_cancel)
  have "\<exists>w0. load_u32 (psxM, off) (mem s) = Ok w0" "\<exists>w1. load_u32 (psxM, off + 4) (mem s) = Ok w1"
    using k(4) by simp_all
  then obtain w0 w1 where w01: "load_u32 (psxM, off) (mem s) = Ok w0" "load_u32 (psxM, off + 4) (mem s) = Ok w1"
    by blast
  obtain m1 w m2 where
    st1: "store_u32 (psxM, if k = 0 then off else off + 4) (swl_merge ((k + 3) mod 4) (GPR s r) (if k = 0 then w0 else w1)) (mem s) = Ok m1"
    and ld: "load_u32 (psxM, off) m1 = Ok w" and st2: "store_u32 (psxM, off) (swr_merge k (GPR s r) w) m1 = Ok m2"
    and res: "store_u32 (psxM, off + k) (GPR s r) (mem s) = Ok m2"
    using unaligned_store[OF k(1,4) w01] by blast
  have off: "4 * ((off + k) div 4) = off" using k(2) by (simp add: off_def)
  have off3: "4 * ((off + k + 3) div 4) = (if k = 0 then off else off + 4)"
  proof -
    obtain q where "off = 4 * q" using k(3) by auto
    then show ?thesis using k(1) unfolding less_4_iff by auto
  qed
  define t where "t = s\<lparr>code := c1, mem := m1\<rparr>"
  define u where "u = t\<lparr>code := c2, mem := m2\<rparr>"
  have ok: "lut_ok m1" "writeok m1" "lut_ok m2" "writeok m2"
    using store_frame(3)[OF st1] store_frame(3)[OF st2] m(1,2) by (simp_all add: lut_ok_def)
  have "psxSWL (s\<lparr>code := c1\<rparr>) = Ok t"
    using read_word_at[of "s\<lparr>code := c1\<rparr>" a 3 "a + 3" "if k = 0 then w0 else w1"]
      write_word_at[of "s\<lparr>code := c1\<rparr>" a 3 "a + 3" _ m1] m k w01 st1 l off3
    by (auto simp: psxSWL_def oB_def rRs_def rRt_def Rs_def Rt_def t_def k_def mod_add_left_eq
        simp del: load_u32.simps store_u32.simps)
  moreover have "psxSWR (t\<lparr>code := c2\<rparr>) = Ok u"
    using read_word_at[of "t\<lparr>code := c2\<rparr>" a 0 a w] write_word_at[of "t\<lparr>code := c2\<rparr>" a 0 a _ m2] m k ok ld st2 w off
    by (auto simp: psxSWR_def oB_def rRs_def rRt_def Rs_def Rt_def t_def u_def k_def
        simp del: load_u32.simps store_u32.simps)
  moreover have "psxMemRead32 a u = Ok (GPR s r, u)"
    using w32.ld_st[OF res] m(3) k(2) ok by (simp add: ram_read32 read_mem_def u_def t_def del: load_u32.simps)
  ultimately show ?thesis using res k(2) by (auto simp: u_def simp del: store_u32.simps)
qed


theorem store_unaligned_witness:
  "\<exists>t u. psxSWL (sample_psx\<lparr>GPR := (\<lambda>_. 0)(4 := 0x80010002), code := 0xa8820003\<rparr>) = Ok t \<and>
    psxSWR (t\<lparr>code := 0xb8820000\<rparr>) = Ok u \<and> psxMemRead32 0x80010002 u = Ok (0, u)"
  using store_unaligned[of "sample_psx\<lparr>GPR := (\<lambda>_. 0)(4 := 0x80010002)\<rparr>" "0x80010002" "0xa8820003" 2 "0xb8820000"]
  by (simp add: sample_psx_def lut_ok_def psxMemInit_def ram_addr_def in_ram_window_def f_rt_def f_rs_def f_imm_def del: store_u32.simps) blast

theorem psxDIV_division_witness:
  "\<exists>t. psxDIV (sample_psx\<lparr>GPR := (\<lambda>_. 0)(4 := 7, 2 := 2), code := 0x82001a\<rparr>) = Ok t \<and> sint (GPR t lo) * 2 + sint (GPR t hi) = 7"
  using psxDIV_division[of "sample_psx\<lparr>GPR := (\<lambda>_. 0)(4 := 7, 2 := 2), code := 0x82001a\<rparr>"]
  by (auto simp: rRt_def rRs_def Rt_def Rs_def f_rt_def f_rs_def)

end
