(* ===== verification/Cpu.thy ===== *)
theory Cpu
  imports CpuOps
begin

text \<open>
  The interpreter core of \<^verbatim>\<open>psf/PsxInterpreter.c\<close>, the exceptions of \<^verbatim>\<open>psf/R3000A.c\<close>, the BIOS
  entry points that run guest code and the emulation opcodes of \<^verbatim>\<open>psf/PsxHLE.c\<close>. In C these
  functions call each other: an instruction can branch, a branch runs its delay slot and then
  tests for interrupts, an interrupt runs a guest handler through \<^verbatim>\<open>ExecuteBlock\<close>, and that runs
  instructions. Here each of them takes the instruction dispatcher \<open>run\<close> as an argument, with
  \<open>n\<close> as the bound of its loops, and \<open>bsc\<close> at the end closes the recursion with fuel.
\<close>

type_synonym step = "psx \<Rightarrow> psx res"

section \<open>Running guest code\<close>

definition execI :: "step \<Rightarrow> step" where
  "execI run s = bind_res (PSXMu32 (pc s) (mem s)) (\<lambda>c.
     run (s\<lparr>code := c, pc := pc s + 4, cycle := cycle s + 1\<rparr>))"

definition intExecuteBlock :: "nat \<Rightarrow> step \<Rightarrow> step" where
  "intExecuteBlock n run s = while_res n (\<lambda>s. Ok (\<not> branch2 s)) (execI run) (s\<lparr>branch2 := False\<rparr>)"

definition softCall :: "nat \<Rightarrow> step \<Rightarrow> u32 \<Rightarrow> step" where
  "softCall n run p s = while_res n (\<lambda>s. Ok (pc s \<noteq> 0x80001000)) (intExecuteBlock n run)
     (set_gpr ra 0x80001000 (set_pc p s))"

definition softCall2 :: "nat \<Rightarrow> step \<Rightarrow> u32 \<Rightarrow> step" where
  "softCall2 n run p s = bind_res (softCall n run p s) (\<lambda>t. Ok (set_gpr ra (GPR s ra) t))"

definition DeliverEvent :: "nat \<Rightarrow> step \<Rightarrow> nat \<Rightarrow> nat \<Rightarrow> step" where
  "DeliverEvent n run ev spec s =
     bind_res (ev_get ev spec Ev_status (mem s)) (\<lambda>st.
     if st \<noteq> EvStACTIVE then Ok s
     else bind_res (ev_get ev spec Ev_mode (mem s)) (\<lambda>md.
       if md = EvMdINTR then
         bind_res (ev_get ev spec Ev_fhandler (mem s)) (\<lambda>h. softCall2 n run h s)
       else on_mem (ev_set ev spec Ev_status EvStALREADY) s))"

definition bios_DeliverEvent :: "nat \<Rightarrow> step \<Rightarrow> step" where
  "bios_DeliverEvent n run s =
     bind_res (DeliverEvent n run (GetEv (GPR s a0)) (GetSpec (GPR s a1)) s) (\<lambda>t. Ok (bios_end t))"

definition bios__bu_init :: "nat \<Rightarrow> step \<Rightarrow> step" where
  "bios__bu_init n run s =
     bind_res (DeliverEvent n run 0x11 0x2 s) (\<lambda>s1.
     bind_res (DeliverEvent n run 0x81 0x2 s1) (\<lambda>s2. Ok (bios_end s2)))"

section \<open>Interrupts and exceptions\<close>

definition run_if_active :: "nat \<Rightarrow> step \<Rightarrow> nat \<Rightarrow> step \<Rightarrow> step" where
  "run_if_active n run ev after s =
     bind_res (ev_get ev 1 Ev_status (mem s)) (\<lambda>st.
     if st = EvStACTIVE then
       bind_res (ev_get ev 1 Ev_fhandler (mem s)) (\<lambda>h. bind_res (softCall n run h s) after)
     else Ok s)"

definition biosInterrupt :: "nat \<Rightarrow> step \<Rightarrow> step" where
  "biosInterrupt n run s =
     bind_res (psxHu32 0x1070 (mem s)) (\<lambda>st.
     bind_res (if st AND 1 \<noteq> 0 then run_if_active n run 67 Ok s else Ok s) (\<lambda>s1.
     bind_res (psxHu32 0x1070 (mem s1)) (\<lambda>st1.
     if st1 AND 0x70 \<noteq> 0 then
       for_each [0..<3] (\<lambda>i s. bind_res (psxHu32 0x1070 (mem s)) (\<lambda>st.
         if st AND push_bit (i + 4) 1 \<noteq> 0
         then run_if_active n run (64 + i) (psxHwWrite32 0x1f801070 (NOT (push_bit (i + 4) 1))) s
         else Ok s)) s1
     else Ok s1)))"

text \<open>The walk over the interrupt handler queues \<^verbatim>\<open>SysIntRP\<close>.\<close>

definition run_queues :: "nat \<Rightarrow> step \<Rightarrow> step" where
  "run_queues n run = for_each [0..<8] (\<lambda>i s.
     if SysIntRP (bios_st s) i \<noteq> 0 then
       bind_res (deref (PSXM (SysIntRP (bios_st s) i) (mem s))) (\<lambda>q.
       bind_res (load_u32 (ptr_add q 8) (mem s)) (\<lambda>w2.
       bind_res (load_u32 (ptr_add q 4) (mem s)) (\<lambda>w1.
       softCall n run w1 (set_gpr s0 w2 s))))
     else Ok s)"

definition psxBiosException :: "nat \<Rightarrow> step \<Rightarrow> step" where
  "psxBiosException n run s =
     (let kind = CP0 s Cause AND 0x3c in
      if kind = 0 then
        bind_res (biosInterrupt n run (SaveRegs s)) (\<lambda>s1.
        bind_res (run_queues n run s1) (\<lambda>s2.
        case jmp_int (bios_st s2) of
          Some p \<Rightarrow>
            bind_res (psxHwWrite32 0x1f801070 0xffffffff s2) (\<lambda>s3.
            bind_res (jmp_load p s3) (\<lambda>s4. Ok (bios_ret 1 s4)))
        | None \<Rightarrow> bind_res (psxHwWrite16 0x1f801070 0 s2) (\<lambda>s3. Ok (return_epc s3))))
      else if kind = 0x20 then
        let s1 = (if GPR s a0 = 1 then set_cp0 Status (CP0 s Status AND NOT 0x404) s
                  else if GPR s a0 = 2 then set_cp0 Status (CP0 s Status OR 0x404) s
                  else s)
        in Ok (set_cp0 Status (status_pop (CP0 s1 Status)) (set_pc (CP0 s1 EPC + 4) s1))
      else Ok (return_epc s))"

definition enter_exception :: "u32 \<Rightarrow> bool \<Rightarrow> psx \<Rightarrow> psx" where
  "enter_exception cd bd s =
     (let s1 = set_cp0 EPC (if bd then pc s - 4 else pc s)
                 (set_cp0 Cause (if bd then cd OR 0x80000000 else cd) s);
          s2 = set_pc (if CP0 s1 Status AND 0x400000 \<noteq> 0 then 0xbfc00180 else 0x80000080) s1
      in set_cp0 Status ((CP0 s2 Status AND NOT 0x3f) OR push_bit 2 (CP0 s2 Status AND 0xf)) s2)"

definition psxException :: "nat \<Rightarrow> step \<Rightarrow> u32 \<Rightarrow> bool \<Rightarrow> step" where
  "psxException n run cd bd s = psxBiosException n run (enter_exception cd bd s)"

definition update_counters :: "psx \<Rightarrow> psx res" where
  "update_counters s = bind_res (psxRcntUpdate (cycle s) (cnt s, mem s)) (\<lambda>(c, m).
     Ok (s\<lparr>cnt := c, mem := m\<rparr>))"

definition psxBranchTest :: "nat \<Rightarrow> step \<Rightarrow> step" where
  "psxBranchTest n run s =
     bind_res (if cycle s - psxNextsCounter (cnt s) \<ge> psxNextCounter (cnt s)
               then update_counters s else Ok s) (\<lambda>s1.
     bind_res (psxHu32 0x1070 (mem s1)) (\<lambda>st. bind_res (psxHu32 0x1074 (mem s1)) (\<lambda>mask.
     if st AND mask \<noteq> 0 \<and> CP0 s1 Status AND 0x401 = 0x401
     then psxException n run 0x400 False s1
     else Ok s1)))"

section \<open>Branches and their delay slots\<close>

definition delayRead :: "nat \<Rightarrow> step \<Rightarrow> nat \<Rightarrow> u32 \<Rightarrow> step" where
  "delayRead n run reg bpc s =
     bind_res (run s) (\<lambda>s1.
     bind_res (psxBranchTest n run (set_pc bpc s1)) (\<lambda>s2.
     bind_res (execI run (set_gpr reg (GPR s reg) s2)) (\<lambda>s3.
     Ok ((set_gpr reg (GPR s1 reg) s3)\<lparr>branch := False\<rparr>))))"

definition delayWrite :: "nat \<Rightarrow> step \<Rightarrow> nat \<Rightarrow> u32 \<Rightarrow> step" where
  "delayWrite n run reg bpc s =
     bind_res (run s) (\<lambda>s1. psxBranchTest n run (set_pc bpc (s1\<lparr>branch := False\<rparr>)))"

definition delayReadWrite :: "nat \<Rightarrow> step \<Rightarrow> nat \<Rightarrow> u32 \<Rightarrow> step" where
  "delayReadWrite n run reg bpc s = psxBranchTest n run (set_pc bpc (s\<lparr>branch := False\<rparr>))"

text \<open>
  How the instruction \<open>tmp\<close> at the branch target uses the register the delay slot is loading:
  the decision of \<^verbatim>\<open>psxDelayTest\<close>.
\<close>

datatype delay = DelayNone | DelayRead | DelayWrite | DelayReadWrite

definition pick_delay :: "bool \<Rightarrow> bool \<Rightarrow> bool \<Rightarrow> delay" where
  "pick_delay rw r w = (if rw then DelayReadWrite else if r then DelayRead
     else if w then DelayWrite else DelayNone)"

definition delay_special :: "u32 \<Rightarrow> nat \<Rightarrow> delay" where
  "delay_special tmp reg =
     (let fn = f_funct tmp; rd = f_rd tmp; rt = f_rt tmp; rs = f_rs tmp in
      if (fn = 0 \<and> tmp \<noteq> 0) \<or> fn = 2 \<or> fn = 3 then
        pick_delay (rd = reg \<and> rt = reg) (rt = reg) (rd = reg)
      else if fn = 8 then pick_delay False (rs = reg) False
      else if fn = 9 then pick_delay (rd = reg \<and> rs = reg) (rs = reg) (rd = reg)
      else if fn \<in> {0x20, 0x21, 0x22, 0x23, 0x24, 0x25, 0x26, 0x27, 0x2a, 0x2b, 4, 6, 7} then
        pick_delay (rd = reg \<and> (rt = reg \<or> rs = reg)) (rt = reg \<or> rs = reg) (rd = reg)
      else if fn = 0x10 \<or> fn = 0x12 then pick_delay False False (rd = reg)
      else if fn = 0x11 \<or> fn = 0x13 then pick_delay False (rs = reg) False
      else if fn \<in> {0x18, 0x19, 0x1a, 0x1b} then pick_delay False (rt = reg \<or> rs = reg) False
      else DelayNone)"

definition delay_kind :: "u32 \<Rightarrow> nat \<Rightarrow> delay" where
  "delay_kind tmp reg =
     (let opc = f_op tmp; fn = f_funct tmp; rt = f_rt tmp; rs = f_rs tmp in
      if opc = 0 then delay_special tmp reg
      else if opc = 1 then
        (if rt \<in> {0, 2, 0x10, 0x12} then pick_delay False (rs = reg) False else DelayNone)
      else if opc = 3 then pick_delay False False (31 = reg)
      else if opc = 4 \<or> opc = 5 then pick_delay False (rs = reg \<or> rt = reg) False
      else if opc = 6 \<or> opc = 7 then pick_delay False (rs = reg) False
      else if opc \<in> {8, 9, 0xa, 0xb, 0xc, 0xd, 0xe} then
        pick_delay (rt = reg \<and> rs = reg) (rs = reg) (rt = reg)
      else if opc = 0xf then pick_delay False False (rt = reg)
      else if opc = 0x10 then
        (if fn = 0 \<or> fn = 2 then pick_delay False False (rt = reg)
         else if fn = 4 \<or> fn = 6 then pick_delay False (rt = reg) False
         else DelayNone)
      else if opc = 0x22 \<or> opc = 0x26 then pick_delay (rt = reg) (rs = reg) False
      else if opc \<in> {0x20, 0x21, 0x23, 0x24, 0x25} then
        pick_delay (rt = reg \<and> rs = reg) (rs = reg) (rt = reg)
      else if opc \<in> {0x28, 0x29, 0x2a, 0x2b, 0x2e} then pick_delay False (rt = reg \<or> rs = reg) False
      else if opc = 0x32 \<or> opc = 0x3a then pick_delay False (rs = reg) False
      else DelayNone)"

definition psxDelayTest :: "nat \<Rightarrow> step \<Rightarrow> nat \<Rightarrow> u32 \<Rightarrow> step" where
  "psxDelayTest n run reg bpc s =
     bind_res (PSXMu32 bpc (mem s)) (\<lambda>tmp.
     let s1 = s\<lparr>branch := True\<rparr> in
     case delay_kind tmp reg of
       DelayReadWrite \<Rightarrow> delayReadWrite n run reg bpc s1
     | DelayRead \<Rightarrow> delayRead n run reg bpc s1
     | DelayWrite \<Rightarrow> delayWrite n run reg bpc s1
     | DelayNone \<Rightarrow>
         bind_res (run s1) (\<lambda>s2. psxBranchTest n run (set_pc bpc (s2\<lparr>branch := False\<rparr>))))"

text \<open>The instructions with a load delay: \<^verbatim>\<open>MFC0\<close>, \<^verbatim>\<open>CFC0\<close>, \<^verbatim>\<open>LWC2\<close> and the loads.\<close>

definition load_delay :: "u32 \<Rightarrow> bool" where
  "load_delay c \<longleftrightarrow> (if f_op c = 0x10 then f_rs c = 0 \<or> f_rs c = 2
     else f_op c = 0x32 \<or> (0x20 \<le> f_op c \<and> f_op c \<le> 0x26))"

definition doBranch :: "nat \<Rightarrow> step \<Rightarrow> u32 \<Rightarrow> step" where
  "doBranch n run tar s =
     bind_res (PSXMu32 (pc s) (mem s)) (\<lambda>c.
     let s1 = s\<lparr>branch2 := True, branch := True, branchPC := tar, code := c, pc := pc s + 4,
                cycle := cycle s + 1\<rparr> in
     if load_delay c then psxDelayTest n run (f_rt c) tar s1
     else bind_res (run s1) (\<lambda>s2.
       let s3 = (if pc s2 - 8 = branchPC s2 \<and> f_op (code s2) = 0
                 then s2\<lparr>cycle := CounterDeadLoopSkip (cycle s2) (cnt s2)\<rparr> else s2) in
       psxBranchTest n run (set_pc (branchPC s3) (s3\<lparr>branch := False\<rparr>))))"

definition branch_if :: "bool \<Rightarrow> nat \<Rightarrow> step \<Rightarrow> step" where
  "branch_if b n run s = (if b then doBranch n run (BranchTarget s) s else Ok s)"

definition branch_link_if :: "bool \<Rightarrow> nat \<Rightarrow> step \<Rightarrow> step" where
  "branch_link_if b n run s =
     (if b then doBranch n run (BranchTarget s) (SetLink 31 s) else Ok s)"

definition psxBGEZ :: "nat \<Rightarrow> step \<Rightarrow> step" where "psxBGEZ n run s = branch_if (0 \<le>s rRs s) n run s"
definition psxBGEZAL :: "nat \<Rightarrow> step \<Rightarrow> step" where
  "psxBGEZAL n run s = branch_link_if (0 \<le>s rRs s) n run s"
definition psxBGTZ :: "nat \<Rightarrow> step \<Rightarrow> step" where "psxBGTZ n run s = branch_if (0 <s rRs s) n run s"
definition psxBLEZ :: "nat \<Rightarrow> step \<Rightarrow> step" where "psxBLEZ n run s = branch_if (rRs s \<le>s 0) n run s"
definition psxBLTZ :: "nat \<Rightarrow> step \<Rightarrow> step" where "psxBLTZ n run s = branch_if (rRs s <s 0) n run s"
definition psxBLTZAL :: "nat \<Rightarrow> step \<Rightarrow> step" where
  "psxBLTZAL n run s = branch_link_if (rRs s <s 0) n run s"
definition psxBEQ :: "nat \<Rightarrow> step \<Rightarrow> step" where "psxBEQ n run s = branch_if (rRs s = rRt s) n run s"
definition psxBNE :: "nat \<Rightarrow> step \<Rightarrow> step" where "psxBNE n run s = branch_if (rRs s \<noteq> rRt s) n run s"

definition psxJ :: "nat \<Rightarrow> step \<Rightarrow> step" where "psxJ n run s = doBranch n run (JumpTarget s) s"
definition psxJAL :: "nat \<Rightarrow> step \<Rightarrow> step" where
  "psxJAL n run s = doBranch n run (JumpTarget s) (SetLink 31 s)"
definition psxJR :: "nat \<Rightarrow> step \<Rightarrow> step" where "psxJR n run s = doBranch n run (rRs s) s"
definition psxJALR :: "nat \<Rightarrow> step \<Rightarrow> step" where
  "psxJALR n run s = (let s1 = (if Rd s \<noteq> 0 then SetLink (Rd s) s else s) in
     doBranch n run (rRs s1) s1)"

definition psxSYSCALL :: "nat \<Rightarrow> step \<Rightarrow> step" where
  "psxSYSCALL n run s = psxException n run 0x20 (branch s) (set_pc (pc s - 4) s)"

definition MTC0 :: "nat \<Rightarrow> step \<Rightarrow> nat \<Rightarrow> u32 \<Rightarrow> step" where
  "MTC0 n run reg v s =
     (if reg = 13 then
        let s1 = set_cp0 Cause (v AND NOT 0xfc00) s in
        if CP0 s1 Cause AND CP0 s1 Status AND 0x0300 \<noteq> 0 \<and> CP0 s1 Status AND 1 \<noteq> 0
        then psxException n run (CP0 s1 Cause) False s1
        else Ok s1
      else Ok (set_cp0 reg v s))"

definition psxMTC0 :: "nat \<Rightarrow> step \<Rightarrow> step" where "psxMTC0 n run s = MTC0 n run (Rd s) (rRt s) s"
definition psxCTC0 :: "nat \<Rightarrow> step \<Rightarrow> step" where "psxCTC0 n run s = MTC0 n run (Rd s) (rRt s) s"

section \<open>BIOS tables and emulation opcodes\<close>

text \<open>The tables \<^verbatim>\<open>biosA0\<close>, \<^verbatim>\<open>biosB0\<close> and \<^verbatim>\<open>biosC0\<close> as \<^verbatim>\<open>psxBiosInit\<close> fills them.\<close>

definition biosA0 :: "nat \<Rightarrow> step \<Rightarrow> u32 \<Rightarrow> step" where
  "biosA0 n run c =
     (if c = 0x0e then bios_abs else if c = 0x0f then bios_labs
      else if c = 0x10 then bios_atoi else if c = 0x11 then bios_atol
      else if c = 0x13 then bios_setjmp else if c = 0x14 then bios_longjmp
      else if c = 0x15 then bios_strcat else if c = 0x16 then bios_strncat
      else if c = 0x17 then bios_strcmp else if c = 0x18 then bios_strncmp
      else if c = 0x19 then bios_strcpy else if c = 0x1a then bios_strncpy
      else if c = 0x1b then bios_strlen else if c = 0x1c then bios_index
      else if c = 0x1d then bios_rindex else if c = 0x1e then bios_strchr
      else if c = 0x1f then bios_strrchr else if c = 0x20 then bios_strpbrk
      else if c = 0x21 then bios_strspn else if c = 0x22 then bios_strcspn
      else if c = 0x24 then bios_strstr else if c = 0x25 then bios_toupper
      else if c = 0x26 then bios_tolower else if c = 0x27 then bios_bcopy
      else if c = 0x28 then bios_bzero else if c = 0x29 then bios_bcmp
      else if c = 0x2a then bios_memcpy else if c = 0x2b then bios_memset
      else if c = 0x2c then bios_memcpy else if c = 0x2d then bios_memcmp
      else if c = 0x2e then bios_memchr else if c = 0x2f then bios_rand
      else if c = 0x30 then bios_srand else if c = 0x33 then bios_malloc
      else if c = 0x39 then bios_InitHeap else if c = 0x44 then bios_FlushCache
      else if c = 0x70 then bios__bu_init n run else if c = 0x71 then bios__96_init
      else if c = 0x72 then bios__96_remove else bios_dummy)"

definition biosB0 :: "nat \<Rightarrow> step \<Rightarrow> u32 \<Rightarrow> step" where
  "biosB0 n run c =
     (if c = 0x02 then bios_SetRCnt else if c = 0x03 then bios_GetRCnt
      else if c = 0x04 then bios_StartRCnt else if c = 0x05 then bios_StopRCnt
      else if c = 0x06 then bios_ResetRCnt else if c = 0x07 then bios_DeliverEvent n run
      else if c = 0x08 then bios_OpenEvent else if c = 0x09 then bios_CloseEvent
      else if c = 0x0a then bios_WaitEvent else if c = 0x0b then bios_TestEvent
      else if c = 0x0c then bios_EnableEvent else if c = 0x0d then bios_DisableEvent
      else if c = 0x0e then bios_OpenTh else if c = 0x0f then bios_CloseTh
      else if c = 0x10 then bios_ChangeTh else if c = 0x17 then bios_ReturnFromException
      else if c = 0x18 then bios_ResetEntryInt else if c = 0x19 then bios_HookEntryInt
      else if c = 0x20 then bios_UnDeliverEvent else if c = 0x56 then bios_GetC0Table
      else if c = 0x57 then bios_GetB0Table else bios_dummy)"

definition biosC0 :: "u32 \<Rightarrow> step" where
  "biosC0 c = (if c = 0x02 then bios_SysEnqIntRP else if c = 0x03 then bios_SysDeqIntRP
     else if c = 0x0a then bios_ChangeClearRCnt else bios_dummy)"

definition hleDummy :: "nat \<Rightarrow> step \<Rightarrow> step" where
  "hleDummy n run s = psxBranchTest n run (bios_end s)"

definition hleA0 :: "nat \<Rightarrow> step \<Rightarrow> step" where
  "hleA0 n run s = bind_res (biosA0 n run (GPR s t1 AND 0xff) s) (psxBranchTest n run)"

definition hleB0 :: "nat \<Rightarrow> step \<Rightarrow> step" where
  "hleB0 n run s = bind_res (biosB0 n run (GPR s t1 AND 0xff) s) (psxBranchTest n run)"

definition hleC0 :: "nat \<Rightarrow> step \<Rightarrow> step" where
  "hleC0 n run s = bind_res (biosC0 (GPR s t1 AND 0xff) s) (psxBranchTest n run)"

definition hleBootstrap :: "psx \<Rightarrow> psx" where "hleBootstrap s = s"

text \<open>The saved registers of an \<^verbatim>\<open>EXEC\<close> header: byte offset and register, in the code's order.\<close>

definition exec_layout :: "(nat \<times> nat) list" where
  "exec_layout = [(52, ra), (40, sp), (44, fp), (48, gp), (56, s0)]"

definition hleExecRet :: "psx \<Rightarrow> psx res" where
  "hleExecRet s =
     bind_res (deref (PSXM (GPR s s0) (mem s))) (\<lambda>p.
     bind_res (for_each exec_layout (\<lambda>(off, r) s.
       bind_res (load_u32 (ptr_add p off) (mem s)) (\<lambda>v. Ok (set_gpr r v s))) s) (\<lambda>s1.
     Ok (bios_ret 1 s1)))"

text \<open>The table \<^verbatim>\<open>psxHLEt\<close>; its entries from 6 on are NULL.\<close>

definition psxHLE :: "nat \<Rightarrow> step \<Rightarrow> step" where
  "psxHLE n run s =
     (let k = code s AND 0xff in
      if k = 0 then hleDummy n run s else if k = 1 then hleA0 n run s
      else if k = 2 then hleB0 n run s else if k = 3 then hleC0 n run s
      else if k = 4 then Ok (hleBootstrap s) else if k = 5 then hleExecRet s
      else Fail NullPointer)"

section \<open>Instruction tables\<close>

definition psxSPECIAL :: "nat \<Rightarrow> step \<Rightarrow> step" where
  "psxSPECIAL n run s =
     (let k = f_funct (code s) in
      if k = 0 then Ok (psxSLL s) else if k = 2 then Ok (psxSRL s) else if k = 3 then Ok (psxSRA s)
      else if k = 4 then psxSLLV s else if k = 6 then psxSRLV s else if k = 7 then psxSRAV s
      else if k = 8 then psxJR n run s else if k = 9 then psxJALR n run s
      else if k = 12 then psxSYSCALL n run s else if k = 13 then Ok (psxBREAK s)
      else if k = 16 then Ok (psxMFHI s) else if k = 17 then Ok (psxMTHI s)
      else if k = 18 then Ok (psxMFLO s) else if k = 19 then Ok (psxMTLO s)
      else if k = 24 then Ok (psxMULT s) else if k = 25 then Ok (psxMULTU s)
      else if k = 26 then psxDIV s else if k = 27 then Ok (psxDIVU s)
      else if k = 32 then Ok (psxADD s) else if k = 33 then Ok (psxADDU s)
      else if k = 34 then Ok (psxSUB s) else if k = 35 then Ok (psxSUBU s)
      else if k = 36 then Ok (psxAND s) else if k = 37 then Ok (psxOR s)
      else if k = 38 then Ok (psxXOR s) else if k = 39 then Ok (psxNOR s)
      else if k = 42 then Ok (psxSLT s) else if k = 43 then Ok (psxSLTU s)
      else Ok (psxNULL s))"

definition psxREGIMM :: "nat \<Rightarrow> step \<Rightarrow> step" where
  "psxREGIMM n run s =
     (let k = Rt s in
      if k = 0 then psxBLTZ n run s else if k = 1 then psxBGEZ n run s
      else if k = 16 then psxBLTZAL n run s else if k = 17 then psxBGEZAL n run s
      else Ok (psxNULL s))"

definition psxCOP0 :: "nat \<Rightarrow> step \<Rightarrow> step" where
  "psxCOP0 n run s =
     (let k = Rs s in
      if k = 0 then Ok (psxMFC0 s) else if k = 2 then Ok (psxCFC0 s)
      else if k = 4 then psxMTC0 n run s else if k = 6 then psxCTC0 n run s
      else if k = 16 then Ok (psxRFE s) else Ok (psxNULL s))"

definition psxBSC :: "nat \<Rightarrow> step \<Rightarrow> step" where
  "psxBSC n run s =
     (let k = f_op (code s) in
      if k = 0 then psxSPECIAL n run s else if k = 1 then psxREGIMM n run s
      else if k = 2 then psxJ n run s else if k = 3 then psxJAL n run s
      else if k = 4 then psxBEQ n run s else if k = 5 then psxBNE n run s
      else if k = 6 then psxBLEZ n run s else if k = 7 then psxBGTZ n run s
      else if k = 8 then Ok (psxADDI s) else if k = 9 then Ok (psxADDIU s)
      else if k = 10 then Ok (psxSLTI s) else if k = 11 then Ok (psxSLTIU s)
      else if k = 12 then Ok (psxANDI s) else if k = 13 then Ok (psxORI s)
      else if k = 14 then Ok (psxXORI s) else if k = 15 then Ok (psxLUI s)
      else if k = 16 then psxCOP0 n run s
      else if k = 32 then psxLB s else if k = 33 then psxLH s else if k = 34 then psxLWL s
      else if k = 35 then psxLW s else if k = 36 then psxLBU s else if k = 37 then psxLHU s
      else if k = 38 then psxLWR s
      else if k = 40 then psxSB s else if k = 41 then psxSH s else if k = 42 then psxSWL s
      else if k = 43 then psxSW s else if k = 46 then psxSWR s
      else if k = 59 then psxHLE n run s
      else Ok (psxNULL s))"

text \<open>The knot: nested calls of the dispatcher are bounded by the fuel.\<close>

primrec bsc :: "nat \<Rightarrow> step" where
  "bsc 0 s = Fail OutOfFuel"
| "bsc (Suc n) s = psxBSC n (bsc n) s"

section \<open>The processor interface\<close>

definition intReset :: "psx \<Rightarrow> psx" where
  "intReset s = s\<lparr>branch := False, branch2 := False\<rparr>"

definition psxShutdown :: "psx \<Rightarrow> psx" where
  "psxShutdown s = s\<lparr>mem_freed := True, snd_unit := SPUclose (snd_unit s)\<rparr>"

text \<open>Running after \<^verbatim>\<open>psxShutdown\<close> would use freed memory.\<close>

definition intExecute :: "nat \<Rightarrow> step" where
  "intExecute n s = require (\<not> mem_freed s) Undefined (
     bind_res (CounterSPURun (s\<lparr>times_executed := times_executed s + 1\<rparr>)) (\<lambda>(go, s1).
     if \<not> go then Ok (psxShutdown s1)
     else
       let (u, ex) = SPUendflush (times_executed s1) (snd_unit s1) in
       execI (bsc n) (s1\<lparr>snd_unit := u, times_executed := ex\<rparr>)))"

text \<open>What \<^verbatim>\<open>malloc\<close> leaves in the blocks is the argument \<open>junk\<close>.\<close>

definition psxInit :: "(region \<Rightarrow> nat \<Rightarrow> u8) \<Rightarrow> psx \<Rightarrow> psx" where
  "psxInit junk s = s\<lparr>mem := psxMemInit junk, mem_freed := False\<rparr>"

definition psxReset :: "psx \<Rightarrow> psx" where
  "psxReset s =
     (let s1 = intReset s;
          s2 = s1\<lparr>mem := psxMemReset (mem s1), GPR := (\<lambda>i. if i < 34 then 0 else GPR s1 i),
                  CP0 := (\<lambda>i. if i < 32 then 0 else CP0 s1 i)(12 := 0x10900000, 15 := 2),
                  pc := 0xbfc00000, code := 0, cycle := 0, interrupt := 0\<rparr>
      in psxBiosInit (psxHwReset s2))"

text \<open>\<^verbatim>\<open>psxExecuteBios\<close>: run blocks up to the shell's entry point.\<close>

definition psxExecuteBios :: "nat \<Rightarrow> step" where
  "psxExecuteBios n s =
     while_res n (\<lambda>s. Ok (pc s \<noteq> 0x80030000)) (intExecuteBlock n (bsc n)) s"

end
