(* ===== verification/PsfLoader.thy ===== *)
theory PsfLoader
  imports Cpu
begin

text \<open>
  The PSF loader of \<^verbatim>\<open>psf/Misc.c\<close>: tags, times, file names and the recursive loading of libraries.
  A C string is the list of its bytes without the terminator. The operating system and zlib are
  the fields of \<open>host\<close>: which paths exist, what a file holds, the names in a directory, and what
  \<^verbatim>\<open>uncompress\<close> writes; \<open>fresh\<close> is what \<^verbatim>\<open>malloc\<close> leaves in the buffer of the program image.
  \<^verbatim>\<open>malloc\<close> is assumed to succeed, and \<^verbatim>\<open>PSS_STYLE\<close> is undefined, as in the Android build.
\<close>

record host =
  path_exists :: "cstring \<Rightarrow> bool"
  file_data :: "cstring \<Rightarrow> u8 list option"
  dir_names :: "cstring \<Rightarrow> cstring list option"
  inflate :: "u8 list \<Rightarrow> u8 list"
  fresh :: "nat \<Rightarrow> u8"

section \<open>Strings\<close>

text \<open>\<^verbatim>\<open>!strncasecmp(key, "_lib", 4)\<close>.\<close>

definition lib_prefix :: "cstring \<Rightarrow> bool" where
  "lib_prefix k \<longleftrightarrow> same_nocase (take 4 k) (ascii ''_lib'')"

definition atoi :: "cstring \<Rightarrow> int res" where
  "atoi l = checked_int (c_atoi l)"

section \<open>Times\<close>

text \<open>
  One round of the loop of \<^verbatim>\<open>TimeToMS\<close> at position \<open>x\<close>, on the accumulator, the number of colons
  seen and the string, which is cut off where a separator was.
\<close>

definition time_step :: "nat \<Rightarrow> int \<times> nat \<times> cstring \<Rightarrow> (int \<times> nat \<times> cstring) res" where
  "time_step x st = (case st of (acc, c, s) \<Rightarrow>
     let ch = (if x < length s then s ! x else 0);
         add = (\<lambda>k l. bind_res (atoi l) (\<lambda>v. bind_res (checked_int (v * k)) (\<lambda>p. checked_int (acc + p)))) in
     if ch = 46 \<or> ch = 44 then
       bind_res (atoi (drop (x + 1) s)) (\<lambda>v. Ok (v, c, take x s))
     else if ch = 58 then
       bind_res (if c = 0 then add 10 (drop (x + 1) s)
                 else if c = 1 then add 600 (drop (x + (if x \<noteq> 0 then 1 else 0)) s)
                 else Ok acc) (\<lambda>acc. Ok (acc, c + 1, take x s))
     else if x = 0 then
       bind_res (if c = 0 then add 10 s else if c = 1 then add 600 s
                 else if c = 2 then add 36000 s else Ok acc) (\<lambda>acc. Ok (acc, c, s))
     else Ok (acc, c, s))"

definition TimeToMS :: "cstring \<Rightarrow> int res" where
  "TimeToMS str = (let s = take 99 str in
     bind_res (for_each (rev [0..<length s + 1]) time_step (0, 0, s)) (\<lambda>(acc, c, s).
     checked_int (acc * 100)))"

section \<open>File names\<close>

definition max_pos :: "nat option \<Rightarrow> nat option \<Rightarrow> nat option" where
  "max_pos x y = (case x of None \<Rightarrow> y | Some i \<Rightarrow> (case y of None \<Rightarrow> x | Some j \<Rightarrow> Some (max i j)))"

definition GetFileWithBase :: "cstring \<Rightarrow> cstring \<Rightarrow> cstring" where
  "GetFileWithBase f newfile = (case max_pos (c_strrchr f 92) (c_strrchr f 47) of
     None \<Rightarrow> newfile
   | Some i \<Rightarrow> take i f @ 47 # newfile)"

text \<open>Without a slash, \<^verbatim>\<open>getPath\<close> writes the terminator behind the block it allocated.\<close>

definition getPath :: "cstring \<Rightarrow> cstring res" where
  "getPath file = (case c_strrchr file 47 of
     None \<Rightarrow> Fail OutOfBounds
   | Some i \<Rightarrow> Ok (take i file @ [47]))"

definition findFileIgnoreCase :: "host \<Rightarrow> cstring \<Rightarrow> cstring \<Rightarrow> cstring res" where
  "findFileIgnoreCase h path file =
     (let tmpfn = GetFileWithBase path file in
      if path_exists h tmpfn then Ok tmpfn
      else bind_res (getPath path) (\<lambda>p.
        case dir_names h p of
          None \<Rightarrow> Ok tmpfn
        | Some names \<Rightarrow>
            (case find (\<lambda>d. same_nocase d file) names of
               None \<Rightarrow> Ok tmpfn
             | Some d \<Rightarrow> Ok (GetFileWithBase path d))))"

section \<open>Tags\<close>

definition despace :: "cstring \<Rightarrow> cstring" where
  "despace = dropWhile (\<lambda>c. c = 0x20)"

text \<open>
  \<^verbatim>\<open>GetKeyVal\<close>: control characters after the first byte become spaces, spaces around key and value
  are dropped; no key and value when there is no equals sign.
\<close>

definition clean_line :: "cstring \<Rightarrow> cstring" where
  "clean_line l = (case l of [] \<Rightarrow> []
     | c # cs \<Rightarrow> c # map (\<lambda>c. if 0 < c \<and> c < 0x20 then 0x20 else c) cs)"

definition GetKeyVal :: "cstring \<Rightarrow> (cstring \<times> cstring) option" where
  "GetKeyVal l =
     (let buf = despace (rev (despace (rev (clean_line l))));
          key = takeWhile (\<lambda>c. c \<noteq> 0x20 \<and> c \<noteq> 61) buf;
          rest = dropWhile (\<lambda>c. c \<noteq> 61) (drop (length key) buf)
      in (case rest of [] \<Rightarrow> None | _ # val \<Rightarrow> Some (key, despace val)))"

text \<open>Song information, with the pairs of \<^verbatim>\<open>PSFTAG\<close> in the order of the list.\<close>

record psfinfo =
  song_length :: u32
  stop :: u32
  fade :: u32
  title :: "cstring option"
  artist :: "cstring option"
  game :: "cstring option"
  year :: "cstring option"
  genre :: "cstring option"
  psfby :: "cstring option"
  comment :: "cstring option"
  copyright :: "cstring option"
  tags :: "(cstring \<times> cstring) list"

definition new_psfinfo :: psfinfo where
  "new_psfinfo = \<lparr>song_length = 0, stop = - 1, fade = 0, title = None, artist = None, game = None,
     year = None, genre = None, psfby = None, comment = None, copyright = None, tags = []\<rparr>"

definition AddKV :: "cstring \<Rightarrow> cstring \<Rightarrow> psfinfo \<Rightarrow> psfinfo" where
  "AddKV key val i = i\<lparr>tags := tags i @ [(key, val)]\<rparr>"

definition yoinks :: "(cstring \<times> (cstring option \<Rightarrow> psfinfo \<Rightarrow> psfinfo)) list" where
  "yoinks = [(ascii ''title'', \<lambda>v. title_update (\<lambda>_. v)), (ascii ''artist'', \<lambda>v. artist_update (\<lambda>_. v)),
     (ascii ''game'', \<lambda>v. game_update (\<lambda>_. v)), (ascii ''year'', \<lambda>v. year_update (\<lambda>_. v)),
     (ascii ''genre'', \<lambda>v. genre_update (\<lambda>_. v)), (ascii ''copyright'', \<lambda>v. copyright_update (\<lambda>_. v)),
     (ascii ''psfby'', \<lambda>v. psfby_update (\<lambda>_. v)), (ascii ''comment'', \<lambda>v. comment_update (\<lambda>_. v))]"

definition known_tag :: "cstring \<Rightarrow> cstring \<Rightarrow> psfinfo \<Rightarrow> psfinfo res" where
  "known_tag key val i =
     (let i1 = fold (\<lambda>(name, set) i. if same_nocase key name then set (Some val) i else i) yoinks i in
      if same_nocase key (ascii ''length'') then
        bind_res (TimeToMS val) (\<lambda>t. Ok (i1\<lparr>stop := word_of_int t\<rparr>))
      else if same_nocase key (ascii ''fade'') then
        bind_res (TimeToMS val) (\<lambda>t. Ok (i1\<lparr>fade := word_of_int t\<rparr>))
      else Ok i1)"

text \<open>\<^verbatim>\<open>fgets(linebuf, 1024, fp)\<close> until the end of the file, each line as the C string it starts.\<close>

definition line_len :: "u8 list \<Rightarrow> nat" where
  "line_len l = (case find_index (\<lambda>c. c = 10) (take 1023 l) of Some i \<Rightarrow> Suc i | None \<Rightarrow> min 1023 (length l))"

lemma line_len_pos: "l \<noteq> [] \<Longrightarrow> 0 < line_len l"
  by (auto simp: line_len_def split: option.split)

function fgets_lines :: "u8 list \<Rightarrow> cstring list" where
  "fgets_lines l = (if l = [] then []
     else takeWhile (\<lambda>c. c \<noteq> 0) (take (line_len l) l) # fgets_lines (drop (line_len l) l))"
  by pat_completeness auto
termination by (relation "measure length") (auto simp: line_len_pos)

declare fgets_lines.simps [simp del]

section \<open>The program image\<close>

definition exe_max :: nat where "exe_max = 0x200000"

text \<open>The buffer \<^verbatim>\<open>out\<close> after \<^verbatim>\<open>uncompress\<close>, and the words of its \<^verbatim>\<open>EXE_HEADER\<close>.\<close>

definition exe_image :: "host \<Rightarrow> u8 list \<Rightarrow> nat \<Rightarrow> u8" where
  "exe_image h packed i = (let w = take exe_max (inflate h packed) in
     if i < length w then w ! i else fresh h i)"

definition exe_word :: "(nat \<Rightarrow> u8) \<Rightarrow> nat \<Rightarrow> u32" where
  "exe_word out k = le32 (out k) (out (k + 1)) (out (k + 2)) (out (k + 3))"

definition set_entry :: "(nat \<Rightarrow> u8) \<Rightarrow> psx \<Rightarrow> psx" where
  "set_entry out s =
     set_gpr sp (if exe_word out 48 = 0 then 0x801fff00 else exe_word out 48)
       (set_gpr gp (exe_word out 20) (set_pc (exe_word out 16) s))"

definition load_text :: "(nat \<Rightarrow> u8) \<Rightarrow> psx \<Rightarrow> psx res" where
  "load_text out = on_mem (LoadPSXMem (exe_word out 24) (sint (exe_word out 28))
     (map (\<lambda>i. out (0x800 + i)) [0..<exe_max]))"

section \<open>Loading\<close>

text \<open>\<^verbatim>\<open>fread\<close> into an uninitialised word: a short file leaves it undefined.\<close>

fun fread_u32 :: "u8 list \<Rightarrow> (u32 \<times> u8 list) res" where
  "fread_u32 (b0 # b1 # b2 # b3 # r) = Ok (le32 b0 b1 b2 b3, r)"
| "fread_u32 _ = Fail Undefined"

definition psf_magic :: "u8 list" where "psf_magic = [80, 83, 70, 1]"

text \<open>
  \<^verbatim>\<open>memcmp\<close> on the four bytes read: a file that is too short and agrees so far compares
  uninitialised bytes.
\<close>

definition check_magic :: "u8 list \<Rightarrow> bool res" where
  "check_magic l = (if take 4 l = psf_magic then Ok True
     else require (take 4 l \<noteq> take (length l) psf_magic) Undefined (Ok False))"

text \<open>
  The lines after \<^verbatim>\<open>[TAG]\<close>. \<open>load\<close> is the recursive call on a library; a library that cannot be
  loaded makes the whole file fail.
\<close>

type_synonym load_fn = "cstring \<Rightarrow> psx \<Rightarrow> (psfinfo option \<times> psx) res"

fun tag_lines :: "host \<Rightarrow> load_fn \<Rightarrow> cstring \<Rightarrow> bool \<Rightarrow> bool \<Rightarrow> cstring list \<Rightarrow> psfinfo \<times> psx \<Rightarrow>
    (psfinfo option \<times> psx) res" where
  "tag_lines h load path top_level info [] (i, s) = Ok (Some i, s)"
| "tag_lines h load path top_level info (l # ls) (i, s) = (case GetKeyVal l of
     None \<Rightarrow> tag_lines h load path top_level info ls (i, s)
   | Some (key, val) \<Rightarrow>
       bind_res (if top_level then known_tag key val (AddKV key val i) else Ok (AddKV key val i)) (\<lambda>i1.
       if same_nocase key (ascii ''_lib'') \<and> \<not> info then
         bind_res (findFileIgnoreCase h path val) (\<lambda>fn.
         bind_res (load fn s) (\<lambda>(r, s1).
         case r of None \<Rightarrow> Ok (None, s1)
         | Some _ \<Rightarrow> tag_lines h load path top_level info ls (i1, s1)))
       else tag_lines h load path top_level info ls (i1, s)))"

text \<open>The \<^verbatim>\<open>_libN\<close> tags, sorted by number as \<^verbatim>\<open>qsort\<close> with \<^verbatim>\<open>ccomp\<close> does (ties in file order).\<close>

definition libn_tags :: "(cstring \<times> cstring) list \<Rightarrow> (int \<times> cstring) list" where
  "libn_tags ts = map (\<lambda>(k, v). (c_atoi (drop 4 k), v)) (filter (\<lambda>(k, v). lib_prefix k \<and> 4 < length k) ts)"

definition libn_cache :: "(cstring \<times> cstring) list \<Rightarrow> (int \<times> cstring) list res" where
  "libn_cache ts = (let ns = libn_tags ts in
     require (list_all (\<lambda>(n, _). - 2147483648 \<le> n \<and> n \<le> 2147483647) ns \<and>
       list_all (\<lambda>(m, _). list_all (\<lambda>(n, _). - 2147483648 \<le> m - n \<and> m - n \<le> 2147483647) ns) ns) Undefined
       (Ok (sort_key fst ns)))"

text \<open>A library that cannot be loaded is dereferenced all the same.\<close>

definition load_libn :: "host \<Rightarrow> load_fn \<Rightarrow> cstring \<Rightarrow> int \<times> cstring \<Rightarrow> psx \<Rightarrow> psx res" where
  "load_libn h load path e s = (if fst e < 2 then Ok s
     else bind_res (findFileIgnoreCase h path (snd e)) (\<lambda>fn.
       bind_res (load fn s) (\<lambda>(r, s1).
       case r of None \<Rightarrow> Fail NullPointer
       | Some _ \<Rightarrow> Ok (set_gpr sp (GPR s sp) (set_gpr gp (GPR s gp) (set_pc (pc s) s1))))))"

definition tag_data :: "u8 list \<Rightarrow> cstring list" where
  "tag_data l = (if take 5 l = ascii ''[TAG]'' then fgets_lines (drop 5 l) else [])"

text \<open>The 16 bytes of the header: the length of the program section and the file from it on.\<close>

definition read_header :: "u8 list \<Rightarrow> (nat \<times> u8 list) option res" where
  "read_header l0 = bind_res (check_magic l0) (\<lambda>ok.
     if \<not> ok then Ok None
     else bind_res (fread_u32 (drop 4 l0)) (\<lambda>(reserved, l1).
       bind_res (fread_u32 l1) (\<lambda>(complen, l2).
       bind_res (fread_u32 l2) (\<lambda>(crc, l3). Ok (Some (unat complen, drop (unat reserved) l3))))))"

text \<open>
  The program image of a file and its libraries. A library is loaded with its own image already
  in memory; the image of the file itself comes after its library only at the top level.
\<close>

definition load_image :: "host \<Rightarrow> load_fn \<Rightarrow> cstring \<Rightarrow> bool \<Rightarrow> (nat \<Rightarrow> u8) \<Rightarrow> cstring list \<Rightarrow> psx \<Rightarrow>
    (psfinfo option \<times> psx) res" where
  "load_image h load path top_level out ls s =
     bind_res (if top_level then Ok (set_entry out s) else load_text out (set_entry out s)) (\<lambda>s1.
     bind_res (tag_lines h load path top_level False ls (new_psfinfo, s1)) (\<lambda>(r, s2).
     case r of None \<Rightarrow> Ok (None, s2)
     | Some i \<Rightarrow>
         bind_res (if top_level then load_text out s2 else Ok s2) (\<lambda>s3.
         bind_res (libn_cache (tags i)) (\<lambda>cache.
         bind_res (for_each cache (load_libn h load path) s3) (\<lambda>s4. Ok (Some i, s4))))))"

text \<open>\<open>LoadPSF\<close> with \<open>top_level\<close> for level 0 and \<open>info\<close> for type 1.\<close>

primrec LoadPSF :: "nat \<Rightarrow> host \<Rightarrow> cstring \<Rightarrow> bool \<Rightarrow> bool \<Rightarrow> psx \<Rightarrow> (psfinfo option \<times> psx) res" where
  "LoadPSF 0 h path top_level info s = Fail OutOfFuel"
| "LoadPSF (Suc n) h path top_level info s = (case file_data h path of
     None \<Rightarrow> Ok (None, s)
   | Some l0 \<Rightarrow> bind_res (read_header l0) (\<lambda>hdr. case hdr of
       None \<Rightarrow> Ok (None, s)
     | Some (len, l4) \<Rightarrow>
         let packed = take len l4; ls = tag_data (drop len l4); load = (\<lambda>fn. LoadPSF n h fn False False) in
         if info then tag_lines h load path top_level True ls (new_psfinfo, s)
         else require (length packed = len) Undefined
           (load_image h load path top_level (exe_image h packed) ls s)))"

section \<open>The player interface\<close>

definition song_times :: "psfinfo \<Rightarrow> psfinfo" where
  "song_times i = (let i1 = (if stop i = - 1 then i\<lparr>fade := 0\<rparr> else i) in i1\<lparr>song_length := stop i1 + fade i1\<rparr>)"

definition sexy_getpsfinfo :: "nat \<Rightarrow> host \<Rightarrow> cstring \<Rightarrow> psx \<Rightarrow> (psfinfo option \<times> psx) res" where
  "sexy_getpsfinfo n h path s = bind_res (LoadPSF n h path True True s) (\<lambda>(r, t).
     Ok (map_option song_times r, t))"

text \<open>
  The start of \<^verbatim>\<open>sexy_load\<close>: memory, processor, BIOS and sound processor set up afresh. \<open>junk\<close> and
  \<open>out_junk\<close> are what \<^verbatim>\<open>malloc\<close> leaves in guest memory and in the mixing buffer.
\<close>

definition console_boot :: "(region \<Rightarrow> nat \<Rightarrow> u8) \<Rightarrow> (nat \<Rightarrow> s16) \<Rightarrow> psx \<Rightarrow> psx" where
  "console_boot junk out_junk s = (let s1 = psxReset (psxInit junk s) in
     s1\<lparr>snd_unit := snd (SPUopen out_junk (SPUinit (snd_unit s1)))\<rparr>)"

definition sexy_load :: "nat \<Rightarrow> host \<Rightarrow> (region \<Rightarrow> nat \<Rightarrow> u8) \<Rightarrow> (nat \<Rightarrow> s16) \<Rightarrow> cstring \<Rightarrow> psx \<Rightarrow>
    (psfinfo option \<times> psx) res" where
  "sexy_load n h junk out_junk path s =
     bind_res (LoadPSF n h path True False (console_boot junk out_junk s)) (\<lambda>(r, t).
     case r of
       None \<Rightarrow> Ok (None, psxShutdown t)
     | Some i \<Rightarrow> let i1 = song_times i in
         Ok (Some i1, t\<lparr>snd_unit := SPUsetlength (stop i1) (fade i1) (snd_unit t)\<rparr>))"

section \<open>Laws\<close>

subsection \<open>Tags\<close>

lemma despace_replicate: "despace (replicate k 0x20 @ l) = despace l"
  by (induction k) (simp_all add: despace_def)

lemma despace_id: "l = [] \<or> hd l \<noteq> 0x20 \<Longrightarrow> despace l = l"
  by (cases l) (auto simp: despace_def)

lemma strip_trailing: "l = [] \<or> last l \<noteq> 0x20 \<Longrightarrow> rev (despace (rev (l @ replicate k 0x20))) = l"
  using despace_id[of "rev l"] by (simp add: despace_replicate hd_rev)

text \<open>C39: a tag line \<^verbatim>\<open>key = value\<close> is read back as key and value, whatever blanks surround the two; the
  value may hold blanks and equals signs inside.\<close>
theorem GetKeyVal_line:
  assumes key: "key \<noteq> []" "\<forall>c \<in> set key. 0x20 < c \<and> c \<noteq> 61"
    and val: "\<forall>c \<in> set val. 0x20 \<le> c" "val = [] \<or> hd val \<noteq> 0x20 \<and> last val \<noteq> 0x20"
  shows "GetKeyVal (replicate i 0x20 @ key @ replicate j 0x20 @ 61 # replicate k 0x20 @ val @ replicate m 0x20 @ [10]) =
    Some (key, val)"
proof -
  define body where "body = replicate i 0x20 @ key @ replicate j 0x20 @ 61 # replicate k 0x20 @ val"
  have "clean_line (body @ replicate m 0x20 @ [10]) = body @ replicate m 0x20 @ [0x20]"
  proof -
    have nz: "\<forall>c \<in> set body. \<not> (0 < c \<and> c < 0x20)" using key val by (auto simp: body_def)
    obtain b bs where b: "body = b # bs" by (cases body) (auto simp: body_def)
    have "map (\<lambda>c. if 0 < c \<and> c < 0x20 then 0x20 else c) bs = bs" using nz by (intro map_idI) (auto simp: b)
    then show ?thesis by (simp add: clean_line_def b)
  qed
  then have c: "clean_line (body @ replicate m 0x20 @ [10]) = body @ replicate (Suc m) 0x20"
    by (simp add: replicate_append_same)
  define rest where "rest = replicate k 0x20 @ val"
  obtain n where n: "rev (despace (rev (clean_line (body @ replicate m 0x20 @ [10])))) =
      replicate i 0x20 @ key @ replicate j 0x20 @ 61 # replicate n 0x20 @ val"
  proof (cases "val = []")
    case True
    have "body @ replicate (Suc m) 0x20 = (replicate i 0x20 @ key @ replicate j 0x20 @ [61]) @ replicate (k + Suc m) 0x20"
      by (simp add: body_def True replicate_add replicate_append_same)
    then show ?thesis using that[of 0] c strip_trailing[of "replicate i 0x20 @ key @ replicate j 0x20 @ [61]" "k + Suc m"] True by simp
  next
    case False
    then show ?thesis using that[of k] c strip_trailing[of body "Suc m"] val(2) by (simp add: body_def)
  qed
  have "despace (replicate i 0x20 @ key @ l) = key @ l" for l
    using key despace_id[of "key @ l"] by (cases key) (auto simp: despace_replicate)
  moreover have "takeWhile (\<lambda>c. c \<noteq> 0x20 \<and> c \<noteq> 61) (key @ replicate j 0x20 @ 61 # l) = key" for l :: cstring
    using key(2) by (subst takeWhile_append2) (auto, cases j, auto)
  moreover have "dropWhile (\<lambda>c. c \<noteq> 61) (replicate j 0x20 @ 61 # l) = 61 # l" for l :: cstring
    by (subst dropWhile_append2) auto
  moreover have "despace (replicate n 0x20 @ val) = val"
    using val(2) by (auto simp: despace_replicate despace_id)
  ultimately have "GetKeyVal (body @ replicate m 0x20 @ [10]) = Some (key, val)"
    unfolding GetKeyVal_def n Let_def by simp
  then show ?thesis by (simp add: body_def)
qed


subsection \<open>Times\<close>

lemma atoi_dec: "n < 2147483648 \<Longrightarrow> atoi (dec n) = Ok (int n)"
proof -
  obtain c cs where c: "dec n = c # cs" using dec_nonempty[of n] by (cases "dec n") auto
  then have "is_digit c" using dec_digits[of n] by simp
  then have "\<not> is_space c" "c \<noteq> 45" "c \<noteq> 43" by (auto simp: is_digit_def is_space_def word_le_def)
  then have "c_atoi (dec n) = digits_value (dec n)" by (simp add: c_atoi_def c)
  then show "n < 2147483648 \<Longrightarrow> ?thesis" by (simp add: atoi_def checked_int_def digits_value_dec)
qed

lemma dec_no_sep: "c \<in> set (dec n) \<Longrightarrow> c \<noteq> 46 \<and> c \<noteq> 44 \<and> c \<noteq> 58"
  using dec_digits[of n] by (auto simp: is_digit_def)

lemma time_skip:
  assumes "\<forall>x \<in> set xs. 0 < x \<and> (x < length s \<longrightarrow> s ! x \<noteq> 46 \<and> s ! x \<noteq> 44 \<and> s ! x \<noteq> 58)"
  shows "for_each xs time_step (acc, c, s) = Ok (acc, c, s)"
  using assms by (induction xs) (auto simp: time_step_def Let_def)

lemma upt_split:
  assumes "p < n"
  shows "[0..<n] = [0..<p] @ p # [Suc p..<n]"
proof -
  obtain k where "n = p + Suc k" using assms less_iff_Suc_add by fastforce
  then show ?thesis using upt_add_eq_append[of 0 p "Suc k"] by (simp add: upt_conv_Cons)
qed

lemma time_segment:
  assumes "P \<noteq> []"
  shows "for_each (rev [0..<length P + 1 + length (dec k) + e]) time_step (acc, c, P @ ch # dec k) =
    bind_res (time_step (length P) (acc, c, P @ ch # dec k)) (for_each (rev [0..<length P]) time_step)"
proof -
  have r: "rev [0..<length P + 1 + length (dec k) + e] =
      rev [Suc (length P)..<length P + 1 + length (dec k) + e] @ length P # rev [0..<length P]"
    by (subst upt_split[of "length P"]) simp_all
  have "for_each (rev [Suc (length P)..<length P + 1 + length (dec k) + e]) time_step (acc, c, P @ ch # dec k) =
      Ok (acc, c, P @ ch # dec k)"
  proof (rule time_skip, clarify)
    fix x assume "x \<in> set (rev [Suc (length P)..<length P + 1 + length (dec k) + e])"
    then have "Suc (length P) \<le> x" by auto
    then have "(P @ ch # dec k) ! x \<in> set (dec k)" if "x < length (P @ ch # dec k)"
      using that by (simp add: nth_append nth_Cons')
    then show "0 < x \<and> (x < length (P @ ch # dec k) \<longrightarrow> (P @ ch # dec k) ! x \<noteq> 46 \<and> (P @ ch # dec k) ! x \<noteq> 44 \<and>
        (P @ ch # dec k) ! x \<noteq> 58)"
      using \<open>Suc (length P) \<le> x\<close> dec_no_sep by auto
  qed
  then show ?thesis unfolding r for_each_append by simp
qed

lemma time_first:
  "for_each (rev [0..<length (dec k) + e]) time_step (acc, c, dec k) = time_step 0 (acc, c, dec k)"
proof -
  have r: "rev [0..<length (dec k) + e] = rev [Suc 0..<length (dec k) + e] @ [0]"
    using dec_nonempty[of k] by (simp add: upt_conv_Cons)
  have "for_each (rev [Suc 0..<length (dec k) + e]) time_step (acc, c, dec k) = Ok (acc, c, dec k)"
    using dec_no_sep by (intro time_skip) (auto dest!: nth_mem)
  then show ?thesis unfolding r for_each_append by (cases "time_step 0 (acc, c, dec k)") simp_all
qed

lemma time_separators:
  assumes "k < 100" "0 \<le> acc" "acc < 1000000"
  shows "time_step (length P) (acc, c, P @ 46 # dec k) = Ok (int k, c, P)"
    "time_step (length P) (acc, 0, P @ 58 # dec k) = Ok (acc + int k * 10, 1, P)"
    "P \<noteq> [] \<Longrightarrow> time_step (length P) (acc, 1, P @ 58 # dec k) = Ok (acc + int k * 600, 2, P)"
  using assms by (simp_all add: time_step_def Let_def atoi_dec checked_int_def)

lemma time_leading:
  assumes "k < 100" "0 \<le> acc" "acc < 1000000"
  shows "time_step 0 (acc, 0, dec k) = Ok (acc + int k * 10, 0, dec k)" "time_step 0 (acc, 1, dec k) = Ok (acc + int k * 600, 1, dec k)"
    "time_step 0 (acc, 2, dec k) = Ok (acc + int k * 36000, 2, dec k)"
proof -
  have "dec k ! 0 \<in> set (dec k)" using dec_nonempty[of k] by (intro nth_mem) simp
  then have "dec k ! 0 \<noteq> 46" "dec k ! 0 \<noteq> 44" "dec k ! 0 \<noteq> 58" using dec_no_sep by blast+
  then show "time_step 0 (acc, 0, dec k) = Ok (acc + int k * 10, 0, dec k)" "time_step 0 (acc, 1, dec k) = Ok (acc + int k * 600, 1, dec k)"
    "time_step 0 (acc, 2, dec k) = Ok (acc + int k * 36000, 2, dec k)"
    using assms dec_nonempty[of k] by (simp_all add: time_step_def Let_def atoi_dec checked_int_def)
qed

lemma dec_length: "n < 100 \<Longrightarrow> length (dec n) \<le> 2"
proof -
  assume "n < 100"
  then have "n div 10 < 10" by (simp add: less_mult_imp_div_less)
  then show ?thesis by (subst dec.simps) (simp add: dec.simps[of "n div 10"])
qed

text \<open>\<open>time_from e acc c s\<close>: the rest of the loop from the end of \<open>s\<close> (and \<open>e\<close> positions behind it).\<close>

definition time_from :: "nat \<Rightarrow> int \<Rightarrow> nat \<Rightarrow> cstring \<Rightarrow> int res" where
  "time_from e acc c s = bind_res (for_each (rev [0..<length s + e]) time_step (acc, c, s)) (\<lambda>(acc, c, s). checked_int (acc * 100))"

lemma time_from_separator:
  assumes "P \<noteq> []" "k < 100" "0 \<le> acc" "acc < 1000000"
  shows "time_from e acc c (P @ 46 # dec k) = time_from 0 (int k) c P"
    "time_from e acc 0 (P @ 58 # dec k) = time_from 0 (acc + int k * 10) 1 P"
    "time_from e acc 1 (P @ 58 # dec k) = time_from 0 (acc + int k * 600) 2 P"
  using time_segment[OF assms(1), of k e acc _] time_separators[OF assms(2-4)] assms(1)
  by (simp_all add: time_from_def bind_res_assoc)

lemma time_from_leading:
  assumes "k < 100" "0 \<le> acc" "acc < 1000000"
  shows "time_from e acc 0 (dec k) = Ok ((acc + int k * 10) * 100)" "time_from e acc 1 (dec k) = Ok ((acc + int k * 600) * 100)"
    "time_from e acc 2 (dec k) = Ok ((acc + int k * 36000) * 100)"
  using time_first[of k e acc] time_leading[OF assms] assms by (simp_all add: time_from_def checked_int_def)

lemma TimeToMS_from: "length s \<le> 99 \<Longrightarrow> TimeToMS s = time_from 1 0 0 s"
  by (simp add: TimeToMS_def time_from_def Let_def)

text \<open>A time written as hours, minutes, seconds and one decimal digit, as minutes and seconds, or as
  seconds is read back in milliseconds.\<close>
theorem TimeToMS_shows:
  assumes "hh < 100" "mm < 100" "ss < 100" "d < 10"
  shows "TimeToMS (dec hh @ 58 # dec mm @ 58 # dec ss @ 46 # dec d) =
      Ok (((int hh * 60 + int mm) * 60 + int ss) * 1000 + int d * 100) \<and>
    TimeToMS (dec mm @ 58 # dec ss) = Ok ((int mm * 60 + int ss) * 1000) \<and> TimeToMS (dec ss) = Ok (int ss * 1000)"
proof -
  note len = dec_length[OF assms(1)] dec_length[OF assms(2)] dec_length[OF assms(3)] dec_length[of d]
  have "TimeToMS (((dec hh @ 58 # dec mm) @ 58 # dec ss) @ 46 # dec d) = Ok (((int hh * 60 + int mm) * 60 + int ss) * 1000 + int d * 100)"
    using len assms by (subst TimeToMS_from) (simp_all add: time_from_separator[unfolded One_nat_def] time_from_leading[unfolded One_nat_def] dec_nonempty del: append_assoc)
  moreover have "TimeToMS (dec mm @ 58 # dec ss) = Ok ((int mm * 60 + int ss) * 1000)"
    using len assms by (subst TimeToMS_from) (simp_all add: time_from_separator[unfolded One_nat_def] time_from_leading[unfolded One_nat_def] dec_nonempty)
  moreover have "TimeToMS (dec ss) = Ok (int ss * 1000)"
    using len assms by (subst TimeToMS_from) (simp_all add: time_from_leading)
  ultimately show ?thesis by simp
qed

subsection \<open>Libraries\<close>

text \<open>What a file holds: the image it unpacks to and the lines of its tags.\<close>

definition psf_parts :: "host \<Rightarrow> cstring \<Rightarrow> ((nat \<Rightarrow> u8) \<times> cstring list) option" where
  "psf_parts h path = (case file_data h path of None \<Rightarrow> None
     | Some l0 \<Rightarrow> (case read_header l0 of
         Ok (Some (len, l4)) \<Rightarrow>
           if len \<le> length l4 then Some (exe_image h (take len l4), tag_data (drop len l4)) else None
       | _ \<Rightarrow> None))"

lemma LoadPSF_parts: "psf_parts h path = Some (out, ls) \<Longrightarrow>
    LoadPSF (Suc n) h path top_level False s = load_image h (\<lambda>fn. LoadPSF n h fn False False) path top_level out ls s"
  by (auto simp: psf_parts_def Let_def split: option.splits sum.splits if_splits)

text \<open>\<open>lib_of h path fn\<close>: a tag of the file at \<open>path\<close> names a library, found at \<open>fn\<close>.\<close>

definition lib_of :: "host \<Rightarrow> cstring \<Rightarrow> cstring \<Rightarrow> bool" where
  "lib_of h path fn \<longleftrightarrow> (\<exists>l0 len l4 l key val. file_data h path = Some l0 \<and> read_header l0 = Ok (Some (len, l4)) \<and>
     l \<in> set (tag_data (drop len l4)) \<and> GetKeyVal l = Some (key, val) \<and> lib_prefix key \<and>
     findFileIgnoreCase h path val = Ok fn)"

lemma returns_parse [simp]: "returns (checked_int v)" "returns (atoi l)" "returns (fread_u32 l)" "returns (check_magic l)"
  by (simp_all add: checked_int_def atoi_def check_magic_def) (cases l rule: fread_u32.cases; simp)

lemma returns_time [simp]: "returns (time_step x st)" "returns (TimeToMS l)"
proof -
  show step: "returns (time_step x st)" for x st
    by (cases st) (auto simp: time_step_def Let_def intro!: returns_bind)
  show "returns (TimeToMS l)"
    unfolding TimeToMS_def Let_def by (auto intro!: returns_bind returns_for_each step)
qed

lemma returns_find [simp]: "returns (findFileIgnoreCase h path l)"
  unfolding findFileIgnoreCase_def getPath_def Let_def by (auto split: option.split intro!: returns_bind)

lemma returns_header [simp]: "returns (read_header l)"
  unfolding read_header_def by (auto intro!: returns_bind)

lemma returns_known_tag [simp]: "returns (known_tag key val i)"
  unfolding known_tag_def Let_def by (auto intro!: returns_bind)

lemma returns_LoadPSXMem [simp]: "returns (LoadPSXMem a len l m)"
proof (induction a len l m rule: LoadPSXMem.induct)
  case (1 a len l m)
  have cp: "returns (case x of None \<Rightarrow> Ok m | Some q \<Rightarrow> memcpy (g q) l k m)" for x and g :: "ptr \<Rightarrow> ptr" and k
  proof (cases x)
    case (Some q)
    then show ?thesis by (cases "g q") simp
  qed simp
  show ?case
    by (subst LoadPSXMem.simps, unfold Let_def)
      (rule returns_if, simp, rule returns_if,
        rule returns_bind, rule cp, rule 1(1)[OF _ refl refl _ refl], assumption+,
        rule returns_bind, rule cp[where g = "\<lambda>q. q"], rule 1(2)[OF _ refl refl], assumption+)
qed

lemma returns_load_text [simp]: "returns (load_text out s)"
  unfolding load_text_def on_mem_def by (auto intro!: returns_bind)

lemma returns_libn_cache [simp]: "returns (libn_cache ts)"
  by (simp add: libn_cache_def Let_def)

lemma known_tag_tags: "known_tag key val i = Ok j \<Longrightarrow> tags j = tags i"
proof -
  have "tags (fold (\<lambda>(name, set) i. if same_nocase key name then set (Some val) i else i) yoinks i) = tags i"
    by (rule fold_inv[where P = "\<lambda>j. tags j = tags i"]) (auto simp: yoinks_def)
  then show "known_tag key val i = Ok j \<Longrightarrow> tags j = tags i"
    by (auto simp: known_tag_def Let_def bind_res_Ok_iff split: if_splits)
qed

lemma lib_is_prefix: "same_nocase key (ascii ''_lib'') \<Longrightarrow> lib_prefix key"
proof -
  assume lib: "same_nocase key (ascii ''_lib'')"
  then have "length key = 4" unfolding same_nocase_def by (drule_tac map_eq_imp_length_eq) (simp add: ascii_def)
  then show ?thesis using lib by (simp only: lib_prefix_def take_all)
qed

lemma tag_lines_step:
  assumes "tag_lines h load path top_level info (l # ls) (i, s) = Ok (Some j, t)" "GetKeyVal l = Some (key, val)"
  obtains i1 s1 where "tags i1 = tags i @ [(key, val)]" "tag_lines h load path top_level info ls (i1, s1) = Ok (Some j, t)"
proof -
  obtain i1 where i1: "(if top_level then known_tag key val (AddKV key val i) else Ok (AddKV key val i)) = Ok i1"
    and rest: "(if same_nocase key (ascii ''_lib'') \<and> \<not> info then
         bind_res (findFileIgnoreCase h path val) (\<lambda>fn.
         bind_res (load fn s) (\<lambda>(r, s1).
         case r of None \<Rightarrow> Ok (None, s1)
         | Some _ \<Rightarrow> tag_lines h load path top_level info ls (i1, s1)))
       else tag_lines h load path top_level info ls (i1, s)) = Ok (Some j, t)"
    using assms by (simp add: bind_res_Ok_iff) blast
  have "tags i1 = tags i @ [(key, val)]" using i1 by (auto simp: AddKV_def dest!: known_tag_tags split: if_splits)
  moreover have "\<exists>s1. tag_lines h load path top_level info ls (i1, s1) = Ok (Some j, t)"
    using rest by (auto simp: bind_res_Ok_iff split: if_splits option.splits)
  ultimately show ?thesis using that by blast
qed

lemma tag_lines_tags:
  "tag_lines h load path top_level info ls (i, s) = Ok (Some j, t) \<Longrightarrow>
    set (tags j) \<subseteq> set (tags i) \<union> {kv. \<exists>l \<in> set ls. GetKeyVal l = Some kv}"
proof (induction ls arbitrary: i s)
  case (Cons l ls)
  show ?case
  proof (cases "GetKeyVal l")
    case None
    then show ?thesis using Cons by auto
  next
    case (Some kv)
    obtain key val where kv: "kv = (key, val)" by (cases kv)
    obtain i1 s1 where "tags i1 = tags i @ [(key, val)]" "tag_lines h load path top_level info ls (i1, s1) = Ok (Some j, t)"
      using Cons.prems Some kv by (blast elim: tag_lines_step)
    then show ?thesis using Cons.IH[of i1 s1] Some kv by auto
  qed
qed simp

lemma returns_tag_lines:
  assumes "\<And>l key val fn s. l \<in> set ls \<Longrightarrow> GetKeyVal l = Some (key, val) \<Longrightarrow> lib_prefix key \<Longrightarrow>
    findFileIgnoreCase h path val = Ok fn \<Longrightarrow> returns (load fn s)"
  shows "returns (tag_lines h load path top_level info ls (i, s))"
  using assms
proof (induction ls arbitrary: i s top_level info)
  case (Cons l ls)
  have IH: "returns (tag_lines h load path top_level info ls (i, s))" for i s top_level info
    by (rule Cons.IH) (rule Cons.prems, auto)
  show ?case
  proof (cases "GetKeyVal l")
    case (Some kv)
    obtain key val where kv: "kv = (key, val)" by (cases kv)
    have "returns (load fn s)" if "same_nocase key (ascii ''_lib'')" "findFileIgnoreCase h path val = Ok fn" for fn s
      using that Some kv by (intro Cons.prems[of l] lib_is_prefix) simp_all
    then show ?thesis using Some kv by (auto simp: IH split: option.split intro!: returns_bind)
  qed (simp add: IH)
qed simp

lemma returns_load_libn:
  assumes "\<And>fn s. findFileIgnoreCase h path (snd e) = Ok fn \<Longrightarrow> returns (load fn s)"
  shows "returns (load_libn h load path e s)"
  unfolding load_libn_def using assms by (auto split: option.split intro!: returns_bind)

text \<open>C29: loading returns. When the files can be ranked so that every library has a smaller rank than
  the file that names it (no file is its own library, however indirectly), the recursion of
  \<^verbatim>\<open>LoadPSF\<close> is no deeper than the rank of the file, so any larger bound is enough.\<close>
theorem LoadPSF_returns:
  assumes rank: "\<forall>p fn. lib_of h p fn \<longrightarrow> rk fn < (rk p :: nat)" and "rk path < n"
  shows "LoadPSF n h path top_level info s \<noteq> Fail OutOfFuel"
  unfolding returns_def[symmetric]
  using assms(2)
proof (induction n arbitrary: path top_level info s)
  case (Suc n)
  show ?case
  proof (cases "\<exists>l0 len l4. file_data h path = Some l0 \<and> read_header l0 = Ok (Some (len, l4))")
    case False
    then show ?thesis by (auto split: option.split intro!: returns_bind)
  next
    case True
    then obtain l0 len l4 where l0: "file_data h path = Some l0" "read_header l0 = Ok (Some (len, l4))" by blast
    define ls where "ls = tag_data (drop len l4)"
    define load where "load = (\<lambda>fn. LoadPSF n h fn False False)"
    have lib: "returns (load fn s)" if "l \<in> set ls" "GetKeyVal l = Some (key, val)" "lib_prefix key"
      "findFileIgnoreCase h path val = Ok fn" for l key val fn s
    proof -
      have "lib_of h path fn" using that l0 unfolding lib_of_def ls_def by blast
      then have "rk fn < n" using rank Suc.prems by (meson less_Suc_eq_le less_le_trans)
      then show ?thesis using Suc.IH unfolding load_def by blast
    qed
    have lines: "returns (tag_lines h load path top_level info ls (i, s))" for top_level info i s
      by (rule returns_tag_lines) (rule lib)
    have libn: "returns (for_each cache (load_libn h load path) u)"
      if lines_ok: "tag_lines h load path top_level info ls (new_psfinfo, s) = Ok (Some i, t)" and cache: "libn_cache (tags i) = Ok cache"
      for top_level info s i t cache u
    proof (intro returns_for_each returns_load_libn)
      fix e fn s assume "e \<in> set cache" and fn: "findFileIgnoreCase h path (snd e) = Ok fn"
      then obtain key where "(key, snd e) \<in> set (tags i)" "lib_prefix key"
        using cache by (auto simp: libn_cache_def libn_tags_def Let_def require_Ok_iff)
      moreover obtain l where "l \<in> set ls" "GetKeyVal l = Some (key, snd e)"
        using tag_lines_tags[OF lines_ok] calculation by (auto simp: new_psfinfo_def)
      ultimately show "returns (load fn s)" using lib fn by blast
    qed
    have "returns (load_image h load path top_level out ls s)" for out
      unfolding load_image_def
      by (auto simp: lines libn split: option.split intro!: returns_bind)
    then show ?thesis
      using l0 lines by (simp add: Let_def ls_def[symmetric] load_def[symmetric] require_def)
  qed
qed simp

text \<open>The order in which the images of a file \<open>F\<close>, its library \<open>B\<close> and the library \<open>C\<close> of \<open>B\<close> are laid
  over each other: \<open>C\<close> is loaded over \<open>B\<close>, then \<open>F\<close> over both, and the entry point and stack are those
  of \<open>C\<close>, which was read last. \<^verbatim>\<open>Docs/psf_format.txt\<close> asks for \<open>B\<close> over \<open>C\<close>.\<close>
lemma nested_library_order:
  assumes "psf_parts h F = Some (F_out, [F_line])" "GetKeyVal F_line = Some (ascii ''_lib'', B_name)" "findFileIgnoreCase h F B_name = Ok B"
    and "psf_parts h B = Some (B_out, [B_line])" "GetKeyVal B_line = Some (ascii ''_lib'', C_name)" "findFileIgnoreCase h B C_name = Ok C"
    and "psf_parts h C = Some (C_out, [])"
  shows "bind_res (LoadPSF (Suc (Suc (Suc n))) h F True False s) (\<lambda>(r, t). Ok (map_option tags r, t)) =
    bind_res (load_text B_out (set_entry B_out (set_entry F_out s))) (\<lambda>s1.
    bind_res (load_text C_out (set_entry C_out s1)) (\<lambda>s2.
    bind_res (load_text F_out s2) (\<lambda>s3. Ok (Some [(ascii ''_lib'', B_name)], s3))))"
proof -
  have lib: "same_nocase (ascii ''_lib'') (ascii ''_lib'')" "\<not> same_nocase (ascii ''_lib'') (ascii ''length'')"
    "\<not> same_nocase (ascii ''_lib'') (ascii ''fade'')" by (simp_all add: same_nocase_def ascii_def c_lower_def)
  have none: "libn_cache [] = Ok []" "libn_cache [(ascii ''_lib'', v)] = Ok []" for v
    by (simp_all add: libn_cache_def libn_tags_def Let_def ascii_def)
  have kt: "\<exists>j. known_tag (ascii ''_lib'') v i = Ok j \<and> tags j = tags i" for v i
    using known_tag_tags[of "ascii ''_lib''" v i] by (simp add: known_tag_def Let_def lib)
  have new: "tags (AddKV k v new_psfinfo) = [(k, v)]" "tags new_psfinfo = []" for k v
    by (simp_all add: AddKV_def new_psfinfo_def)
  have C: "LoadPSF (Suc n) h C False False s = bind_res (load_text C_out (set_entry C_out s)) (\<lambda>t. Ok (Some new_psfinfo, t))" for s
    unfolding LoadPSF_parts[OF assms(7)] load_image_def
    by (cases "load_text C_out (set_entry C_out s)") (simp_all add: none new)
  have B: "LoadPSF (Suc (Suc n)) h B False False s =
      bind_res (load_text B_out (set_entry B_out s)) (\<lambda>s1. bind_res (load_text C_out (set_entry C_out s1)) (\<lambda>t.
        Ok (Some (AddKV (ascii ''_lib'') C_name new_psfinfo), t)))" for s
    unfolding LoadPSF_parts[OF assms(4)] load_image_def
    by (simp add: assms C lib none new bind_res_assoc del: LoadPSF.simps)
  show ?thesis
    unfolding LoadPSF_parts[OF assms(1)] load_image_def
    using kt[of B_name "AddKV (ascii ''_lib'') B_name new_psfinfo"]
    by (auto simp: assms B lib none new bind_res_assoc simp del: LoadPSF.simps)
qed

text \<open>What a library that cannot be opened does: named by \<^verbatim>\<open>_lib\<close> it makes the load fail, named
  by \<^verbatim>\<open>_lib2\<close> it makes the loader dereference NULL.\<close>
theorem missing_library:
  assumes "psf_parts h F = Some (out, [line])" "GetKeyVal line = Some (key, val)"
    and "key = ascii ''_lib'' \<or> key = ascii ''_lib2''"
    and "findFileIgnoreCase h F val = Ok fn" "file_data h fn = None"
  shows "LoadPSF (Suc (Suc n)) h F False False s =
      bind_res (load_text out (set_entry out s)) (\<lambda>t. if key = ascii ''_lib'' then Ok (None, t) else Fail NullPointer)"
proof -
  have lib2: "\<not> same_nocase (ascii ''_lib2'') (ascii ''_lib'')" by (simp add: same_nocase_def ascii_def)
  have cache: "libn_cache [(ascii ''_lib2'', val)] = Ok [(2, val)]"
    by (simp add: libn_cache_def libn_tags_def Let_def ascii_def lib_prefix_def same_nocase_def c_lower_def c_atoi_def
        is_space_def is_digit_def digits_value_def)
  have new: "tags (AddKV k v new_psfinfo) = [(k, v)]" for k v
    by (simp add: AddKV_def new_psfinfo_def)
  have miss: "LoadPSF (Suc n) h fn False False t = Ok (None, t)" for t by (simp add: assms(5))
  have one: "same_nocase (ascii ''_lib'') (ascii ''_lib'')" "ascii ''_lib2'' \<noteq> ascii ''_lib''"
    by (simp_all add: same_nocase_def ascii_def)
  show ?thesis
    using assms(3) unfolding LoadPSF_parts[OF assms(1)] load_image_def
    by (elim disjE) (simp_all add: assms one lib2 miss new cache load_libn_def bind_res_assoc del: LoadPSF.simps)
qed

text \<open>A file that names itself as its library (and whose image is empty) is loaded without end:
  the loader keeps no depth.\<close>
theorem cyclic_library_never_returns:
  assumes "psf_parts h F = Some (out, [line])" "GetKeyVal line = Some (ascii ''_lib'', val)"
    and "findFileIgnoreCase h F val = Ok F" "exe_word out 28 = 0"
  shows "LoadPSF n h F False False s = Fail OutOfFuel"
proof (induction n arbitrary: s)
  case (Suc n)
  have "same_nocase (ascii ''_lib'') (ascii ''_lib'')" by (simp add: same_nocase_def)
  moreover have "load_text out s = Ok s" for s
    by (simp add: load_text_def on_mem_def assms(4) LoadPSXMem_done)
  ultimately show ?case
    unfolding LoadPSF_parts[OF assms(1)] load_image_def by (simp add: assms Suc bind_res_assoc del: LoadPSF.simps)
qed simp

subsection \<open>Examples\<close>

text \<open>A file with no program and the given tags, and a directory of such files.\<close>

definition psf_file :: "string \<Rightarrow> u8 list" where
  "psf_file ts = psf_magic @ replicate 12 0 @ ascii ''[TAG]'' @ ascii ts"

definition disk :: "(string \<times> string) list \<Rightarrow> host" where
  "disk fs = (let files = map_of (map (\<lambda>(f, ts). (ascii f, psf_file ts)) fs) in
     \<lparr>path_exists = (\<lambda>p. files p \<noteq> None), file_data = files, dir_names = (\<lambda>_. None), inflate = (\<lambda>_. []), fresh = (\<lambda>_. 0)\<rparr>)"

definition lib_disk :: host where
  "lib_disk = disk [(''d/F'', ''_lib=B''), (''d/B'', ''_lib=C''), (''d/C'', []), (''d/M'', ''_lib2=X''), (''d/S'', ''_lib=S'')]"

lemma psf_file_header: "read_header (psf_file ts) = Ok (Some (0, ascii ''[TAG]'' @ ascii ts))"
  by (simp add: read_header_def psf_file_def psf_magic_def check_magic_def numeral_eq_Suc le32_def)

lemma psf_file_tags:
  "tag_data (ascii ''[TAG]'' @ ascii ''_lib=B'') = [ascii ''_lib=B'']"
  "tag_data (ascii ''[TAG]'' @ ascii ''_lib=C'') = [ascii ''_lib=C'']"
  "tag_data (ascii ''[TAG]'' @ ascii ''_lib=S'') = [ascii ''_lib=S'']"
  "tag_data (ascii ''[TAG]'' @ ascii ''_lib2=X'') = [ascii ''_lib2=X'']"
  "tag_data (ascii ''[TAG]'' @ ascii []) = []"
  by (simp_all add: tag_data_def ascii_def fgets_lines.simps line_len_def)

lemma lib_disk_parts:
  "psf_parts lib_disk (ascii ''d/F'') = Some (exe_image lib_disk [], [ascii ''_lib=B''])"
  "psf_parts lib_disk (ascii ''d/B'') = Some (exe_image lib_disk [], [ascii ''_lib=C''])"
  "psf_parts lib_disk (ascii ''d/C'') = Some (exe_image lib_disk [], [])"
  "psf_parts lib_disk (ascii ''d/M'') = Some (exe_image lib_disk [], [ascii ''_lib2=X''])"
  "psf_parts lib_disk (ascii ''d/S'') = Some (exe_image lib_disk [], [ascii ''_lib=S''])"
proof -
  have f: "file_data lib_disk (ascii ''d/F'') = Some (psf_file ''_lib=B'')" "file_data lib_disk (ascii ''d/B'') = Some (psf_file ''_lib=C'')"
    "file_data lib_disk (ascii ''d/C'') = Some (psf_file [])" "file_data lib_disk (ascii ''d/M'') = Some (psf_file ''_lib2=X'')"
    "file_data lib_disk (ascii ''d/S'') = Some (psf_file ''_lib=S'')"
    by (simp_all add: lib_disk_def disk_def Let_def ascii_def)
  show "psf_parts lib_disk (ascii ''d/F'') = Some (exe_image lib_disk [], [ascii ''_lib=B''])"
    "psf_parts lib_disk (ascii ''d/B'') = Some (exe_image lib_disk [], [ascii ''_lib=C''])"
    "psf_parts lib_disk (ascii ''d/C'') = Some (exe_image lib_disk [], [])"
    "psf_parts lib_disk (ascii ''d/M'') = Some (exe_image lib_disk [], [ascii ''_lib2=X''])"
    "psf_parts lib_disk (ascii ''d/S'') = Some (exe_image lib_disk [], [ascii ''_lib=S''])"
    by (simp_all add: psf_parts_def f psf_file_header psf_file_tags)
qed

lemma lib_disk_keys:
  "GetKeyVal (ascii ''_lib=B'') = Some (ascii ''_lib'', ascii ''B'')" "GetKeyVal (ascii ''_lib=C'') = Some (ascii ''_lib'', ascii ''C'')"
  "GetKeyVal (ascii ''_lib=S'') = Some (ascii ''_lib'', ascii ''S'')" "GetKeyVal (ascii ''_lib2=X'') = Some (ascii ''_lib2'', ascii ''X'')"
  by (simp_all add: GetKeyVal_def clean_line_def despace_def ascii_def)

lemma lib_disk_find:
  "findFileIgnoreCase lib_disk (ascii ''d/F'') (ascii ''B'') = Ok (ascii ''d/B'')"
  "findFileIgnoreCase lib_disk (ascii ''d/B'') (ascii ''C'') = Ok (ascii ''d/C'')"
  "findFileIgnoreCase lib_disk (ascii ''d/S'') (ascii ''S'') = Ok (ascii ''d/S'')"
  "findFileIgnoreCase lib_disk (ascii ''d/M'') (ascii ''X'') = Ok (ascii ''d/X'')"
  by (simp_all add: findFileIgnoreCase_def GetFileWithBase_def getPath_def lib_disk_def disk_def Let_def ascii_def c_strrchr_def max_pos_def)

theorem missing_library_witness:
  "LoadPSF (Suc (Suc 0)) lib_disk (ascii ''d/M'') False False sample_psx =
      bind_res (load_text (exe_image lib_disk []) (set_entry (exe_image lib_disk []) sample_psx))
        (\<lambda>t. if ascii ''_lib2'' = ascii ''_lib'' then Ok (None, t) else Fail NullPointer)"
proof (rule missing_library[OF lib_disk_parts(4) lib_disk_keys(4) disjI2[OF refl] lib_disk_find(4)])
  show "file_data lib_disk (ascii ''d/X'') = None" by (simp add: lib_disk_def disk_def Let_def ascii_def)
qed

theorem cyclic_library_never_returns_witness:
  "LoadPSF 100 lib_disk (ascii ''d/S'') False False sample_psx = Fail OutOfFuel"
proof (rule cyclic_library_never_returns[OF lib_disk_parts(5) lib_disk_keys(3) lib_disk_find(3)])
  show "exe_word (exe_image lib_disk []) 28 = 0" by (simp add: exe_word_def exe_image_def lib_disk_def disk_def Let_def le32_def)
qed

definition two_disk :: host where
  "two_disk = disk [(''d/F'', ''_lib=B''), (''d/B'', [])]"

lemma two_disk_lib:
  assumes "lib_of two_disk p fn"
  shows "p = ascii ''d/F'' \<and> fn = ascii ''d/B''"
proof -
  obtain l0 len l4 l key val where l: "file_data two_disk p = Some l0" "read_header l0 = Ok (Some (len, l4))"
      "l \<in> set (tag_data (drop len l4))" "GetKeyVal l = Some (key, val)" "findFileIgnoreCase two_disk p val = Ok fn"
    using assms unfolding lib_of_def by blast
  consider "p = ascii ''d/F''" "l0 = psf_file ''_lib=B''" | "p = ascii ''d/B''" "l0 = psf_file []"
    using l(1) by (auto simp: two_disk_def disk_def Let_def split: if_splits)
  then show ?thesis
  proof cases
    case 1
    then have "l = ascii ''_lib=B''" using l(2,3) by (auto simp: psf_file_header psf_file_tags)
    then have "val = ascii ''B''" using l(4) by (simp add: lib_disk_keys)
    then show ?thesis using l(5) 1(1)
      by (simp add: findFileIgnoreCase_def GetFileWithBase_def two_disk_def disk_def Let_def ascii_def c_strrchr_def max_pos_def)
  next
    case 2
    then show ?thesis using l(2,3) by (auto simp: psf_file_header psf_file_tags)
  qed
qed

theorem LoadPSF_returns_witness:
  "LoadPSF 2 two_disk (ascii ''d/F'') True False sample_psx \<noteq> Fail OutOfFuel"
proof (rule LoadPSF_returns[of _ "\<lambda>p. if p = ascii ''d/F'' then 1 else 0"])
  show "\<forall>p fn. lib_of two_disk p fn \<longrightarrow> (if fn = ascii ''d/F'' then 1 else 0) < (if p = ascii ''d/F'' then 1 else (0::nat))"
    by (auto simp: ascii_def dest!: two_disk_lib)
qed simp

theorem GetKeyVal_line_witness:
  "GetKeyVal (replicate 2 0x20 @ ascii ''game'' @ replicate 1 0x20 @ 61 # replicate 3 0x20 @ ascii ''A B'' @ replicate 1 0x20 @ [10]) =
    Some (ascii ''game'', ascii ''A B'')"
  by (rule GetKeyVal_line) (simp_all add: ascii_def)

theorem TimeToMS_shows_witness:
  "TimeToMS (dec 1 @ 58 # dec 2 @ 58 # dec 3 @ 46 # dec 4) = Ok (((int 1 * 60 + int 2) * 60 + int 3) * 1000 + int 4 * 100) \<and>
    TimeToMS (dec 2 @ 58 # dec 3) = Ok ((int 2 * 60 + int 3) * 1000) \<and> TimeToMS (dec 3) = Ok (int 3 * 1000)"
  by (rule TimeToMS_shows) simp_all

end
