(* ===== verification/Console.thy ===== *)
theory Console
  imports PsfLoader
begin

text \<open>
  The console as a whole. \<open>psx_ok\<close> is its invariant: register zero reads as zero (also in the saved
  register sets), the address table is the one the cache state calls for, the counters have usable
  rates and the sound processor is inside its bounds. Every bus access, BIOS call, instruction,
  branch, exception and emulation opcode keeps it; the interpreter does so for every bound, by
  induction on the fuel of \<open>bsc\<close>. The lemmas have the form \<open>post (operation s) psx_ok\<close>: faults are
  allowed, a result satisfies the invariant.
\<close>

section \<open>The invariant of the machine\<close>

definition psx_ok :: "psx \<Rightarrow> bool" where
  "psx_ok s \<longleftrightarrow> lut_ok (mem s) \<and> rates_ok (cnt s) \<and> spu_ok (snd_unit s) \<and> GPR s 0 = 0 \<and>
     saved_regs (bios_st s) 0 = 0 \<and> (\<forall>i. th_reg (Thread (bios_st s) i) 0 = 0) \<and> CurThread (bios_st s) < 8"

lemma psx_ok_fields [simp]:
  "psx_ok (CP0_update f s) = psx_ok s" "psx_ok (pc_update g s) = psx_ok s" "psx_ok (code_update g s) = psx_ok s"
  "psx_ok (cycle_update g s) = psx_ok s" "psx_ok (branch_update h s) = psx_ok s" "psx_ok (branch2_update h s) = psx_ok s"
  "psx_ok (branchPC_update g s) = psx_ok s" "psx_ok (times_executed_update k s) = psx_ok s"
  "psx_ok (mem_freed_update h s) = psx_ok s" "psx_ok (rand_seed_update g s) = psx_ok s" "psx_ok (rand_pos_update l s) = psx_ok s"
  "psx_ok (interrupt_update g s) = psx_ok s"
  by (simp_all add: psx_ok_def)

lemma psx_ok_set [simp]:
  "psx_ok (set_cp0 r v s) = psx_ok s" "psx_ok (set_pc v s) = psx_ok s" "r \<noteq> 0 \<Longrightarrow> psx_ok (set_gpr r v s) = psx_ok s"
  by (simp_all add: set_cp0_def set_pc_def psx_ok_def)

lemma psx_ok_zero [simp]: "psx_ok s \<Longrightarrow> GPR s 0 = 0"
  by (simp add: psx_ok_def)

lemma psx_ok_saved: "psx_ok s \<Longrightarrow> saved_regs (bios_st s) 0 = 0"
  by (simp add: psx_ok_def)

lemma psx_ok_keep: "psx_ok s \<Longrightarrow> psx_ok t \<Longrightarrow> psx_ok (set_gpr r (GPR t r) s)"
  by (cases "r = 0") (simp_all add: psx_ok_def)

lemma psx_ok_mem: "psx_ok s \<Longrightarrow> same_map (mem s) m \<Longrightarrow> psx_ok (s\<lparr>mem := m\<rparr>)"
  using same_map_ok by (auto simp: psx_ok_def)

lemma psx_ok_cnt: "psx_ok s \<Longrightarrow> rates_ok c \<Longrightarrow> psx_ok (s\<lparr>cnt := c\<rparr>)"
  by (simp add: psx_ok_def)

lemma psx_ok_snd: "psx_ok s \<Longrightarrow> spu_ok u \<Longrightarrow> psx_ok (s\<lparr>snd_unit := u\<rparr>)"
  by (simp add: psx_ok_def)

lemma psx_ok_parts: "psx_ok s \<Longrightarrow> rates_ok (cnt s)" "psx_ok s \<Longrightarrow> spu_ok (snd_unit s)" "psx_ok s \<Longrightarrow> lut_ok (mem s)"
  by (simp_all add: psx_ok_def)

section \<open>Rules\<close>

text \<open>The type of the step chooses the rule: a memory step keeps the address table, a machine step the invariant.\<close>

lemma post_bind_mem: "post m (same_map old) \<Longrightarrow> (\<And>x. same_map old x \<Longrightarrow> post (f x) P) \<Longrightarrow> post (bind_res m f) P"
  by (rule post_bind)

lemma post_bind_psx: "post m psx_ok \<Longrightarrow> (\<And>x. psx_ok x \<Longrightarrow> post (f x) P) \<Longrightarrow> post (bind_res m f) P"
  by (rule post_bind)

definition pair_ok :: "'v \<times> psx \<Rightarrow> bool" where "pair_ok r \<longleftrightarrow> psx_ok (snd r)"

lemma pair_ok_simp [simp]: "pair_ok (v, s) = psx_ok s"
  by (simp add: pair_ok_def)

lemma post_bind_pair: "post m pair_ok \<Longrightarrow> (\<And>v t. psx_ok t \<Longrightarrow> post (f (v, t)) P) \<Longrightarrow> post (bind_res m f) P"
  by (erule post_bind) (auto simp: pair_ok_def)

lemmas post_walk = post_bind_mem post_bind_psx post_bind_pair post_bind_any post_if post_require post_case_option

lemma on_mem_post: "psx_ok s \<Longrightarrow> post (f (mem s)) (same_map (mem s)) \<Longrightarrow> post (on_mem f s) psx_ok"
  unfolding on_mem_def by (erule post_bind) (auto intro: psx_ok_mem)

lemma read_mem_post: "psx_ok s \<Longrightarrow> post (read_mem f s) pair_ok"
  unfolding read_mem_def by (rule post_bind_any) simp

lemma on_cnt_ok: "psx_ok s \<Longrightarrow> rates_ok (f (cycle s) (cnt s)) \<Longrightarrow> psx_ok (on_cnt f s)"
  unfolding on_cnt_def by (rule psx_ok_cnt)

lemma on_spu_post: "psx_ok s \<Longrightarrow> post (f (snd_unit s)) spu_ok \<Longrightarrow> post (on_spu f s) psx_ok"
  unfolding on_spu_def by (erule post_bind) (auto intro: psx_ok_snd)

section \<open>The bus\<close>

lemma mem_write_same_map [post_rules]:
  assumes "same_map m0 m"
  shows "post (psxHu8_set a v8 m) (same_map m0)" "post (psxHu16_set a v16 m) (same_map m0)"
    "post (psxHu32_set a v32 m) (same_map m0)" "post (hw_or a v32 m) (same_map m0)" "post (hw_and a v32 m) (same_map m0)"
    "post (PSXMu8_set a v8 m) (same_map m0)"
  using assms unfolding psxHu8_set_def psxHu16_set_def psxHu32_set_def hw_or_def hw_and_def PSXMu8_set_def
  by (intro post_bind_any store_same_map; simp)+

lemma rcnt_reg_less: "rcnt_reg a = Some (i, p) \<Longrightarrow> i < 3"
  by (auto simp: rcnt_reg_def split: if_splits)

lemma rcnt_write_ok: "psx_ok s \<Longrightarrow> i < 3 \<Longrightarrow> psx_ok (rcnt_write i p v s)"
  unfolding rcnt_write_def by (cases p) (auto intro!: on_cnt_ok rates_ok_wmode simp: psx_ok_parts)

lemma SPUreadRegister_post: "spu_ok s \<Longrightarrow> post (SPUreadRegister reg s) (\<lambda>(v, t). spu_ok t)"
  unfolding SPUreadRegister_def Let_def
  by (intro post_if; (rule spu_get_post | simp split: spuptr.split add: post_bind_any))

lemma hw_read_post [post_rules]:
  assumes "psx_ok s"
  shows "post (psxHwRead8 a s) pair_ok" "post (psxHwRead16 a s) pair_ok" "post (psxHwRead32 a s) pair_ok"
proof -
  have "post (bind_res (SPUreadRegister a (snd_unit s)) (\<lambda>(v, u). Ok (v, s\<lparr>snd_unit := u\<rparr>))) pair_ok"
    by (rule post_bind[OF SPUreadRegister_post]) (use assms in \<open>auto simp: psx_ok_parts psx_ok_snd\<close>)
  then show "post (psxHwRead8 a s) pair_ok" "post (psxHwRead16 a s) pair_ok" "post (psxHwRead32 a s) pair_ok"
    unfolding psxHwRead8_def psxHwRead16_def psxHwRead32_def
    by (auto intro!: read_mem_post post_bind_any simp: assms split: option.split)
qed

lemma psxDma4_post: "mix_inv m0 st \<Longrightarrow> post (psxDma4 madr bcr chcr st) (mix_inv m0)"
proof -
  assume ok: "mix_inv m0 st"
  have w: "post (SPUwriteDMAMem madr sz (snd st) (fst st)) spu_ok" for sz
    using ok by (intro SPUwriteDMAMem_post) (simp add: mix_inv_def)
  have "post (SPUreadDMAMem madr sz st) (mix_inv m0)" for sz
    by (rule post_mono[OF SPUreadDMAMem_post]) (use ok in \<open>auto simp: mix_inv_def intro: same_map_trans\<close>)
  then show ?thesis
    using ok unfolding psxDma4_def Let_def by (intro post_if post_bind[OF w]) (auto simp: mix_inv_def)
qed

lemma DMA_INTERRUPT_post: "same_map m0 m \<Longrightarrow> post (DMA_INTERRUPT n m) (same_map m0)"
  unfolding DMA_INTERRUPT_def by (intro post_walk) (auto intro: post_rules)

lemma DmaExec4_post: "mix_inv m0 st \<Longrightarrow> post (DmaExec4 st) (mix_inv m0)"
proof -
  assume ok: "mix_inv m0 st"
  have fin: "post (bind_res (hw_and 0x10c8 v m1) (\<lambda>m2. bind_res (DMA_INTERRUPT 4 m2) (\<lambda>m3. Ok (u, m3)))) (mix_inv m0)"
    if "mix_inv m0 (u, m1)" for u m1 v
    using that by (intro post_bind_mem[where old = m0] post_rules DMA_INTERRUPT_post) (simp_all add: mix_inv_def)
  show ?thesis
    unfolding DmaExec4_def
    by (intro post_bind_any post_if post_bind[OF psxDma4_post[OF ok]]) (auto intro: fin ok)
qed

lemma hw_write_post [post_rules]:
  assumes "psx_ok s"
  shows "post (psxHwWrite8 a v8 s) psx_ok" "post (psxHwWrite16 a v16 s) psx_ok" "post (psxHwWrite32 a v32 s) psx_ok"
proof -
  have dma: "post (bind_res (DmaExec4 (snd_unit s, m1)) (\<lambda>(u, m2). Ok (s\<lparr>snd_unit := u, mem := m2\<rparr>))) psx_ok"
    if "same_map (mem s) m1" for m1
    by (rule post_bind[OF DmaExec4_post[of "mem s"]])
      (use assms that in \<open>auto simp: mix_inv_def psx_ok_parts intro!: psx_ok_mem psx_ok_snd\<close>)
  show "post (psxHwWrite8 a v8 s) psx_ok"
    unfolding psxHwWrite8_def by (intro on_mem_post assms post_rules) simp
  show "post (psxHwWrite16 a v16 s) psx_ok"
    unfolding psxHwWrite16_def
    by (auto intro!: post_if on_mem_post on_spu_post assms post_rules post_bind_any SPUwriteRegister_post rcnt_write_ok
        simp: psx_ok_parts[OF assms] rcnt_reg_less split: option.split)
  show "post (psxHwWrite32 a v32 s) psx_ok"
    unfolding psxHwWrite32_def
    by (intro post_if post_case_option post_bind_mem[where old = "mem s"] dma on_mem_post post_rules)
      (auto intro!: post_rules post_bind_any rcnt_write_ok simp: assms rcnt_reg_less split: prod.split)
qed

lemma mem_read_post [post_rules]:
  assumes "psx_ok s"
  shows "post (psxMemRead8 a s) pair_ok" "post (psxMemRead16 a s) pair_ok" "post (psxMemRead32 a s) pair_ok"
  using assms unfolding psxMemRead8_def psxMemRead16_def psxMemRead32_def mapped_read_def
  by (intro post_if post_case_option; simp add: read_mem_post hw_read_post)+

lemma psx_ok_cache: "psx_ok s \<Longrightarrow> psx_ok (s\<lparr>mem := cache_control v (mem s)\<rparr>)"
  by (simp add: psx_ok_def lut_ok_cache_control)

lemma mem_write_post [post_rules]:
  assumes "psx_ok s"
  shows "post (psxMemWrite8 a v8 s) psx_ok" "post (psxMemWrite16 a v16 s) psx_ok" "post (psxMemWrite32 a v32 s) psx_ok"
  using assms unfolding psxMemWrite8_def psxMemWrite16_def psxMemWrite32_def
  by (intro post_if post_case_option; simp add: hw_write_post on_mem_post post_rules psx_ok_cache del: store_u8.simps store_u16.simps store_u32.simps)+

lemma CounterSPURun_post: "psx_ok s \<Longrightarrow> post (CounterSPURun s) pair_ok"
proof -
  assume ok: "psx_ok s"
  have "post (SPUasync c (snd_unit s, mem s)) (\<lambda>(go, st). mix_inv (mem s) st)" for c
    by (rule ends_post[OF SPUasync_ends]) (simp add: mix_inv_def psx_ok_parts[OF ok])
  then have w: "post (SPUasync c (snd_unit s, mem s)) (\<lambda>(go, u, m). spu_ok u \<and> same_map (mem s) m)" for c
    by (rule post_mono) (auto simp: mix_inv_def)
  show ?thesis
    unfolding CounterSPURun_def Let_def
    by (intro post_if post_bind[OF w]) (auto intro!: psx_ok_mem psx_ok_snd psx_ok_cnt simp: ok psx_ok_parts)
qed


section \<open>BIOS calls\<close>

lemma psx_ok_bios [simp]: "psx_ok (bios_end s) = psx_ok s" "psx_ok (bios_ret v s) = psx_ok s"
  "psx_ok (rcnt_sel s) = psx_ok s" "psx_ok (return_epc s) = psx_ok s" "psx_ok (ret_pos q s) = psx_ok s"
  by (simp_all add: bios_end_def bios_ret_def rcnt_sel_def return_epc_def ret_pos_def)

lemma psx_ok_bios_st [simp]:
  "psx_ok (s\<lparr>bios_st := (bios_st s)\<lparr>heap_addr := v\<rparr>\<rparr>) = psx_ok s"
  "psx_ok (s\<lparr>bios_st := (bios_st s)\<lparr>jmp_int := j\<rparr>\<rparr>) = psx_ok s"
  "psx_ok (s\<lparr>bios_st := (bios_st s)\<lparr>SysIntRP := q\<rparr>\<rparr>) = psx_ok s"
  by (simp_all add: psx_ok_def)

lemma bios_mem_same_map [post_rules]:
  assumes "same_map old m"
  shows "post (ev_set ev spec f v m) (same_map old)" "post (chunk_set c k v m) (same_map old)"
    "post (copy_byte d src m) (same_map old)" "post (copy_if_mapped d src m) (same_map old)" "post (jmp_save q g m) (same_map old)"
  using assms unfolding ev_set_def chunk_set_def copy_byte_def copy_if_mapped_def jmp_save_def
  by (auto intro!: post_if post_bind_any post_rules post_for_each split: prod.split)

lemmas map_step = store_same_map[THEN postD] mem_write_same_map[THEN postD] bios_mem_same_map[THEN postD]

lemma guest_copy_same_map [post_rules]:
  assumes "same_map old m"
  shows "post (guest_memcpy d a n m) (same_map old)" "post (guest_bzero d n m) (same_map old)"
    "post (guest_memset d v n m) (same_map old)"
proof -
  show "post (guest_memcpy d a n m) (same_map old)"
    unfolding guest_memcpy_def
    by (rule post_bind, rule post_repeat[where P = "\<lambda>(d, a, m). same_map old m"])
      (auto intro!: post_bind_any assms intro: map_step)
  show "post (guest_bzero d n m) (same_map old)" "post (guest_memset d v n m) (same_map old)"
    unfolding guest_bzero_def guest_memset_def
    by (rule post_bind, rule post_repeat[where P = "\<lambda>(d, m). same_map old m"];
        auto intro!: post_bind_any assms intro: map_step split: if_splits)+
qed

lemma guest_str_same_map [post_rules]:
  assumes "same_map old m"
  shows "post (guest_strcpy d a m) (same_map old)" "post (guest_strncpy d a n m) (same_map old)"
    "post (guest_strcat d a m) (same_map old)" "post (guest_strncat d a n m) (same_map old)"
    "post (guest_InitHeap d n m) (same_map old)"
proof -
  show "post (guest_strcpy d a m) (same_map old)"
    unfolding guest_strcpy_def
    by (rule post_bind, rule post_do[where P = "\<lambda>(d, a, m). same_map old m"])
      (auto intro!: post_bind_any assms intro: map_step post_rules)
  show "post (guest_strncpy d a n m) (same_map old)"
    unfolding guest_strncpy_def
    by (rule post_bind, rule post_do[where P = "\<lambda>(d, a, n, m). same_map old m"])
      (auto intro!: post_bind_any assms intro: map_step post_rules)
  show "post (guest_strcat d a m) (same_map old)"
    unfolding guest_strcat_def
    by (rule post_bind_any, rule post_bind, rule post_while[where P = "\<lambda>(d, a, m). same_map old m"])
      (auto intro!: post_bind_any assms intro: map_step post_rules)
  show "post (guest_strncat d a n m) (same_map old)"
    unfolding guest_strncat_def
    by (rule post_bind_any, rule post_bind, rule post_while[where P = "\<lambda>(d, a, n, m). same_map old m"])
      (auto intro!: post_bind_any assms intro: map_step post_rules)
  show "post (guest_InitHeap d n m) (same_map old)"
    unfolding guest_InitHeap_def by (intro post_bind_mem[where old = old] post_rules assms)
qed

lemma guest_malloc_post: "same_map old m \<Longrightarrow> post (guest_malloc n h m) (\<lambda>(v, m'). same_map old m')"
  unfolding guest_malloc_def Let_def by (intro post_walk post_rules) auto


lemma jmp_load_post: "psx_ok s \<Longrightarrow> post (jmp_load q s) psx_ok"
  unfolding jmp_load_def jmp_layout_def by (rule post_for_each) (auto intro!: post_bind_any)

lemmas bios_mem_defs = bios_setjmp_def bios_strcat_def bios_strncat_def bios_strcpy_def bios_strncpy_def bios_bcopy_def
  bios_bzero_def bios_memcpy_def bios_memset_def bios_InitHeap_def bios_OpenEvent_def bios_StartRCnt_def
  bios_StopRCnt_def bios_TestEvent_def bios_UnDeliverEvent_def

lemmas bios_pure_defs = bios_abs_def bios_labs_def bios_atoi_def bios_atol_def bios_strcmp_def bios_strncmp_def
  bios_strlen_def bios_index_def bios_rindex_def bios_strchr_def bios_strrchr_def bios_strpbrk_def bios_strspn_def
  bios_strcspn_def bios_strstr_def bios_toupper_def bios_tolower_def bios_bcmp_def bios_memcmp_def host_memcmp_def
  bios_memchr_def bios_rand_def bios_srand_def bios_FlushCache_def bios__96_init_def bios__96_remove_def bios_GetRCnt_def
  with_strings_def bios_GetC0Table_def bios_GetB0Table_def bios_dummy_def

lemma bios_pure_post [post_rules]:
  assumes "psx_ok s"
  shows "post (bios_abs s) psx_ok" "post (bios_labs s) psx_ok" "post (bios_atoi s) psx_ok" "post (bios_atol s) psx_ok"
    "post (bios_strcmp s) psx_ok" "post (bios_strncmp s) psx_ok" "post (bios_strlen s) psx_ok" "post (bios_index s) psx_ok"
    "post (bios_rindex s) psx_ok" "post (bios_strchr s) psx_ok" "post (bios_strrchr s) psx_ok" "post (bios_strpbrk s) psx_ok"
    "post (bios_strspn s) psx_ok" "post (bios_strcspn s) psx_ok" "post (bios_strstr s) psx_ok" "post (bios_toupper s) psx_ok"
    "post (bios_tolower s) psx_ok" "post (bios_bcmp s) psx_ok" "post (bios_memcmp s) psx_ok" "post (bios_memchr s) psx_ok"
    "post (bios_rand s) psx_ok" "post (bios_srand s) psx_ok" "post (bios_FlushCache s) psx_ok" "post (bios__96_init s) psx_ok"
    "post (bios__96_remove s) psx_ok" "post (bios_GetRCnt s) psx_ok" "post (bios_GetC0Table s) psx_ok"
    "post (bios_GetB0Table s) psx_ok" "post (bios_dummy s) psx_ok"
  unfolding bios_pure_defs Let_def by (auto intro!: post_bind_any post_require simp: assms)

lemma on_mem_then:
  "psx_ok s \<Longrightarrow> post (f (mem s)) (same_map (mem s)) \<Longrightarrow> (\<And>t. psx_ok t \<Longrightarrow> post (g t) psx_ok) \<Longrightarrow> post (bind_res (on_mem f s) g) psx_ok"
  by (rule post_bind[OF on_mem_post])

lemma bios_mem_post [post_rules]:
  assumes "psx_ok s"
  shows "post (bios_setjmp s) psx_ok" "post (bios_strcat s) psx_ok" "post (bios_strncat s) psx_ok" "post (bios_strcpy s) psx_ok"
    "post (bios_strncpy s) psx_ok" "post (bios_bcopy s) psx_ok" "post (bios_bzero s) psx_ok" "post (bios_memcpy s) psx_ok"
    "post (bios_memset s) psx_ok" "post (bios_InitHeap s) psx_ok" "post (bios_OpenEvent s) psx_ok" "post (bios_StartRCnt s) psx_ok"
    "post (bios_StopRCnt s) psx_ok" "post (bios_TestEvent s) psx_ok"
  using assms unfolding bios_mem_defs Let_def
  by (intro on_mem_then post_bind_mem[where old = "mem s"] post_bind_any post_if post_rules;
      simp)+

lemma bios_UnDeliverEvent_post [post_rules]: "psx_ok s \<Longrightarrow> post (bios_UnDeliverEvent s) psx_ok"
  unfolding bios_UnDeliverEvent_def Let_def
  by (intro post_bind_psx post_bind_any post_if on_mem_post post_rules; simp)

lemma bios_malloc_post [post_rules]: "psx_ok s \<Longrightarrow> post (bios_malloc s) psx_ok"
  unfolding bios_malloc_def by (rule post_bind[OF guest_malloc_post[where old = "mem s"]]) (auto intro: psx_ok_mem)

lemma psx_ok_rcnt:
  assumes "psx_ok s"
  shows "i < 3 \<Longrightarrow> psx_ok (on_cnt (\<lambda>c. psxRcntWmode c i v) s)" "psx_ok (on_cnt (\<lambda>c. psxRcntWtarget c i v) s)"
    "psx_ok (on_cnt (\<lambda>c. psxRcntWcount c i v) s)"
  using assms by (auto intro!: on_cnt_ok rates_ok_wmode simp: psx_ok_parts)

lemma bios_rcnt_post [post_rules]:
  assumes "psx_ok s"
  shows "post (bios_SetRCnt s) psx_ok" "post (bios_ResetRCnt s) psx_ok"
proof -
  have "unat (GPR s a0 AND mask 2) < 4" using and_less[of 2 "GPR s a0"] by simp
  then have "unat (GPR (rcnt_sel s) a0) < 4" by (simp add: rcnt_sel_def mask_eq_exp_minus_1)
  then show "post (bios_SetRCnt s) psx_ok" "post (bios_ResetRCnt s) psx_ok"
    using assms unfolding bios_SetRCnt_def bios_ResetRCnt_def Let_def
    by (intro post_if; simp add: psx_ok_rcnt)+
qed

lemma bios_event_post [post_rules]:
  assumes "psx_ok s"
  shows "post (bios_CloseEvent s) psx_ok" "post (bios_WaitEvent s) psx_ok" "post (bios_EnableEvent s) psx_ok" "post (bios_DisableEvent s) psx_ok"
  using assms unfolding bios_CloseEvent_def bios_WaitEvent_def bios_EnableEvent_def bios_DisableEvent_def set_event_def
  by (intro on_mem_then post_rules; simp)+

lemma psx_ok_thread: "psx_ok s \<Longrightarrow> (\<And>t. th_reg t 0 = 0 \<Longrightarrow> th_reg (f t) 0 = 0) \<Longrightarrow> psx_ok (set_thread th f s)"
  by (simp add: psx_ok_def set_thread_def)

lemma bios_thread_post [post_rules]:
  assumes "psx_ok s"
  shows "post (bios_OpenTh s) psx_ok" "post (bios_CloseTh s) psx_ok" "post (bios_ChangeTh s) psx_ok"
proof -
  show "post (bios_OpenTh s) psx_ok" "post (bios_CloseTh s) psx_ok"
    using assms unfolding bios_OpenTh_def bios_CloseTh_def Let_def
    by (auto intro!: post_require psx_ok_thread)
  show "post (bios_ChangeTh s) psx_ok"
    using assms unfolding bios_ChangeTh_def Let_def
    by (auto intro!: post_require simp: psx_ok_def set_thread_def copy_gpr_def set_gpr_def set_pc_def bios_ret_def bios_end_def)
qed

lemma bios_rest_post [post_rules]:
  assumes "psx_ok s"
  shows "post (bios_longjmp s) psx_ok" "post (bios_ReturnFromException s) psx_ok" "post (bios_ResetEntryInt s) psx_ok"
    "post (bios_HookEntryInt s) psx_ok" "post (bios_SysEnqIntRP s) psx_ok" "post (bios_SysDeqIntRP s) psx_ok" "post (bios_ChangeClearRCnt s) psx_ok"
proof -
  show "post (bios_longjmp s) psx_ok"
    unfolding bios_longjmp_def by (intro post_bind_any post_bind_psx[OF jmp_load_post] assms) simp
  show "post (bios_ReturnFromException s) psx_ok" "post (bios_ResetEntryInt s) psx_ok" "post (bios_HookEntryInt s) psx_ok"
    using assms unfolding bios_ReturnFromException_def bios_ResetEntryInt_def bios_HookEntryInt_def by simp_all (simp add: psx_ok_def)
  show "post (bios_SysEnqIntRP s) psx_ok" "post (bios_SysDeqIntRP s) psx_ok"
    using assms unfolding bios_SysEnqIntRP_def bios_SysDeqIntRP_def set_SysIntRP_def by (auto intro!: post_require)
  show "post (bios_ChangeClearRCnt s) psx_ok"
    unfolding bios_ChangeClearRCnt_def by (intro post_bind_psx on_mem_post post_bind_any post_rules; simp add: assms)
qed

lemma SaveRegs_ok: "psx_ok s \<Longrightarrow> psx_ok (SaveRegs s)"
  by (simp add: psx_ok_def SaveRegs_def)


section \<open>Instructions\<close>

lemma psx_ok_put [simp]: "psx_ok (put_rt v s) = psx_ok s" "psx_ok (put_rd v s) = psx_ok s" "psx_ok (set_hilo r s) = psx_ok s"
  by (simp_all add: put_rt_def put_rd_def set_hilo_def)

lemmas alu_defs = psxADDI_def psxADDIU_def psxANDI_def psxORI_def psxXORI_def psxSLTI_def psxSLTIU_def psxADD_def psxADDU_def
  psxSUB_def psxSUBU_def psxAND_def psxOR_def psxXOR_def psxNOR_def psxSLT_def psxSLTU_def psxDIVU_def psxMULT_def psxMULTU_def
  psxSLL_def psxSRA_def psxSRL_def psxLUI_def psxMFHI_def psxMFLO_def psxMTHI_def psxMTLO_def psxBREAK_def psxNULL_def psxRFE_def
  psxMFC0_def psxCFC0_def

lemma alu_ok:
  "psx_ok (psxADDI s) = psx_ok s" "psx_ok (psxADDIU s) = psx_ok s" "psx_ok (psxANDI s) = psx_ok s" "psx_ok (psxORI s) = psx_ok s"
  "psx_ok (psxXORI s) = psx_ok s" "psx_ok (psxSLTI s) = psx_ok s" "psx_ok (psxSLTIU s) = psx_ok s" "psx_ok (psxADD s) = psx_ok s"
  "psx_ok (psxADDU s) = psx_ok s" "psx_ok (psxSUB s) = psx_ok s" "psx_ok (psxSUBU s) = psx_ok s" "psx_ok (psxAND s) = psx_ok s"
  "psx_ok (psxOR s) = psx_ok s" "psx_ok (psxXOR s) = psx_ok s" "psx_ok (psxNOR s) = psx_ok s" "psx_ok (psxSLT s) = psx_ok s"
  "psx_ok (psxSLTU s) = psx_ok s" "psx_ok (psxDIVU s) = psx_ok s" "psx_ok (psxMULT s) = psx_ok s" "psx_ok (psxMULTU s) = psx_ok s"
  "psx_ok (psxSLL s) = psx_ok s" "psx_ok (psxSRA s) = psx_ok s" "psx_ok (psxSRL s) = psx_ok s" "psx_ok (psxLUI s) = psx_ok s"
  "psx_ok (psxMFHI s) = psx_ok s" "psx_ok (psxMFLO s) = psx_ok s" "psx_ok (psxMTHI s) = psx_ok s" "psx_ok (psxMTLO s) = psx_ok s"
  "psx_ok (psxBREAK s) = psx_ok s" "psx_ok (psxNULL s) = psx_ok s" "psx_ok (psxRFE s) = psx_ok s" "psx_ok (psxMFC0 s) = psx_ok s"
  "psx_ok (psxCFC0 s) = psx_ok s"
  by (simp_all add: alu_defs)

lemma ldst_post [post_rules]:
  assumes "psx_ok s"
  shows "post (psxDIV s) psx_ok" "post (psxSLLV s) psx_ok" "post (psxSRAV s) psx_ok" "post (psxSRLV s) psx_ok"
    "post (psxLB s) psx_ok" "post (psxLBU s) psx_ok" "post (psxLH s) psx_ok" "post (psxLHU s) psx_ok" "post (psxLW s) psx_ok"
    "post (psxLWL s) psx_ok" "post (psxLWR s) psx_ok" "post (psxSB s) psx_ok" "post (psxSH s) psx_ok" "post (psxSW s) psx_ok"
    "post (psxSWL s) psx_ok" "post (psxSWR s) psx_ok"
  using assms
  unfolding psxDIV_def psxSLLV_def psxSRAV_def psxSRLV_def var_shift_def psxLB_def psxLBU_def psxLH_def psxLHU_def psxLW_def
    load_rt_def psxLWL_def psxLWR_def psxSB_def psxSH_def psxSW_def psxSWL_def psxSWR_def
  by (intro post_bind_pair post_if post_require post_rules; (simp | intro post_rules))+

section \<open>The interpreter\<close>

lemma rcnt_same_map:
  assumes "same_map old (snd st)"
  shows "post (psxRcntReset c i st) (\<lambda>st'. same_map old (snd st'))" "post (psxRcntUpdate c st) (\<lambda>st'. same_map old (snd st'))"
proof -
  have r: "post (psxRcntReset c i st) (\<lambda>st'. same_map old (snd st'))" if "same_map old (snd st)" for i st
    using that unfolding psxRcntReset_def Let_def
    by (cases st) (auto intro!: post_bind_any intro: map_step split: if_splits)
  then show "post (psxRcntReset c i st) (\<lambda>st'. same_map old (snd st'))" using assms .
  have v: "post (rcnt_vsync c st) (\<lambda>st'. same_map old (snd st'))"
    using assms unfolding rcnt_vsync_def by (cases st) (auto intro!: post_bind_any intro: map_step)
  have t: "post (rcnt_timer c i st) (\<lambda>st'. same_map old (snd st'))" if "same_map old (snd st)" for i st
    using that r unfolding rcnt_timer_def by simp
  show "post (psxRcntUpdate c st) (\<lambda>st'. same_map old (snd st'))"
    unfolding psxRcntUpdate_def by (rule post_bind[OF v], rule post_bind, rule post_for_each, assumption, erule t, simp)
qed

lemma update_counters_ok: "psx_ok s \<Longrightarrow> post (update_counters s) psx_ok"
proof -
  assume ok: "psx_ok s"
  show ?thesis
    unfolding update_counters_def
  proof (rule post_bind_any, clarify)
    fix c m assume u: "psxRcntUpdate (cycle s) (cnt s, mem s) = Ok (c, m)"
    have "same_map (mem s) m" using postD[OF rcnt_same_map(2) u, of "mem s"] by simp
    then show "post (Ok (s\<lparr>cnt := c, mem := m\<rparr>)) psx_ok"
      using rates_ok_update[OF u] ok by (simp add: psx_ok_mem psx_ok_cnt psx_ok_parts)
  qed
qed

locale keeps_step =
  fixes run :: step
  assumes run_ok: "psx_ok s \<Longrightarrow> post (run s) psx_ok"
begin

lemma execI_ok: "psx_ok s \<Longrightarrow> post (execI run s) psx_ok"
  unfolding execI_def by (rule post_bind_any) (simp add: run_ok)

lemma intExecuteBlock_ok: "psx_ok s \<Longrightarrow> post (intExecuteBlock n run s) psx_ok"
  unfolding intExecuteBlock_def by (rule post_while) (simp_all add: execI_ok)

lemma softCall_ok: "psx_ok s \<Longrightarrow> post (softCall n run p s) psx_ok"
  unfolding softCall_def by (rule post_while) (simp_all add: intExecuteBlock_ok)

lemma softCall2_ok: "psx_ok s \<Longrightarrow> post (softCall2 n run p s) psx_ok"
  unfolding softCall2_def by (rule post_bind_psx) (simp_all add: softCall_ok)

lemma DeliverEvent_ok: "psx_ok s \<Longrightarrow> post (DeliverEvent n run ev spec s) psx_ok"
  unfolding DeliverEvent_def by (intro post_bind_any post_if on_mem_post softCall2_ok post_rules) simp_all

lemma bios_event_ok: "psx_ok s \<Longrightarrow> post (bios_DeliverEvent n run s) psx_ok" "psx_ok s \<Longrightarrow> post (bios__bu_init n run s) psx_ok"
  unfolding bios_DeliverEvent_def bios__bu_init_def by (intro post_bind_psx DeliverEvent_ok; simp)+

lemma run_if_active_ok:
  "psx_ok s \<Longrightarrow> (\<And>t. psx_ok t \<Longrightarrow> post (after t) psx_ok) \<Longrightarrow> post (run_if_active n run ev after s) psx_ok"
  unfolding run_if_active_def by (intro post_bind_psx[OF softCall_ok] post_bind_any post_if) simp_all

lemma biosInterrupt_ok: "psx_ok s \<Longrightarrow> post (biosInterrupt n run s) psx_ok"
  unfolding biosInterrupt_def
  by (intro post_bind_psx post_bind_any post_if post_for_each run_if_active_ok hw_write_post) simp_all

lemma run_queues_ok: "psx_ok s \<Longrightarrow> post (run_queues n run s) psx_ok"
  unfolding run_queues_def by (intro post_for_each post_bind_any post_if softCall_ok) simp_all

lemma psxBiosException_ok: "psx_ok s \<Longrightarrow> post (psxBiosException n run s) psx_ok"
  unfolding psxBiosException_def Let_def
  by (intro post_if post_case_option post_bind_psx biosInterrupt_ok run_queues_ok hw_write_post jmp_load_post SaveRegs_ok) simp_all

lemma psxException_ok: "psx_ok s \<Longrightarrow> post (psxException n run cd bd s) psx_ok"
  unfolding psxException_def by (rule psxBiosException_ok) (simp add: enter_exception_def Let_def)


lemma psxBranchTest_ok: "psx_ok s \<Longrightarrow> post (psxBranchTest n run s) psx_ok"
  unfolding psxBranchTest_def by (intro post_bind_psx post_bind_any post_if update_counters_ok psxException_ok) simp_all

lemma delay_ok:
  assumes "psx_ok s"
  shows "post (delayRead n run reg bpc s) psx_ok" "post (delayWrite n run reg bpc s) psx_ok" "post (delayReadWrite n run reg bpc s) psx_ok"
  unfolding delayRead_def delayWrite_def delayReadWrite_def
  by (intro post_bind_psx run_ok psxBranchTest_ok execI_ok; simp add: assms psx_ok_keep)+

lemma psxDelayTest_ok: "psx_ok s \<Longrightarrow> post (psxDelayTest n run reg bpc s) psx_ok"
  unfolding psxDelayTest_def Let_def
  by (rule post_bind_any) (auto split: delay.split intro!: delay_ok post_bind_psx run_ok psxBranchTest_ok)

lemma doBranch_ok: "psx_ok s \<Longrightarrow> post (doBranch n run tar s) psx_ok"
  unfolding doBranch_def Let_def
  by (intro post_bind_psx post_bind_any post_if psxDelayTest_ok run_ok psxBranchTest_ok) simp_all

lemma branch_ok:
  assumes "psx_ok s"
  shows "post (psxBGEZ n run s) psx_ok" "post (psxBGEZAL n run s) psx_ok" "post (psxBGTZ n run s) psx_ok" "post (psxBLEZ n run s) psx_ok"
    "post (psxBLTZ n run s) psx_ok" "post (psxBLTZAL n run s) psx_ok" "post (psxBEQ n run s) psx_ok" "post (psxBNE n run s) psx_ok"
    "post (psxJ n run s) psx_ok" "post (psxJAL n run s) psx_ok" "post (psxJR n run s) psx_ok" "post (psxJALR n run s) psx_ok"
  unfolding psxBGEZ_def psxBGEZAL_def psxBGTZ_def psxBLEZ_def psxBLTZ_def psxBLTZAL_def psxBEQ_def psxBNE_def psxJ_def
    psxJAL_def psxJR_def psxJALR_def branch_if_def branch_link_if_def SetLink_def Let_def
  by (intro post_if doBranch_ok; simp add: assms)+

lemma psxSYSCALL_ok: "psx_ok s \<Longrightarrow> post (psxSYSCALL n run s) psx_ok"
  unfolding psxSYSCALL_def by (rule psxException_ok) simp

lemma MTC0_ok: "psx_ok s \<Longrightarrow> post (psxMTC0 n run s) psx_ok" "psx_ok s \<Longrightarrow> post (psxCTC0 n run s) psx_ok"
  unfolding psxMTC0_def psxCTC0_def MTC0_def Let_def by (intro post_if psxException_ok; simp)+

lemma bios_table_ok:
  assumes "psx_ok s"
  shows "post (biosA0 n run c s) psx_ok" "post (biosB0 n run c s) psx_ok" "post (biosC0 c s) psx_ok"
  using assms unfolding biosA0_def biosB0_def biosC0_def
  by (auto intro: post_rules bios_event_ok)

lemma hleExecRet_ok: "psx_ok s \<Longrightarrow> post (hleExecRet s) psx_ok"
proof -
  assume ok: "psx_ok s"
  have l: "post (for_each exec_layout (\<lambda>(off, r) s. bind_res (load_u32 (ptr_add q off) (mem s)) (\<lambda>v. Ok (set_gpr r v s))) s) psx_ok" for q
    unfolding exec_layout_def by (rule post_for_each) (auto simp: ok intro!: post_bind_any)
  show ?thesis unfolding hleExecRet_def by (intro post_bind_any post_bind[OF l]) simp
qed

lemma hle_ok: "psx_ok s \<Longrightarrow> post (psxHLE n run s) psx_ok"
  unfolding psxHLE_def Let_def hleDummy_def hleA0_def hleB0_def hleC0_def hleBootstrap_def
  by (intro post_if post_bind_psx bios_table_ok psxBranchTest_ok hleExecRet_ok; simp)

lemma psxBSC_ok: "psx_ok s \<Longrightarrow> post (psxBSC n run s) psx_ok"
  unfolding psxBSC_def psxSPECIAL_def psxREGIMM_def psxCOP0_def Let_def
  by (intro post_if branch_ok psxSYSCALL_ok MTC0_ok hle_ok post_rules; simp add: alu_ok)

end

lemma bsc_keeps: "keeps_step (bsc n)"
proof (induction n)
  case 0
  show ?case by unfold_locales simp
next
  case (Suc n)
  then show ?case by unfold_locales (simp add: keeps_step.psxBSC_ok)
qed


interpretation bsc_run: keeps_step "bsc n" for n
  by (rule bsc_keeps)

section \<open>The life of the console\<close>

lemma memcpy_same_map: "same_map old m \<Longrightarrow> post (memcpy q data n m) (same_map old)"
  by (cases q) (auto intro!: post_require simp: same_map_def)

lemma LoadPSXMem_same_map: "same_map old m \<Longrightarrow> post (LoadPSXMem a len data m) (same_map old)"
proof (induction a len data m rule: LoadPSXMem.induct)
  case (1 a len data m)
  have copy: "post (case q of None \<Rightarrow> Ok m | Some q \<Rightarrow> memcpy (f q) data k m) (same_map old)" for q f k
    using 1(3) by (cases q) (simp_all add: memcpy_same_map del: memcpy.simps)
  show ?case
    unfolding LoadPSXMem.simps[of a len data m] Let_def
    by (intro post_if post_bind_eq[OF copy] 1(1)[OF _ refl refl _ refl] 1(2)[OF _ refl refl])
      (simp_all add: 1(3) del: memcpy.simps)
qed

lemma spu_ok_counters [simp]:
  "spu_ok (u\<lparr>bSPUIsOpen := b\<rparr>) = spu_ok u" "spu_ok (u\<lparr>g_sound_buffer_size := k\<rparr>) = spu_ok u"
  "spu_ok (silenceSamples_update f1 u) = spu_ok u" "spu_ok (nonSilenceSample_update f2 u) = spu_ok u"
  "spu_ok u \<Longrightarrow> spu_ok (u\<lparr>pNextSample := 0\<rparr>)"
  by (simp_all add: spu_ok_def out_ok_def)

lemma psxShutdown_ok: "psx_ok s \<Longrightarrow> psx_ok (psxShutdown s)"
  by (auto simp: psxShutdown_def psx_ok_def SPUclose_def)

lemma CheckSilence_ok: "spu_ok u \<Longrightarrow> spu_ok (CheckSilenceSamples n u)"
  by (simp add: CheckSilenceSamples_def Let_def)

lemma SPUendflush_ok: "spu_ok u \<Longrightarrow> spu_ok (fst (SPUendflush ex u))"
  by (simp add: SPUendflush_def Let_def CheckSilence_ok)

lemma intExecute_ok: "psx_ok s \<Longrightarrow> post (intExecute n s) psx_ok"
proof -
  assume ok: "psx_ok s"
  have flush: "post (case SPUendflush k (snd_unit t) of (u, ex) \<Rightarrow> execI (bsc n) (t\<lparr>snd_unit := u, times_executed := ex\<rparr>)) psx_ok"
    if "psx_ok t" for k t
    using that SPUendflush_ok[of "snd_unit t" k]
    by (auto split: prod.split intro!: bsc_run.execI_ok psx_ok_snd simp: psx_ok_parts)
  show ?thesis
    unfolding intExecute_def
    by (intro post_require post_bind_pair[OF CounterSPURun_post]) (auto simp: ok psxShutdown_ok flush)
qed


text \<open>
  The console plays its first song after the start of the program, whose statics are zero, and any
  number of songs after that: \<open>console_step\<close> is a call of the player interface.
\<close>

definition console_start :: "psx \<Rightarrow> bool" where
  "console_start s \<longleftrightarrow> (\<exists>n h junk out_junk path s0 r. snd_unit s0 = spu_boot \<and> saved_regs (bios_st s0) 0 = 0 \<and>
     sexy_load n h junk out_junk path s0 = Ok (r, s))"

inductive console_step :: "psx \<Rightarrow> psx \<Rightarrow> bool" where
  call_execute: "intExecute n s = Ok t \<Longrightarrow> console_step s t"
| call_load: "sexy_load n h junk out_junk path s = Ok (r, t) \<Longrightarrow> console_step s t"
| call_info: "sexy_getpsfinfo n h path s = Ok (r, t) \<Longrightarrow> console_step s t"
| call_shutdown: "console_step s (psxShutdown s)"
| call_seek: "console_step s (s\<lparr>snd_unit := snd (sexy_seek t (snd_unit s))\<rparr>)"
| call_jump: "console_step s (s\<lparr>snd_unit := snd (my_sexy_seek d (snd_unit s))\<rparr>)"
| call_stop: "console_step s (s\<lparr>snd_unit := sexy_stop (snd_unit s)\<rparr>)"
| call_loop: "console_step s (s\<lparr>snd_unit := SPUSetInfiniteLoop v (snd_unit s)\<rparr>)"
| call_flushed: "console_step s (s\<lparr>snd_unit := reset_sound_buffer_size (snd_unit s)\<rparr>)"

lemma SPUinit_ok: "spu_ok u \<Longrightarrow> spu_ok (SPUinit u)"
  using spu_boot_ok by (auto simp: SPUinit_def spu_ok_def spu_boot_def out_ok_def InitADSR_length)

lemma SetupStreams_ok: "spu_ok u \<Longrightarrow> spu_ok (SetupStreams junk u)"
  by (auto simp: SetupStreams_def spu_ok_def out_ok_def chan_ok_def adsr_ok_def Let_def)

lemma SPUopen_ok: "spu_ok u \<Longrightarrow> spu_ok (snd (SPUopen junk u))"
proof -
  assume ok: "spu_ok u"
  have "spu_ok (u\<lparr>spuIrq := 0, spuStat := 0, spuCtrl := 0, spuAddr := 0xffffffff, dwNoiseVal := 1,
        s_chan := (\<lambda>i. if i < MAXCHAN + 1 then zero_chan else s_chan u i), pSpuIrq := SpuNull, iVolume := 128\<rparr>)"
    using ok spu_boot_ok by (auto simp: spu_ok_def spu_boot_def out_ok_def)
  from SetupStreams_ok[OF this, of junk] show ?thesis using ok by (simp add: SPUopen_def)
qed

lemma fold_put_word [simp]: "psxMemLUT (fold put_word ws m) = psxMemLUT m" "writeok (fold put_word ws m) = writeok m"
  by (induction ws arbitrary: m) (simp_all add: put_word_def)

lemma console_boot_ok:
  assumes "spu_ok (snd_unit s)" "saved_regs (bios_st s) 0 = 0"
  shows "psx_ok (console_boot junk out_junk s)"
  using assms lut_ok_init[of junk]
  by (auto simp: console_boot_def Let_def psxReset_def psxInit_def psxBiosInit_def psxHwReset_def psxMemReset_def intReset_def
      psx_ok_def lut_ok_def zero_tcb_def intro!: SPUopen_ok SPUinit_ok rates_ok_init)

lemma spu_ok_player:
  assumes "spu_ok u"
  shows "spu_ok (SPUsetlength a b u)" "spu_ok (snd (sexy_seek t u))" "spu_ok (snd (my_sexy_seek d u))" "spu_ok (sexy_stop u)"
    "spu_ok (SPUSetInfiniteLoop v u)" "spu_ok (reset_sound_buffer_size u)"
  using assms
  by (simp_all add: SPUsetlength_def sexy_seek_def my_sexy_seek_def sexy_stop_def SPUSetInfiniteLoop_def
      reset_sound_buffer_size_def Let_def spu_ok_def out_ok_def)

lemma set_entry_ok [simp]: "psx_ok (set_entry out s) = psx_ok s"
  by (simp add: set_entry_def)

lemma load_text_ok: "psx_ok s \<Longrightarrow> post (load_text out s) psx_ok"
  unfolding load_text_def by (intro on_mem_post LoadPSXMem_same_map) simp_all

lemma tag_lines_ok:
  assumes "\<And>fn s. psx_ok s \<Longrightarrow> post (load fn s) pair_ok"
  shows "psx_ok s \<Longrightarrow> post (tag_lines h load path lvl info ls (i, s)) pair_ok"
proof (induction ls arbitrary: i s)
  case (Cons l ls)
  have w: "post (bind_res (load fn s) (\<lambda>(r, s1). case r of None \<Rightarrow> Ok (None, s1)
      | Some _ \<Rightarrow> tag_lines h load path lvl info ls (j, s1))) pair_ok" for fn j
    by (rule post_bind_pair[OF assms]) (simp_all add: Cons split: option.split)
  show ?case
    unfolding tag_lines.simps
    by (intro post_case_option post_bind_any) (auto simp: Cons split: if_splits intro!: post_bind_any w)
qed simp

lemma load_libn_ok:
  assumes "\<And>fn s. psx_ok s \<Longrightarrow> post (load fn s) pair_ok"
  shows "psx_ok s \<Longrightarrow> post (load_libn h load path e s) psx_ok"
  unfolding load_libn_def
  by (intro post_if post_bind_any post_bind_pair[OF assms]) (auto split: option.split)

lemma load_image_ok:
  assumes "\<And>fn s. psx_ok s \<Longrightarrow> post (load fn s) pair_ok"
  shows "psx_ok s \<Longrightarrow> post (load_image h load path lvl out ls s) pair_ok"
  unfolding load_image_def
proof (intro post_bind_psx post_bind_pair[OF tag_lines_ok[OF assms]]; (unfold prod.case)?)
  fix r s2 assume "psx_ok s2"
  then show "post (case r of None \<Rightarrow> Ok (None, s2) | Some i \<Rightarrow> bind_res (if lvl then load_text out s2 else Ok s2)
      (\<lambda>s3. bind_res (libn_cache (tags i)) (\<lambda>cache. bind_res (for_each cache (load_libn h load path) s3) (\<lambda>s4. Ok (Some i, s4))))) pair_ok"
    by (intro post_case_option post_bind_psx post_bind_any post_for_each load_libn_ok assms) (simp_all add: load_text_ok)
qed (simp_all add: load_text_ok)

lemma LoadPSF_ok: "psx_ok s \<Longrightarrow> post (LoadPSF n h path lvl info s) pair_ok"
proof (induction n arbitrary: path lvl info s)
  case (Suc n)
  show ?case
    unfolding LoadPSF.simps Let_def
    by (auto split: option.split intro!: post_bind_any post_require tag_lines_ok load_image_ok Suc.IH simp: Suc.prems)
qed simp


lemma sexy_load_ok:
  assumes "spu_ok (snd_unit s)" "saved_regs (bios_st s) 0 = 0"
  shows "post (sexy_load n h junk out_junk path s) pair_ok"
  unfolding sexy_load_def
  by (rule post_bind_pair[OF LoadPSF_ok[OF console_boot_ok[OF assms]]])
    (auto split: option.split simp: Let_def psxShutdown_ok spu_ok_player psx_ok_snd psx_ok_parts)

lemma sexy_getpsfinfo_ok: "psx_ok s \<Longrightarrow> post (sexy_getpsfinfo n h path s) pair_ok"
  unfolding sexy_getpsfinfo_def by (rule post_bind_pair[OF LoadPSF_ok]) simp_all

lemma console_step_ok:
  assumes "console_step s t" "psx_ok s"
  shows "psx_ok t"
  using assms(1)
proof (cases rule: console_step.cases)
  case (call_execute n)
  then show ?thesis using postD[OF intExecute_ok[OF assms(2)]] by blast
next
  case (call_load n h junk out_junk path r)
  then show ?thesis
    using postD[OF sexy_load_ok] psx_ok_parts(2)[OF assms(2)] psx_ok_saved[OF assms(2)] by (metis pair_ok_simp)
next
  case (call_info n h path r)
  then show ?thesis using postD[OF sexy_getpsfinfo_ok[OF assms(2)]] by (metis pair_ok_simp)
qed (use assms(2) in \<open>simp_all add: psxShutdown_ok spu_ok_player psx_ok_snd psx_ok_parts\<close>)

interpretation console: invariant_of console_start console_step psx_ok
proof unfold_locales
  fix s assume "console_start s"
  then obtain n h junk out_junk path s0 r where s: "snd_unit s0 = spu_boot" "saved_regs (bios_st s0) 0 = 0"
    "sexy_load n h junk out_junk path s0 = Ok (r, s)" unfolding console_start_def by blast
  have "pair_ok (r, s)"
    using postD[OF sexy_load_ok s(3)] s(1,2) spu_boot_ok by simp
  then show "psx_ok s" by simp
qed (rule console_step_ok)

text \<open>C2: whatever file is loaded and whatever the guest program does, for any number of instructions and songs and any
  use of the player interface: register zero reads as zero, also in every saved register set; the address table is the
  one of the cache state; no counter has rate zero; the sound processor stays inside its memory, its output buffer and
  its tables.\<close>
theorem console_invariant:
  assumes "reach console_start console_step s"
  shows "GPR s 0 = 0 \<and> lut_ok (mem s) \<and> rates_ok (cnt s) \<and> spu_ok (snd_unit s) \<and> CurThread (bios_st s) < 8 \<and>
    saved_regs (bios_st s) 0 = 0 \<and> th_reg (Thread (bios_st s) i) 0 = 0"
  using console.reach_inv[OF assms] by (simp add: psx_ok_def)

text \<open>A host without files.\<close>

definition no_host :: host where
  "no_host = \<lparr>path_exists = (\<lambda>_. False), file_data = (\<lambda>_. None), dir_names = (\<lambda>_. None), inflate = id, fresh = (\<lambda>_. 0)\<rparr>"

theorem console_invariant_witness:
  "GPR (psxShutdown (console_boot (\<lambda>_ _. 7) (\<lambda>_. 3) sample_psx)) 0 = 0"
proof -
  have "sexy_load 1 no_host (\<lambda>_ _. 7) (\<lambda>_. 3) [] sample_psx = Ok (None, psxShutdown (console_boot (\<lambda>_ _. 7) (\<lambda>_. 3) sample_psx))"
    by (simp add: sexy_load_def no_host_def)
  moreover have "snd_unit sample_psx = spu_boot" "saved_regs (bios_st sample_psx) 0 = 0" by (simp_all add: sample_psx_def)
  ultimately have "console_start (psxShutdown (console_boot (\<lambda>_ _. 7) (\<lambda>_. 3) sample_psx))"
    unfolding console_start_def by blast
  from console_invariant[OF reach_init[where init = console_start, OF this]] show ?thesis by blast
qed

end
