(* ===== verification/CpuLaws.thy ===== *)
theory CpuLaws
  imports Cpu
begin

text \<open>
  What the interpreter and its exceptions promise: results do not depend on the bounds of the model
  once these are large enough, an exception saves and restores what it interrupts, an interrupt
  nobody handles leaves the program as it was, and a delivered event is seen once.
\<close>

section \<open>The bounds do not matter\<close>

text \<open>\<open>more r r'\<close>: the second result is the first, unless the first was cut off by its bound.\<close>

definition more :: "'a res \<Rightarrow> 'a res \<Rightarrow> bool" where
  "more r r' \<longleftrightarrow> r = Fail OutOfFuel \<or> r' = r"

lemma more_refl [simp]: "more r r"
  by (simp add: more_def)

lemma more_cut [simp]: "more (Fail OutOfFuel) r"
  by (simp add: more_def)

lemma more_bind: "more m m' \<Longrightarrow> (\<And>x. more (f x) (f' x)) \<Longrightarrow> more (bind_res m f) (bind_res m' f')"
  by (cases m) (auto simp: more_def)

lemma more_if: "more a a' \<Longrightarrow> more b b' \<Longrightarrow> more (if c then a else b) (if c then a' else b')"
  by simp

lemma more_let: "(\<And>x. more (f x) (f' x)) \<Longrightarrow> more (Let v f) (Let v f')"
  by (simp add: Let_def)

lemma more_option: "more a a' \<Longrightarrow> (\<And>y. more (f y) (f' y)) \<Longrightarrow>
    more (case x of None \<Rightarrow> a | Some y \<Rightarrow> f y) (case x of None \<Rightarrow> a' | Some y \<Rightarrow> f' y)"
  by (cases x) auto

lemma more_for_each: "(\<And>x s. more (f x s) (f' x s)) \<Longrightarrow> more (for_each xs f s) (for_each xs f' s)"
  by (induction xs arbitrary: s) (simp_all add: more_bind)

lemma more_while:
  "n \<le> n' \<Longrightarrow> (\<And>s. more (f s) (f' s)) \<Longrightarrow> more (while_res n b f s) (while_res n' b f' s)"
proof (induction n arbitrary: n' s)
  case (Suc n)
  then obtain k where "n' = Suc k" "n \<le> k" by (cases n') auto
  then show ?case using Suc by (auto intro!: more_bind)
qed simp

locale longer_run =
  fixes n n' :: nat and run run' :: step
  assumes bound: "n \<le> n'"
    and longer: "more (run s) (run' s)"
begin

lemmas walk = more_bind more_if more_let more_option more_for_each more_while bound longer more_refl

lemma execI_more: "more (execI run s) (execI run' s)"
  unfolding execI_def by (intro walk)

lemma intExecuteBlock_more: "more (intExecuteBlock n run s) (intExecuteBlock n' run' s)"
  unfolding intExecuteBlock_def by (intro walk execI_more)

lemma softCall_more: "more (softCall n run p s) (softCall n' run' p s)" "more (softCall2 n run p s) (softCall2 n' run' p s)"
  unfolding softCall2_def softCall_def by (intro walk intExecuteBlock_more)+

lemma DeliverEvent_more: "more (DeliverEvent n run ev spec s) (DeliverEvent n' run' ev spec s)"
  unfolding DeliverEvent_def by (intro walk softCall_more)

lemma event_calls_more:
  "more (bios_DeliverEvent n run s) (bios_DeliverEvent n' run' s)" "more (bios__bu_init n run s) (bios__bu_init n' run' s)"
  unfolding bios_DeliverEvent_def bios__bu_init_def by (intro walk DeliverEvent_more)+

lemma run_if_active_more: "more (run_if_active n run ev after s) (run_if_active n' run' ev after s)"
  unfolding run_if_active_def by (intro walk softCall_more)

lemma exception_more: "more (psxException n run cd bd s) (psxException n' run' cd bd s)"
  unfolding psxException_def psxBiosException_def biosInterrupt_def run_queues_def
  by (intro walk softCall_more run_if_active_more)

lemma psxBranchTest_more: "more (psxBranchTest n run s) (psxBranchTest n' run' s)"
  unfolding psxBranchTest_def by (intro walk exception_more)

lemma psxDelayTest_more: "more (psxDelayTest n run reg bpc s) (psxDelayTest n' run' reg bpc s)"
proof -
  have "more (delayRead n run reg bpc s) (delayRead n' run' reg bpc s)" "more (delayWrite n run reg bpc s) (delayWrite n' run' reg bpc s)"
    "more (delayReadWrite n run reg bpc s) (delayReadWrite n' run' reg bpc s)" for s
    unfolding delayRead_def delayWrite_def delayReadWrite_def by (intro walk psxBranchTest_more execI_more)+
  then show ?thesis
    unfolding psxDelayTest_def
    by (intro more_bind more_let more_refl) (auto split: delay.split intro!: more_bind longer psxBranchTest_more)
qed

lemma doBranch_more: "more (doBranch n run tar s) (doBranch n' run' tar s)"
  unfolding doBranch_def by (intro walk psxDelayTest_more psxBranchTest_more)

lemma psxHLE_more: "more (psxHLE n run s) (psxHLE n' run' s)"
proof -
  have "more (biosA0 n run c s) (biosA0 n' run' c s)" "more (biosB0 n run c s) (biosB0 n' run' c s)" for c s
    unfolding biosA0_def biosB0_def by (auto simp: event_calls_more)
  then show ?thesis
    unfolding psxHLE_def hleDummy_def hleA0_def hleB0_def hleC0_def by (intro walk psxBranchTest_more)
qed

lemma psxBSC_more: "more (psxBSC n run s) (psxBSC n' run' s)"
  unfolding psxBSC_def psxSPECIAL_def psxREGIMM_def psxCOP0_def psxBGEZ_def psxBGEZAL_def psxBGTZ_def psxBLEZ_def psxBLTZ_def
    psxBLTZAL_def psxBEQ_def psxBNE_def psxJ_def psxJAL_def psxJR_def psxJALR_def branch_if_def branch_link_if_def
    psxSYSCALL_def psxMTC0_def psxCTC0_def MTC0_def
  by (intro more_if more_let more_refl doBranch_more exception_more psxHLE_more)

end

lemma bsc_longer: "longer_run n (n + k) (bsc n) (bsc (n + k))"
proof (induction n)
  case 0
  show ?case by unfold_locales simp_all
next
  case (Suc n)
  then show ?case by unfold_locales (simp_all add: longer_run.psxBSC_more)
qed

interpretation bsc_fuel: longer_run n "n + k" "bsc n" "bsc (n + k)" for n k
  by (rule bsc_longer)

text \<open>An instruction executed with a bound that is large enough has the same result with every larger bound: the fuel that bounds nested guest code, the block loops and the soft calls is not part of what the program computes.\<close>
theorem intExecute_fuel:
  assumes "intExecute n s \<noteq> Fail OutOfFuel"
  shows "intExecute (n + k) s = intExecute n s"
proof -
  have "more (intExecute n s) (intExecute (n + k) s)"
    unfolding intExecute_def require_def
    by (intro more_if more_bind more_refl) (auto intro!: bsc_fuel.execI_more split: prod.split)
  then show ?thesis using assms by (simp add: more_def)
qed

theorem intExecute_fuel_witness: "intExecute (1 + 1000) sample_psx = intExecute 1 sample_psx"
proof (rule intExecute_fuel)
  have nop: "psxBSC n run t = Ok t" if "code t = 0" for n run t
    using that by (simp add: psxBSC_def f_op_def f_funct_def psxSPECIAL_def psxSLL_def put_rd_def Rd_def f_rd_def)
  have fetch: "PSXMu32 0 (psxMemInit (\<lambda>_ _. 0)) = Ok 0"
    by (simp add: PSXMu32_def PSXM_def psxMemInit_def lut_init_def lut_ram_def in_ram_window_def le32_def deref_def)
  have s: "cycle sample_psx = 0" "last_cycle (cnt sample_psx) = 0" "pc sample_psx = 0" "\<not> mem_freed sample_psx"
    "mem sample_psx = psxMemInit (\<lambda>_ _. 0)"
    by (simp_all add: sample_psx_def psxRcntInit_def Let_def)
  show "intExecute 1 sample_psx \<noteq> Fail OutOfFuel"
    by (simp add: intExecute_def CounterSPURun_def spu_cycles_def s execI_def fetch nop split: prod.split)
qed

section \<open>Exceptions and interrupts\<close>

lemma status_masks:
  "(0xfffffff0 :: u32) = NOT (mask 4)" "(0x3c :: u32) = push_bit 2 (mask 4)" "(0x3f :: u32) = mask 6" "(0xf :: u32) = mask 4"
  by (simp_all add: mask_eq_exp_minus_1)

text \<open>The interrupt-enable stack of the status register pushed on entry and popped on return.\<close>

lemma status_push_pop:
  "status_pop ((w AND NOT 0x3f) OR push_bit 2 (w AND 0xf)) = (w AND NOT 0x30) OR push_bit 2 (w AND 0xc)"
proof -
  have m: "(0x30 :: u32) = push_bit 4 (mask 2)" "(0xc :: u32) = push_bit 2 (mask 2)" by (simp_all add: mask_eq_exp_minus_1)
  show ?thesis
    unfolding status_pop_def status_masks m by (rule bit_word_eqI) (auto simp: bit_simps)
qed

text \<open>The two ways back, by the BIOS and by the instruction, undo what the entry did to the stack.\<close>

definition popped :: "u32 \<Rightarrow> u32" where
  "popped w = (w AND NOT 0x30) OR push_bit 2 (w AND 0xc)"

lemma enter_exception_fields:
  "CP0 (enter_exception cd bd s) EPC = (if bd then pc s - 4 else pc s)" "CP0 (enter_exception cd bd s) Cause = (if bd then cd OR 0x80000000 else cd)"
  "status_pop (CP0 (enter_exception cd bd s) Status) = popped (CP0 s Status)" "GPR (enter_exception cd bd s) = GPR s"
  "mem (enter_exception cd bd s) = mem s" "bios_st (enter_exception cd bd s) = bios_st s"
  by (simp_all add: enter_exception_def Let_def status_push_pop[simplified] popped_def)

lemma enter_exception_kernel: "CP0 (enter_exception cd bd s) Status AND 3 = 0"
proof -
  have m3: "(3 :: u32) = mask 2" by (simp add: mask_eq_exp_minus_1)
  have "((CP0 s Status AND NOT 0x3f) OR push_bit 2 (CP0 s Status AND 0xf)) AND 3 = 0"
    unfolding status_masks m3 by (rule bit_word_eqI) (auto simp: bit_simps)
  then show ?thesis by (simp add: enter_exception_def Let_def)
qed

text \<open>\<open>no_event s\<close>: no counter is due after one more cycle, and no interrupt is asked for that is let through.\<close>

definition no_event :: "psx \<Rightarrow> bool" where
  "no_event s \<longleftrightarrow> cycle s + 1 - psxNextsCounter (cnt s) < psxNextCounter (cnt s) \<and>
     (\<exists>st msk. psxHu32 0x1070 (mem s) = Ok st \<and> psxHu32 0x1074 (mem s) = Ok msk \<and> st AND msk = 0)"

text \<open>The instruction \<^verbatim>\<open>rfe\<close>, and its execution.\<close>

definition RFE :: u32 where
  "RFE = 0x42000010"

lemma RFE_fields: "f_op RFE = 0x10" "f_rs RFE = 0x10"
  by (simp_all add: RFE_def f_op_def f_rs_def)

lemma bsc_RFE: "code s = RFE \<Longrightarrow> bsc (Suc k) s = Ok (psxRFE s)"
  by (simp add: psxBSC_def psxCOP0_def Rs_def RFE_fields)

text \<open>C16: the way back from an exception that a program's own handler takes, a jump to the exception address with \<^verbatim>\<open>rfe\<close> in its delay slot, continues
  the interrupted program: at the instruction that was interrupted, or at the branch before it if it was in a delay slot, with the current and
  previous enable bits the program had (the oldest keep their place). It changes no register and no memory, so whatever the handler has
  restored by then is what the program finds. The entry has disabled interrupts and user mode. No further interrupt is waiting when the
  handler returns.\<close>
theorem exception_round_trip:
  assumes "CP0 u Status = CP0 (enter_exception cd bd s) Status" "rRs u = CP0 (enter_exception cd bd s) EPC"
    and "PSXMu32 (pc u) (mem u) = Ok RFE" "no_event u"
  shows "CP0 (enter_exception cd bd s) Status AND 3 = 0 \<and>
    (\<exists>t. psxJR n (bsc (Suc k)) u = Ok t \<and> pc t = (if bd then pc s - 4 else pc s) \<and> GPR t = GPR u \<and> mem t = mem u \<and>
      CP0 t = (CP0 u)(Status := (CP0 s Status AND NOT 0x30) OR push_bit 2 (CP0 s Status AND 0xc)))"
proof -
  have l: "\<not> load_delay RFE" by (simp add: load_delay_def RFE_fields)
  obtain st msk where irq: "psxHu32 0x1070 (mem u) = Ok st" "psxHu32 0x1074 (mem u) = Ok msk" "st AND msk = 0"
    and due: "\<not> psxNextCounter (cnt u) \<le> cycle u + 1 - psxNextsCounter (cnt u)"
    using assms(4) by (auto simp: no_event_def)
  let ?u = "u\<lparr>branch2 := True, branch := True, branchPC := rRs u, code := RFE, pc := pc u + 4, cycle := cycle u + 1\<rparr>"
  have run: "bsc (Suc k) ?u = Ok (psxRFE ?u)" by (rule bsc_RFE) simp
  have test: "psxBranchTest n (bsc (Suc k)) (set_pc p (psxRFE ?u\<lparr>branch := False\<rparr>)) = Ok (set_pc p (psxRFE ?u\<lparr>branch := False\<rparr>))" for p
    using irq due by (simp add: psxBranchTest_def psxRFE_def set_pc_def set_cp0_def)
  have "psxJR n (bsc (Suc k)) u = Ok (set_pc (rRs u) (psxRFE ?u\<lparr>branch := False\<rparr>))"
    using test[of "rRs u"] l run
    by (simp add: psxJR_def doBranch_def assms(3) Let_def del: bsc.simps) (simp add: psxRFE_def set_cp0_def RFE_fields)
  then show ?thesis
    using enter_exception_kernel enter_exception_fields(3)[of cd bd s]
    by (auto simp: psxRFE_def assms(1,2) enter_exception_fields(1) popped_def set_pc_def set_cp0_def simp del: bsc.simps)
qed

text \<open>No handler queue and no event is asked for; and neither is there a hook.\<close>

definition no_queues :: "psx \<Rightarrow> bool" where
  "no_queues s \<longleftrightarrow> (\<forall>i < 8. SysIntRP (bios_st s) i = 0) \<and>
     (\<forall>ev \<in> {64, 65, 66, 67}. ev_get ev 1 Ev_status (mem s) \<noteq> Ok EvStACTIVE)"

definition no_handlers :: "psx \<Rightarrow> bool" where
  "no_handlers s \<longleftrightarrow> no_queues s \<and> jmp_int (bios_st s) = None"

lemma run_if_active_idle:
  "no_queues s \<Longrightarrow> ev \<in> {64, 65, 66, 67} \<Longrightarrow> run_if_active n run ev after s = Ok s"
  using ev_total(1)[of ev 1 Ev_status "mem s"] by (auto simp: run_if_active_def no_queues_def)

lemma biosInterrupt_idle:
  assumes "no_queues s"
  shows "biosInterrupt n run s = Ok s"
proof -
  obtain st where st: "psxHu32 0x1070 (mem s) = Ok st" using hw_reads[of "0x1070" "mem s"] by auto
  have "[0..<3] = [0, 1, 2 :: nat]" by (simp add: upt_rec)
  then show ?thesis using assms by (simp add: biosInterrupt_def st run_if_active_idle)
qed

lemma run_queues_idle: "no_queues s \<Longrightarrow> run_queues n run s = Ok s"
proof -
  assume a: "no_queues s"
  have "for_each xs (\<lambda>i s. if SysIntRP (bios_st s) i \<noteq> 0 then f i s else Ok s) s = Ok s" if "set xs \<subseteq> {0..<8}" for xs f
    using that a by (induction xs) (auto simp: no_queues_def)
  then show ?thesis unfolding run_queues_def by simp
qed

lemma psxHu16_set_get: "psxHu16_set a v m = Ok m' \<Longrightarrow> psxHu16 a m' = Ok v"
  unfolding psxHu16_set_def psxHu16_def by (rule load_store_same)

lemma ack_all: "\<exists>m. psxHwWrite16 0x1f801070 0 s = Ok (s\<lparr>mem := m\<rparr>) \<and> psxHu16 0x1070 m = Ok 0"
proof -
  have "\<exists>w. psxHu16 0x1070 (mem s) = Ok w" "\<exists>w. psxHu16 0x1074 (mem s) = Ok w" "\<exists>m. psxHu16_set 0x1070 0 (mem s) = Ok m"
    by (simp_all add: psxHu16_def psxHu16_set_def psxHptr_def)
  then show ?thesis using psxHu16_set_get by (fastforce simp: psxHwWrite16_def on_mem_def)
qed

text \<open>An interrupt for which the program has installed neither a handler queue nor an event nor a hook is acknowledged, and the program goes on with the registers and the program counter it had.\<close>
theorem unhandled_interrupt_resumes:
  assumes "no_handlers s" "CP0 s Status AND 0x401 = 0x401"
    and "psxHu32 0x1070 (mem s) = Ok st" "psxHu32 0x1074 (mem s) = Ok msk" "st AND msk \<noteq> 0"
    and "cycle s - psxNextsCounter (cnt s) < psxNextCounter (cnt s)"
  shows "\<exists>t. psxBranchTest n run s = Ok t \<and> GPR t = GPR s \<and> pc t = pc s \<and> cnt t = cnt s \<and>
    CP0 t Status = (CP0 s Status AND NOT 0x30) OR push_bit 2 (CP0 s Status AND 0xc) \<and> psxHu16 0x1070 (mem t) = Ok 0"
proof -
  define e where "e = SaveRegs (enter_exception 0x400 False s)"
  have e: "no_queues e" "jmp_int (bios_st e) = None" "CP0 (enter_exception 0x400 False s) Cause AND 0x3c = 0"
    using assms(1) by (auto simp: e_def SaveRegs_def enter_exception_def Let_def no_handlers_def no_queues_def)
  obtain m where m: "psxHwWrite16 0x1f801070 0 e = Ok (e\<lparr>mem := m\<rparr>)" "psxHu16 0x1070 m = Ok 0" using ack_all by blast
  define t where "t = return_epc (e\<lparr>mem := m\<rparr>)"
  have "psxException n run 0x400 False s = Ok t"
    using e(2,3) m(1) unfolding psxException_def psxBiosException_def
    by (simp add: Let_def e_def[symmetric] biosInterrupt_idle[OF e(1)] run_queues_idle[OF e(1)] t_def)
  moreover have "GPR t = GPR s \<and> pc t = pc s \<and> cnt t = cnt s \<and> psxHu16 0x1070 (mem t) = Ok 0"
    "CP0 t Status = (CP0 s Status AND NOT 0x30) OR push_bit 2 (CP0 s Status AND 0xc)"
    using m(2) by (simp_all add: t_def e_def return_epc_def SaveRegs_def enter_exception_def Let_def status_push_pop[simplified])
  ultimately show ?thesis
    using assms(2-5) assms(6)[unfolded not_le[symmetric]] by (simp add: psxBranchTest_def)
qed

lemma ack_word: "psxHwWrite32 0x1f801070 v s = Ok t \<Longrightarrow> \<exists>m. t = s\<lparr>mem := m\<rparr>"
  by (auto simp: psxHwWrite32_def on_mem_Ok)

lemma jmp_load_keeps: "jmp_load p s = Ok t \<Longrightarrow> bios_st t = bios_st s \<and> CP0 t = CP0 s"
  unfolding jmp_load_def
  by (rule for_each_inv[where P = "\<lambda>t. bios_st t = bios_st s \<and> CP0 t = CP0 s"]) (auto simp: set_gpr_def bind_res_Ok_iff)

lemma hook_entry:
  assumes "no_queues s" "jmp_int (bios_st s) = Some p"
  shows "psxException n run 0x400 False s = bind_res (psxHwWrite32 0x1f801070 0xffffffff (SaveRegs (enter_exception 0x400 False s)))
    (\<lambda>t. bind_res (jmp_load p t) (\<lambda>t. Ok (bios_ret 1 t)))"
proof -
  let ?e = "enter_exception 0x400 False s"
  have q: "no_queues (SaveRegs ?e)" and c: "CP0 ?e Cause AND 0x3c = 0" and j: "jmp_int (bios_st (SaveRegs ?e)) = Some p"
    using assms by (simp_all add: SaveRegs_def no_queues_def enter_exception_fields)
  show ?thesis
    using c unfolding psxException_def psxBiosException_def by (simp add: Let_def biosInterrupt_idle[OF q] run_queues_idle[OF q] j)
qed

lemma hooked_interrupt:
  assumes "no_queues s" "jmp_int (bios_st s) \<noteq> None" "psxException n run 0x400 False s = Ok h"
  shows "i < 34 \<Longrightarrow> saved_regs (bios_st h) i = GPR s i" "CP0 h = CP0 (enter_exception 0x400 False s)"
proof -
  let ?e = "enter_exception 0x400 False s"
  obtain p where p: "jmp_int (bios_st s) = Some p" using assms(2) by blast
  obtain s3 s4 where s3: "psxHwWrite32 0x1f801070 0xffffffff (SaveRegs ?e) = Ok s3" and s4: "jmp_load p s3 = Ok s4" and h: "h = bios_ret 1 s4"
    using assms(3) unfolding hook_entry[OF assms(1) p] by (auto simp: bind_res_Ok_iff)
  obtain m where "s3 = SaveRegs ?e\<lparr>mem := m\<rparr>" using ack_word[OF s3] by blast
  then show "i < 34 \<Longrightarrow> saved_regs (bios_st h) i = GPR s i" "CP0 h = CP0 ?e"
    using jmp_load_keeps[OF s4] by (simp_all add: h bios_ret_def bios_end_def SaveRegs_def enter_exception_fields)
qed


text \<open>An event without handler that is delivered while active is reported by the next test of its descriptor, exactly once, and is active again afterwards.\<close>
theorem delivered_event_is_seen:
  fixes s :: psx
  defines "ev \<equiv> desc_ev (GPR s a0)" and "sc \<equiv> desc_spec (GPR s a0)"
  assumes "ev_get ev sc Ev_status (mem s) = Ok EvStACTIVE" "ev_get ev sc Ev_mode (mem s) = Ok EvMdNOINTR"
  shows "\<exists>t u v. DeliverEvent n run ev sc s = Ok t \<and> bios_TestEvent t = Ok u \<and> GPR u v0 = 1 \<and>
    bios_TestEvent u = Ok v \<and> GPR v v0 = 0 \<and> ev_get ev sc Ev_status (mem v) = Ok EvStACTIVE"
proof -
  have "ev < 512" "sc < 256" using desc_bounds[of "GPR s a0"] by (simp_all add: ev_def sc_def)
  note tot = ev_total(2)[OF this]
  obtain m1 where m1: "ev_set ev sc Ev_status EvStALREADY (mem s) = Ok m1" using tot by blast
  obtain m2 where m2: "ev_set ev sc Ev_status EvStACTIVE m1 = Ok m2" using tot by blast
  have "DeliverEvent n run ev sc s = Ok (s\<lparr>mem := m1\<rparr>)"
    using assms(3,4) m1 by (simp add: DeliverEvent_def ev_consts on_mem_def)
  moreover have "bios_TestEvent (s\<lparr>mem := m1\<rparr>) = Ok (bios_ret 1 (s\<lparr>mem := m2\<rparr>))"
    using ev_set_get[OF m1] m2 by (simp add: bios_TestEvent_def on_mem_def ev_def[symmetric] sc_def[symmetric])
  moreover have "bios_TestEvent (bios_ret 1 (s\<lparr>mem := m2\<rparr>)) = Ok (bios_ret 0 (bios_ret 1 (s\<lparr>mem := m2\<rparr>)))"
    using ev_set_get[OF m2]
    by (simp add: bios_TestEvent_def bios_ret_def bios_end_def ev_def[symmetric] sc_def[symmetric] ev_consts)
  ultimately show ?thesis
    using ev_set_get[OF m2] by (auto simp: bios_ret_def bios_end_def)
qed

text \<open>A machine with the vertical blank pending and enabled, and one with an active event.\<close>

definition irq_psx :: psx where
  "irq_psx = sample_psx\<lparr>mem := set_bytes psxH 0x1070 [1, 0, 0, 0, 1, 0, 0, 0] (mem sample_psx), CP0 := (\<lambda>_. 0)(Status := 0x401),
     cnt := (cnt sample_psx)\<lparr>psxNextCounter := 5, psxNextsCounter := 0\<rparr>\<rparr>"

theorem unhandled_interrupt_resumes_witness:
  "\<exists>t. psxBranchTest 0 Ok irq_psx = Ok t \<and> pc t = pc irq_psx \<and> psxHu16 0x1070 (mem t) = Ok 0"
proof -
  have "no_handlers irq_psx"
    by (simp add: no_handlers_def no_queues_def irq_psx_def sample_psx_def psxMemInit_def ev_get_def ev_ptr_def bytes_set_bytes le32_def EvStACTIVE_def)
  moreover have "psxHu32 0x1070 (mem irq_psx) = Ok 1" "psxHu32 0x1074 (mem irq_psx) = Ok 1"
    by (simp_all add: irq_psx_def sample_psx_def psxMemInit_def psxHu32_def psxHptr_def bytes_set_bytes nth_Cons' le32_def)
  ultimately show ?thesis
    using unhandled_interrupt_resumes[of irq_psx 1 1 0 Ok] by (simp add: irq_psx_def sample_psx_def) blast
qed

text \<open>A handler at its end, of a system call in a delay slot: \<^verbatim>\<open>jr k0\<close> and then \<^verbatim>\<open>rfe\<close>, at the start of memory.\<close>

definition handler_psx :: psx where
  "handler_psx = (enter_exception 0x20 True (sample_psx\<lparr>pc := 0x80010004, CP0 := (\<lambda>_. 0)(Status := 0x401)\<rparr>))
     \<lparr>pc := 0, code := 0x03400008, GPR := (\<lambda>_. 0)(26 := 0x80010000), mem := set_bytes psxM 0 [0x10, 0, 0, 0x42] (mem sample_psx),
      cnt := (cnt sample_psx)\<lparr>psxNextCounter := 5, psxNextsCounter := 0\<rparr>, cycle := 0\<rparr>"

theorem exception_round_trip_witness:
  "\<exists>t. psxJR 0 (bsc (Suc 0)) handler_psx = Ok t \<and> pc t = 0x80010000 \<and> GPR t 26 = 0x80010000 \<and> CP0 t Status = 0x401"
proof -
  let ?s = "sample_psx\<lparr>pc := 0x80010004, CP0 := (\<lambda>_. 0)(Status := 0x401)\<rparr>"
  have "CP0 handler_psx Status = CP0 (enter_exception 0x20 True ?s) Status" "rRs handler_psx = CP0 (enter_exception 0x20 True ?s) EPC"
    by (simp_all add: handler_psx_def rRs_def Rs_def f_rs_def enter_exception_fields)
  moreover have "PSXMu32 (pc handler_psx) (mem handler_psx) = Ok RFE"
    by (simp add: handler_psx_def sample_psx_def psxMemInit_def PSXMu32_def PSXM_def lut_init_def lut_ram_def in_ram_window_def deref_def
        bytes_set_bytes nth_Cons' le32_def RFE_def)
  moreover have "no_event handler_psx"
    by (simp add: no_event_def handler_psx_def sample_psx_def psxMemInit_def psxHu32_def psxHptr_def bytes_set_bytes le32_def)
  ultimately show ?thesis
    using exception_round_trip[of handler_psx "0x20" True ?s 0 0] by (auto simp: handler_psx_def)
qed

text \<open>The machine with the pending vertical blank, and a hook whose buffer is at the start of memory.\<close>

definition hooked_psx :: psx where
  "hooked_psx = irq_psx\<lparr>bios_st := (bios_st irq_psx)\<lparr>jmp_int := Some (psxM, 0)\<rparr>, GPR := (\<lambda>i. of_nat i), pc := 0x80010000\<rparr>"


definition event_psx :: psx where
  "event_psx = sample_psx\<lparr>mem := set_bytes psxR 0x1004 [0, 0x20, 0, 0, 0, 0x20, 0, 0] (mem sample_psx)\<rparr>"

theorem delivered_event_is_seen_witness:
  "\<exists>t u. DeliverEvent 0 Ok 0 0 event_psx = Ok t \<and> bios_TestEvent t = Ok u \<and> GPR u v0 = 1"
proof -
  have "desc_ev (GPR event_psx a0) = 0" "desc_spec (GPR event_psx a0) = 0"
    by (simp_all add: event_psx_def sample_psx_def desc_ev_def desc_spec_def)
  moreover have "ev_get 0 0 Ev_status (mem event_psx) = Ok EvStACTIVE" "ev_get 0 0 Ev_mode (mem event_psx) = Ok EvMdNOINTR"
    by (simp_all add: event_psx_def sample_psx_def ev_get_def ev_ptr_def psxMemInit_def bytes_set_bytes nth_Cons' le32_def ev_consts)
  ultimately show ?thesis using delivered_event_is_seen[of event_psx 0 Ok] by auto
qed

end
