(* ===== verification/Psflib.thy ===== *)
theory Psflib
  imports CStrings
begin

text \<open>
  The PSF library \<^verbatim>\<open>psflib/psflib.c\<close>: tags, and the loader that hands the program images of a
  file and of the libraries it names to its client, in order. Files are reached through the callbacks of
  \<^verbatim>\<open>psf_file_callbacks\<close>; these, the client's own callbacks and zlib are the fields of \<open>client\<close>, over
  types of file handles \<open>'f\<close> and of the client's contexts \<open>'l\<close> and \<open>'i\<close>. \<open>malloc n\<close> tells whether a
  buffer of \<open>n\<close> bytes can be had; the short allocations for tags and names are assumed to succeed.
  The host has 64-bit \<^verbatim>\<open>long\<close> and \<^verbatim>\<open>size_t\<close>.
\<close>

section \<open>Tags\<close>

text \<open>\<^verbatim>\<open>strrpbrk\<close>: the last position of a character of the set.\<close>

definition strrpbrk :: "cstring \<Rightarrow> cstring \<Rightarrow> nat option" where
  "strrpbrk s accept = (if s = [] \<or> accept = [] then None
     else map_option (\<lambda>i. length s - 1 - i) (find_index (\<lambda>c. c \<in> set accept) (rev s)))"

text \<open>The list of tags runs from \<^verbatim>\<open>psf_tag\<close> to its \<^verbatim>\<open>next\<close>: the newest first. \<open>prev\<close> is the reverse order.\<close>

type_synonym psf_tag = "cstring \<times> cstring"

definition fields_to_split :: "cstring list" where
  "fields_to_split = map ascii [''ARTIST'', ''ALBUM ARTIST'', ''PRODUCER'', ''COMPOSER'', ''PERFORMER'', ''GENRE'']"

definition check_split_value :: "cstring \<Rightarrow> bool" where
  "check_split_value name \<longleftrightarrow> list_ex (same_nocase name) fields_to_split"

definition find_tag :: "psf_tag list \<Rightarrow> cstring \<Rightarrow> psf_tag option" where
  "find_tag ts name = (if name = [] then None else find (\<lambda>(n, v). same_nocase n name) ts)"

text \<open>The first tag of a name gets another line in its value.\<close>

fun append_value :: "cstring \<Rightarrow> cstring \<Rightarrow> psf_tag list \<Rightarrow> psf_tag list" where
  "append_value name v [] = []"
| "append_value name v ((n, old) # ts) =
     (if same_nocase n name then (n, old @ 10 # v) # ts else (n, old) # append_value name v ts)"

definition add_tag_multi :: "psf_tag list \<Rightarrow> cstring \<Rightarrow> cstring list \<Rightarrow> psf_tag list" where
  "add_tag_multi ts name vs = (if name = [] \<or> vs = [] then []
     else fold (\<lambda>v footer. (name, v) # footer) (tl vs)
       (case find_tag ts name of None \<Rightarrow> (name, hd vs) # ts | Some _ \<Rightarrow> append_value name (hd vs) ts))"

text \<open>The pieces between the occurrences of \<^verbatim>\<open>"; "\<close>, without an empty one at the end.\<close>

function split_value :: "cstring \<Rightarrow> cstring list" where
  "split_value remain = (case c_strstr remain [59, 32] of
     Some i \<Rightarrow> take i remain # split_value (drop (i + 2) remain)
   | None \<Rightarrow> if remain = [] then [] else [remain])"
  by pat_completeness auto
termination
proof (relation "measure length", goal_cases)
  case (2 remain i)
  then have "remain \<noteq> []" by (cases remain) auto
  then show ?case by simp
qed simp

declare split_value.simps [simp del]

definition add_tag :: "psf_tag list \<Rightarrow> cstring \<Rightarrow> cstring \<Rightarrow> psf_tag list" where
  "add_tag ts name v = (if name = [] \<or> v = [] then ts
     else add_tag_multi ts name (if check_split_value name then split_value v else [v]))"

definition blank :: "u8 \<Rightarrow> bool" where
  "blank c \<longleftrightarrow> 0 < c \<and> c \<le> 32"

text \<open>
  The end of the value: the loop looks at the first byte of the value each time, so it either does
  not move or moves all the way.
\<close>

definition trim_value :: "cstring \<Rightarrow> cstring" where
  "trim_value v = (if blank (hd v) then take 1 v else v)"

definition trim_name :: "cstring \<Rightarrow> cstring" where
  "trim_name n = hd n # rev (dropWhile blank (rev (tl n)))"

definition process_tag_line :: "psf_tag list \<Rightarrow> cstring \<Rightarrow> psf_tag list" where
  "process_tag_line ts line = (case c_strchr line 61 of
     None \<Rightarrow> ts
   | Some equals \<Rightarrow>
       let n = dropWhile blank (take equals line);
           v = dropWhile blank (drop (equals + 1) line) in
       if n = [] \<or> v = [] then ts
       else if hd n = 95 \<and> find_tag ts (trim_name n) \<noteq> None then ts
       else add_tag ts (trim_name n) (trim_value v))"

definition newline :: "u8 \<Rightarrow> bool" where
  "newline c \<longleftrightarrow> c = 10 \<or> c = 13"

function process_lines :: "cstring \<Rightarrow> psf_tag list \<Rightarrow> psf_tag list" where
  "process_lines buf ts = (case c_strpbrk buf [10, 13] of
     Some i \<Rightarrow> process_lines (dropWhile newline (drop (i + 1) buf)) (process_tag_line ts (take i buf))
   | None \<Rightarrow> if buf = [] then ts else process_tag_line ts buf)"
  by pat_completeness auto
termination
proof (relation "measure (\<lambda>(buf, ts). length buf)", goal_cases)
  case (2 buf ts i)
  then have "buf \<noteq> []" by (cases buf) (auto simp: c_strpbrk_def)
  then show ?case
    using length_dropWhile_le[of newline "drop (i + 1) buf"] by (cases buf) auto
qed simp

declare process_lines.simps [simp del]

text \<open>The buffer is a C string: what follows a zero byte is not seen.\<close>

definition process_tags :: "u8 list \<Rightarrow> psf_tag list" where
  "process_tags buffer = process_lines (takeWhile (\<lambda>c. c \<noteq> 0) buffer) []"

section \<open>State\<close>

datatype whence = SEEK_SET | SEEK_CUR | SEEK_END

text \<open>What \<^verbatim>\<open>uncompress\<close> answers for a buffer of a size: done, buffer or memory too small, bad data.\<close>

datatype unzipped = Z_OK "u8 list" | Z_MORE | Z_BAD

record ('f, 'l, 'i) client =
  path_separators :: cstring
  fopen :: "cstring \<Rightarrow> 'f option"
  fread :: "nat \<Rightarrow> 'f \<Rightarrow> u8 list \<times> 'f"
  fseek :: "int \<Rightarrow> whence \<Rightarrow> 'f \<Rightarrow> 'f option"
  ftell :: "'f \<Rightarrow> int"
  load_target :: "(u8 list \<Rightarrow> u8 list \<Rightarrow> 'l \<Rightarrow> bool \<times> 'l) option"
  info_target :: "(cstring \<Rightarrow> cstring \<Rightarrow> 'i \<Rightarrow> bool \<times> 'i) option"
  status_target :: bool
  malloc :: "nat \<Rightarrow> bool"
  uncompress :: "nat \<Rightarrow> u8 list \<Rightarrow> unzipped"
  crc32 :: "u8 list \<Rightarrow> u32"

text \<open>The status messages are collected; \<open>Indent\<close> is the blank string built in \<^verbatim>\<open>char indent[16]\<close>.\<close>

datatype message = Indent nat | Say string | Data cstring

record ('l, 'i) psf_load_state =
  depth :: nat
  allowed_version :: u8
  base_path :: cstring
  info_want_nested_tags :: bool
  load_context :: 'l
  info_context :: 'i
  status_log :: "message list"
  open_files :: int

definition psf_status :: "('f, 'l, 'i) client \<Rightarrow> message \<Rightarrow> bool \<Rightarrow> ('l, 'i) psf_load_state \<Rightarrow> ('l, 'i) psf_load_state" where
  "psf_status h msg indent s = (if status_target h
     then s\<lparr>status_log := status_log s @ (if indent then [Indent (if depth s > 1 then depth s - 1 else 0)] else []) @ [msg]\<rparr>
     else s)"

text \<open>A group of messages behind \<^verbatim>\<open>if (psf_want_status(state))\<close>, each with its indentation flag.\<close>

definition statuses :: "('f, 'l, 'i) client \<Rightarrow> (message \<times> bool) list \<Rightarrow> ('l, 'i) psf_load_state \<Rightarrow> ('l, 'i) psf_load_state" where
  "statuses h ms s = fold (\<lambda>(m, indent). psf_status h m indent) ms s"

definition file_status :: "('f, 'l, 'i) client \<Rightarrow> string \<Rightarrow> cstring \<Rightarrow> ('l, 'i) psf_load_state \<Rightarrow> ('l, 'i) psf_load_state" where
  "file_status h what file_name s = statuses h
     [(Say what, True), (Data file_name, False), (Say ''\<newline>'', False),
      (Say ''From base path: '', True), (Data (base_path s), False), (Say ''\<newline>'', False)] s"

definition fclose :: "('l, 'i) psf_load_state \<Rightarrow> ('l, 'i) psf_load_state" where
  "fclose s = s\<lparr>open_files := open_files s - 1\<rparr>"

definition max_recursion_depth :: nat where "max_recursion_depth = 10"

section \<open>Loading\<close>

text \<open>
  A stage of the loader answers \<open>None\<close> where the code jumps to its error labels; \<open>attempt\<close> goes on
  with the next stage otherwise.
\<close>

type_synonym ('x, 'l, 'i) stage = "('x option \<times> ('l, 'i) psf_load_state) res"

definition attempt :: "('x, 'l, 'i) stage \<Rightarrow> ('x \<Rightarrow> ('l, 'i) psf_load_state \<Rightarrow> ('y, 'l, 'i) stage) \<Rightarrow> ('y, 'l, 'i) stage" where
  "attempt m f = bind_res m (\<lambda>(r, s). case r of None \<Rightarrow> Ok (None, s) | Some x \<Rightarrow> f x s)"

definition give_up :: "('f, 'l, 'i) client \<Rightarrow> string \<Rightarrow> ('l, 'i) psf_load_state \<Rightarrow> ('x, 'l, 'i) stage" where
  "give_up h msg s = Ok (None, psf_status h (Say msg) True s)"

definition proceed :: "'x \<Rightarrow> ('l, 'i) psf_load_state \<Rightarrow> ('x, 'l, 'i) stage" where
  "proceed x s = Ok (Some x, s)"

text \<open>Version, reserved size, compressed size and checksum.\<close>

type_synonym header = "u8 \<times> u32 \<times> u32 \<times> u32"

definition read_psf_header :: "('f, 'l, 'i) client \<Rightarrow> 'f \<Rightarrow> ('l, 'i) psf_load_state \<Rightarrow> (header \<times> 'f, 'l, 'i) stage" where
  "read_psf_header h f s = (let (b, f1) = fread h 16 f in
     if length b < 16 then give_up h ''File too small to contain a valid header.\<newline>'' s
     else if take 3 b \<noteq> [80, 83, 70] then give_up h ''File does not contain a valid PSF signature.\<newline>'' s
     else if allowed_version s \<noteq> 0 \<and> b ! 3 \<noteq> allowed_version s then
       Ok (None, statuses h [(Say ''Expected PSF version '', True), (Data (dec (unat (allowed_version s))), False),
         (Say '', got '', False), (Data (dec (unat (b ! 3))), False), (Say ''\<newline>'', False)] s)
     else proceed ((b ! 3, le32 (b ! 4) (b ! 5) (b ! 6) (b ! 7), le32 (b ! 8) (b ! 9) (b ! 10) (b ! 11),
       le32 (b ! 12) (b ! 13) (b ! 14) (b ! 15)), f1) s)"

text \<open>The tags go to the client in the order of the file; a refused one makes the load fail.\<close>

primrec give_tags :: "('f, 'l, 'i) client \<Rightarrow> (cstring \<Rightarrow> cstring \<Rightarrow> 'i \<Rightarrow> bool \<times> 'i) \<Rightarrow> psf_tag list \<Rightarrow>
    ('l, 'i) psf_load_state \<Rightarrow> (unit, 'l, 'i) stage" where
  "give_tags h g [] s = proceed () s"
| "give_tags h g (t # ts) s = (let (refused, c) = g (fst t) (snd t) (info_context s); s1 = s\<lparr>info_context := c\<rparr> in
     if refused then Ok (None, statuses h [(Say ''Caller rejected tag: '', True), (Data (fst t), False),
       (Say ''='', False), (Data (snd t), False), (Say ''\<newline>'', False)] s1)
     else give_tags h g ts s1)"

definition tag_info :: "('f, 'l, 'i) client \<Rightarrow> psf_tag list \<Rightarrow> ('l, 'i) psf_load_state \<Rightarrow> (unit, 'l, 'i) stage" where
  "tag_info h ts s = (case info_target h of
     None \<Rightarrow> proceed () s
   | Some g \<Rightarrow> if ts \<noteq> [] \<and> (depth s = 1 \<or> info_want_nested_tags s) then give_tags h g (rev ts) s else proceed () s)"

text \<open>
  The tag at the end of the file. The sum of the sizes is computed in 32 bits; the size of the tag
  is a signed \<^verbatim>\<open>long\<close>, which is taken as a \<^verbatim>\<open>size_t\<close>.
\<close>

definition as_size :: "int \<Rightarrow> nat" where
  "as_size v = nat (v mod 2 ^ 64)"

definition read_tag_block :: "('f, 'l, 'i) client \<Rightarrow> int \<Rightarrow> 'f \<Rightarrow> ('l, 'i) psf_load_state \<Rightarrow> (psf_tag list \<times> 'f, 'l, 'i) stage" where
  "read_tag_block h tag_size f s = (case fseek h (- tag_size) SEEK_CUR f of
     None \<Rightarrow> give_up h ''Could not seek back to read tag.\<newline>'' s
   | Some f1 \<Rightarrow>
      if \<not> malloc h (as_size (tag_size + 1)) then give_up h ''Out of memory allocating tag buffer.\<newline>'' s
      else let (b, f2) = fread h (as_size tag_size) f1 in
        if length b < as_size tag_size then give_up h ''Could not read tag.\<newline>'' s
        else let ts = (if take 5 b = ascii ''[TAG]'' then process_tags (drop 5 b) else []) in
          attempt (tag_info h ts s) (\<lambda>_. proceed (ts, f2)))"

definition read_tags :: "('f, 'l, 'i) client \<Rightarrow> header \<Rightarrow> 'f \<Rightarrow> ('l, 'i) psf_load_state \<Rightarrow> (psf_tag list \<times> 'f, 'l, 'i) stage" where
  "read_tags h hdr f s = (case hdr of (version, reserved_size, packed_size, crc) \<Rightarrow>
     case fseek h 0 SEEK_END f of
       None \<Rightarrow> give_up h ''Could not seek to end of file to determine file size.\<newline>'' s
     | Some f1 \<Rightarrow>
        let file_size = ftell h f1 in
        if file_size \<le> 0 then give_up h ''Could not determine file size.\<newline>'' s
        else if file_size \<ge> uint (16 + reserved_size + packed_size + 5) then
          read_tag_block h (file_size - uint (16 + reserved_size + packed_size)) f1
            (psf_status h (Say ''Tag detected, attempting to read it.\<newline>'') True s)
        else proceed ([], f1) s)"

text \<open>The reserved section and the compressed program.\<close>

definition read_sections :: "('f, 'l, 'i) client \<Rightarrow> header \<Rightarrow> 'f \<Rightarrow> ('l, 'i) psf_load_state \<Rightarrow> (u8 list \<times> u8 list, 'l, 'i) stage" where
  "read_sections h hdr f s = (case hdr of (version, reserved_size, packed_size, crc) \<Rightarrow>
     if \<not> malloc h (unat reserved_size) then give_up h ''Out of memory allocating buffer for reserved section.\<newline>'' s
     else if \<not> malloc h (unat packed_size) then give_up h ''Out of memory allocating buffer for compressed exe section.\<newline>'' s
     else case fseek h 16 SEEK_SET f of
       None \<Rightarrow> give_up h ''Could not seek back to main data section of file.'' s
     | Some f1 \<Rightarrow>
        let (reserved, f2) = (if reserved_size \<noteq> 0 then fread h (unat reserved_size) f1 else ([], f1)) in
        if length reserved < unat reserved_size then give_up h ''Could not read reserved section.\<newline>'' s
        else let (packed, f3) = (if packed_size \<noteq> 0 then fread h (unat packed_size) f2 else ([], f2)) in
          if length packed < unat packed_size then give_up h ''Could not read compressed exe section.\<newline>'' s
          else proceed (reserved, packed) s)"

text \<open>The output buffer starts with three times the input (in 32 bits) and grows while zlib asks for more.\<close>

primrec unpack_loop :: "nat \<Rightarrow> ('f, 'l, 'i) client \<Rightarrow> u8 list \<Rightarrow> nat \<Rightarrow> ('l, 'i) psf_load_state \<Rightarrow> (u8 list, 'l, 'i) stage" where
  "unpack_loop 0 h packed len s = Fail OutOfFuel"
| "unpack_loop (Suc k) h packed len s = (case uncompress h len packed of
     Z_OK out \<Rightarrow> proceed out s
   | Z_BAD \<Rightarrow> give_up h ''Could not decompress exe section.\<newline>'' s
   | Z_MORE \<Rightarrow> let more = (if len < 1048576 then len + 1048576 else (len + len) mod 2 ^ 64) in
       if malloc h more then unpack_loop k h packed more s
       else give_up h ''Out of memory reallocating buffer for decompressed exe section.\<newline>'' s)"

definition hex_digits :: cstring where "hex_digits = ascii ''0123456789ABCDEF''"

fun hex :: "nat \<Rightarrow> cstring" where
  "hex n = (if n < 16 then [hex_digits ! n] else hex (n div 16) @ [hex_digits ! (n mod 16)])"

declare hex.simps [simp del]

definition unpack_exe :: "nat \<Rightarrow> ('f, 'l, 'i) client \<Rightarrow> header \<Rightarrow> u8 list \<Rightarrow> ('l, 'i) psf_load_state \<Rightarrow> (u8 list, 'l, 'i) stage" where
  "unpack_exe k h hdr packed s = (case hdr of (version, reserved_size, packed_size, crc) \<Rightarrow>
     if packed_size \<noteq> 0 then
       if crc \<noteq> crc32 h packed then
         Ok (None, statuses h [(Say ''CRC mismatch on compressed exe section.\<newline>Wanted: 0x'', True), (Data (hex (unat crc)), False),
           (Say '', got 0x'', False), (Data (hex (unat (crc32 h packed))), False), (Say ''\<newline>'', False)] s)
       else let len = unat (packed_size * 3) in
         if \<not> malloc h len then give_up h ''Out of memory allocating buffer for decompressed exe section.\<newline>'' s
         else unpack_loop k h packed len s
     else if \<not> malloc h 0 then give_up h ''Out of memory allocating dummy buffer for exe section.\<newline>'' s
     else proceed [] s)"

definition give_image :: "('f, 'l, 'i) client \<Rightarrow> (u8 list \<Rightarrow> u8 list \<Rightarrow> 'l \<Rightarrow> bool \<times> 'l) \<Rightarrow> u8 list \<Rightarrow> u8 list \<Rightarrow>
    ('l, 'i) psf_load_state \<Rightarrow> (unit, 'l, 'i) stage" where
  "give_image h g exe reserved s =
     (let s1 = psf_status h (Say ''Passing exe and reserved back out.\<newline>'') True s;
          (refused, c) = g exe reserved (load_context s1); s2 = s1\<lparr>load_context := c\<rparr> in
      if refused then give_up h ''Data handler returned an error.\<newline>'' s2 else proceed () s2)"

type_synonym ('l, 'i) loader = "cstring \<Rightarrow> ('l, 'i) psf_load_state \<Rightarrow> (u8, 'l, 'i) stage"

definition load_lib :: "('f, 'l, 'i) client \<Rightarrow> ('l, 'i) loader \<Rightarrow> psf_tag list \<Rightarrow> ('l, 'i) psf_load_state \<Rightarrow> (unit, 'l, 'i) stage" where
  "load_lib h load ts s = (case find_tag ts (ascii ''_lib'') of
     None \<Rightarrow> proceed () s
   | Some (n, v) \<Rightarrow> attempt (load v (statuses h [(Say ''Found _lib: '', True), (Data v, False), (Say ''\<newline>'', False)] s))
       (\<lambda>_. proceed ()))"

text \<open>The libraries \<^verbatim>\<open>_lib2\<close>, \<^verbatim>\<open>_lib3\<close> and so on, up to the first missing number.\<close>

definition lib_name :: "nat \<Rightarrow> cstring" where
  "lib_name n = ascii ''_lib'' @ dec n"

primrec load_libs :: "nat \<Rightarrow> ('f, 'l, 'i) client \<Rightarrow> ('l, 'i) loader \<Rightarrow> psf_tag list \<Rightarrow> nat \<Rightarrow>
    ('l, 'i) psf_load_state \<Rightarrow> (unit, 'l, 'i) stage" where
  "load_libs 0 h load ts n s = Fail OutOfFuel"
| "load_libs (Suc k) h load ts n s = (case find_tag ts (lib_name n) of
     None \<Rightarrow> proceed () s
   | Some (m, v) \<Rightarrow> attempt (load v (statuses h [(Say ''Found '', True), (Data m, False), (Say '': '', False), (Data v, False), (Say ''\<newline>'', False)] s))
       (\<lambda>_. load_libs k h load ts (n + 1)))"

text \<open>
  What happens while the file is open, and after it is closed, which it is at the end of the first
  part in every case.
\<close>

definition while_open :: "('f, 'l, 'i) client \<Rightarrow> ('l, 'i) loader \<Rightarrow> 'f \<Rightarrow> ('l, 'i) psf_load_state \<Rightarrow>
    (header \<times> psf_tag list \<times> (u8 list \<times> u8 list) option, 'l, 'i) stage" where
  "while_open h load f s =
     attempt (read_psf_header h f s) (\<lambda>(hdr, f1) s1.
     attempt (read_tags h hdr f1 s1) (\<lambda>(ts, f2) s2.
     if load_target h = None then proceed (hdr, ts, None) s2
     else attempt (load_lib h load ts s2) (\<lambda>_ s3.
       attempt (read_sections h hdr f2 s3) (\<lambda>sections. proceed (hdr, ts, Some sections)))))"

definition after_close :: "nat \<Rightarrow> ('f, 'l, 'i) client \<Rightarrow> ('l, 'i) loader \<Rightarrow> header \<times> psf_tag list \<times> (u8 list \<times> u8 list) option \<Rightarrow>
    ('l, 'i) psf_load_state \<Rightarrow> (unit, 'l, 'i) stage" where
  "after_close k h load r s = (case r of (hdr, ts, sections) \<Rightarrow>
     case (sections, load_target h) of
       (Some (reserved, packed), Some g) \<Rightarrow>
         attempt (unpack_exe k h hdr packed (psf_status h (Say ''File closed.\<newline>'') True s)) (\<lambda>exe s1.
         attempt (give_image h g exe reserved s1) (\<lambda>_. load_libs (length ts + 1) h load ts 2))
     | _ \<Rightarrow> proceed () s)"

primrec psf_load_internal :: "nat \<Rightarrow> nat \<Rightarrow> ('f, 'l, 'i) client \<Rightarrow> ('l, 'i) loader" where
  "psf_load_internal 0 k h file_name s = Fail OutOfFuel"
| "psf_load_internal (Suc d) k h file_name s =
     (let s1 = s\<lparr>depth := depth s + 1\<rparr> in
      if depth s1 > max_recursion_depth then give_up h ''Exceeded maximum file nesting depth.\<newline>'' s1
      else case fopen h (base_path s1 @ file_name) of
        None \<Rightarrow> Ok (None, file_status h ''Error opening file: '' file_name s1)
      | Some f \<Rightarrow>
         let s2 = file_status h ''Opened file: '' file_name (s1\<lparr>open_files := open_files s1 + 1\<rparr>); load = psf_load_internal d k h in
         attempt (bind_res (while_open h load f s2) (\<lambda>(r, s3). Ok (r, fclose s3))) (\<lambda>r s4.
         attempt (after_close k h load r s4) (\<lambda>_ s5.
         proceed (fst (fst r)) (s5\<lparr>depth := depth s5 - 1\<rparr>))))"

text \<open>
  \<^verbatim>\<open>psf_load\<close>: the directory of the file is what all its libraries are looked up in. The nesting
  is bounded by the loader itself, \<open>k\<close> bounds the growth of the output buffer.
\<close>

definition split_path :: "cstring \<Rightarrow> cstring \<Rightarrow> cstring \<times> cstring" where
  "split_path uri separators = (case strrpbrk uri separators of None \<Rightarrow> ([], uri)
     | Some p \<Rightarrow> (take (p + 1) uri, drop (p + 1) uri))"

definition psf_load :: "nat \<Rightarrow> ('f, 'l, 'i) client \<Rightarrow> cstring \<Rightarrow> u8 \<Rightarrow> 'l \<Rightarrow> 'i \<Rightarrow> bool \<Rightarrow> (int \<times> ('l, 'i) psf_load_state) res" where
  "psf_load k h uri version l i nested =
     (let s = \<lparr>depth = 0, allowed_version = version, base_path = fst (split_path uri (path_separators h)), info_want_nested_tags = nested,
        load_context = l, info_context = i, status_log = [], open_files = 0\<rparr> in
      if uri = [] \<or> path_separators h = [] then Ok (- 1, s)
      else bind_res (psf_load_internal (Suc max_recursion_depth) k h (snd (split_path uri (path_separators h))) s) (\<lambda>(r, t).
        Ok (case r of None \<Rightarrow> - 1 | Some v \<Rightarrow> uint v, psf_status h (Say ''Done.'') False t)))"

end
