(* ===== verification/PsflibLaws.thy ===== *)
theory PsflibLaws
  imports Psflib
begin

text \<open>
  What \<^verbatim>\<open>psflib\<close> promises: it returns, closes its files and stays inside its buffers whatever its client
  does; over streams that obey the laws of the C library (\<open>stdio\<close>) it hands the images over in the order
  its header file documents; and what a tag line becomes. The locales are interpreted on \<open>disk_client\<close>,
  a client over a disk of byte lists.
\<close>

section \<open>Laws\<close>

subsection \<open>Nesting, handles, return\<close>

text \<open>
  What every stage keeps: the settings, the number of open files, the nesting of a load that goes on, and the bounds
  of the nesting and of the indentation buffer.
\<close>

definition indents_ok :: "('l, 'i) psf_load_state \<Rightarrow> bool" where
  "indents_ok s \<longleftrightarrow> (\<forall>n. Indent n \<in> set (status_log s) \<longrightarrow> n < 16)"

definition moved :: "('l, 'i) psf_load_state \<Rightarrow> 'x option \<times> ('l, 'i) psf_load_state \<Rightarrow> bool" where
  "moved s rt \<longleftrightarrow> (case rt of (r, t) \<Rightarrow> open_files t = open_files s \<and> base_path t = base_path s \<and>
     allowed_version t = allowed_version s \<and> info_want_nested_tags t = info_want_nested_tags s \<and>
     (r \<noteq> None \<longrightarrow> depth t = depth s) \<and> (depth s \<le> 10 \<and> indents_ok s \<longrightarrow> depth t \<le> 11 \<and> indents_ok t))"

lemma moved_refl [simp]: "moved s (r, s)"
  by (simp add: moved_def)

lemma moved_trans: "moved s (Some x, t) \<Longrightarrow> moved t r \<Longrightarrow> moved s r"
  by (auto simp: moved_def)

lemma psf_status_depth [simp]: "depth (psf_status h m b s) = depth s" "open_files (psf_status h m b s) = open_files s"
  "base_path (psf_status h m b s) = base_path s" "allowed_version (psf_status h m b s) = allowed_version s"
  "info_want_nested_tags (psf_status h m b s) = info_want_nested_tags s" "load_context (psf_status h m b s) = load_context s"
  "info_context (psf_status h m b s) = info_context s"
  by (simp_all add: psf_status_def)

definition texts :: "(message \<times> bool) list \<Rightarrow> bool" where
  "texts ms \<longleftrightarrow> (\<forall>n b. (Indent n, b) \<notin> set ms)"

lemma psf_status_moved: "(\<forall>n. m \<noteq> Indent n) \<Longrightarrow> moved s (r, psf_status h m b s)"
  by (auto simp: moved_def indents_ok_def psf_status_def)

lemma statuses_keep: "texts ms \<Longrightarrow> moved s (Some (), statuses h ms s) \<and> load_context (statuses h ms s) = load_context s"
proof (induction ms arbitrary: s)
  case (Cons m ms)
  obtain t b where m: "m = (t, b)" by (cases m)
  have t: "\<forall>n. t \<noteq> Indent n" "texts ms" using Cons.prems by (auto simp: texts_def m)
  have "moved s (Some (), psf_status h t b s)" using t by (intro psf_status_moved)
  then show ?case using Cons.IH[OF t(2), of "psf_status h t b s"]
    by (auto simp: statuses_def m intro: moved_trans)
qed (simp add: statuses_def)

lemma moved_any: "moved s (Some x, t) \<Longrightarrow> moved s (r, t)"
  by (auto simp: moved_def)

lemma statuses_moved [simp]: "texts ms \<Longrightarrow> moved s (r, statuses h ms s)"
  by (rule moved_any[OF conjunct1[OF statuses_keep]])

lemma texts_simps [simp]: "texts []" "texts ((Say m, b) # ms) \<longleftrightarrow> texts ms" "texts ((Data d, b) # ms) \<longleftrightarrow> texts ms"
  by (auto simp: texts_def)

lemma proceed_moved [simp]: "post (proceed x s) (moved s)"
  by (simp add: proceed_def)

lemma give_up_moved [simp]: "post (give_up h m s) (moved s)"
  by (simp add: give_up_def psf_status_moved)

lemma attempt_post:
  assumes "post m P" "\<And>t. P (None, t) \<Longrightarrow> Q (None, t)" "\<And>x t. P (Some x, t) \<Longrightarrow> post (f x t) Q"
  shows "post (attempt m f) Q"
  using assms unfolding attempt_def by (cases m) (auto split: option.split)

lemma attempt_moved: "post m (moved s) \<Longrightarrow> (\<And>x t. moved s (Some x, t) \<Longrightarrow> post (f x t) (moved t)) \<Longrightarrow> post (attempt m f) (moved s)"
  by (erule attempt_post) (simp add: moved_def, blast intro: moved_trans postI dest: postD)

lemma post_from: "moved s (Some x, t) \<Longrightarrow> post r (moved t) \<Longrightarrow> post r (moved s)"
  by (auto simp: post_def intro: moved_trans)

lemma post_case_prod_app: "(\<And>a b. x = (a, b) \<Longrightarrow> post (f a b t) P) \<Longrightarrow> post ((case x of (a, b) \<Rightarrow> f a b) t) P"
  by (cases x) simp

lemmas stage_walk = attempt_moved post_if post_case_option post_case_prod post_case_prod_app post_let proceed_moved give_up_moved

lemma say_from: "post r (moved (psf_status h (Say m) b s)) \<Longrightarrow> post r (moved s)"
  by (rule post_from[where x = "()", OF psf_status_moved]) auto

lemma statuses_from: "texts ms \<Longrightarrow> post r (moved (statuses h ms s)) \<Longrightarrow> post r (moved s)"
  by (rule post_from[where x = "()", OF statuses_moved])

lemma context_from: "post r (moved (s\<lparr>info_context := c\<rparr>)) \<Longrightarrow> post r (moved s)"
    "post r (moved (s\<lparr>load_context := d\<rparr>)) \<Longrightarrow> post r (moved s)"
  by (erule post_from[where x = "()", rotated], simp add: moved_def indents_ok_def)+

lemma read_psf_header_moved: "post (read_psf_header h f s) (moved s)"
  unfolding read_psf_header_def by (intro stage_walk) simp

lemma give_tags_moved: "post (give_tags h g ts s) (moved s)"
proof (induction ts arbitrary: s)
  case (Cons t ts)
  obtain b c where g: "g (fst t) (snd t) (info_context s) = (b, c)" by (cases "g (fst t) (snd t) (info_context s)")
  show ?case
    unfolding give_tags.simps g Let_def prod.case
    by (rule context_from(1)[where c = c]) (simp add: Cons)
qed simp

lemma tag_info_moved: "post (tag_info h ts s) (moved s)"
  unfolding tag_info_def by (intro stage_walk give_tags_moved)

lemma read_tag_block_moved: "post (read_tag_block h n f s) (moved s)"
  unfolding read_tag_block_def by (intro stage_walk tag_info_moved)

lemma read_tags_moved: "post (read_tags h hdr f s) (moved s)"
  unfolding read_tags_def by (intro stage_walk say_from[OF read_tag_block_moved])

lemma read_sections_moved: "post (read_sections h hdr f s) (moved s)"
  unfolding read_sections_def by (intro stage_walk)

lemma unpack_loop_moved: "post (unpack_loop k h packed len s) (moved s)"
  by (induction k arbitrary: len) (auto simp: Let_def split: unzipped.split)

lemma unpack_exe_moved: "post (unpack_exe k h hdr packed s) (moved s)"
  unfolding unpack_exe_def by (intro stage_walk unpack_loop_moved) simp

lemma give_image_moved: "post (give_image h g exe reserved s) (moved s)"
proof -
  define s1 where "s1 = psf_status h (Say ''Passing exe and reserved back out.\<newline>'') True s"
  obtain b c where g: "g exe reserved (load_context s1) = (b, c)" by (cases "g exe reserved (load_context s1)")
  have "post (give_image h g exe reserved s) (moved s1)"
    unfolding give_image_def s1_def[symmetric] Let_def g prod.case
    by (rule context_from(2)[where d = c]) simp
  then show ?thesis unfolding s1_def by (rule say_from)
qed

lemma load_lib_moved:
  assumes "\<And>v s. post (load v s) (moved s)"
  shows "post (load_lib h load ts s) (moved s)"
  unfolding load_lib_def by (intro stage_walk statuses_from[OF _ assms]) simp

lemma load_libs_moved: "(\<And>v s. post (load v s) (moved s)) \<Longrightarrow> post (load_libs k h load ts n s) (moved s)"
proof (induction k arbitrary: n s)
  case (Suc k)
  show ?case unfolding load_libs.simps by (intro stage_walk statuses_from[OF _ Suc.prems] Suc.IH Suc.prems) simp
qed simp

lemma after_close_moved: "(\<And>v s. post (load v s) (moved s)) \<Longrightarrow> post (after_close k h load r s) (moved s)"
  unfolding after_close_def
  by (intro stage_walk say_from[OF unpack_exe_moved] give_image_moved load_libs_moved)

lemma while_open_moved: "(\<And>v s. post (load v s) (moved s)) \<Longrightarrow> post (while_open h load f s) (moved s)"
  unfolding while_open_def by (intro stage_walk read_psf_header_moved read_tags_moved load_lib_moved read_sections_moved)

lemma file_status_moved: "moved s (r, file_status h m n s)"
  by (simp add: file_status_def)

lemma indents_ok_updates [simp]: "indents_ok (s\<lparr>depth := n\<rparr>) = indents_ok s" "indents_ok (s\<lparr>open_files := z\<rparr>) = indents_ok s"
  by (simp_all add: indents_ok_def)

lemma moved_closed: "moved (s\<lparr>open_files := open_files s + 1\<rparr>) (r, t) \<Longrightarrow> moved s (r, fclose t)"
  by (simp add: moved_def fclose_def)

lemma moved_deeper:
  assumes "depth s \<le> 9"
  shows "moved (s\<lparr>depth := depth s + 1\<rparr>) (None, t) \<Longrightarrow> moved s (None, t)"
    "moved (s\<lparr>depth := depth s + 1\<rparr>) (Some x, t) \<Longrightarrow> moved t (None, u) \<Longrightarrow> moved s (None, u)"
    "moved (s\<lparr>depth := depth s + 1\<rparr>) (Some x, t) \<Longrightarrow> moved t (Some y, u) \<Longrightarrow> moved s (Some v, u\<lparr>depth := depth u - 1\<rparr>)"
  using assms by (simp_all add: moved_def)

lemma psf_load_internal_moved: "post (psf_load_internal d k h file_name s) (moved s)"
proof (induction d arbitrary: file_name s)
  case (Suc d)
  define s1 where "s1 = s\<lparr>depth := depth s + 1\<rparr>"
  define load where "load = psf_load_internal d k h"
  have load: "post (load v s) (moved s)" for v s by (simp add: load_def Suc)
  have deep: "moved s (None, psf_status h (Say m) b s1)" if "\<not> depth s \<le> 9" for m b
    using that by (auto simp: moved_def s1_def indents_ok_def psf_status_def)
  have opened: "post (attempt (bind_res (while_open h load f s2) (\<lambda>(r, s3). Ok (r, fclose s3))) (\<lambda>r s4.
         attempt (after_close k h load r s4) (\<lambda>_ s5. proceed (fst (fst r)) (s5\<lparr>depth := depth s5 - 1\<rparr>)))) (moved s)"
    if low: "depth s \<le> 9" and s2: "moved (s1\<lparr>open_files := open_files s1 + 1\<rparr>) (Some (), s2)" for f s2
  proof (rule attempt_post[where P = "moved s1"])
    show "post (bind_res (while_open h load f s2) (\<lambda>(r, s3). Ok (r, fclose s3))) (moved s1)"
    proof (rule post_bind[OF while_open_moved[OF load]])
      fix x assume "moved s2 x"
      from moved_trans[OF s2 this] show "post (case x of (r, s3) \<Rightarrow> Ok (r, fclose s3)) (moved s1)"
        by (cases x) (simp add: moved_closed)
    qed
  next
    fix t assume "moved s1 (None, t)"
    then show "moved s (None, t)" using moved_deeper(1)[OF low] by (simp add: s1_def)
  next
    fix r :: "header \<times> psf_tag list \<times> (u8 list \<times> u8 list) option" and t
    assume t: "moved s1 (Some r, t)"
    show "post (attempt (after_close k h load r t) (\<lambda>_ s5. proceed (fst (fst r)) (s5\<lparr>depth := depth s5 - 1\<rparr>))) (moved s)"
      using moved_deeper(2,3)[OF low t[unfolded s1_def]]
      by (intro attempt_post[OF after_close_moved[OF load]]) (simp_all add: proceed_def)
  qed
  show ?case
  proof (cases "depth s \<le> 9")
    case True
    then have "post (Ok (None, file_status h m n s1)) (moved s)" for m n
      using moved_deeper(1)[OF True file_status_moved] by (simp add: s1_def)
    then show ?thesis
      unfolding psf_load_internal.simps s1_def[symmetric] Let_def load_def[symmetric]
      using True opened[OF True file_status_moved]
      by (auto simp: s1_def max_recursion_depth_def split: option.split)
  next
    case False
    then show ?thesis
      unfolding psf_load_internal.simps s1_def[symmetric] Let_def
      using deep[OF False] by (simp add: s1_def max_recursion_depth_def give_up_def)
  qed
qed simp

subsection \<open>Loading returns\<close>

definition answers :: "'a res \<Rightarrow> bool" where
  "answers r \<longleftrightarrow> (\<exists>y. r = Ok y)"

lemma answers_Ok [simp]: "answers (Ok x)" "\<not> answers (Fail e)"
  by (simp_all add: answers_def)

lemma answers_bind: "answers m \<Longrightarrow> (\<And>x. m = Ok x \<Longrightarrow> answers (f x)) \<Longrightarrow> answers (bind_res m f)"
  by (auto simp: answers_def)

lemma answers_if: "(b \<Longrightarrow> answers m) \<Longrightarrow> (\<not> b \<Longrightarrow> answers m') \<Longrightarrow> answers (if b then m else m')"
  by simp

lemma answers_case_option: "(x = None \<Longrightarrow> answers a) \<Longrightarrow> (\<And>y. x = Some y \<Longrightarrow> answers (b y)) \<Longrightarrow>
    answers (case x of None \<Rightarrow> a | Some y \<Rightarrow> b y)"
  by (cases x) auto

lemma answers_case_prod: "(\<And>a b. x = (a, b) \<Longrightarrow> answers (f a b)) \<Longrightarrow> answers (case x of (a, b) \<Rightarrow> f a b)"
  "(\<And>a b. x = (a, b) \<Longrightarrow> answers (g a b t)) \<Longrightarrow> answers ((case x of (a, b) \<Rightarrow> g a b) t)"
  by (cases x, simp)+

lemma answers_let: "(\<And>x. x = v \<Longrightarrow> answers (f x)) \<Longrightarrow> answers (Let v f)"
  by simp

lemma answers_attempt: "answers m \<Longrightarrow> (\<And>x t. m = Ok (Some x, t) \<Longrightarrow> answers (f x t)) \<Longrightarrow> answers (attempt m f)"
  unfolding attempt_def by (auto split: option.split intro!: answers_bind)

lemma answers_stage [simp]: "answers (proceed x s)" "answers (give_up h m s)"
  by (simp_all add: proceed_def give_up_def)

lemmas answers_walk = answers_attempt answers_if answers_case_option answers_case_prod answers_let answers_stage answers_Ok(1)

lemma answers_stages: "answers (read_psf_header h f s)" "answers (give_tags h g ts s)" "answers (tag_info h ts s)"
    "answers (read_tags h hdr f s)" "answers (read_sections h hdr f s)" "answers (give_image h gi exe reserved s)"
proof -
  show give: "answers (give_tags h g ts s)" for h g ts s
    by (induction ts arbitrary: s) (auto simp: Let_def split: prod.split)
  show info: "answers (tag_info h ts s)" for h ts s
    unfolding tag_info_def by (intro answers_walk give)
  show "answers (read_psf_header h f s)" unfolding read_psf_header_def by (intro answers_walk)
  show "answers (read_tags h hdr f s)" unfolding read_tags_def read_tag_block_def by (intro answers_walk info)
  show "answers (read_sections h hdr f s)" unfolding read_sections_def by (intro answers_walk)
  show "answers (give_image h gi exe reserved s)" unfolding give_image_def by (intro answers_walk)
qed

text \<open>Memory is finite: no buffer of \<open>2 ^ 20 * k\<close> bytes or more can be had.\<close>

definition memory_below :: "nat \<Rightarrow> ('f, 'l, 'i) client \<Rightarrow> bool" where
  "memory_below k h \<longleftrightarrow> k < 2 ^ 40 \<and> (\<forall>n. malloc h n \<longrightarrow> n < 1048576 * k)"

lemma answers_unpack_loop:
  assumes "memory_below k h" "malloc h len" "1048576 * k < len + 1048576 * j"
  shows "answers (unpack_loop j h packed len s)"
  using assms(2,3)
proof (induction j arbitrary: len)
  case 0
  then show ?case using assms(1) by (auto simp: memory_below_def)
next
  case (Suc j)
  have small: "len < 1048576 * k" "k < 1099511627776" using assms(1) Suc.prems(1) by (auto simp: memory_below_def)
  then have "(len + len) mod 18446744073709551616 = len + len" by (intro mod_less) linarith
  then show ?case
    using Suc.IH Suc.prems small by (simp add: Let_def split: unzipped.split)
qed

lemma answers_unpack_exe: "memory_below k h \<Longrightarrow> answers (unpack_exe (Suc k) h hdr packed s)"
  unfolding unpack_exe_def
  by (intro answers_walk) (auto intro: answers_unpack_loop simp del: unpack_loop.simps)

lemma lower_dec: "map c_lower (dec n) = dec n"
proof (rule map_idI)
  fix c assume "c \<in> set (dec n)"
  then have "c \<le> 57" using dec_digits[of n] by (simp add: is_digit_def)
  then have "\<not> 65 \<le> c" using order_trans[of 65 c 57] by auto
  then show "c_lower c = c" by (simp add: c_lower_def)
qed

lemma lib_name_inj:
  assumes "same_nocase m (lib_name i)" "same_nocase m (lib_name j)"
  shows "i = j"
proof -
  have "map c_lower (lib_name i) = map c_lower (lib_name j)"
    using assms unfolding same_nocase_def by (rule trans[OF sym])
  then have "dec i = dec j" by (simp only: lib_name_def map_append lower_dec same_append_eq)
  then have "digits_value (dec i) = digits_value (dec j)" by (rule arg_cong)
  then show "i = j" by (simp add: digits_value_dec)
qed

lemma found_libs_bound:
  assumes "\<forall>i \<in> {2..<n}. find_tag ts (lib_name i) \<noteq> None"
  shows "n \<le> length ts + 2"
proof -
  have "\<exists>p < length ts. same_nocase (fst (ts ! p)) (lib_name i)" if i: "i \<in> {2..<n}" for i
  proof -
    have "lib_name i \<noteq> []" by (simp add: lib_name_def ascii_def)
    then obtain tag where "find (\<lambda>(n, v). same_nocase n (lib_name i)) ts = Some tag"
      using bspec[OF assms i] by (cases "find (\<lambda>(n, v). same_nocase n (lib_name i)) ts") (simp_all add: find_tag_def)
    then show ?thesis by (auto simp: find_Some_iff)
  qed
  then obtain p where p: "\<And>i. i \<in> {2..<n} \<Longrightarrow> p i < length ts \<and> same_nocase (fst (ts ! p i)) (lib_name i)"
    by metis
  have "inj_on p {2..<n}" by (intro inj_onI) (metis lib_name_inj p)
  moreover have "p ` {2..<n} \<subseteq> {..<length ts}" using p by auto
  ultimately have "card {2..<n} \<le> card {..<length ts}" by (intro card_inj_on_le) auto
  then show ?thesis by simp
qed

lemma answers_load_libs:
  assumes load: "\<And>v t. depth t = depth s \<Longrightarrow> answers (load v t)" "\<And>v t. post (load v t) (moved t)"
    and "\<forall>i \<in> {2..<n}. find_tag ts (lib_name i) \<noteq> None" "length ts + 3 \<le> n + j" "depth t = depth s"
  shows "answers (load_libs j h load ts n t)"
  using assms(3-)
proof (induction j arbitrary: n t)
  case 0
  then show ?case using found_libs_bound[of n ts] by simp
next
  case (Suc j)
  show ?case
  proof (cases "find_tag ts (lib_name n)")
    case (Some tag)
    obtain m v where m: "tag = (m, v)" by (cases tag)
    define u where "u = statuses h [(Say ''Found '', True), (Data m, False), (Say '': '', False), (Data v, False), (Say ''\<newline>'', False)] t"
    have u: "moved t (Some (), u)" by (simp add: u_def)
    have "answers (load v u)" using load(1) u Suc.prems(3) by (simp add: moved_def)
    moreover have "answers (load_libs j h load ts (n + 1) w)" if "load v u = Ok (Some x, w)" for x w
    proof (rule Suc.IH)
      show "\<forall>i \<in> {2..<n + 1}. find_tag ts (lib_name i) \<noteq> None" using Suc.prems(1) Some less_Suc_eq by auto
      have "moved u (Some x, w)" using postD[OF load(2) that] .
      then show "depth w = depth s" using u Suc.prems(3) by (simp add: moved_def)
    qed (use Suc.prems(2) in simp)
    ultimately show ?thesis by (simp add: Some m u_def[symmetric]) (rule answers_attempt)
  qed simp
qed

lemma statuses_depth: "texts ms \<Longrightarrow> depth (statuses h ms s) = depth s"
  using statuses_moved[of ms s "Some ()" h] by (simp add: moved_def)

lemma same_depth: "post m (moved s) \<Longrightarrow> m = Ok (Some x, t) \<Longrightarrow> depth t = depth s"
  by (auto simp: post_def moved_def)

lemma answers_while_open:
  assumes "\<And>v t. depth t = depth s \<Longrightarrow> answers (load v t)"
  shows "answers (while_open h load f s)"
proof -
  have "answers (load_lib h load ts t)" if "depth t = depth s" for ts t
    unfolding load_lib_def
    by (intro answers_walk assms) (simp add: that statuses_depth)
  then show ?thesis
    unfolding while_open_def
    by (intro answers_walk answers_stages) (auto dest!: same_depth[OF read_psf_header_moved] same_depth[OF read_tags_moved])
qed

lemma answers_after_close:
  assumes "\<And>v t. depth t = depth s \<Longrightarrow> answers (load v t)" "\<And>v t. post (load v t) (moved t)" "memory_below k h"
  shows "answers (after_close (Suc k) h load r s)"
  unfolding after_close_def
  by (intro answers_walk answers_stages answers_unpack_exe[OF assms(3)] answers_load_libs[OF assms(1,2)] answers_stages(6))
    (auto simp: answers_stages dest!: same_depth[OF unpack_exe_moved] same_depth[OF give_image_moved])

lemma answers_load_internal:
  assumes "memory_below k h"
  shows "0 < d \<Longrightarrow> 11 \<le> depth s + d \<Longrightarrow> answers (psf_load_internal d (Suc k) h file_name s)"
proof (induction d arbitrary: file_name s)
  case (Suc d)
  define s1 where "s1 = s\<lparr>depth := depth s + 1\<rparr>"
  define load where "load = psf_load_internal d (Suc k) h"
  show ?case
  proof (cases "depth s1 > max_recursion_depth")
    case True
    then show ?thesis unfolding psf_load_internal.simps s1_def[symmetric] Let_def by simp
  next
    case False
    have load: "answers (load v t)" if "depth t = depth s1" for v t
      unfolding load_def using that Suc.prems False by (intro Suc.IH) (auto simp: s1_def max_recursion_depth_def)
    have post: "post (load v t) (moved t)" for v t unfolding load_def by (rule psf_load_internal_moved)
    have status: "depth (file_status h m n u) = depth u" for m n u
      using file_status_moved[of u "Some ()" h m n] by (simp add: moved_def)
    have opened: "answers (attempt (bind_res (while_open h load f s2) (\<lambda>(r, s3). Ok (r, fclose s3))) (\<lambda>r s4.
         attempt (after_close (Suc k) h load r s4) (\<lambda>_ s5. proceed (fst (fst r)) (s5\<lparr>depth := depth s5 - 1\<rparr>))))"
      if s2: "depth s2 = depth s1" for f s2
    proof (rule answers_attempt)
      show "answers (bind_res (while_open h load f s2) (\<lambda>(r, s3). Ok (r, fclose s3)))"
        by (intro answers_bind answers_while_open) (auto simp: s2 load)
    next
      fix r t assume "bind_res (while_open h load f s2) (\<lambda>(r, s3). Ok (r, fclose s3)) = Ok (Some r, t)"
      then obtain u where u: "while_open h load f s2 = Ok (Some r, u)" "t = fclose u" by (auto simp: bind_res_Ok_iff)
      have "depth t = depth s1" using same_depth[OF while_open_moved[OF post] u(1)] u(2) s2 by (simp add: fclose_def)
      then show "answers (attempt (after_close (Suc k) h load r t) (\<lambda>_ s5. proceed (fst (fst r)) (s5\<lparr>depth := depth s5 - 1\<rparr>)))"
        by (intro answers_attempt answers_after_close[OF _ post assms]) (simp_all add: load)
    qed
    show ?thesis
      unfolding psf_load_internal.simps s1_def[symmetric] Let_def load_def[symmetric]
      using False opened[of "file_status h ''Opened file: '' file_name (s1\<lparr>open_files := open_files s1 + 1\<rparr>)"]
      by (auto simp: status split: option.split)
  qed
qed simp

text \<open>C6: on every input, and whatever its client's callbacks answer, \<^verbatim>\<open>psf_load\<close> returns, provided
  memory is finite; it never nests deeper than eleven calls, its indentation stays inside \<^verbatim>\<open>indent[16]\<close>, and
  every file it opened is closed again, on all its error paths too.\<close>
theorem psf_load_safe:
  assumes "memory_below k h"
  shows "\<exists>r t. psf_load (Suc k) h uri version l i nested = Ok (r, t) \<and> open_files t = 0 \<and> depth t \<le> 11 \<and>
    (\<forall>n. Indent n \<in> set (status_log t) \<longrightarrow> n < 16)"
proof -
  define name where "name = snd (split_path uri (path_separators h))"
  define s where "s = \<lparr>depth = 0, allowed_version = version, base_path = fst (split_path uri (path_separators h)),
    info_want_nested_tags = nested, load_context = l, info_context = i, status_log = [], open_files = 0\<rparr>"
  have s: "depth s = 0" "open_files s = 0" "indents_ok s" by (simp_all add: s_def indents_ok_def)
  obtain r t where rt: "psf_load_internal (Suc max_recursion_depth) (Suc k) h name s = Ok (r, t)"
    using answers_load_internal[OF assms, of "Suc max_recursion_depth" s name] by (auto simp: answers_def max_recursion_depth_def)
  then have m: "moved s (r, t)" using psf_load_internal_moved[of "Suc max_recursion_depth" "Suc k" h name s] by (simp add: post_def)
  have run: "psf_load (Suc k) h uri version l i nested = (if uri = [] \<or> path_separators h = [] then Ok (- 1, s)
      else Ok (case r of None \<Rightarrow> - 1 | Some v \<Rightarrow> uint v, psf_status h (Say ''Done.'') False t))"
    unfolding psf_load_def Let_def s_def[symmetric] name_def[symmetric] rt by simp
  have "open_files t = 0" "depth t \<le> 11" "indents_ok t" using m s by (auto simp: moved_def)
  moreover from this have "indents_ok (psf_status h (Say ''Done.'') False t)" by (auto simp: indents_ok_def psf_status_def)
  ultimately show ?thesis using s unfolding run by (simp add: indents_ok_def)
qed

subsection \<open>The order of the images\<close>

text \<open>
  What a file says, read off its bytes: version, tags, program and reserved section. \<open>unz\<close> and \<open>crc\<close> are
  decompression and checksum.
\<close>

type_synonym image = "u8 list \<times> u8 list"

definition psf_bytes :: "u8 \<Rightarrow> (u8 list \<Rightarrow> u8 list option) \<Rightarrow> (u8 list \<Rightarrow> u32) \<Rightarrow> u8 list \<Rightarrow> (u8 \<times> psf_tag list \<times> image) option" where
  "psf_bytes version unz crc b =
     (let r = unat (le32 (b ! 4) (b ! 5) (b ! 6) (b ! 7)); p = unat (le32 (b ! 8) (b ! 9) (b ! 10) (b ! 11));
          packed = take p (drop (16 + r) b); rest = drop (16 + r + p) b in
      if length b < 16 \<or> take 3 b \<noteq> [80, 83, 70] \<or> (version \<noteq> 0 \<and> b ! 3 \<noteq> version) \<or> length b < 16 + r + p then None
      else map_option (\<lambda>exe. (b ! 3, if take 5 rest = ascii ''[TAG]'' then process_tags (drop 5 rest) else [], exe, take r (drop 16 b)))
        (if p = 0 then Some []
         else if crc packed = le32 (b ! 12) (b ! 13) (b ! 14) (b ! 15) then unz packed else None))"

definition first_lib :: "psf_tag list \<Rightarrow> cstring list" where
  "first_lib ts = (case find_tag ts (ascii ''_lib'') of None \<Rightarrow> [] | Some (n, v) \<Rightarrow> [v])"

definition numbered_libs :: "psf_tag list \<Rightarrow> nat \<Rightarrow> cstring list" where
  "numbered_libs ts n = map (\<lambda>i. snd (the (find_tag ts (lib_name i))))
     (takeWhile (\<lambda>i. find_tag ts (lib_name i) \<noteq> None) [n..<length ts + 3])"

primrec images_of :: "(cstring \<Rightarrow> (u8 \<times> image list) option) \<Rightarrow> cstring list \<Rightarrow> image list option" where
  "images_of f [] = Some []"
| "images_of f (l # ls) = (case f l of None \<Rightarrow> None
     | Some (v, is) \<Rightarrow> map_option (\<lambda>js. is @ js) (images_of f ls))"

text \<open>
  The images of a file, at most \<open>d\<close> files deep: those of its \<^verbatim>\<open>_lib\<close>, its own, those of \<^verbatim>\<open>_lib2\<close>,
  \<^verbatim>\<open>_lib3\<close> and so on.
\<close>

primrec images :: "nat \<Rightarrow> (cstring \<Rightarrow> (u8 \<times> psf_tag list \<times> image) option) \<Rightarrow> cstring \<Rightarrow> (u8 \<times> image list) option" where
  "images 0 F name = None"
| "images (Suc d) F name = (case F name of None \<Rightarrow> None
     | Some (v, ts, im) \<Rightarrow> (case images_of (images d F) (first_lib ts) of None \<Rightarrow> None
        | Some before \<Rightarrow> map_option (\<lambda>after. (v, before @ im # after)) (images_of (images d F) (numbered_libs ts 2))))"

text \<open>The files behind the callbacks: the laws of the C library's streams, for files of less than 4 GB.\<close>

locale stdio =
  fixes h :: "('f, 'l, 'i) client" and files :: "cstring \<Rightarrow> u8 list option" and text_of :: "'f \<Rightarrow> u8 list" and at :: "'f \<Rightarrow> nat"
  assumes fopen_None: "files p = None \<Longrightarrow> fopen h p = None"
    and fopen_Some: "files p = Some b \<Longrightarrow> \<exists>f. fopen h p = Some f \<and> text_of f = b \<and> at f = 0"
    and fread: "\<exists>g. fread h n f = (take n (drop (at f) (text_of f)), g) \<and> text_of g = text_of f \<and>
      at g = at f + length (take n (drop (at f) (text_of f)))"
    and fseek_set: "\<exists>g. fseek h (int n) SEEK_SET f = Some g \<and> text_of g = text_of f \<and> at g = n"
    and fseek_end: "\<exists>g. fseek h 0 SEEK_END f = Some g \<and> text_of g = text_of f \<and> at g = length (text_of f)"
    and fseek_cur: "z \<le> at f \<Longrightarrow> \<exists>g. fseek h (- int z) SEEK_CUR f = Some g \<and> text_of g = text_of f \<and> at g = at f - z"
    and fseek_text: "fseek h off w f = Some e \<Longrightarrow> text_of e = text_of f"
    and ftell: "ftell h f = int (at f)"
    and small: "files p = Some b \<Longrightarrow> length b < 4294967275"
begin

lemma header_bad:
  assumes "at f = 0" "length (text_of f) < 16 \<or> take 3 (text_of f) \<noteq> [80, 83, 70] \<or>
    (allowed_version s \<noteq> 0 \<and> text_of f ! 3 \<noteq> allowed_version s)"
  shows "\<exists>t. read_psf_header h f s = Ok (None, t)"
  using fread[of 16 f] assms by (auto simp: read_psf_header_def Let_def give_up_def min_def)

lemma header_good:
  fixes f :: 'f and s :: "('l, 'i) psf_load_state"
  defines "b \<equiv> text_of f"
  assumes "at f = 0" "16 \<le> length b" "take 3 b = [80, 83, 70]" "allowed_version s = 0 \<or> b ! 3 = allowed_version s"
  obtains g where "read_psf_header h f s = Ok (Some ((b ! 3, le32 (b ! 4) (b ! 5) (b ! 6) (b ! 7),
      le32 (b ! 8) (b ! 9) (b ! 10) (b ! 11), le32 (b ! 12) (b ! 13) (b ! 14) (b ! 15)), g), s)" "text_of g = b" "at g = 16"
  using fread[of 16 f] assms by (auto simp: read_psf_header_def Let_def proceed_def min_def)

end

lemma statuses_context [simp]: "texts ms \<Longrightarrow> load_context (statuses h ms s) = load_context s"
  using statuses_keep by blast

lemma sizes_sum:
  assumes "16 + unat r + unat p \<le> n" "n < 4294967275"
  shows "uint (16 + r + p :: u32) = 16 + uint r + uint p" "uint (16 + r + p + 5 :: u32) = 21 + uint r + uint p"
proof -
  have i: "int (unat w) = uint w" for w :: u32 by simp
  have n: "16 + uint r + uint p + 5 < 4294967296" using assms i[of r] i[of p] by linarith
  have pos: "0 \<le> uint p" "0 \<le> uint r" by simp_all
  have le: "16 + uint r < 4294967296" "16 + uint r + uint p < 4294967296" using n pos by linarith+
  have s: "uint (16 + r :: u32) = 16 + uint r" using le(1) by (subst uint_plus_32) simp
  show a: "uint (16 + r + p :: u32) = 16 + uint r + uint p" using le(2) by (subst uint_plus_32) (simp add: s)
  show "uint (16 + r + p + 5 :: u32) = 21 + uint r + uint p" using n by (subst uint_plus_32) (simp add: a)
qed

definition file_tags :: "u8 list \<Rightarrow> psf_tag list" where
  "file_tags rest = (if take 5 rest = ascii ''[TAG]'' then process_tags (drop 5 rest) else [])"

locale accepting = stdio +
  fixes g :: "u8 list \<Rightarrow> u8 list \<Rightarrow> 'b \<Rightarrow> bool \<times> 'b" and unz :: "u8 list \<Rightarrow> u8 list option" and k :: nat
  assumes malloc: "malloc h n"
    and no_info: "info_target h = None"
    and target: "load_target h = Some g"
    and accepts: "fst (g exe res c) = False"
    and uncompress: "uncompress h n packed = (case unz packed of None \<Rightarrow> Z_BAD | Some out \<Rightarrow> if length out \<le> n then Z_OK out else Z_MORE)"
    and out_size: "unz packed = Some out \<Longrightarrow> length out \<le> 1048576 * k"
    and room: "k < 2 ^ 40"
begin

lemma tags_good:
  fixes f :: 'a and s :: "('b, 'c) psf_load_state"
  defines "b \<equiv> text_of f"
  assumes "16 + unat rs + unat ps \<le> length b" "length b < 4294967275"
  obtains f1 t where "read_tags h (v, rs, ps, c) f s = Ok (Some (file_tags (drop (16 + unat rs + unat ps) b), f1), t)"
    "text_of f1 = b" "load_context t = load_context s"
proof -
  define n where "n = 16 + unat rs + unat ps"
  obtain e where e: "fseek h 0 SEEK_END f = Some e" "text_of e = b" "at e = length b"
    using fseek_end[of f] by (auto simp: b_def)
  note sums = sizes_sum[OF assms(2,3)]
  have i: "int (unat rs) = uint rs" "int (unat ps) = uint ps" by simp_all
  have pos: "0 < length b" using assms(2) by linarith
  show ?thesis
  proof (cases "n + 5 \<le> length b")
    case False
    then have short: "\<not> 21 + uint rs + uint ps \<le> int (length b)" using i unfolding n_def by linarith
    have "length (drop n b) < 5" using False by simp
    then have "take 5 (drop n b) \<noteq> ascii ''[TAG]''" by (auto simp: ascii_def dest!: arg_cong[where f = length])
    then have "read_tags h (v, rs, ps, c) f s = Ok (Some (file_tags (drop (16 + unat rs + unat ps) b), e), s)"
      using short e sums pos by (simp add: read_tags_def ftell n_def file_tags_def proceed_def Let_def)
    then show ?thesis using that e(2) by blast
  next
    case True
    then have long: "21 + uint rs + uint ps \<le> int (length b)" using i unfolding n_def by linarith
    define m where "m = length b - n"
    have m: "int (length b) - uint (16 + rs + ps) = int m" using long i sums(1) unfolding m_def n_def by linarith
    have m_bound: "m < 4294967275" "5 \<le> m" using True assms(3) unfolding m_def by linarith+
    have size: "as_size (int m) = m" using m_bound(1) by (simp add: as_size_def)
    obtain d where d: "fseek h (- int m) SEEK_CUR e = Some d" "text_of d = b" "at d = n"
      using fseek_cur[of m e] e True by (auto simp: m_def)
    obtain f1 where f1: "fread h m d = (drop n b, f1)" "text_of f1 = b"
      using fread[of m d] d by (auto simp: m_def)
    define s1 where "s1 = psf_status h (Say ''Tag detected, attempting to read it.\<newline>'') True s"
    have "read_tag_block h (int m) e s1 = Ok (Some (file_tags (drop n b), f1), s1)"
      using d f1 size malloc no_info m_bound
      by (simp add: read_tag_block_def Let_def file_tags_def[symmetric] tag_info_def proceed_def attempt_def m_def)
    then have "read_tags h (v, rs, ps, c) f s = Ok (Some (file_tags (drop (16 + unat rs + unat ps) b), f1), s1)"
      using e m sums pos long by (simp add: read_tags_def ftell Let_def s1_def[symmetric] n_def)
    moreover have "load_context s1 = load_context s" by (simp add: s1_def)
    ultimately show ?thesis using that f1(2) by blast
  qed
qed

lemma sections_short:
  assumes "length (text_of f) < 16 + unat rs + unat ps" "16 \<le> length (text_of f)"
  shows "\<exists>t. read_sections h (v, rs, ps, c) f s = Ok (None, t)"
proof -
  obtain e where e: "fseek h 16 SEEK_SET f = Some e" "text_of e = text_of f" "at e = 16" using fseek_set[of 16 f] by auto
  obtain f1 where f1: "fread h (unat rs) e = (take (unat rs) (drop 16 (text_of f)), f1)" "text_of f1 = text_of f"
      "at f1 = 16 + length (take (unat rs) (drop 16 (text_of f)))" using fread[of "unat rs" e] e by auto
  obtain f2 where f2: "fread h (unat ps) f1 = (take (unat ps) (drop (at f1) (text_of f)), f2)" using fread[of "unat ps" f1] f1 by auto
  obtain f3 where f3: "fread h (unat ps) e = (take (unat ps) (drop 16 (text_of f)), f3)" using fread[of "unat ps" e] e by auto
  show ?thesis
    using assms malloc e(1) f1 f2 f3 unat_gt_0[of rs] unat_gt_0[of ps]
    by (cases "rs = 0"; cases "ps = 0") (auto simp: read_sections_def give_up_def Let_def proceed_def min_def)
qed

lemma sections_good:
  fixes f :: 'a and s :: "('b, 'c) psf_load_state"
  assumes "16 + unat rs + unat ps \<le> length (text_of f)"
  shows "read_sections h (v, rs, ps, c) f s =
    Ok (Some (take (unat rs) (drop 16 (text_of f)), take (unat ps) (drop (16 + unat rs) (text_of f))), s)"
proof -
  obtain e where e: "fseek h 16 SEEK_SET f = Some e" "text_of e = text_of f" "at e = 16" using fseek_set[of 16 f] by auto
  have "length (take (unat rs) (drop 16 (text_of f))) = unat rs" using assms by simp
  then obtain f1 where f1: "fread h (unat rs) e = (take (unat rs) (drop 16 (text_of f)), f1)" "text_of f1 = text_of f"
      "at f1 = 16 + unat rs" using fread[of "unat rs" e] e by auto
  obtain f2 where f2: "fread h (unat ps) f1 = (take (unat ps) (drop (16 + unat rs) (text_of f)), f2)" using fread[of "unat ps" f1] f1 by auto
  obtain f3 where f3: "fread h (unat ps) e = (take (unat ps) (drop 16 (text_of f)), f3)" using fread[of "unat ps" e] e by auto
  show ?thesis
    using assms malloc e(1) f1(1) f2 f3
    by (cases "rs = 0"; cases "ps = 0") (simp_all add: read_sections_def Let_def proceed_def)
qed

lemma unpack_loop_done:
  assumes "length out \<le> len + 1048576 * j" "unz packed = Some out"
  shows "unpack_loop (Suc j) h packed len s = Ok (Some out, s)"
  using assms(1)
proof (induction j arbitrary: len)
  case 0
  then show ?case using assms(2) by (simp add: uncompress proceed_def)
next
  case (Suc j)
  show ?case
  proof (cases "length out \<le> len")
    case True
    then show ?thesis using assms(2) by (simp add: uncompress proceed_def)
  next
    case False
    define more where "more = (if len < 1048576 then len + 1048576 else (len + len) mod 2 ^ 64)"
    have l: "len < 1048576 * k" "k < 1099511627776" using False out_size[OF assms(2)] room by simp_all
    then have "(len + len) mod 18446744073709551616 = len + len" by (intro mod_less) linarith
    then have "length out \<le> more + 1048576 * j" using Suc.prems by (simp add: more_def)
    from Suc.IH[OF this] show ?thesis
      using False assms(2) malloc by (subst unpack_loop.simps) (simp add: uncompress more_def[symmetric] del: unpack_loop.simps)
  qed
qed

lemma unpack_exe_result:
  "\<exists>t. unpack_exe (Suc k) h (v, rs, ps, c) packed s =
    Ok (if ps = 0 then Some [] else if crc32 h packed = c then unz packed else None, t) \<and> load_context t = load_context s"
proof (cases "ps = 0 \<or> crc32 h packed \<noteq> c")
  case True
  then show ?thesis
    using malloc by (auto simp: unpack_exe_def proceed_def)
next
  case False
  show ?thesis
  proof (cases "unz packed")
    case None
    then show ?thesis using False malloc by (auto simp: unpack_exe_def Let_def uncompress give_up_def)
  next
    case (Some out)
    then show ?thesis using False malloc unpack_loop_done[of out _ k packed] out_size[of packed out]
      by (simp add: unpack_exe_def Let_def del: unpack_loop.simps)
  qed
qed

lemma tags_text:
  assumes "read_tags h hdr f s = Ok (Some (ts, f2), t)"
  shows "text_of f2 = text_of f"
proof -
  have block: "text_of f2 = text_of e" if "read_tag_block h z e u = Ok (Some (ts, f2), t)" for z e u
    using that fread[of "as_size z"]
    by (auto simp: read_tag_block_def Let_def attempt_def give_up_def proceed_def bind_res_Ok_iff split: option.splits if_splits prod.splits
        dest!: fseek_text) (metis prod.inject)+
  show ?thesis
    using assms
    by (auto simp: read_tags_def Let_def give_up_def proceed_def split: option.splits if_splits prod.splits dest!: fseek_text block)
qed

end

definition deliver :: "(u8 list \<Rightarrow> u8 list \<Rightarrow> 'l \<Rightarrow> bool \<times> 'l) \<Rightarrow> image list \<Rightarrow> 'l \<Rightarrow> 'l" where
  "deliver g is c = fold (\<lambda>(exe, res) c. snd (g exe res c)) is c"

lemma deliver_simps [simp]: "deliver g [] c = c" "deliver g ((exe, res) # is) c = deliver g is (snd (g exe res c))"
    "deliver g (is @ js) c = deliver g js (deliver g is c)"
  by (simp_all add: deliver_def)

text \<open>The stage answers as \<open>q\<close> says, and has handed over the images \<open>q\<close> says.\<close>

definition yields :: "(u8 list \<Rightarrow> u8 list \<Rightarrow> 'l \<Rightarrow> bool \<times> 'l) \<Rightarrow> ('x \<times> image list) option \<Rightarrow> ('l, 'i) psf_load_state \<Rightarrow>
    ('x, 'l, 'i) stage \<Rightarrow> bool" where
  "yields g q s m \<longleftrightarrow> (\<exists>r t. m = Ok (r, t) \<and> (case q of None \<Rightarrow> r = None
     | Some (x, is) \<Rightarrow> r = Some x \<and> load_context t = deliver g is (load_context s)))"

lemma yields_proceed [simp]: "yields g (Some (x, [])) s (proceed x s)"
  by (simp add: yields_def proceed_def)

lemma yields_failed: "yields g None s m \<Longrightarrow> yields g None s (attempt m f)"
  by (auto simp: yields_def attempt_def)

lemma yields_attempt:
  assumes "yields g (Some (x, is)) s m" "\<And>t. m = Ok (Some x, t) \<Longrightarrow> yields g q t (f x t)"
  shows "yields g (map_option (\<lambda>(y, js). (y, is @ js)) q) s (attempt m f)"
  using assms by (cases q) (auto simp: yields_def attempt_def)

lemma yields_ctx: "load_context t = load_context s \<Longrightarrow> yields g q t m \<Longrightarrow> yields g q s m"
  unfolding yields_def by (erule subst)

text \<open>States that differ in contexts and messages only.\<close>

definition alike :: "('l, 'i) psf_load_state \<Rightarrow> ('l, 'i) psf_load_state \<Rightarrow> bool" where
  "alike s t \<longleftrightarrow> depth t = depth s \<and> base_path t = base_path s \<and> allowed_version t = allowed_version s"

lemma alike_moved: "post m (moved s) \<Longrightarrow> m = Ok (Some x, t) \<Longrightarrow> alike s t"
  by (auto simp: post_def moved_def alike_def)

lemma alike_trans: "alike s t \<Longrightarrow> alike t u \<Longrightarrow> alike s u"
  by (simp add: alike_def)

lemma alike_statuses: "texts ms \<Longrightarrow> alike s (statuses h ms s)"
  using statuses_moved[of ms s "Some ()" h] by (simp add: moved_def alike_def)

lemma numbered_libs_unfold: "n < length ts + 3 \<Longrightarrow> numbered_libs ts n = (case find_tag ts (lib_name n) of None \<Rightarrow> []
    | Some (m, v) \<Rightarrow> v # numbered_libs ts (n + 1))"
  by (auto simp: numbered_libs_def upt_conv_Cons split: option.split)

lemma yields_lib:
  assumes "\<And>v t. alike s t \<Longrightarrow> yields g (f v) t (load v t)"
  shows "yields g (map_option (\<lambda>is. ((), is)) (images_of f (first_lib ts))) s (load_lib h load ts s)"
proof (cases "find_tag ts (ascii ''_lib'')")
  case (Some tag)
  obtain n v where n: "tag = (n, v)" by (cases tag)
  define u where "u = statuses h [(Say ''Found _lib: '', True), (Data v, False), (Say ''\<newline>'', False)] s"
  have u: "alike s u" "load_context u = load_context s" by (simp_all add: u_def alike_statuses)
  have "yields g (map_option (\<lambda>is. ((), is)) (images_of f [v])) u (attempt (load v u) (\<lambda>_. proceed ()))"
    using assms[OF u(1), of v] yields_attempt[where q = "Some ((), [])" and f = "\<lambda>_. proceed ()"]
    by (cases "f v") (fastforce intro: yields_failed)+
  from yields_ctx[OF u(2) this] show ?thesis
    using Some n by (simp add: load_lib_def first_lib_def u_def[symmetric])
qed (simp add: first_lib_def load_lib_def)

lemma yields_libs:
  assumes load: "\<And>v t. alike s t \<Longrightarrow> yields g (f v) t (load v t)" "\<And>v t. post (load v t) (moved t)"
    and "\<forall>i \<in> {2..<n}. find_tag ts (lib_name i) \<noteq> None" "length ts + 3 = n + j" "alike s t"
  shows "yields g (map_option (\<lambda>is. ((), is)) (images_of f (numbered_libs ts n))) t (load_libs j h load ts n t)"
  using assms(3-)
proof (induction j arbitrary: n t)
  case 0
  then show ?case using found_libs_bound[of n ts] by simp
next
  case (Suc j)
  have n: "n < length ts + 3" using Suc.prems(2) by simp
  show ?case
  proof (cases "find_tag ts (lib_name n)")
    case None
    then show ?thesis by (simp add: numbered_libs_unfold[OF n])
  next
    case (Some tag)
    obtain m v where m: "tag = (m, v)" by (cases tag)
    define u where "u = statuses h [(Say ''Found '', True), (Data m, False), (Say '': '', False), (Data v, False), (Say ''\<newline>'', False)] t"
    have u: "alike t u" "load_context u = load_context t" by (simp_all add: u_def alike_statuses)
    have go: "yields g (map_option (\<lambda>is. ((), is)) (images_of f (v # numbered_libs ts (n + 1)))) u
        (attempt (load v u) (\<lambda>_. load_libs j h load ts (n + 1)))"
    proof (cases "f v")
      case None
      then show ?thesis using load(1)[OF alike_trans[OF Suc.prems(3) u(1)], of v] by (simp add: yields_failed)
    next
      case f: (Some r)
      obtain x "is" where r: "r = (x, is)" by (cases r)
      have "yields g (map_option (\<lambda>is. ((), is)) (images_of f (numbered_libs ts (n + 1)))) w (load_libs j h load ts (n + 1) w)"
        if "load v u = Ok (Some x, w)" for w
      proof (rule Suc.IH)
        show "\<forall>i \<in> {2..<n + 1}. find_tag ts (lib_name i) \<noteq> None" using Suc.prems(1) Some less_Suc_eq by auto
        show "alike s w" using alike_trans[OF alike_trans[OF Suc.prems(3) u(1)] alike_moved[OF load(2) that]] .
      qed (use Suc.prems(2) in simp)
      from yields_attempt[OF load(1)[OF alike_trans[OF Suc.prems(3) u(1)], of v, unfolded f r] this]
      show ?thesis by (simp add: f r option.map_comp comp_def)
    qed
    show ?thesis
      using yields_ctx[OF u(2) go] by (simp add: numbered_libs_unfold[OF n] Some m u_def[symmetric])
  qed
qed

lemma fclose_simps [simp]: "load_context (fclose s) = load_context s" "depth (fclose s) = depth s"
    "base_path (fclose s) = base_path s" "allowed_version (fclose s) = allowed_version s"
  by (simp_all add: fclose_def)

lemma yields_answers: "yields g q s m \<Longrightarrow> answers m"
  by (auto simp: yields_def answers_def)

definition unpacked :: "(u8 list \<Rightarrow> u8 list option) \<Rightarrow> (u8 list \<Rightarrow> u32) \<Rightarrow> u32 \<Rightarrow> u32 \<Rightarrow> u8 list \<Rightarrow> u8 list option" where
  "unpacked unz crc ps c packed = (if ps = 0 then Some [] else if crc packed = c then unz packed else None)"

context accepting
begin

lemma give_image_accepted:
  "\<exists>t. give_image h g exe res s = Ok (Some (), t) \<and> load_context t = snd (g exe res (load_context s))"
  using accepts by (auto simp: give_image_def Let_def proceed_def case_prod_unfold)

lemma while_open_short:
  assumes load: "\<And>v t. alike s t \<Longrightarrow> answers (load v t)"
    and f: "at f = 0" "16 \<le> length (text_of f)" "take 3 (text_of f) = [80, 83, 70]"
      "allowed_version s = 0 \<or> text_of f ! 3 = allowed_version s"
      "length (text_of f) < 16 + unat (le32 (text_of f ! 4) (text_of f ! 5) (text_of f ! 6) (text_of f ! 7)) +
         unat (le32 (text_of f ! 8) (text_of f ! 9) (text_of f ! 10) (text_of f ! 11))"
  shows "\<exists>t. while_open h load f s = Ok (None, t)"
proof -
  obtain e hdr where e: "read_psf_header h f s = Ok (Some (hdr, e), s)" "text_of e = text_of f"
      and hdr: "fst (snd hdr) = le32 (text_of f ! 4) (text_of f ! 5) (text_of f ! 6) (text_of f ! 7)"
        "fst (snd (snd hdr)) = le32 (text_of f ! 8) (text_of f ! 9) (text_of f ! 10) (text_of f ! 11)"
    using header_good[OF f(1-4)] by (metis fst_conv snd_conv)
  obtain v rs ps c where h: "hdr = (v, rs, ps, c)" by (cases hdr)
  have lib: "answers (load_lib h load ts t)" if "alike s t" for ts t
    unfolding load_lib_def by (intro answers_walk load alike_trans[OF that] alike_statuses) simp
  have short: "\<exists>u. read_sections h hdr e1 t = Ok (None, u)" if "text_of e1 = text_of f" for e1 t
    using sections_short[of e1 rs ps v c t] f(2,5) hdr that by (simp add: h)
  obtain r t where t: "read_tags h hdr e s = Ok (r, t)" using answers_stages(4)[of h hdr e s] by (auto simp: answers_def)
  show ?thesis
  proof (cases r)
    case None
    then show ?thesis using e(1) t by (simp add: while_open_def attempt_def)
  next
    case (Some x)
    obtain ts e1 where x: "x = (ts, e1)" by (cases x)
    have "text_of e1 = text_of f" using tags_text[OF t[unfolded Some x]] e(2) by simp
    note short = short[OF this]
    obtain q u where q: "load_lib h load ts t = Ok (q, u)" using lib[OF alike_moved[OF read_tags_moved t[unfolded Some]], of ts] by (auto simp: answers_def)
    obtain u' where u': "read_sections h hdr e1 u = Ok (None, u')" using short by blast
    show ?thesis
      using e(1) t q u' target by (cases q) (simp_all add: while_open_def attempt_def Some x)
  qed
qed

lemma while_open_good:
  fixes f :: 'a and s :: "('b, 'c) psf_load_state"
  defines "b \<equiv> text_of f"
  defines "rs \<equiv> le32 (b ! 4) (b ! 5) (b ! 6) (b ! 7)" and "ps \<equiv> le32 (b ! 8) (b ! 9) (b ! 10) (b ! 11)"
  defines "ts \<equiv> file_tags (drop (16 + unat rs + unat ps) b)"
  assumes load: "\<And>v t. alike s t \<Longrightarrow> yields g (fl v) t (load v t)"
    and f: "at f = 0" "take 3 b = [80, 83, 70]" "allowed_version s = 0 \<or> b ! 3 = allowed_version s"
      "16 + unat rs + unat ps \<le> length b" "length b < 4294967275"
  shows "yields g (map_option (\<lambda>is. (((b ! 3, rs, ps, le32 (b ! 12) (b ! 13) (b ! 14) (b ! 15)), ts,
      Some (take (unat rs) (drop 16 b), take (unat ps) (drop (16 + unat rs) b))), is)) (images_of fl (first_lib ts)))
    s (while_open h load f s)"
proof -
  define hdr where "hdr = (b ! 3, rs, ps, le32 (b ! 12) (b ! 13) (b ! 14) (b ! 15))"
  obtain e where e: "read_psf_header h f s = Ok (Some (hdr, e), s)" "text_of e = b"
    using header_good[of f s] f by (auto simp: b_def rs_def ps_def hdr_def)
  obtain e1 t where t: "read_tags h hdr e s = Ok (Some (ts, e1), t)" "text_of e1 = b" "load_context t = load_context s"
    using tags_good[of rs ps e "b ! 3" _ s] f(4,5) e(2) unfolding hdr_def ts_def by metis
  have al: "alike s t" by (rule alike_moved[OF read_tags_moved t(1)])
  have sec: "read_sections h hdr e1 u = Ok (Some (take (unat rs) (drop 16 b), take (unat ps) (drop (16 + unat rs) b)), u)" for u
    using sections_good[of rs ps e1] t(2) f(4) by (simp add: hdr_def)
  define rest where "rest = (\<lambda>(_ :: unit) s3. attempt (read_sections h hdr e1 s3) (\<lambda>sections. proceed (hdr, ts, Some sections)))"
  have rest: "rest x u = proceed (hdr, ts, Some (take (unat rs) (drop 16 b), take (unat ps) (drop (16 + unat rs) b))) u" for x u
    by (simp add: rest_def sec attempt_def)
  have lib: "yields g (map_option (\<lambda>is. ((), is)) (images_of fl (first_lib ts))) t (load_lib h load ts t)"
    by (rule yields_lib) (rule load, rule alike_trans[OF al])
  have w: "while_open h load f s = attempt (load_lib h load ts t) rest"
    using e(1) t(1) target by (simp add: while_open_def attempt_def rest_def)
  have "yields g (map_option (\<lambda>is. ((hdr, ts, Some (take (unat rs) (drop 16 b), take (unat ps) (drop (16 + unat rs) b))), is))
      (images_of fl (first_lib ts))) t (while_open h load f s)"
  proof (cases "images_of fl (first_lib ts)")
    case None
    then show ?thesis using lib by (simp add: w yields_failed)
  next
    case (Some before)
    show ?thesis
      using yields_attempt[OF lib[unfolded Some option.map], where f = rest and q = "Some ((hdr, ts, Some (take (unat rs) (drop 16 b), take (unat ps) (drop (16 + unat rs) b))), [])"]
      by (simp add: w Some rest)
  qed
  from yields_ctx[OF t(3) this[unfolded hdr_def]] show ?thesis .
qed

lemma after_close_good:
  assumes load: "\<And>v t. alike s t \<Longrightarrow> yields g (fl v) t (load v t)" "\<And>v t. post (load v t) (moved t)"
  shows "yields g (case unpacked unz (crc32 h) ps c packed of None \<Rightarrow> None
      | Some exe \<Rightarrow> map_option (\<lambda>is. ((), (exe, reserved) # is)) (images_of fl (numbered_libs ts 2)))
    s (after_close (Suc k) h load ((v, rs, ps, c), ts, Some (reserved, packed)) s)"
proof -
  define s1 where "s1 = psf_status h (Say ''File closed.\<newline>'') True s"
  have s1: "alike s s1" "load_context s1 = load_context s" by (simp_all add: s1_def alike_def)
  obtain t where t: "unpack_exe (Suc k) h (v, rs, ps, c) packed s1 = Ok (unpacked unz (crc32 h) ps c packed, t)"
      "load_context t = load_context s1"
    using unpack_exe_result[of v rs ps c packed s1] by (auto simp: unpacked_def)
  show ?thesis
  proof (cases "unpacked unz (crc32 h) ps c packed")
    case None
    then show ?thesis using t by (simp add: after_close_def target s1_def[symmetric] yields_def attempt_def)
  next
    case (Some exe)
    have al: "alike s t" using alike_trans[OF s1(1)] alike_moved[OF unpack_exe_moved t(1)[unfolded Some]] .
    obtain u where u: "give_image h g exe reserved t = Ok (Some (), u)" "load_context u = snd (g exe reserved (load_context t))"
      using give_image_accepted by blast
    have alu: "alike s u" using alike_trans[OF al] alike_moved[OF give_image_moved u(1)] .
    have "yields g (map_option (\<lambda>is. ((), is)) (images_of fl (numbered_libs ts 2))) u (load_libs (length ts + 1) h load ts 2 u)"
      by (rule yields_libs[OF load _ _ alu]) simp_all
    then have "yields g (map_option (\<lambda>is. ((), (exe, reserved) # is)) (images_of fl (numbered_libs ts 2))) s
        (load_libs (length ts + 1) h load ts 2 u)"
      using u(2) t(2) s1(2) by (cases "images_of fl (numbered_libs ts 2)") (auto simp: yields_def)
    then show ?thesis
      using t(1) u(1) Some by (simp add: after_close_def target s1_def[symmetric] attempt_def del: load_libs.simps)
  qed
qed

end

definition file_at :: "(cstring \<Rightarrow> u8 list option) \<Rightarrow> (u8 list \<Rightarrow> u8 list option) \<Rightarrow> (u8 list \<Rightarrow> u32) \<Rightarrow> u8 \<Rightarrow> cstring \<Rightarrow> cstring \<Rightarrow>
    (u8 \<times> psf_tag list \<times> image) option" where
  "file_at files unz crc version base name = (case files (base @ name) of None \<Rightarrow> None | Some b \<Rightarrow> psf_bytes version unz crc b)"

text \<open>What a file with its libraries hands over, given what each library does.\<close>

definition with_libs :: "(cstring \<Rightarrow> (u8 \<times> image list) option) \<Rightarrow> u8 \<times> psf_tag list \<times> image \<Rightarrow> (u8 \<times> image list) option" where
  "with_libs fl r = (case r of (v, ts, im) \<Rightarrow> case images_of fl (first_lib ts) of None \<Rightarrow> None
     | Some before \<Rightarrow> map_option (\<lambda>after. (v, before @ im # after)) (images_of fl (numbered_libs ts 2)))"

lemma images_step: "images (Suc d) F name = Option.bind (F name) (with_libs (images d F))"
  by (cases "F name") (auto simp: with_libs_def split: option.split)

context accepting
begin

lemma opened_yields:
  fixes s :: "('b, 'c) psf_load_state"
  assumes load: "\<And>v t. alike s t \<Longrightarrow> yields g (fl v) t (load v t)" "\<And>v t. post (load v t) (moved t)"
    and f: "at f = 0" "length (text_of f) < 4294967275"
  shows "yields g (Option.bind (psf_bytes (allowed_version s) unz (crc32 h) (text_of f)) (with_libs fl)) s
    (attempt (bind_res (while_open h load f s) (\<lambda>(r, s3). Ok (r, fclose s3))) (\<lambda>r s4.
     attempt (after_close (Suc k) h load r s4) (\<lambda>_ s5. proceed (fst (fst r)) (s5\<lparr>depth := depth s5 - 1\<rparr>))))"
proof -
  define b where "b = text_of f"
  define rs ps c where "rs = le32 (b ! 4) (b ! 5) (b ! 6) (b ! 7)" and "ps = le32 (b ! 8) (b ! 9) (b ! 10) (b ! 11)"
    and "c = le32 (b ! 12) (b ! 13) (b ! 14) (b ! 15)"
  define packed reserved ts where "packed = take (unat ps) (drop (16 + unat rs) b)" and "reserved = take (unat rs) (drop 16 b)"
    and "ts = file_tags (drop (16 + unat rs + unat ps) b)"
  define bad where "bad \<longleftrightarrow> length b < 16 \<or> take 3 b \<noteq> [80, 83, 70] \<or> (allowed_version s \<noteq> 0 \<and> b ! 3 \<noteq> allowed_version s)"
  have parse: "psf_bytes (allowed_version s) unz (crc32 h) b = (if bad \<or> length b < 16 + unat rs + unat ps then None
      else map_option (\<lambda>exe. (b ! 3, ts, exe, reserved)) (unpacked unz (crc32 h) ps c packed))"
    by (auto simp: psf_bytes_def Let_def unpacked_def bad_def rs_def ps_def c_def packed_def reserved_def ts_def file_tags_def unat_eq_zero)
  have fails: "yields g None s (attempt (bind_res m (\<lambda>(r, s3). Ok (r, fclose s3))) q)" if "\<exists>t. m = Ok (None, t)"
    for m and q :: "_ \<Rightarrow> _ \<Rightarrow> (u8, 'b, 'c) stage" using that by (auto simp: yields_def attempt_def)
  show ?thesis
  proof (cases "bad \<or> length b < 16 + unat rs + unat ps")
    case True
    have "\<exists>t. while_open h load f s = Ok (None, t)"
    proof (cases bad)
      case True
      then obtain t where "read_psf_header h f s = Ok (None, t)" using header_bad[of f s] f(1) by (auto simp: bad_def b_def)
      then show ?thesis by (simp add: while_open_def attempt_def)
    next
      case False
      then show ?thesis using while_open_short[OF _ f(1), of s load] yields_answers[OF load(1)] \<open>bad \<or> _\<close> by (auto simp: bad_def b_def rs_def ps_def)
    qed
    then show ?thesis using True fails by (simp add: b_def[symmetric] parse)
  next
    case good: False
    define hdr where "hdr = (b ! 3, rs, ps, c)"
    have w: "yields g (map_option (\<lambda>is. ((hdr, ts, Some (reserved, packed)), is)) (images_of fl (first_lib ts))) s (while_open h load f s)"
      using while_open_good[OF load(1) f(1)] good f(2)
      by (simp add: bad_def b_def[symmetric] hdr_def rs_def[symmetric] ps_def[symmetric] c_def[symmetric] packed_def[symmetric]
          reserved_def[symmetric] ts_def[symmetric])
    show ?thesis
    proof (cases "images_of fl (first_lib ts)")
      case None
      then have "\<exists>t. while_open h load f s = Ok (None, t)" using w by (auto simp: yields_def)
      from fails[OF this] show ?thesis
        using None good by (cases "unpacked unz (crc32 h) ps c packed") (simp_all add: b_def[symmetric] parse with_libs_def)
    next
      case (Some before)
      then obtain t where t: "while_open h load f s = Ok (Some (hdr, ts, Some (reserved, packed)), t)"
          "load_context t = deliver g before (load_context s)" using w by (auto simp: yields_def)
      have al: "alike s (fclose t)" using alike_moved[OF while_open_moved[OF load(2)] t(1)] by (simp add: alike_def)
      have a: "yields g (case unpacked unz (crc32 h) ps c packed of None \<Rightarrow> None
          | Some exe \<Rightarrow> map_option (\<lambda>is. ((), (exe, reserved) # is)) (images_of fl (numbered_libs ts 2)))
        (fclose t) (after_close (Suc k) h load (hdr, ts, Some (reserved, packed)) (fclose t))"
        unfolding hdr_def by (rule after_close_good[OF load(1) load(2)]) (rule alike_trans[OF al])
      then obtain r u where u: "after_close (Suc k) h load (hdr, ts, Some (reserved, packed)) (fclose t) = Ok (r, u)" by (auto simp: yields_def)
      show ?thesis
        using a t good u Some
        by (cases "unpacked unz (crc32 h) ps c packed"; cases "images_of fl (numbered_libs ts 2)")
          (simp_all add: b_def[symmetric] parse with_libs_def yields_def attempt_def proceed_def hdr_def)
    qed
  qed
qed

lemma internal_yields:
  fixes s :: "('b, 'c) psf_load_state"
  shows "depth s + d = 10 \<Longrightarrow>
    yields g (images d (file_at files unz (crc32 h) (allowed_version s) (base_path s)) name) s (psf_load_internal (Suc d) (Suc k) h name s)"
proof (induction d arbitrary: name s)
  case 0
  then show ?case by (simp add: max_recursion_depth_def yields_def give_up_def Let_def)
next
  case (Suc d)
  define s1 where "s1 = s\<lparr>depth := depth s + 1\<rparr>"
  define load where "load = psf_load_internal (Suc d) (Suc k) h"
  define F where "F = file_at files unz (crc32 h) (allowed_version s) (base_path s)"
  have load: "yields g (images d F v) t (load v t)" if "alike s1 t" for v t
    using Suc.IH[of t v] Suc.prems that by (simp add: alike_def s1_def load_def F_def del: psf_load_internal.simps)
  have posts: "post (load v t) (moved t)" for v t unfolding load_def by (rule psf_load_internal_moved)
  have low: "\<not> depth s1 > max_recursion_depth" using Suc.prems by (simp add: s1_def max_recursion_depth_def)
  have ctx: "load_context s1 = load_context s" by (simp add: s1_def)
  show ?case
  proof (cases "files (base_path s @ name)")
    case None
    then have "fopen h (base_path s1 @ name) = None" by (simp add: s1_def fopen_None)
    then show ?thesis using low None
      by (subst psf_load_internal.simps) (simp add: s1_def Let_def file_at_def yields_def)
  next
    case (Some b)
    then obtain f where f: "fopen h (base_path s1 @ name) = Some f" "text_of f = b" "at f = 0"
      using fopen_Some[of "base_path s @ name" b] by (auto simp: s1_def)
    define s2 where "s2 = file_status h ''Opened file: '' name (s1\<lparr>open_files := open_files s1 + 1\<rparr>)"
    have "alike (s1\<lparr>open_files := open_files s1 + 1\<rparr>) s2" unfolding s2_def file_status_def by (rule alike_statuses) simp
    then have s2: "alike s1 s2" "load_context s2 = load_context s" by (auto simp: alike_def s2_def file_status_def s1_def)
    have v: "allowed_version s2 = allowed_version s" using s2(1) by (simp add: alike_def s1_def)
    have "yields g (Option.bind (psf_bytes (allowed_version s2) unz (crc32 h) (text_of f)) (with_libs (images d F))) s2
      (attempt (bind_res (while_open h load f s2) (\<lambda>(r, s3). Ok (r, fclose s3))) (\<lambda>r s4.
       attempt (after_close (Suc k) h load r s4) (\<lambda>_ s5. proceed (fst (fst r)) (s5\<lparr>depth := depth s5 - 1\<rparr>))))"
      using f small[OF Some] by (intro opened_yields load posts) (auto intro: alike_trans[OF s2(1)])
    from yields_ctx[OF s2(2) this]
    show ?thesis
      unfolding psf_load_internal.simps(2)[of "Suc d"] s1_def[symmetric] Let_def load_def[symmetric] images_step
      using low f(1,2) Some by (simp add: s2_def[symmetric] file_at_def F_def[symmetric] v) (simp add: F_def file_at_def Some)
  qed
qed

end

text \<open>
  A client over a disk of files (of less than 4 GB) that collects the images; \<open>unz\<close> and \<open>crc\<close> stand for
  zlib, whose output is at most 4 GB.
\<close>

definition disk_client :: "(cstring \<Rightarrow> u8 list option) \<Rightarrow> (u8 list \<Rightarrow> u8 list option) \<Rightarrow> (u8 list \<Rightarrow> u32) \<Rightarrow>
    (u8 list \<times> nat, image list, unit) client" where
  "disk_client files unz crc = \<lparr>path_separators = [47],
     fopen = (\<lambda>p. map_option (\<lambda>b. (b, 0)) (files p)),
     fread = (\<lambda>n (b, i). (take n (drop i b), (b, i + length (take n (drop i b))))),
     fseek = (\<lambda>off w (b, i). let j = (case w of SEEK_SET \<Rightarrow> off | SEEK_CUR \<Rightarrow> int i + off | SEEK_END \<Rightarrow> int (length b) + off) in
       if j < 0 then None else Some (b, nat j)),
     ftell = (\<lambda>(b, i). int i),
     load_target = Some (\<lambda>exe res l. (False, l @ [(exe, res)])), info_target = None, status_target = True, malloc = (\<lambda>n. True),
     uncompress = (\<lambda>n p. case unz p of None \<Rightarrow> Z_BAD | Some out \<Rightarrow> if length out \<le> n then Z_OK out else Z_MORE),
     crc32 = crc\<rparr>"

definition up_to :: "nat \<Rightarrow> ('a \<Rightarrow> u8 list option) \<Rightarrow> 'a \<Rightarrow> u8 list option" where
  "up_to n f p = (case f p of None \<Rightarrow> None | Some b \<Rightarrow> if length b < n then Some b else None)"

lemma up_to_Some: "up_to n f p = Some b \<Longrightarrow> length b < n"
  by (auto simp: up_to_def split: option.splits if_splits)

interpretation disk: accepting "disk_client (up_to 4294967275 files) (up_to 4294967275 unz) crc" "up_to 4294967275 files" fst snd
    "\<lambda>exe res l. (False, l @ [(exe, res)])" "up_to 4294967275 unz" 4096
  for files unz crc
proof unfold_locales
  show "length out \<le> 1048576 * 4096" if "up_to 4294967275 unz packed = Some out" for packed out
    using up_to_Some[OF that] by simp
qed (auto simp: disk_client_def up_to_Some Let_def case_prod_unfold split: if_splits)

lemma deliver_collect: "deliver (\<lambda>exe res l. (False, l @ [(exe, res)])) is l = l @ is"
  by (induction "is" arbitrary: l) auto

text \<open>C1: the images reach the client in the order \<^verbatim>\<open>psflib.h\<close> promises: for every file those of its \<^verbatim>\<open>_lib\<close>
  first, then its own, then those of its \<^verbatim>\<open>_lib2\<close>, \<^verbatim>\<open>_lib3\<close> and so on, each library in turn with its own libraries.
  The load fails exactly when one of these files is missing, malformed, does not unpack, or lies more than ten deep.\<close>
theorem psf_load_order:
  assumes "uri \<noteq> []"
  shows "\<exists>r t. psf_load 4097 (disk_client (up_to 4294967275 files) (up_to 4294967275 unz) crc) uri version l i nested = Ok (r, t) \<and>
    (case images 10 (file_at (up_to 4294967275 files) (up_to 4294967275 unz) crc version (fst (split_path uri [47]))) (snd (split_path uri [47])) of
       None \<Rightarrow> r = - 1
     | Some (v, ims) \<Rightarrow> r = uint v \<and> load_context t = l @ ims)"
proof -
  define h where "h = disk_client (up_to 4294967275 files) (up_to 4294967275 unz) crc"
  define name where "name = snd (split_path uri [47])"
  define s where "s = \<lparr>depth = 0, allowed_version = version, base_path = fst (split_path uri [47]),
    info_want_nested_tags = nested, load_context = l, info_context = i, status_log = [], open_files = 0\<rparr>"
  have sep: "path_separators h = [47]" and crc: "crc32 h = crc" by (simp_all add: h_def disk_client_def)
  have s: "depth s + 10 = 10" "allowed_version s = version" "base_path s = fst (split_path uri [47])" "load_context s = l" by (simp_all add: s_def)
  define q where "q = images 10 (file_at (up_to 4294967275 files) (up_to 4294967275 unz) crc version (fst (split_path uri [47]))) name"
  have "yields (\<lambda>exe res l. (False, l @ [(exe, res)])) q s (psf_load_internal (Suc 10) (Suc 4096) h name s)"
    using disk.internal_yields[OF s(1), of files unz crc name] unfolding h_def[symmetric] s crc q_def by simp
  then obtain r t where rt: "psf_load_internal (Suc max_recursion_depth) 4097 h name s = Ok (r, t)"
      "case q of None \<Rightarrow> r = None | Some (x, ims) \<Rightarrow> r = Some x \<and> load_context t = l @ ims"
    by (cases q) (auto simp: yields_def deliver_collect s max_recursion_depth_def)
  have "psf_load 4097 h uri version l i nested = Ok (case r of None \<Rightarrow> - 1 | Some v \<Rightarrow> uint v, psf_status h (Say ''Done.'') False t)"
    unfolding psf_load_def Let_def sep s_def[symmetric] name_def[symmetric] rt(1) using assms by simp
  then show ?thesis using rt(2) unfolding h_def[symmetric] q_def[symmetric] name_def[symmetric] by (auto split: option.splits)
qed

text \<open>The example of \<^verbatim>\<open>psflib.h\<close>; the reserved section of each file is its letter.\<close>

definition tagged_file :: "string \<Rightarrow> string \<Rightarrow> u8 list" where
  "tagged_file letter ts = [80, 83, 70, 1, 1, 0, 0, 0] @ replicate 8 0 @ ascii letter @ ascii ''[TAG]'' @ ascii ts"

definition example_files :: "cstring \<Rightarrow> u8 list option" where
  "example_files = map_of [(ascii ''x/a'', tagged_file ''a'' ''_lib=b\<newline>_lib2=c''), (ascii ''x/b'', tagged_file ''b'' ''_lib=d''),
     (ascii ''x/c'', tagged_file ''c'' []), (ascii ''x/d'', tagged_file ''d'' [])]"

lemma tags_of_examples:
  "file_tags (ascii ''[TAG]'' @ ascii ''_lib=b\<newline>_lib2=c'') = [(ascii ''_lib2'', ascii ''c''), (ascii ''_lib'', ascii ''b'')]"
  "file_tags (ascii ''[TAG]'' @ ascii ''_lib=d'') = [(ascii ''_lib'', ascii ''d'')]"
  "file_tags (ascii ''[TAG]'' @ ascii []) = []"
  by (simp_all add: file_tags_def process_tags_def ascii_def process_lines.simps c_strpbrk_def process_tag_line_def c_strchr_def
      blank_def trim_name_def trim_value_def find_tag_def same_nocase_def c_lower_def add_tag_def check_split_value_def
      fields_to_split_def add_tag_multi_def newline_def)

lemma example_bytes:
  "psf_bytes 1 unz crc (tagged_file [x] ts) = Some (1, file_tags (ascii ''[TAG]'' @ ascii ts), [], ascii [x])"
  by (simp add: psf_bytes_def tagged_file_def Let_def le32_def ascii_def file_tags_def numeral_eq_Suc)

lemma example_images:
  "images 10 (file_at (up_to 4294967275 example_files) unz crc 1 (ascii ''x/'')) (ascii ''a'') =
    Some (1, [([], ascii ''d''), ([], ascii ''b''), ([], ascii ''a''), ([], ascii ''c'')])"
proof -
  define F where "F = file_at (up_to 4294967275 example_files) unz crc 1 (ascii ''x/'')"
  have "F (ascii ''a'') = Some (1, [(ascii ''_lib2'', ascii ''c''), (ascii ''_lib'', ascii ''b'')], [], ascii ''a'')"
    "F (ascii ''b'') = Some (1, [(ascii ''_lib'', ascii ''d'')], [], ascii ''b'')"
    "F (ascii ''c'') = Some (1, [], [], ascii ''c'')" "F (ascii ''d'') = Some (1, [], [], ascii ''d'')"
    by (simp_all add: F_def file_at_def up_to_def example_files_def example_bytes tags_of_examples)
      (simp_all add: ascii_def tagged_file_def example_bytes[unfolded tagged_file_def ascii_def, simplified] tags_of_examples[unfolded ascii_def, simplified])
  moreover have "first_lib [(ascii ''_lib2'', ascii ''c''), (ascii ''_lib'', ascii ''b'')] = [ascii ''b'']"
    "numbered_libs [(ascii ''_lib2'', ascii ''c''), (ascii ''_lib'', ascii ''b'')] 2 = [ascii ''c'']"
    "first_lib [(ascii ''_lib'', ascii ''d'')] = [ascii ''d'']" "numbered_libs [(ascii ''_lib'', ascii ''d'')] 2 = []"
    "first_lib [] = []" "numbered_libs [] 2 = []"
    by (simp_all add: first_lib_def numbered_libs_def find_tag_def same_nocase_def ascii_def c_lower_def lib_name_def dec.simps upt_rec)
  ultimately have "images (Suc (Suc (Suc n))) F (ascii ''a'') = Some (1, [([], ascii ''d''), ([], ascii ''b''), ([], ascii ''a''), ([], ascii ''c'')])" for n
    by (simp add: images_step with_libs_def del: images.simps)
  from this[of 7] show ?thesis by (simp add: F_def)
qed

theorem psf_load_order_witness:
  "\<exists>r t. psf_load 4097 (disk_client (up_to 4294967275 example_files) (up_to 4294967275 Some) (\<lambda>_. 0)) (ascii ''x/a'') 1 [] () False = Ok (r, t) \<and>
    r = 1 \<and> load_context t = [([], ascii ''d''), ([], ascii ''b''), ([], ascii ''a''), ([], ascii ''c'')]"
proof -
  have p: "split_path (ascii ''x/a'') [47] = (ascii ''x/'', ascii ''a'')" by (simp add: split_path_def strrpbrk_def ascii_def)
  have "ascii ''x/a'' \<noteq> []" by (simp add: ascii_def)
  from psf_load_order[OF this, of example_files Some "\<lambda>_. 0" 1 "[]" "()" False, unfolded p fst_conv snd_conv example_images]
  show ?thesis by simp
qed

definition small_memory :: "(u8 list \<times> nat, image list, unit) client" where
  "small_memory = (disk_client example_files Some (\<lambda>_. 0))\<lparr>malloc := (\<lambda>n. n < 16777216)\<rparr>"

theorem psf_load_safe_witness:
  "\<exists>r t. psf_load 17 small_memory (ascii ''x/a'') 1 [] () False = Ok (r, t) \<and> open_files t = 0 \<and> depth t \<le> 11"
proof -
  have "memory_below 16 small_memory" by (simp add: memory_below_def small_memory_def)
  from psf_load_safe[OF this, of "ascii ''x/a''" 1 "[]" "()" False] show ?thesis by auto
qed

subsection \<open>Tag lines\<close>

lemma blank_run: "dropWhile blank (replicate n 32 @ l) = dropWhile blank l" "dropWhile blank (rev (l @ replicate n 32)) = dropWhile blank (rev l)"
proof -
  show run: "dropWhile blank (replicate n 32 @ l) = dropWhile blank l" for l by (induction n) (simp_all add: blank_def)
  show "dropWhile blank (rev (l @ replicate n 32)) = dropWhile blank (rev l)" by (simp add: run)
qed

lemma strchr_first: "c \<notin> set l \<Longrightarrow> c_strchr (l @ c # r) c = Some (length l)"
  unfolding c_strchr_def by (induction l) auto

text \<open>A tag line gives its name without the blanks around it and its value without those before it; the blanks behind
  the value stay in it, although the comment says they are removed: the loop that should strip them tests the first
  byte of the value, not the last.\<close>
theorem process_tag_line_value:
  assumes "name \<noteq> []" "\<not> blank (hd name)" "\<not> blank (last name)" "61 \<notin> set name" "hd name \<noteq> 95"
    and "v \<noteq> []" "\<not> blank (hd v)"
  shows "process_tag_line ts (replicate i 32 @ name @ replicate j 32 @ 61 # replicate k 32 @ v @ replicate m 32) =
    add_tag ts name (v @ replicate m 32)"
proof -
  define pre where "pre = replicate i 32 @ name @ replicate j (32 :: u8)"
  define post where "post = replicate k 32 @ v @ replicate m (32 :: u8)"
  have eq: "c_strchr (pre @ 61 # post) 61 = Some (length pre)"
    using assms(4) by (intro strchr_first) (auto simp: pre_def)
  obtain c cs where c: "name = c # cs" using assms(1) by (cases name) auto
  have n: "dropWhile blank pre = name @ replicate j 32"
    using assms(2) by (simp add: pre_def blank_run c)
  have "rev (dropWhile blank (rev (cs @ replicate j 32))) = cs"
    using assms(3) unfolding blank_run(2) by (cases cs rule: rev_cases) (simp_all add: c)
  then have t: "trim_name (name @ replicate j 32) = name" by (simp add: trim_name_def c)
  obtain d ds where d: "v = d # ds" using assms(6) by (cases v) auto
  have v: "dropWhile blank post = v @ replicate m 32" using assms(7) by (simp add: post_def blank_run d)
  have "process_tag_line ts (pre @ 61 # post) = add_tag ts name (v @ replicate m 32)"
    using assms d by (simp add: process_tag_line_def eq n v t Let_def trim_value_def)
  then show ?thesis by (simp add: pre_def post_def)
qed

theorem process_tag_line_value_witness:
  "process_tag_line [] (replicate 1 32 @ ascii ''title'' @ replicate 2 32 @ 61 # replicate 1 32 @ ascii ''A B'' @ replicate 3 32) =
    add_tag [] (ascii ''title'') (ascii ''A B'' @ replicate 3 32)"
  by (rule process_tag_line_value) (simp_all add: ascii_def blank_def)

end
