(* ===== verification/Psf2fs.thy ===== *)
theory Psf2fs
  imports CStrings
begin

text \<open>
  The PSF2 virtual file system \<^verbatim>\<open>psflib/psf2fs.c\<close>: directories read from the reserved sections of a
  chain of files, merged, and read back block by block. A linked list of \<^verbatim>\<open>DIR_ENTRY\<close> is the list of its entries
  and a NULL \<^verbatim>\<open>subdir\<close> the empty list, which is why an empty directory is no directory; a \<^verbatim>\<open>SOURCE_FILE\<close> is named by its
  position in the list of sources. The two lists of the structure itself are reached through pointers, since an error leaves these pointing to
  nodes that have been released. Sizes and offsets are \<^verbatim>\<open>int\<close>, and their overflow is undefined. Memory
  is not exhausted, \<^verbatim>\<open>malloc\<close> of no bytes gives a pointer, and of a negative size, taken as a huge one, none; zlib's \<^verbatim>\<open>uncompress\<close> is a parameter.
\<close>

section \<open>Data\<close>

datatype dir_entry = DIR_ENTRY (ename: cstring) (subdir: "dir_entry list") (elength: int) (block_size: int)
  (source: "nat option") (offset_table: "int list option")

record cacheblock =
  from_source :: "nat option"
  from_offset :: int
  uncompressed_data :: "u8 list option"
  uncompressed_size :: int

text \<open>A pointer to the head of a list: to nodes that are allocated, NULL for none, or to a node that has been released.\<close>

datatype 'a list_ptr = Nodes "'a list" | Released

primrec list_at :: "'a list_ptr \<Rightarrow> 'a list" where
  "list_at (Nodes xs) = xs"
| "list_at Released = []"

text \<open>\<^verbatim>\<open>source_cleanup_free\<close> and \<^verbatim>\<open>dir_cleanup_free\<close>, called unless the pointer is NULL. The pointer stays what it is.\<close>

definition cleanup_free :: "'a list_ptr \<Rightarrow> 'a list_ptr res" where
  "cleanup_free p = (case p of Nodes xs \<Rightarrow> Ok (if xs = [] then Nodes [] else Released) | Released \<Rightarrow> Fail Undefined)"

record psf2fs =
  sources_ptr :: "u8 list list_ptr"
  dir_ptr :: "dir_entry list_ptr"
  cache :: cacheblock

definition sources :: "psf2fs \<Rightarrow> u8 list list" where
  "sources fs = list_at (sources_ptr fs)"

definition dir :: "psf2fs \<Rightarrow> dir_entry list" where
  "dir fs = list_at (dir_ptr fs)"

definition psf2fs_create :: psf2fs where
  "psf2fs_create = \<lparr>sources_ptr = Nodes [], dir_ptr = Nodes [],
     cache = \<lparr>from_source = None, from_offset = 0, uncompressed_data = None, uncompressed_size = 0\<rparr>\<rparr>"

definition psf2fs_delete :: "psf2fs \<Rightarrow> unit res" where
  "psf2fs_delete fs = bind_res (cleanup_free (sources_ptr fs)) (\<lambda>_. bind_res (cleanup_free (dir_ptr fs)) (\<lambda>_. Ok ()))"

section \<open>Names\<close>

definition isdirsep :: "u8 \<Rightarrow> bool" where
  "isdirsep c \<longleftrightarrow> c = 47 \<or> c = 92 \<or> c = 124 \<or> c = 58"

definition finddirentry :: "dir_entry list \<Rightarrow> cstring \<Rightarrow> dir_entry option" where
  "finddirentry ds name = (if length name > 36 then None else find (\<lambda>d. same_nocase (ename d) name) ds)"

section \<open>Reading a directory\<close>

text \<open>\<^verbatim>\<open>read32lsb\<close>, as the \<^verbatim>\<open>int\<close> it is stored in.\<close>

definition read32lsb :: "u8 list \<Rightarrow> int \<Rightarrow> int res" where
  "read32lsb file p = require (0 \<le> p \<and> p + 4 \<le> int (length file)) OutOfBounds
     (let n = nat p in Ok (sint (le32 (file ! n) (file ! (n + 1)) (file ! (n + 2)) (file ! (n + 3)))))"

text \<open>
  The offsets of the compressed blocks: \<open>n\<close> sizes from \<open>o\<close> on, the data from \<open>dataofs\<close> on. \<open>None\<close>
  is the jump to the error label.
\<close>

primrec block_offsets :: "nat \<Rightarrow> u8 list \<Rightarrow> int \<Rightarrow> int \<Rightarrow> int list option res" where
  "block_offsets 0 file p dataofs = Ok (Some [dataofs])"
| "block_offsets (Suc n) file p dataofs = bind_res (checked_int (p + 4)) (\<lambda>e.
     if e > int (length file) then Ok None
     else bind_res (read32lsb file p) (\<lambda>cbs. bind_res (checked_int (dataofs + cbs)) (\<lambda>next_ofs.
       bind_res (block_offsets n file e next_ofs) (\<lambda>r. Ok (map_option (\<lambda>t. dataofs # t) r)))))"

definition block_count :: "int \<Rightarrow> int \<Rightarrow> int res" where
  "block_count u b = bind_res (checked_int (u + (b - 1))) (\<lambda>v. Ok (v div b))"

definition file_table :: "u8 list \<Rightarrow> int \<Rightarrow> int \<Rightarrow> int \<Rightarrow> int list option res" where
  "file_table file p u b = bind_res (block_count u b) (\<lambda>blocks.
     bind_res (checked_int (4 * blocks)) (\<lambda>size. bind_res (checked_int (p + size)) (\<lambda>dataofs.
     if dataofs \<ge> int (length file) then Ok None else block_offsets (nat blocks) file p dataofs)))"

definition entry_name :: "u8 list \<Rightarrow> int \<Rightarrow> cstring" where
  "entry_name file p = takeWhile (\<lambda>c. c \<noteq> 0) (take 36 (drop (nat p) file))"

definition empty_entry :: "cstring \<Rightarrow> dir_entry list \<Rightarrow> dir_entry" where
  "empty_entry name sub = DIR_ENTRY name sub 0 0 None None"

text \<open>
  \<^verbatim>\<open>makearchivedir\<close> and its loop over the \<open>n\<close> entries of a directory, which end up in reverse order. A
  subdirectory lies behind the entry that names it, so the recursion ends.
\<close>

function makearchivedir :: "nat \<Rightarrow> u8 list \<Rightarrow> int \<Rightarrow> dir_entry list option res"
  and archive_entries :: "nat \<Rightarrow> u8 list \<Rightarrow> int \<Rightarrow> nat \<Rightarrow> dir_entry list \<Rightarrow> dir_entry list option res" where
  "makearchivedir i file offset =
     (if offset < 0 \<or> offset \<ge> int (length file) then Ok None
      else bind_res (checked_int (offset + 4)) (\<lambda>e.
        if e > int (length file) then Ok None
        else bind_res (read32lsb file offset) (\<lambda>num.
          if num < 0 then Ok None else archive_entries i file (offset + 4) (nat num) [])))"
| "archive_entries i file offset n ds =
     (if n = 0 then Ok (Some ds)
      else bind_res (checked_int (offset + 48)) (\<lambda>e.
        if offset + 48 > int (length file) then Ok None
        else bind_res (read32lsb file (offset + 36)) (\<lambda>p. bind_res (read32lsb file (offset + 40)) (\<lambda>u.
          bind_res (read32lsb file (offset + 44)) (\<lambda>b.
          let name = entry_name file offset; add = (\<lambda>d. archive_entries i file (offset + 48) (n - 1) (d # ds)) in
          if p < 0 \<or> u < 0 \<or> b < 0 \<or> (p \<noteq> 0 \<and> p < offset + 48) then Ok None
          else if u = 0 \<and> b = 0 \<and> p \<noteq> 0 then
            bind_res (makearchivedir i file p) (\<lambda>r. case r of None \<Rightarrow> Ok None | Some sub \<Rightarrow> add (empty_entry name sub))
          else if u = 0 \<or> b = 0 \<or> p = 0 then add (empty_entry name [])
          else bind_res (file_table file p u b) (\<lambda>r. case r of None \<Rightarrow> Ok None
            | Some t \<Rightarrow> add (DIR_ENTRY name [] u b (Some i) (Some t))))))))"
  by pat_completeness auto
termination
  by (relation "measure (\<lambda>x. case x of Inl (i, file, offset) \<Rightarrow> nat (int (length file) - offset)
      | Inr (i, file, offset, n, ds) \<Rightarrow> nat (int (length file) - offset))") auto

declare makearchivedir.simps [simp del] archive_entries.simps [simp del]

section \<open>Merging\<close>

text \<open>\<^verbatim>\<open>entry_to\<close> found in \<open>to\<close> is changed in place; \<^verbatim>\<open>first_match\<close> applies a function to it.\<close>

fun first_match :: "cstring \<Rightarrow> (dir_entry \<Rightarrow> dir_entry) \<Rightarrow> dir_entry list \<Rightarrow> dir_entry list" where
  "first_match name f [] = []"
| "first_match name f (d # ds) = (if same_nocase (ename d) name then f d # ds else d # first_match name f ds)"

definition copy_file :: "dir_entry \<Rightarrow> dir_entry \<Rightarrow> dir_entry" where
  "copy_file entry_from entry_to = DIR_ENTRY (ename entry_to) (subdir entry_to) (elength entry_from) (block_size entry_from)
     (source entry_from) (offset_table entry_from)"

definition set_subdir :: "dir_entry list \<Rightarrow> dir_entry \<Rightarrow> dir_entry" where
  "set_subdir ds d = DIR_ENTRY (ename d) ds (elength d) (block_size d) (source d) (offset_table d)"

function mergedir :: "dir_entry list \<Rightarrow> dir_entry list \<Rightarrow> dir_entry list" where
  "mergedir ds [] = ds"
| "mergedir ds (e # from) = mergedir (case finddirentry ds (ename e) of
     None \<Rightarrow> e # ds
   | Some d \<Rightarrow>
       if subdir d \<noteq> [] \<and> subdir e \<noteq> [] then first_match (ename e) (set_subdir (mergedir (subdir d) (subdir e))) ds
       else if subdir d = [] \<and> subdir e = [] then first_match (ename e) (copy_file e) ds
       else ds) from"
  by pat_completeness auto
termination
proof (relation "measure (\<lambda>(ds, from). size_list size from)", goal_cases)
  case (2 ds e "from" d)
  then show ?case by (cases e) simp
qed auto

text \<open>
  \<^verbatim>\<open>addarchive\<close>. On success the nodes of the archive are linked to the lists, which must be there. When it fails it releases the old lists together
  with the new ones, and the structure keeps pointing to them. A negative size gives no memory, and then \<^verbatim>\<open>source_cleanup_free\<close> follows
  \<^verbatim>\<open>this_source->next\<close>, which has not been set.
\<close>

definition append_to :: "'a list \<Rightarrow> 'a list_ptr \<Rightarrow> 'a list_ptr res" where
  "append_to xs p = (case p of Nodes ys \<Rightarrow> Ok (Nodes (ys @ xs)) | Released \<Rightarrow> Fail Undefined)"

definition merge_to :: "dir_entry list \<Rightarrow> dir_entry list_ptr \<Rightarrow> dir_entry list_ptr res" where
  "merge_to ds p = (case p of Nodes es \<Rightarrow> Ok (Nodes (mergedir es ds)) | Released \<Rightarrow> Fail Undefined)"

definition addarchive :: "u8 list \<Rightarrow> int \<Rightarrow> psf2fs \<Rightarrow> (int \<times> psf2fs) res" where
  "addarchive reserved_data reserved_size fs =
     (if reserved_size < 0 then Fail Undefined
      else let file = take (nat reserved_size) reserved_data in
        bind_res (makearchivedir (length (sources fs)) file 0) (\<lambda>r. case r of
          None \<Rightarrow> bind_res (cleanup_free (dir_ptr fs)) (\<lambda>d. bind_res (cleanup_free (sources_ptr fs)) (\<lambda>src.
            Ok (- 1, fs\<lparr>dir_ptr := d, sources_ptr := src\<rparr>)))
        | Some this_dir \<Rightarrow> bind_res (append_to [file] (sources_ptr fs)) (\<lambda>src. bind_res (merge_to this_dir (dir_ptr fs)) (\<lambda>d.
            Ok (0, fs\<lparr>sources_ptr := src, dir_ptr := d\<rparr>)))))"

definition psf2fs_load_callback :: "u8 list \<Rightarrow> u8 list \<Rightarrow> psf2fs \<Rightarrow> (int \<times> psf2fs) res" where
  "psf2fs_load_callback exe reserved fs = addarchive reserved (sint (of_nat (length reserved) :: u32)) fs"

section \<open>Reading a file\<close>

text \<open>What \<^verbatim>\<open>uncompress\<close> answers: the output when it fits in the buffer, or an error.\<close>

type_synonym zlib = "nat \<Rightarrow> u8 list \<Rightarrow> u8 list option"

text \<open>
  The cache block is brought up to date with the block at \<open>zofs\<close>. The length handed to zlib must not be
  negative: it would be taken as a huge one.
\<close>

definition fetch_block :: "zlib \<Rightarrow> u8 list \<Rightarrow> nat option \<Rightarrow> int \<Rightarrow> int \<Rightarrow> int \<Rightarrow> cacheblock \<Rightarrow> (bool \<times> cacheblock) res" where
  "fetch_block unz file src zofs zsize usize c =
     (if from_offset c \<noteq> zofs \<or> from_source c \<noteq> src then
        let c1 = c\<lparr>from_source := None, uncompressed_size := usize\<rparr> in
        require (0 \<le> zsize) OutOfBounds
          (case unz (nat usize) (take (nat zsize) (drop (nat zofs) file)) of
             None \<Rightarrow> Ok (False, c1)
           | Some out \<Rightarrow> Ok (int (length out) = usize, c1\<lparr>uncompressed_data := Some out\<rparr>))
      else Ok (True, c))"

definition drop_cache :: "cacheblock \<Rightarrow> cacheblock" where
  "drop_cache c = (if from_source c = None then c\<lparr>uncompressed_size := 0, uncompressed_data := None\<rparr> else c)"

primrec read_loop :: "nat \<Rightarrow> zlib \<Rightarrow> psf2fs \<Rightarrow> dir_entry \<Rightarrow> int \<Rightarrow> int \<Rightarrow> u8 list \<Rightarrow> cacheblock \<Rightarrow> (int \<times> u8 list \<times> cacheblock) res" where
  "read_loop 0 unz fs entry offset len buffer c = Fail OutOfFuel"
| "read_loop (Suc k) unz fs entry offset len buffer c =
     (if int (length buffer) \<ge> len then Ok (int (length buffer), buffer, c)
      else case (offset_table entry, source entry) of
        (Some table, Some src) \<Rightarrow>
          require (block_size entry \<noteq> 0) Undefined
          (let blocknum = nat (offset div block_size entry); ofs_within_block = offset mod block_size entry in
           require (blocknum + 1 < length table \<and> src < length (sources fs)) OutOfBounds
           (let file = sources fs ! src; zofs = table ! blocknum in
            bind_res (checked_int (table ! (blocknum + 1) - zofs)) (\<lambda>zsize.
            if zofs \<le> 0 \<or> zofs \<ge> int (length file) \<or> zofs + zsize > int (length file) then Ok (- 1, buffer, drop_cache c)
            else let usize = min (elength entry - int blocknum * block_size entry) (block_size entry) in
              bind_res (fetch_block unz file (Some src) zofs zsize usize c) (\<lambda>(good, c1).
              if \<not> good then Ok (- 1, buffer, drop_cache c1)
              else let canread = min (uncompressed_size c1 - ofs_within_block) (len - int (length buffer)) in
                (case uncompressed_data c1 of None \<Rightarrow> Fail NullPointer
                 | Some block \<Rightarrow> require (0 \<le> canread \<and> ofs_within_block + canread \<le> int (length block)) OutOfBounds
                    (read_loop k unz fs entry (offset + canread) len
                      (buffer @ take (nat canread) (drop (nat ofs_within_block) block)) c1))))))
      | _ \<Rightarrow> Fail NullPointer)"

definition virtual_read :: "zlib \<Rightarrow> psf2fs \<Rightarrow> dir_entry \<Rightarrow> int \<Rightarrow> int \<Rightarrow> ((int \<times> u8 list) \<times> psf2fs) res" where
  "virtual_read unz fs entry offset len =
     (if offset \<ge> elength entry then Ok ((0, []), fs)
      else bind_res (checked_int (offset + len)) (\<lambda>e.
        let n = (if e > elength entry then elength entry - offset else len) in
        bind_res (read_loop (Suc (nat n)) unz fs entry offset n [] (cache fs)) (\<lambda>(r, buffer, c).
        Ok ((r, buffer), fs\<lparr>cache := c\<rparr>))))"

text \<open>The walk along the path; a component is what lies between separators.\<close>

function find_path :: "dir_entry list \<Rightarrow> cstring \<Rightarrow> dir_entry option" where
  "find_path entries path =
     (if entries = [] then None
      else let p = dropWhile isdirsep path; name = takeWhile (\<lambda>c. \<not> isdirsep c) p; rest = dropWhile (\<lambda>c. \<not> isdirsep c) p in
        case finddirentry entries name of
          None \<Rightarrow> None
        | Some d \<Rightarrow> if rest = [] then Some d else find_path (subdir d) rest)"
  by pat_completeness auto
termination
proof (relation "measure (\<lambda>(ds, path). length path)", goal_cases)
  case (2 entries path p name rest d)
  have p: "p \<noteq> []" using 2(4,6) by (metis dropWhile.simps(1))
  then have "\<not> isdirsep (hd p)" using 2(2) hd_dropWhile[of isdirsep path] by simp
  then have "length rest < length p"
    using 2(4) p length_dropWhile_le[of "\<lambda>c. \<not> isdirsep c" "List.tl p"] by (cases p) (simp_all add: less_Suc_eq_le)
  then show ?case using 2(2) length_dropWhile_le[of isdirsep path] by simp
qed simp

declare find_path.simps [simp del]

definition psf2fs_virtual_readfile :: "zlib \<Rightarrow> psf2fs \<Rightarrow> cstring \<Rightarrow> int \<Rightarrow> int \<Rightarrow> ((int \<times> u8 list) \<times> psf2fs) res" where
  "psf2fs_virtual_readfile unz fs path offset len =
     (if offset < 0 \<or> len < 0 then Ok ((- 1, []), fs)
      else require (dir_ptr fs \<noteq> Released) Undefined
        (case find_path (dir fs) path of
           None \<Rightarrow> Ok ((- 1, []), fs)
         | Some d \<Rightarrow>
             if subdir d \<noteq> [] then Ok ((- 1, []), fs)
             else if len = 0 then Ok ((elength d, []), fs)
             else virtual_read unz fs d offset len))"

end
