(* ===== verification/Psf2fsLaws.thy ===== *)
theory Psf2fsLaws
  imports Psf2fs
begin

text \<open>
  What the file system promises. A read of a sound file gives its contents (\<open>read_loop_slice\<close>); the parser of
  archives stays inside its data and makes well-formed entries only (\<open>archive_sound\<close>), merging keeps them so, and
  therefore reads stay inside their buffers whatever has been loaded (\<open>fs_ok\<close>, an invariant over \<open>fs_step\<close>, the
  calls of the interface). The merge of two directories is characterised by what a name leads to.
\<close>

section \<open>Reading gives the file\<close>

lemma psf2fs_parts [simp]:
  "sources (fs\<lparr>cache := c\<rparr>) = sources fs" "dir (fs\<lparr>cache := c\<rparr>) = dir fs"
  "sources (fs\<lparr>sources_ptr := Nodes xs\<rparr>) = xs" "dir (fs\<lparr>dir_ptr := Nodes ds\<rparr>) = ds"
  "sources (fs\<lparr>dir_ptr := q\<rparr>) = sources fs" "dir (fs\<lparr>sources_ptr := p\<rparr>) = dir fs"
  "sources psf2fs_create = []" "dir psf2fs_create = []" "sources \<lparr>sources_ptr = p, dir_ptr = q, cache = c\<rparr> = list_at p"
  "dir \<lparr>sources_ptr = p, dir_ptr = q, cache = c\<rparr> = list_at q"
  by (simp_all add: sources_def dir_def psf2fs_create_def)

text \<open>
  \<open>file_blocks unz fs e chunks\<close>: the entry \<open>e\<close> is a file whose blocks lie in its source, one behind the other,
  and unpack to \<open>chunks\<close>, of the sizes the entry says.
\<close>

definition chunk_size :: "dir_entry \<Rightarrow> nat \<Rightarrow> int" where
  "chunk_size e i = min (elength e - int i * block_size e) (block_size e)"

definition file_blocks :: "zlib \<Rightarrow> psf2fs \<Rightarrow> dir_entry \<Rightarrow> u8 list list \<Rightarrow> bool" where
  "file_blocks unz fs e chunks \<longleftrightarrow> 0 < elength e \<and> 0 < block_size e \<and>
     (\<exists>t src. offset_table e = Some t \<and> source e = Some src \<and> src < length (sources fs) \<and>
       int (length (sources fs ! src)) \<le> 2147483647 \<and>
       length t = length chunks + 1 \<and> int (length chunks) = (elength e + (block_size e - 1)) div block_size e \<and>
       (\<forall>i < length chunks. 0 < t ! i \<and> t ! i \<le> t ! (i + 1) \<and> t ! i < int (length (sources fs ! src)) \<and>
         t ! (i + 1) \<le> int (length (sources fs ! src)) \<and> int (length (chunks ! i)) = chunk_size e i \<and>
         unz (nat (chunk_size e i)) (take (nat (t ! (i + 1) - t ! i)) (drop (nat (t ! i)) (sources fs ! src))) = Some (chunks ! i)))"

lemma concat_uniform: "i \<le> length xs \<Longrightarrow> (\<And>j. j < i \<Longrightarrow> length (xs ! j) = b) \<Longrightarrow> length (concat (take i xs)) = i * b"
  by (induction i) (simp_all add: take_Suc_conv_app_nth)

lemma chunk_before:
  assumes "0 < b" "int n = (len + (b - 1)) div b" "i < n"
  shows "int i * b < len" "j < i \<Longrightarrow> min (len - int j * b) b = b"
proof -
  define q where "q = (len + (b - 1)) div b"
  have "q * b + (len + (b - 1)) mod b = len + (b - 1)" by (simp add: q_def)
  then have "q * b \<le> len + (b - 1)" using pos_mod_sign[OF assms(1), of "len + (b - 1)"] by linarith
  moreover have "(int i + 1) * b \<le> q * b" using assms by (intro mult_right_mono) (auto simp: q_def)
  ultimately show *: "int i * b < len" by (simp add: algebra_simps)
  show "min (len - int j * b) b = b" if "j < i"
  proof -
    have "(int j + 1) * b \<le> int i * b" using that assms(1) by (intro mult_right_mono) auto
    then show ?thesis using * by (simp add: algebra_simps)
  qed
qed

lemma last_chunk:
  assumes "0 < b" "int n = (len + (b - 1)) div b" "0 \<le> x" "x < len"
  shows "nat (x div b) < n"
proof -
  have "x div b * b \<le> x" using pos_mod_sign[OF assms(1), of x] minus_mod_eq_div_mult[of x b] by linarith
  have "len = (len - 1) + 1" by simp
  have "x div b \<le> (len - 1) div b" using assms by (intro zdiv_mono1) auto
  moreover have "(len + (b - 1)) div b = (len - 1) div b + 1"
    using assms(1) div_add_self2[of b "len - 1"] by (simp add: algebra_simps)
  moreover have "0 \<le> x div b" using assms by (simp add: pos_imp_zdiv_nonneg_iff)
  ultimately show ?thesis using assms(2) by linarith
qed

text \<open>The contents from an offset on start with the rest of the chunk the offset lies in.\<close>

lemma contents_drop:
  assumes "file_blocks unz fs e chunks" "int off < elength e" "i = nat (int off div block_size e)" "r = nat (int off mod block_size e)"
  shows "i < length chunks" "r < length (chunks ! i)"
    "drop off (concat chunks) = drop r (chunks ! i) @ concat (drop (Suc i) chunks)"
proof -
  define b where "b = block_size e"
  have b: "0 < b" "int (length chunks) = (elength e + (b - 1)) div b"
    and len: "\<And>j. j < length chunks \<Longrightarrow> int (length (chunks ! j)) = min (elength e - int j * b) b"
    using assms(1) by (auto simp: file_blocks_def b_def chunk_size_def)
  show i: "i < length chunks"
    using last_chunk[OF b, of "int off"] assms(2,3) by (simp add: b_def)
  have nn: "0 \<le> int off div b" "0 \<le> int off mod b" "int off mod b < b" using b(1) by (simp_all add: pos_imp_zdiv_nonneg_iff)
  then have off: "int off = int i * b + int r" using assms(3,4) by (simp add: b_def)
  have "int r < b" using nn assms(4) by (simp add: b_def)
  then show r: "r < length (chunks ! i)" using len[OF i] off assms(2) by linarith
  have "length (chunks ! j) = nat b" if "j < i" for j
    using len[of j] that i chunk_before(2)[OF b i that] by simp
  then have l: "length (concat (take i chunks)) = i * nat b" using i by (intro concat_uniform) auto
  have "int off = int (i * nat b + r)" using off b(1) by simp
  then have off': "off = i * nat b + r" by (simp only: of_nat_eq_iff)
  have "concat chunks = concat (take i chunks) @ chunks ! i @ concat (drop (Suc i) chunks)"
    using id_take_nth_drop[OF i] by (metis concat.simps(2) concat_append)
  then show "drop off (concat chunks) = drop r (chunks ! i) @ concat (drop (Suc i) chunks)"
    using l r by (simp add: off')
qed

lemma contents_length:
  assumes "file_blocks unz fs e chunks"
  shows "length (concat chunks) \<le> nat (elength e)"
proof -
  define b where "b = block_size e"
  have b: "0 < b" "int (length chunks) = (elength e + (b - 1)) div b"
    and len: "\<And>j. j < length chunks \<Longrightarrow> int (length (chunks ! j)) = min (elength e - int j * b) b"
    using assms by (auto simp: file_blocks_def b_def chunk_size_def)
  show ?thesis
  proof (cases chunks rule: rev_cases)
    case (snoc xs x)
    have "length (chunks ! j) = nat b" if "j < length xs" for j
      using len[of j] that snoc chunk_before(2)[OF b, of "length xs" j] by simp
    then have "length (concat (take (length xs) chunks)) = length xs * nat b" by (intro concat_uniform) (auto simp: snoc)
    then have c: "length (concat chunks) = length xs * nat b + length x" by (simp add: snoc)
    have x: "int (length x) = min (elength e - int (length xs) * b) b" using len[of "length xs"] by (simp add: snoc)
    have nb: "int (nat b) = b" using b(1) by simp
    have "int (length (concat chunks)) \<le> elength e"
      unfolding c of_nat_add of_nat_mult nb x by (simp add: min_def)
    then show ?thesis by simp
  qed simp
qed

lemma fetch_good:
  assumes "from_source c = None" "unz (nat usize) (take (nat zsize) (drop (nat zofs) file)) = Some out" "int (length out) = usize" "0 \<le> zsize"
  obtains c1 where "fetch_block unz file (Some src) zofs zsize usize c = Ok (True, c1)" "from_source c1 = None"
    "uncompressed_data c1 = Some out" "uncompressed_size c1 = usize"
  using assms by (auto simp: fetch_block_def Let_def)

lemma read_loop_slice:
  assumes blocks: "file_blocks unz fs e chunks"
  shows "n - length buffer < k \<Longrightarrow> length buffer \<le> n \<Longrightarrow> start + n \<le> nat (elength e) \<Longrightarrow> from_source c = None \<Longrightarrow>
    \<exists>c'. read_loop k unz fs e (int (start + length buffer)) (int n) buffer c =
      Ok (int n, buffer @ take (n - length buffer) (drop (start + length buffer) (concat chunks)), c') \<and> from_source c' = None"
proof (induction k arbitrary: buffer c)
  case (Suc k)
  show ?case
  proof (cases "length buffer = n")
    case True
    then show ?thesis using Suc.prems(4) by auto
  next
    case False
    define off where "off = start + length buffer"
    define i r where "i = nat (int off div block_size e)" and "r = nat (int off mod block_size e)"
    have off: "int off < elength e" using Suc.prems(2,3) False unfolding off_def by linarith
    note cd = contents_drop[OF blocks off i_def r_def]
    obtain t src where t: "offset_table e = Some t" "source e = Some src" "src < length (sources fs)" "length t = length chunks + 1"
        "0 < block_size e" "int (length (sources fs ! src)) \<le> 2147483647"
        "0 < t ! i" "t ! i \<le> t ! (i + 1)" "t ! i < int (length (sources fs ! src))" "t ! (i + 1) \<le> int (length (sources fs ! src))"
        "int (length (chunks ! i)) = chunk_size e i"
        "unz (nat (chunk_size e i)) (take (nat (t ! (i + 1) - t ! i)) (drop (nat (t ! i)) (sources fs ! src))) = Some (chunks ! i)"
      using blocks cd(1) by (auto simp: file_blocks_def)
    obtain c1 where c1: "fetch_block unz (sources fs ! src) (Some src) (t ! i) (t ! (i + 1) - t ! i) (chunk_size e i) c = Ok (True, c1)"
        "from_source c1 = None" "uncompressed_data c1 = Some (chunks ! i)" "uncompressed_size c1 = chunk_size e i"
      using fetch_good[of c unz "chunk_size e i" "t ! (i + 1) - t ! i" "t ! i" "sources fs ! src" "chunks ! i", OF Suc.prems(4) t(12,11)] t(8)
      by (metis diff_ge_0_iff_ge)
    define m where "m = min (length (chunks ! i) - r) (n - length buffer)"
    have m: "0 < m" using cd(2) False Suc.prems(2) by (simp add: m_def)
    have canread: "min (uncompressed_size c1 - int off mod block_size e) (int n - int (length buffer)) = int m"
    proof -
      have "int off mod block_size e = int r" using t(5) by (simp add: r_def)
      then show ?thesis using c1(4) t(11) cd(2) Suc.prems(2) by (simp add: m_def of_nat_diff)
    qed
    have step: "read_loop (Suc k) unz fs e (int off) (int n) buffer c =
        read_loop k unz fs e (int (start + length (buffer @ take m (drop r (chunks ! i))))) (int n) (buffer @ take m (drop r (chunks ! i))) c1"
    proof -
      have nz: "block_size e \<noteq> 0" "\<not> int n \<le> int (length buffer)" using t(5) False Suc.prems(2) by auto
      have ch: "checked_int (t ! (i + 1) - t ! i) = Ok (t ! (i + 1) - t ! i)" using t(6-10) by (simp add: checked_int_def)
      have bounds: "int off mod block_size e + int m \<le> int (length (chunks ! i))"
      proof -
        have "int off mod block_size e = int r" using t(5) by (simp add: r_def)
        moreover have "r + m \<le> length (chunks ! i)" using cd(2) unfolding m_def by linarith
        ultimately show ?thesis by linarith
      qed
      have l: "length (take m (drop r (chunks ! i))) = m" using cd(2) by (simp add: m_def)
      have ib: "i + 1 < length t" "src < length (sources fs)" using t(3,4) cd(1) by simp_all
      have cs: "min (elength e - int i * block_size e) (block_size e) = chunk_size e i" by (simp add: chunk_size_def)
      have zb: "\<not> (t ! i \<le> 0 \<or> t ! i \<ge> int (length (sources fs ! src)) \<or> t ! i + (t ! (i + 1) - t ! i) > int (length (sources fs ! src)))"
        using t(7-10) by simp
      have rhs: "int (start + length (buffer @ take m (drop r (chunks ! i)))) = int off + int m" by (simp only: off_def l length_append of_nat_add add.assoc)
      show ?thesis
        unfolding rhs read_loop.simps i_def[symmetric] Let_def t(1,2) prod.case option.case
        using nz(2) by (simp only: nz if_False ib simp_thms require_simps ch bind_res_simps zb cs c1(1,3) prod.case option.case canread
            r_def[symmetric] bounds of_nat_0_le_iff nat_int not_True_eq_False)
    qed
    define buffer' where "buffer' = buffer @ take m (drop r (chunks ! i))"
    have l: "length buffer' = length buffer + m" using cd(2) by (simp add: buffer'_def m_def)
    have mle: "m \<le> n - length buffer" by (simp add: m_def)
    obtain c' where c': "read_loop k unz fs e (int (start + length buffer')) (int n) buffer' c1 =
        Ok (int n, buffer' @ take (n - length buffer') (drop (start + length buffer') (concat chunks)), c')" "from_source c' = None"
    proof -
      have "n - length buffer' < k" "length buffer' \<le> n" using m mle Suc.prems(1,2) by (simp_all add: l)
      from Suc.IH[OF this Suc.prems(3) c1(2)] show ?thesis using that by blast
    qed
    have "take m (drop r (chunks ! i)) @ take (n - length buffer - m) (drop (off + m) (concat chunks)) =
        take (n - length buffer) (drop off (concat chunks))"
    proof -
      have "take m (drop off (concat chunks)) = take m (drop r (chunks ! i))" unfolding cd(3) by (simp add: m_def)
      moreover have "take (n - length buffer) (drop off (concat chunks)) =
          take m (drop off (concat chunks)) @ take (n - length buffer - m) (drop m (drop off (concat chunks)))"
        using take_add[of m "n - length buffer - m" "drop off (concat chunks)"] le_add_diff_inverse[OF mle] by (simp only:)
      ultimately show ?thesis by (simp only: drop_drop add.commute)
    qed
    then have "buffer' @ take (n - length buffer') (drop (start + length buffer') (concat chunks)) =
        buffer @ take (n - length buffer) (drop off (concat chunks))"
      by (simp only: l diff_diff_left[symmetric] off_def add.assoc) (simp only: buffer'_def append_assoc)
    then show ?thesis using c' unfolding off_def[symmetric] step buffer'_def[symmetric] by auto
  qed
qed simp

text \<open>C3: reading from a file whose blocks are all sound gives exactly the requested part of its contents, up to the
  end of the file, whatever the offset and the block boundaries crossed; the loop over the blocks ends.\<close>
theorem virtual_read_slice:
  assumes "file_blocks unz fs e chunks" "from_source (cache fs) = None" "0 \<le> off" "off < elength e" "0 < n" "off + n \<le> 2147483647"
  shows "\<exists>c. virtual_read unz fs e off n =
    Ok ((min n (elength e - off), take (nat n) (drop (nat off) (concat chunks))), fs\<lparr>cache := c\<rparr>) \<and> from_source c = None"
proof -
  define m where "m = nat (min n (elength e - off))"
  have m: "int m = min n (elength e - off)" using assms(4,5) by (simp add: m_def)
  obtain c where c: "read_loop (Suc m) unz fs e (int (nat off)) (int m) [] (cache fs) =
      Ok (int m, take m (drop (nat off) (concat chunks)), c)" "from_source c = None"
  proof -
    have "m - length [] < Suc m" "length [] \<le> m" "nat off + m \<le> nat (elength e)" using assms(3,4) m by simp_all
    from read_loop_slice[OF assms(1) this assms(2)] show ?thesis using that by (auto simp del: read_loop.simps)
  qed
  have total: "length (concat chunks) \<le> nat (elength e)" using contents_length[OF assms(1)] .
  from total have "take m (drop (nat off) (concat chunks)) = take (nat n) (drop (nat off) (concat chunks))"
  proof (cases "n \<le> elength e - off")
    case False
    then have "length (drop (nat off) (concat chunks)) \<le> m" "m \<le> nat n" using total assms(3,4) by (simp_all add: m_def)
    then show ?thesis by simp
  qed (simp add: m_def)
  moreover have "(if off + n > elength e then elength e - off else n) = int m" using m by auto
  ultimately have "virtual_read unz fs e off n =
      Ok ((min n (elength e - off), take (nat n) (drop (nat off) (concat chunks))), fs\<lparr>cache := c\<rparr>)"
    using c assms(3,4,5,6) m by (simp add: virtual_read_def checked_int_def Let_def m_def[symmetric] del: read_loop.simps)
  then show ?thesis using c(2) by blast
qed

section \<open>The parser stays inside its data\<close>

text \<open>\<open>sound r P\<close>: nothing goes wrong but an overflow of \<^verbatim>\<open>int\<close>, and a result satisfies \<open>P\<close>.\<close>

definition sound :: "'a res \<Rightarrow> ('a \<Rightarrow> bool) \<Rightarrow> bool" where
  "sound r P \<longleftrightarrow> (case r of Inl e \<Rightarrow> e = Undefined | Inr x \<Rightarrow> P x)"

lemma sound_simps [simp]: "sound (Ok x) P \<longleftrightarrow> P x" "sound (Fail e) P \<longleftrightarrow> e = Undefined"
  by (simp_all add: sound_def)

lemma sound_bind: "sound m Q \<Longrightarrow> (\<And>x. m = Ok x \<Longrightarrow> Q x \<Longrightarrow> sound (f x) P) \<Longrightarrow> sound (bind_res m f) P"
  by (cases m) auto

lemma sound_int: "sound (checked_int v) (\<lambda>x. x = v \<and> - 2147483648 \<le> v \<and> v \<le> 2147483647)"
  by (simp add: checked_int_def require_def)

lemma sound_read: "0 \<le> p \<Longrightarrow> p + 4 \<le> int (length f) \<Longrightarrow> sound (read32lsb f p) (\<lambda>v. True)"
  by (simp add: read32lsb_def Let_def)

lemma sound_if: "(b \<Longrightarrow> sound m P) \<Longrightarrow> (\<not> b \<Longrightarrow> sound m' P) \<Longrightarrow> sound (if b then m else m') P"
  by simp

lemma sound_option: "(x = None \<Longrightarrow> sound a P) \<Longrightarrow> (\<And>y. x = Some y \<Longrightarrow> sound (f y) P) \<Longrightarrow>
    sound (case x of None \<Rightarrow> a | Some y \<Rightarrow> f y) P"
  by (cases x) auto

text \<open>An entry is well formed when it is a directory, an empty file, or a file with a source and an offset for every block.\<close>

fun entry_ok :: "nat \<Rightarrow> dir_entry \<Rightarrow> bool" where
  "entry_ok n (DIR_ENTRY name sub len b src t) \<longleftrightarrow> list_all (entry_ok n) sub \<and> 0 \<le> len \<and>
     (len \<noteq> 0 \<longrightarrow> 0 < b \<and> (\<exists>s tb. src = Some s \<and> s < n \<and> t = Some tb \<and> int (length tb) = (len + (b - 1)) div b + 1))"

lemma block_offsets_sound:
  "0 \<le> p \<Longrightarrow> sound (block_offsets n f p d) (\<lambda>r. case r of None \<Rightarrow> True | Some t \<Rightarrow> length t = n + 1)"
proof (induction n arbitrary: p d)
  case (Suc n)
  show ?case
    unfolding block_offsets.simps
    by (intro sound_bind[OF sound_int] sound_if sound_bind[OF sound_read] sound_bind[OF Suc.IH])
      (use Suc.prems in \<open>auto split: option.splits\<close>)
qed simp

lemma file_table_sound:
  assumes "0 \<le> p" "0 < u" "0 < b"
  shows "sound (file_table f p u b) (\<lambda>r. case r of None \<Rightarrow> True | Some t \<Rightarrow> int (length t) = (u + (b - 1)) div b + 1)"
proof -
  have "0 \<le> (u + (b - 1)) div b" using assms by (simp add: pos_imp_zdiv_nonneg_iff)
  then have "sound (block_offsets (nat ((u + (b - 1)) div b)) f p d)
      (\<lambda>r. case r of None \<Rightarrow> True | Some t \<Rightarrow> int (length t) = (u + (b - 1)) div b + 1)" for d
    using block_offsets_sound[OF assms(1), of "nat ((u + (b - 1)) div b)" f d]
    by (auto simp: sound_def split: sum.splits option.splits)
  then show ?thesis
    unfolding file_table_def block_count_def bind_res_assoc bind_res_simps
    by (intro sound_bind[OF sound_int] sound_if) auto
qed

lemma archive_sound:
  "sound (makearchivedir i f offset) (\<lambda>r. case r of None \<Rightarrow> True | Some ds \<Rightarrow> list_all (entry_ok (Suc i)) ds)"
  "0 \<le> offset \<Longrightarrow> list_all (entry_ok (Suc i)) ds \<Longrightarrow>
    sound (archive_entries i f offset n ds) (\<lambda>r. case r of None \<Rightarrow> True | Some ds \<Rightarrow> list_all (entry_ok (Suc i)) ds)"
proof (induction i f offset and i f offset n ds rule: makearchivedir_archive_entries.induct)
  case (1 i f offset)
  show ?case
    unfolding makearchivedir.simps[of i f offset]
    by (intro sound_if sound_bind[OF sound_int] sound_bind[OF sound_read] 1) auto
next
  case (2 i f offset n ds)
  show ?case
    unfolding archive_entries.simps[of i f offset n ds] Let_def
    by (intro sound_if sound_bind[OF sound_int] sound_bind[OF sound_read] sound_option 2(1) sound_bind[OF 2(2)]
        sound_bind[OF file_table_sound])
      (use 2(3,4) in \<open>simp_all add: empty_entry_def\<close>)
qed

section \<open>Merging and loading\<close>

lemma list_all_mono: "list_all P xs \<Longrightarrow> (\<And>x. x \<in> set xs \<Longrightarrow> P x \<Longrightarrow> Q x) \<Longrightarrow> list_all Q xs"
  by (auto simp: list_all_iff)

lemma entry_ok_more: "entry_ok n d \<Longrightarrow> n \<le> m \<Longrightarrow> entry_ok m d"
proof (induction d)
  case (DIR_ENTRY name sub len b src t)
  then have "list_all (entry_ok m) sub" by (auto intro: list_all_mono)
  then show ?case using DIR_ENTRY.prems by auto
qed

lemma finddirentry_Some: "finddirentry ds name = Some d \<Longrightarrow> d \<in> set ds \<and> same_nocase (ename d) name"
  by (auto simp: finddirentry_def find_Some_iff in_set_conv_nth split: if_splits)

lemma first_match_all:
  assumes "list_all P ds" "finddirentry ds name = Some d" "P (f d)"
  shows "list_all P (first_match name f ds)"
proof -
  have "find (\<lambda>d. same_nocase (ename d) name) ds = Some d" using assms(2) by (simp add: finddirentry_def split: if_splits)
  then show ?thesis using assms(1,3) by (induction ds) (auto split: if_splits)
qed

lemma entry_ok_subdir: "entry_ok n d \<Longrightarrow> list_all (entry_ok n) (subdir d)"
  by (cases d) simp

lemma entry_ok_set_subdir: "entry_ok n d \<Longrightarrow> list_all (entry_ok n) ds \<Longrightarrow> entry_ok n (set_subdir ds d)"
  by (cases d) (simp add: set_subdir_def)

lemma entry_ok_copy_file: "entry_ok n e \<Longrightarrow> entry_ok n d \<Longrightarrow> entry_ok n (copy_file e d)"
  by (cases d; cases e) (simp add: copy_file_def)

lemma mergedir_ok: "list_all (entry_ok n) ds \<Longrightarrow> list_all (entry_ok n) from' \<Longrightarrow> list_all (entry_ok n) (mergedir ds from')"
proof (induction ds from' rule: mergedir.induct)
  case (2 ds e rest)
  have e: "entry_ok n e" "list_all (entry_ok n) rest" using 2(4) by simp_all
  have "list_all (entry_ok n) (case finddirentry ds (ename e) of None \<Rightarrow> e # ds
    | Some d \<Rightarrow> if subdir d \<noteq> [] \<and> subdir e \<noteq> [] then first_match (ename e) (set_subdir (mergedir (subdir d) (subdir e))) ds
       else if subdir d = [] \<and> subdir e = [] then first_match (ename e) (copy_file e) ds else ds)"
  proof (cases "finddirentry ds (ename e)")
    case (Some d)
    then have d: "entry_ok n d" using 2(3) finddirentry_Some[OF Some] by (auto simp: list_all_iff)
    have "list_all (entry_ok n) (mergedir (subdir d) (subdir e))" if "subdir d \<noteq> []" "subdir e \<noteq> []"
      using 2(1)[OF Some] that d e(1) by (simp add: entry_ok_subdir)
    then show ?thesis
      using Some d e(1) 2(3) by (auto intro!: first_match_all[OF 2(3) Some] entry_ok_set_subdir entry_ok_copy_file)
  qed (use e 2(3) in simp)
  then show ?case using 2(2) e(2) by simp
qed simp

text \<open>
  The invariant of a file system: its entries, as long as they are there, are well formed, and the cache
  block never names a source, so that it is never used.
\<close>

definition fs_ok :: "psf2fs \<Rightarrow> bool" where
  "fs_ok fs \<longleftrightarrow> from_source (cache fs) = None \<and> list_all (entry_ok (length (sources fs))) (dir fs)"

lemma load_ok:
  assumes "fs_ok fs"
  shows "sound (psf2fs_load_callback exe reserved fs) (\<lambda>(r, fs'). fs_ok fs')"
proof -
  let ?i = "length (sources fs)"
  define size :: int where "size = sint (of_nat (length reserved) :: u32)"
  define f where "f = take (nat size) reserved"
  have ok: "from_source (cache fs) = None" "list_all (entry_ok ?i) (dir fs)" using assms by (auto simp: fs_ok_def)
  then have more: "list_all (entry_ok (Suc ?i)) (dir fs)" by (auto elim!: list_all_mono intro: entry_ok_more)
  have arch: "sound (makearchivedir ?i f 0) (\<lambda>r. case r of None \<Rightarrow> True | Some ds \<Rightarrow> list_all (entry_ok (Suc ?i)) ds)"
    by (rule archive_sound(1))
  have released: "sound (cleanup_free p) (\<lambda>q. list_at q = [])" for p :: "'a list_ptr"
    by (simp add: cleanup_free_def split: list_ptr.split)
  have app: "sound (append_to [f] (sources_ptr fs)) (\<lambda>q. length (list_at q) = Suc ?i)"
    by (simp add: append_to_def sources_def split: list_ptr.split)
  have mrg: "sound (merge_to ds (dir_ptr fs)) (\<lambda>q. list_all (entry_ok (Suc ?i)) (list_at q))" if "list_all (entry_ok (Suc ?i)) ds" for ds
    using more that by (auto simp: merge_to_def dir_def intro!: mergedir_ok split: list_ptr.split)
  show ?thesis
    unfolding psf2fs_load_callback_def addarchive_def size_def[symmetric] f_def[symmetric] Let_def
    by (intro sound_if sound_bind[OF arch] sound_option sound_bind[OF released] sound_bind[OF app] sound_bind[OF mrg])
      (use ok in \<open>auto simp: fs_ok_def dir_def sources_def\<close>)
qed

section \<open>Reads stay inside their buffers\<close>

text \<open>
  \<open>blocks_ascend e\<close>: the offsets of the blocks of a file ascend, as they do unless the size of a block is negative. \<open>read_sound bad n r\<close>: a read of at
  most \<open>n\<close> bytes answers \<open>- 1\<close> or the number of bytes it put into the buffer, which is at most \<open>n\<close>, and leaves the cache unused. It
  ends; only when \<open>bad\<close> it may go wrong.
\<close>

definition blocks_ascend :: "dir_entry \<Rightarrow> bool" where
  "blocks_ascend e \<longleftrightarrow> (case offset_table e of None \<Rightarrow> True
     | Some t \<Rightarrow> (\<forall>i < length t - 1. 0 \<le> t ! i \<and> t ! i \<le> t ! (i + 1) \<and> t ! (i + 1) \<le> 2147483647))"

definition read_sound :: "bool \<Rightarrow> int \<Rightarrow> (int \<times> u8 list \<times> cacheblock) res \<Rightarrow> bool" where
  "read_sound bad n x \<longleftrightarrow> (case x of Inl e \<Rightarrow> bad \<and> (e = Undefined \<or> e = OutOfBounds)
     | Inr (r, buffer, c) \<Rightarrow> int (length buffer) \<le> n \<and> (r = - 1 \<or> r = int (length buffer)) \<and> from_source c = None)"

lemma read_sound_simps [simp]:
  "read_sound bad n (Fail e) \<longleftrightarrow> bad \<and> (e = Undefined \<or> e = OutOfBounds)"
  "read_sound bad n (Ok (r, buffer, c)) \<longleftrightarrow> int (length buffer) \<le> n \<and> (r = - 1 \<or> r = int (length buffer)) \<and> from_source c = None"
  by (simp_all add: read_sound_def)

lemma read_sound_require: "b \<Longrightarrow> read_sound bad n m \<Longrightarrow> read_sound bad n (require b e m)"
  by (simp add: require_def)

lemma read_sound_if: "(b \<Longrightarrow> read_sound bad n m) \<Longrightarrow> (\<not> b \<Longrightarrow> read_sound bad n m') \<Longrightarrow> read_sound bad n (if b then m else m')"
  by simp

lemma read_sound_int: "(- 2147483648 \<le> v \<and> v \<le> 2147483647 \<or> bad) \<Longrightarrow> read_sound bad n (f v) \<Longrightarrow> read_sound bad n (bind_res (checked_int v) f)"
  by (auto simp: checked_int_def require_def)

lemma drop_cache_source [simp]: "from_source c = None \<Longrightarrow> from_source (drop_cache c) = None"
  by (simp add: drop_cache_def)

lemma fetch_sound:
  assumes "from_source c = None"
  shows "case fetch_block unz fl (Some src) zofs zsize usize c of Inl e \<Rightarrow> e = OutOfBounds \<and> zsize < 0
    | Inr (good, c1) \<Rightarrow> from_source c1 = None \<and>
        (good \<longrightarrow> uncompressed_size c1 = usize \<and> (\<exists>out. uncompressed_data c1 = Some out \<and> int (length out) = usize))"
  using assms by (auto simp: fetch_block_def Let_def require_def split: option.splits)

lemma read_loop_sound:
  assumes e: "entry_ok (length (sources fs)) e" and len: "0 < elength e"
  shows "nat n - length buffer < k \<Longrightarrow> int (length buffer) \<le> n \<Longrightarrow> 0 \<le> off \<Longrightarrow>
    off + (n - int (length buffer)) \<le> elength e \<Longrightarrow> from_source c = None \<Longrightarrow>
    read_sound (\<not> blocks_ascend e) n (read_loop k unz fs e off n buffer c)"
proof (induction k arbitrary: buffer off c)
  case (Suc k)
  obtain src t where et: "source e = Some src" "src < length (sources fs)" "offset_table e = Some t" "0 < block_size e"
      "int (length t) = (elength e + (block_size e - 1)) div block_size e + 1"
    using e len by (cases e) auto
  show ?case
  proof (cases "int (length buffer) \<ge> n")
    case False
    let ?b = "block_size e" and ?file = "sources fs ! src"
    let ?i = "nat (off div ?b)" and ?o = "off mod ?b"
    let ?zofs = "t ! ?i" and ?zsize = "t ! (?i + 1) - t ! ?i"
    define usize where "usize = min (elength e - int ?i * ?b) ?b"
    have off: "off < elength e" using False Suc.prems(4) by linarith
    have o: "0 \<le> ?o" "?o < usize"
    proof -
      have "int ?i * ?b + ?o = off" using Suc.prems(3) et(4) by (simp add: pos_imp_zdiv_nonneg_iff)
      then show "?o < usize" "0 \<le> ?o" using off et(4) pos_mod_bound[of ?b off] by (simp_all add: usize_def)
    qed
    have i: "?i + 1 < length t"
    proof -
      have "0 \<le> (elength e + (?b - 1)) div ?b" using et(4) len by (simp add: pos_imp_zdiv_nonneg_iff)
      then have "int (length t - 1) = (elength e + (?b - 1)) div ?b" "0 < length t" using et(5) by auto
      then show ?thesis using last_chunk[of ?b "length t - 1" "elength e" off] et(4) Suc.prems(3) off by linarith
    qed
    then have asc: "0 \<le> ?zofs \<and> ?zofs \<le> t ! (?i + 1) \<and> t ! (?i + 1) \<le> 2147483647" if "blocks_ascend e"
      using that et(3) by (simp add: blocks_ascend_def)
    have step: "read_sound (\<not> blocks_ascend e) n (bind_res (fetch_block unz ?file (Some src) ?zofs ?zsize usize c) (\<lambda>(good, c1). if \<not> good then Ok (- 1, buffer, drop_cache c1)
              else let canread = min (uncompressed_size c1 - ?o) (n - int (length buffer)) in
                (case uncompressed_data c1 of None \<Rightarrow> Fail NullPointer
                 | Some block \<Rightarrow> require (0 \<le> canread \<and> ?o + canread \<le> int (length block)) OutOfBounds
                    (read_loop k unz fs e (off + canread) n (buffer @ take (nat canread) (drop (nat ?o) block)) c1))))"
    proof (cases "fetch_block unz ?file (Some src) ?zofs ?zsize usize c")
      case (Inl a)
      then show ?thesis using fetch_sound[OF Suc.prems(5), where usize = usize and unz = unz and fl = "sources fs ! src" and src = src and zofs = "?zofs" and zsize = "?zsize"] asc by auto
    next
      case (Inr r)
      obtain good c1 where r: "r = (good, c1)" by (cases r)
      note f = fetch_sound[OF Suc.prems(5), where usize = usize and unz = unz and fl = "sources fs ! src" and src = src and zofs = "?zofs" and zsize = "?zsize", unfolded Inr r sum.case prod.case]
      show ?thesis
      proof (cases good)
        case True
        then obtain block where c1: "uncompressed_size c1 = usize" "uncompressed_data c1 = Some block" "int (length block) = usize"
            "from_source c1 = None"
          using f by blast
        define m where "m = nat (min (usize - ?o) (n - int (length buffer)))"
        have m: "min (usize - ?o) (n - int (length buffer)) = int m" "0 < m" "?o + int m \<le> usize" "int (length buffer) + int m \<le> n"
          using o False by (simp_all add: m_def)
        have l: "length (take m (drop (nat ?o) block)) = m" using m(3) o(1) c1(3) by simp
        have "read_sound (\<not> blocks_ascend e) n (read_loop k unz fs e (off + int m) n (buffer @ take m (drop (nat ?o) block)) c1)"
          using m l Suc.prems c1(4) by (intro Suc.IH) (simp_all add: l)
        then show ?thesis
          unfolding Inr r bind_res_simps prod.case Let_def c1(1,2) option.case m(1) using True m(3) c1(3) o(1) by (simp del: read_loop.simps)
      qed (unfold Inr r bind_res_simps prod.case, use f Suc.prems(2) in simp)
    qed
    show ?thesis
      unfolding read_loop.simps Let_def et(1,3) prod.case option.case if_not_P[OF False]
      using step[unfolded Let_def usize_def] Suc.prems(2,5) i asc et(2,4)
      by (intro read_sound_require read_sound_int read_sound_if) auto
  qed (use Suc.prems in simp)
qed simp

lemma find_path_ok: "list_all (entry_ok n) ds \<Longrightarrow> find_path ds path = Some d \<Longrightarrow> entry_ok n d"
proof (induction ds path rule: find_path.induct)
  case (1 entries path)
  define p where "p = dropWhile isdirsep path"
  define rest where "rest = dropWhile (\<lambda>c. \<not> isdirsep c) p"
  obtain x where x: "entries \<noteq> []" "finddirentry entries (takeWhile (\<lambda>c. \<not> isdirsep c) p) = Some x"
      "(if rest = [] then Some x else find_path (subdir x) rest) = Some d"
    using 1(3) by (auto simp: find_path.simps[of entries path] Let_def p_def rest_def split: if_splits option.splits)
  have "entry_ok n x" using 1(2) finddirentry_Some[OF x(2)] by (auto simp: list_all_iff)
  then show ?case
    using x(3) 1(1)[OF x(1) p_def _ rest_def x(2)] by (auto simp: entry_ok_subdir split: if_splits)
qed

text \<open>What may go wrong in a read: the end of the part asked for is no \<^verbatim>\<open>int\<close>, or the file has a block of negative size.\<close>

definition bad_read :: "psf2fs \<Rightarrow> cstring \<Rightarrow> int \<Rightarrow> int \<Rightarrow> bool" where
  "bad_read fs path off len \<longleftrightarrow> off + len > 2147483647 \<or>
     (case find_path (dir fs) path of None \<Rightarrow> False | Some d \<Rightarrow> \<not> blocks_ascend d)"

lemma readfile_sound:
  assumes "fs_ok fs" "dir_ptr fs \<noteq> Released" "0 \<le> len"
  shows "case psf2fs_virtual_readfile unz fs path off len of Inl e \<Rightarrow> bad_read fs path off len \<and> (e = Undefined \<or> e = OutOfBounds)
    | Inr ((r, buffer), fs') \<Rightarrow> fs_ok fs' \<and> int (length buffer) \<le> len \<and> (r = - 1 \<or> r = int (length buffer) \<or> len = 0)"
proof (cases "find_path (dir fs) path")
  case (Some d)
  have d: "entry_ok (length (sources fs)) d" using assms(1) find_path_ok[OF _ Some] by (simp add: fs_ok_def)
  have read: "case virtual_read unz fs d off len of Inl e \<Rightarrow> bad_read fs path off len \<and> (e = Undefined \<or> e = OutOfBounds)
    | Inr ((r, buffer), fs') \<Rightarrow> fs_ok fs' \<and> int (length buffer) \<le> len \<and> (r = - 1 \<or> r = int (length buffer))"
    if "0 \<le> off" "off < elength d"
  proof -
    define n where "n = (if off + len > elength d then elength d - off else len)"
    have n: "n \<le> len" "0 \<le> n" "off + n \<le> elength d" using that assms(3) by (auto simp: n_def)
    have "read_sound (\<not> blocks_ascend d) n (read_loop (Suc (nat n)) unz fs d off n [] (cache fs))"
      using assms(1) n that by (intro read_loop_sound[OF d]) (simp_all add: fs_ok_def)
    then show ?thesis
      using that assms(1,3) n(1) Some
      by (auto simp: virtual_read_def checked_int_def require_def Let_def n_def[symmetric] read_sound_def fs_ok_def bad_read_def
          simp del: read_loop.simps split: sum.splits)
  qed
  then show ?thesis
    using assms Some by (auto simp: psf2fs_virtual_readfile_def virtual_read_def require_def split: sum.splits if_splits)
qed (use assms in \<open>auto simp: psf2fs_virtual_readfile_def\<close>)

text \<open>The calls a player makes on a file system.\<close>

inductive fs_step :: "zlib \<Rightarrow> psf2fs \<Rightarrow> psf2fs \<Rightarrow> bool" for unz where
  fs_load: "psf2fs_load_callback exe reserved fs = Ok (r, fs') \<Longrightarrow> fs_step unz fs fs'"
| fs_read: "0 \<le> len \<Longrightarrow> psf2fs_virtual_readfile unz fs path off len = Ok (r, fs') \<Longrightarrow> fs_step unz fs fs'"

interpretation file_system: invariant_of "(=) psf2fs_create" "fs_step unz" fs_ok for unz
proof
  fix fs fs'
  assume ok: "fs_ok fs" and "fs_step unz fs fs'"
  from this(2) show "fs_ok fs'"
  proof cases
    case (fs_load exe reserved r)
    then show ?thesis using load_ok[OF ok, of exe reserved] by simp
  next
    case (fs_read len path off r)
    have "dir_ptr fs \<noteq> Released \<or> fs' = fs"
      using fs_read(2) by (auto simp: psf2fs_virtual_readfile_def require_Ok_iff split: if_splits)
    then show ?thesis
      using readfile_sound[OF ok _ fs_read(1), where unz = unz and path = path and off = off] fs_read(2) ok by (auto split: prod.splits)
  qed
qed (auto simp: fs_ok_def, simp add: psf2fs_create_def)

text \<open>C24: whatever archives have been loaded, however damaged, a read while the directory is there ends, and if it gives an answer that is an error
  or the number of bytes read, and never more than the asked number of bytes are in the caller's buffer. It has no undefined behaviour
  and reads nothing out of bounds, unless the end of the part asked for exceeds an \<^verbatim>\<open>int\<close>, or the archive gives one of the blocks of this
  file a negative size: such a block is handed to zlib (\<open>negative_block_size\<close>), and nothing is claimed about it.\<close>
theorem psf2fs_virtual_readfile_bounds:
  assumes "reach ((=) psf2fs_create) (fs_step unz) fs" "dir_ptr fs \<noteq> Released" "0 \<le> len"
  shows "case psf2fs_virtual_readfile unz fs path off len of Inl e \<Rightarrow> bad_read fs path off len \<and> (e = Undefined \<or> e = OutOfBounds)
    | Inr ((r, buffer), fs') \<Rightarrow> int (length buffer) \<le> len \<and> (r = - 1 \<or> r = int (length buffer) \<or> len = 0)"
  using readfile_sound[OF file_system.reach_inv[OF assms(1)] assms(2,3), where unz = unz and path = path and off = off] by (auto split: sum.splits)

text \<open>A load that fails leaves the structure pointing to a directory that has been released; a second failure releases it again.\<close>

lemma failed_load_releases:
  assumes "psf2fs_load_callback exe reserved fs = Ok (- 1, fs')" "dir fs \<noteq> []"
  shows "dir_ptr fs' = Released" "psf2fs_load_callback exe reserved fs' \<noteq> Ok (- 1, fs'')"
  using assms
  by (auto simp: psf2fs_load_callback_def addarchive_def Let_def res_iffs cleanup_free_def append_to_def dir_def
      split: if_splits option.splits list_ptr.splits)

section \<open>Merging: the newer file wins\<close>

definition merge_entry :: "dir_entry \<Rightarrow> dir_entry \<Rightarrow> dir_entry" where
  "merge_entry d e = (if subdir d \<noteq> [] \<and> subdir e \<noteq> [] then set_subdir (mergedir (subdir d) (subdir e)) d
     else if subdir d = [] \<and> subdir e = [] then copy_file e d else d)"

lemma same_nocase_iff: "same_nocase a b \<longleftrightarrow> map c_lower a = map c_lower b"
  by (simp add: same_nocase_def)

lemma ename_merge_entry [simp]: "ename (merge_entry d e) = ename d"
  by (simp add: merge_entry_def set_subdir_def copy_file_def)

lemma find_first_match:
  assumes "\<And>d. ename (f d) = ename d"
  shows "find (\<lambda>d. same_nocase (ename d) nm) (first_match name f ds) =
    (if same_nocase name nm then map_option f (find (\<lambda>d. same_nocase (ename d) nm) ds) else find (\<lambda>d. same_nocase (ename d) nm) ds)"
  using assms by (induction ds) (auto simp: same_nocase_iff)

lemma first_match_cong: "find (\<lambda>d. same_nocase (ename d) name) ds = Some d \<Longrightarrow> f d = g d \<Longrightarrow> first_match name f ds = first_match name g ds"
  by (induction ds) (auto split: if_splits)

text \<open>One entry merged.\<close>

lemma mergedir_step:
  assumes "length (ename e) \<le> 36"
  shows "mergedir ds (e # rest) = mergedir (case finddirentry ds (ename e) of None \<Rightarrow> e # ds
    | Some d \<Rightarrow> first_match (ename e) (\<lambda>d. merge_entry d e) ds) rest"
proof (cases "finddirentry ds (ename e)")
  case (Some d)
  then have f: "find (\<lambda>d. same_nocase (ename d) (ename e)) ds = Some d" using assms by (simp add: finddirentry_def)
  have keep: "first_match (ename e) (\<lambda>d. d) ds = ds" by (induction ds) auto
  note c = first_match_cong[OF f]
  show ?thesis
    using c[of "set_subdir (mergedir (subdir d) (subdir e))" "\<lambda>d. merge_entry d e"] c[of "copy_file e" "\<lambda>d. merge_entry d e"]
      c[of "\<lambda>d. d" "\<lambda>d. merge_entry d e"] keep Some
    by (auto simp: merge_entry_def)
qed simp

text \<open>C27: when a directory with distinct names is merged into an older one, a name leads to the newer file, to the
  merged directory where both have one, and to the only entry there is otherwise.\<close>
theorem mergedir_lookup:
  assumes "\<forall>e \<in> set newer. length (ename e) \<le> 36" "sorted_wrt (\<lambda>a b. \<not> same_nocase (ename a) (ename b)) newer" "length name \<le> 36"
  shows "finddirentry (mergedir older newer) name = (case finddirentry newer name of
      None \<Rightarrow> finddirentry older name
    | Some e \<Rightarrow> (case finddirentry older name of None \<Rightarrow> Some e | Some d \<Rightarrow> Some (merge_entry d e)))"
  using assms(1,2)
proof (induction newer arbitrary: older)
  case (Cons e rest)
  have f: "finddirentry ds name = find (\<lambda>d. same_nocase (ename d) name) ds" for ds using assms(3) by (simp add: finddirentry_def)
  have le: "finddirentry ds (ename e) = find (\<lambda>d. same_nocase (ename d) (ename e)) ds" for ds
    using Cons.prems by (simp add: finddirentry_def)
  have rest: "same_nocase (ename e) name \<Longrightarrow> find (\<lambda>d. same_nocase (ename d) name) rest = None"
    using Cons.prems(2) by (auto simp: find_None_iff same_nocase_iff)
  have "find (\<lambda>d. same_nocase (ename d) name) older = find (\<lambda>d. same_nocase (ename d) (ename e)) older" if "same_nocase (ename e) name"
    using that by (simp add: same_nocase_iff)
  then show ?case
    using Cons rest by (auto simp: mergedir_step le f find_first_match split: option.splits simp del: mergedir.simps(2))
qed (simp add: finddirentry_def split: option.splits)

section \<open>An example\<close>

text \<open>An archive with one file, \<^verbatim>\<open>a\<close>, of the byte 65; zlib stands for storing the bytes as they are.\<close>

definition example_archive :: "u8 \<Rightarrow> u8 list" where
  "example_archive size3 = [1, 0, 0, 0] @ 97 # replicate 35 0 @
     [52, 0, 0, 0, 1, 0, 0, 0, 1, 0, 0, 0] @ [if size3 = 0 then 1 else 255, size3, size3, size3, 65]"

definition example_fs :: "u8 \<Rightarrow> psf2fs" where
  "example_fs size3 = psf2fs_create\<lparr>sources_ptr := Nodes [example_archive size3],
     dir_ptr := Nodes [DIR_ENTRY [97] [] 1 1 (Some 0) (Some [56, if size3 = 0 then 57 else 55])]\<rparr>"

definition stored :: zlib where
  "stored n data = Some data"

lemma example_loads:
  "psf2fs_load_callback [] (example_archive 0) psf2fs_create = Ok (0, example_fs 0)"
  "psf2fs_load_callback [] (example_archive 255) psf2fs_create = Ok (0, example_fs 255)"
  by code_simp+

lemma example_reached: "reach ((=) psf2fs_create) (fs_step stored) (example_fs 0)" "reach ((=) psf2fs_create) (fs_step stored) (example_fs 255)"
  using example_loads by (auto intro: reach_init reach_step fs_load)

text \<open>A block of negative size passes the check that reads it, and its length is handed to zlib.\<close>

lemma negative_block_size:
  "psf2fs_virtual_readfile stored (example_fs 255) [97] 0 1 = Fail OutOfBounds"
  by (simp add: psf2fs_virtual_readfile_def example_fs_def psf2fs_create_def find_path.simps finddirentry_def isdirsep_def
      same_nocase_def virtual_read_def checked_int_def example_archive_def Let_def fetch_block_def)

section \<open>Witnesses\<close>

definition two_blocks :: psf2fs where
  "two_blocks = psf2fs_create\<lparr>sources_ptr := Nodes [[0, 1, 2, 3]], dir_ptr := Nodes [DIR_ENTRY [97] [] 3 2 (Some 0) (Some [1, 3, 4])]\<rparr>"

theorem virtual_read_slice_witness:
  "\<exists>c. virtual_read stored two_blocks (hd (dir two_blocks)) 1 5 = Ok ((2, [2, 3]), two_blocks\<lparr>cache := c\<rparr>) \<and> from_source c = None"
proof -
  have "file_blocks stored two_blocks (hd (dir two_blocks)) [[1, 2], [3]]"
    by (auto simp: file_blocks_def two_blocks_def stored_def chunk_size_def less_Suc_eq)
  from virtual_read_slice[OF this, of 1 5] show ?thesis
    by (simp add: two_blocks_def psf2fs_create_def)
qed

theorem psf2fs_virtual_readfile_bounds_witness:
  "\<exists>r buffer fs'. psf2fs_virtual_readfile stored (example_fs 0) [97] 0 9 = Ok ((r, buffer), fs') \<and> int (length buffer) \<le> 9 \<and>
    (r = - 1 \<or> r = int (length buffer))"
proof -
  have "\<not> bad_read (example_fs 0) [97] 0 9"
    by (simp add: bad_read_def example_fs_def find_path.simps finddirentry_def isdirsep_def same_nocase_def blocks_ascend_def)
  then show ?thesis
    using psf2fs_virtual_readfile_bounds[OF example_reached(1), of 9 "[97]" 0]
    by (auto simp: example_fs_def psf2fs_create_def split: sum.splits)
qed

theorem mergedir_lookup_witness:
  "finddirentry (mergedir (dir two_blocks) (dir (example_fs 0))) [65] = Some (DIR_ENTRY [97] [] 1 1 (Some 0) (Some [56, 57]))"
  using mergedir_lookup[of "dir (example_fs 0)" "[65]" "dir two_blocks"]
  by (simp add: example_fs_def two_blocks_def finddirentry_def same_nocase_def c_lower_def merge_entry_def copy_file_def)

end
