(* ===== verification/DacControl.thy ===== *)
theory DacControl
  imports Prelude
begin

text \<open>
  The stream control of the VGM player, \<^verbatim>\<open>VGMPlay/chips/dac_control.c\<close>: a stream sends the bytes of a sample to a
  sound chip, as register writes at a given frequency. A sound chip is not modelled here: a call to one is a value of \<open>chip_call\<close>,
  and the calls made so far are kept in order. What a read from a chip answers is a parameter.
  \<^verbatim>\<open>Data\<close> points into a bank of samples; it is the contents of the bank.
\<close>

section \<open>Calls to sound chips\<close>

datatype chip_call =
    chip_reg_write u8 u8 u8 u8 u8
  | write_rom u8 u8 u32 u32 u32 "u8 list"
  | write_ram u8 u8 u32 u32 "u8 list"
  | mem_w u8 u8 u16 u8
  | multipcm_bank_write u8 u8 u16
  | c352_w u8 u16 u16
  | Chips_GeneralActions u8

text \<open>\<open>c6280_r calls ChipID offset\<close>: what the chip answers after the calls made so far.\<close>

type_synonym chip_read = "chip_call list \<Rightarrow> u8 \<Rightarrow> u8 \<Rightarrow> u8"

section \<open>The stream\<close>

record dac_control =
  DstChipType :: u8
  DstChipID :: u8
  DstCommand :: u16
  CmdSize :: u8
  Frequency :: u32
  DataLen :: u32
  Data :: "u8 list option"
  DataStart :: u32
  StepSize :: u8
  StepBase :: u8
  CmdsToSend :: u32
  Running :: u8
  Reverse :: u8
  Step :: u32
  Pos :: u32
  RemainCmds :: u32
  RealPos :: u32
  DataStep :: u8

definition MAX_CHIPS :: nat where
  "MAX_CHIPS = 0xFF"

text \<open>\<^verbatim>\<open>ChipData[i]\<close>\<close>

definition chip_data :: "dac_control \<Rightarrow> nat \<Rightarrow> u8 res" where
  "chip_data chip i = (case Data chip of None \<Rightarrow> Fail NullPointer
     | Some d \<Rightarrow> let p = unat (DataStart chip + RealPos chip) + i in require (p < length d) OutOfBounds (Ok (d ! p)))"

definition hi8 :: "u16 \<Rightarrow> u8" where
  "hi8 w = ucast (drop_bit 8 (w AND 0xFF00))"

definition lo8 :: "u16 \<Rightarrow> u8" where
  "lo8 w = ucast (w AND 0x00FF)"

text \<open>The calls of one command, by the type of the chip.\<close>

definition stream_calls :: "chip_read \<Rightarrow> chip_call list \<Rightarrow> dac_control \<Rightarrow> chip_call list res" where
  "stream_calls c6280_r calls chip =
     (let t = DstChipType chip; n = DstChipID chip; w = chip_reg_write t n; cmd = lo8 (DstCommand chip) in
      if t = 0x02 then bind_res (chip_data chip 0) (\<lambda>d. Ok [w (hi8 (DstCommand chip)) cmd d])
      else if t = 0x11 then bind_res (chip_data chip 1) (\<lambda>c. bind_res (chip_data chip 0) (\<lambda>d.
        Ok [w (ucast (DstCommand chip AND 0x000F)) (c AND 0x0F) d]))
      else if t = 0x00 then
        let c = ucast (DstCommand chip AND 0x00F0) in
        bind_res (chip_data chip 0) (\<lambda>b.
        let d = b AND 0x0F in
        if c AND 0x10 \<noteq> 0 then Ok [w 0 0 (c OR d)]
        else bind_res (chip_data chip 1) (\<lambda>b1.
          let port = push_bit 4 (b1 AND 0x03) OR drop_bit 4 (b AND 0xF0) in Ok [w 0 0 (c OR d), w 0 0 port]))
      else if t = 0x18 then bind_res (chip_data chip 0) (\<lambda>d.
        if cmd = 0 then
          let port = ucast (drop_bit 8 (DstCommand chip AND 0x0F00)) in
          if d AND 0x80 \<noteq> 0 then Ok [w 0 cmd d, w 0 cmd (push_bit 4 port)] else Ok [w 0 cmd (push_bit 3 port)]
        else Ok [w 0 cmd d])
      else if t \<in> {0x01, 0x03, 0x06, 0x09, 0x0A, 0x0B, 0x0F, 0x12, 0x13, 0x14, 0x16, 0x17, 0x1D, 0x1E} then
        bind_res (chip_data chip 0) (\<lambda>d. Ok [w 0 cmd d])
      else if t \<in> {0x07, 0x08, 0x0C, 0x0D, 0x0E, 0x19, 0x1A, 0x1C} then
        bind_res (chip_data chip 0) (\<lambda>d. Ok [w (hi8 (DstCommand chip)) cmd d])
      else if t \<in> {0x05, 0x10, 0x1B} then bind_res (chip_data chip 0) (\<lambda>d.
        let port = hi8 (DstCommand chip) in
        if port = 0xFF then Ok [w 0 (cmd AND 0x0F) d]
        else let prevChn = (if t = 0x1B then c6280_r calls n 0 else port) in
          Ok ([w 0 (drop_bit 4 cmd) port, w 0 (cmd AND 0x0F) d] @ (if prevChn \<noteq> port then [w 0 (drop_bit 4 cmd) prevChn] else [])))
      else if t = 0x1F then bind_res (chip_data chip 0) (\<lambda>p. bind_res (chip_data chip 1) (\<lambda>c. Ok [w p c cmd]))
      else Ok [])"

definition daccontrol_SendCommand :: "chip_read \<Rightarrow> dac_control \<times> chip_call list \<Rightarrow> (dac_control \<times> chip_call list) res" where
  "daccontrol_SendCommand c6280_r s = (case s of (chip, calls) \<Rightarrow>
     if Running chip AND 0x10 \<noteq> 0 then Ok s
     else if DataLen chip \<le> DataStart chip + RealPos chip then Ok s
     else bind_res (stream_calls c6280_r calls chip) (\<lambda>cs. Ok (chip\<lparr>Running := Running chip OR 0x10\<rparr>, calls @ cs)))"

definition muldiv64round :: "u32 \<Rightarrow> u32 \<Rightarrow> u32 \<Rightarrow> u32 res" where
  "muldiv64round Multiplicand Multiplier Divisor = require (Divisor \<noteq> 0) Undefined
     (Ok (word_of_int ((uint Multiplicand * uint Multiplier + uint Divisor div 2) div uint Divisor)))"

definition RealDataStp :: "dac_control \<Rightarrow> u32" where
  "RealDataStp chip = (if Reverse chip = 0 then ucast (DataStep chip) else - ucast (DataStep chip))"

definition next_pos :: "dac_control \<Rightarrow> dac_control" where
  "next_pos chip = chip\<lparr>Pos := Pos chip + ucast (DataStep chip), RealPos := RealPos chip + RealDataStp chip\<rparr>"

text \<open>The two loops; their first argument is \<^verbatim>\<open>RemainCmds\<close>.\<close>

primrec skip_loop :: "nat \<Rightarrow> u32 \<Rightarrow> dac_control \<Rightarrow> dac_control" where
  "skip_loop 0 NewPos chip = chip"
| "skip_loop (Suc n) NewPos chip =
     (if Pos chip < NewPos then skip_loop n NewPos ((next_pos chip)\<lparr>RemainCmds := of_nat n\<rparr>) else chip)"

primrec send_loop :: "nat \<Rightarrow> chip_read \<Rightarrow> u32 \<Rightarrow> dac_control \<times> chip_call list \<Rightarrow> (dac_control \<times> chip_call list) res" where
  "send_loop 0 c6280_r NewPos s = Ok s"
| "send_loop (Suc n) c6280_r NewPos s =
     (if Pos (fst s) < NewPos then
        bind_res (daccontrol_SendCommand c6280_r s) (\<lambda>(chip, calls).
        send_loop n c6280_r NewPos ((next_pos chip)\<lparr>Running := Running chip AND NOT 0x10, RemainCmds := of_nat n\<rparr>, calls))
      else Ok s)"

definition loop_back :: "dac_control \<Rightarrow> dac_control" where
  "loop_back chip = (if RemainCmds chip = 0 \<and> Running chip AND 0x04 \<noteq> 0 then
     chip\<lparr>RemainCmds := CmdsToSend chip, Step := 0, Pos := 0,
          RealPos := (if Reverse chip = 0 then 0 else (CmdsToSend chip - 1) * ucast (DataStep chip))\<rparr>
     else chip)"

definition daccontrol_update :: "u32 \<Rightarrow> chip_read \<Rightarrow> u32 \<Rightarrow> dac_control \<times> chip_call list \<Rightarrow> (dac_control \<times> chip_call list) res" where
  "daccontrol_update SampleRate c6280_r samples s = (case s of (chip, calls) \<Rightarrow>
     if Running chip AND 0x80 \<noteq> 0 then Ok s
     else if Running chip AND 0x01 = 0 then Ok s
     else
       bind_res (if samples > 0x20 then
           bind_res (muldiv64round ((Step chip + (samples - 0x10)) * ucast (DataStep chip)) (Frequency chip) SampleRate) (\<lambda>NewPos.
           Ok (skip_loop (unat (RemainCmds chip)) NewPos chip))
         else Ok chip) (\<lambda>chip.
       let chip = chip\<lparr>Step := Step chip + samples\<rparr> in
       bind_res (muldiv64round (Step chip * ucast (DataStep chip)) (Frequency chip) SampleRate) (\<lambda>NewPos.
       bind_res (daccontrol_SendCommand c6280_r (chip, calls)) (\<lambda>s.
       bind_res (send_loop (unat (RemainCmds (fst s))) c6280_r NewPos s) (\<lambda>(chip, calls).
       let chip = loop_back chip in
       Ok (if RemainCmds chip = 0 then chip\<lparr>Running := Running chip AND NOT 0x01\<rparr> else chip, calls))))))"

section \<open>The control commands\<close>

definition device_start_daccontrol :: "dac_control \<Rightarrow> dac_control" where
  "device_start_daccontrol chip = chip\<lparr>DstChipType := 0xFF, DstChipID := 0, DstCommand := 0, Running := 0xFF\<rparr>"

definition device_stop_daccontrol :: "dac_control \<Rightarrow> dac_control" where
  "device_stop_daccontrol chip = chip\<lparr>Running := 0xFF\<rparr>"

definition device_reset_daccontrol :: "dac_control \<Rightarrow> dac_control" where
  "device_reset_daccontrol chip = \<lparr>DstChipType = 0, DstChipID = 0, DstCommand = 0, CmdSize = 0, Frequency = 0, DataLen = 0,
     Data = None, DataStart = 0, StepSize = 0, StepBase = 0, CmdsToSend = CmdsToSend chip, Running = 0, Reverse = 0, Step = 0, Pos = 0,
     RemainCmds = 0, RealPos = 0, DataStep = 0\<rparr>"

definition daccontrol_setup_chip :: "u8 \<Rightarrow> u8 \<Rightarrow> u16 \<Rightarrow> dac_control \<Rightarrow> dac_control" where
  "daccontrol_setup_chip ChType ChNum Command chip =
     (let size = (if ChType = 0x00 then if Command AND 0x0010 \<noteq> 0 then 1 else 2
                  else if ChType = 0x02 then 1
                  else if ChType = 0x11 \<or> ChType = 0x1F then 2
                  else 1) in
      chip\<lparr>DstChipType := ChType, DstChipID := ChNum, DstCommand := Command, CmdSize := size, DataStep := size * StepSize chip\<rparr>)"

definition daccontrol_refresh_data :: "u8 list option \<Rightarrow> u32 \<Rightarrow> dac_control \<Rightarrow> dac_control" where
  "daccontrol_refresh_data data len chip =
     (if Running chip AND 0x80 \<noteq> 0 then chip
      else if len \<noteq> 0 \<and> data \<noteq> None then chip\<lparr>DataLen := len, Data := data\<rparr>
      else chip\<lparr>DataLen := 0, Data := None\<rparr>)"

definition daccontrol_set_data :: "u8 list option \<Rightarrow> u32 \<Rightarrow> u8 \<Rightarrow> u8 \<Rightarrow> dac_control \<Rightarrow> dac_control" where
  "daccontrol_set_data data len step base chip =
     (if Running chip AND 0x80 \<noteq> 0 then chip
      else let chip = (if len \<noteq> 0 \<and> data \<noteq> None then chip\<lparr>DataLen := len, Data := data\<rparr> else chip\<lparr>DataLen := 0, Data := None\<rparr>);
               step1 = (if step \<noteq> 0 then step else 1) in
      chip\<lparr>StepSize := step1, StepBase := base, DataStep := CmdSize chip * step1\<rparr>)"

definition daccontrol_set_frequency :: "u32 \<Rightarrow> dac_control \<Rightarrow> dac_control" where
  "daccontrol_set_frequency freq chip = (if Running chip AND 0x80 \<noteq> 0 then chip else chip\<lparr>Frequency := freq\<rparr>)"

definition DCTRL_LMODE_BYTES :: u8 where
  "DCTRL_LMODE_BYTES = 0x0F"

text \<open>The number of commands, by the length mode.\<close>

definition commands_for :: "u8 \<Rightarrow> u32 \<Rightarrow> u32 \<Rightarrow> dac_control \<Rightarrow> u32 res" where
  "commands_for LenMode Length CmdStepBase chip =
     (let m = LenMode AND 0x0F; dv = (\<lambda>a b. require (b \<noteq> 0) Undefined (Ok (a div b))) in
      if m = 0x00 then Ok (CmdsToSend chip)
      else if m = 0x01 then Ok Length
      else if m = 0x02 then dv (1000 * Length) (Frequency chip)
      else if m = 0x03 then dv (DataLen chip - (DataStart chip - CmdStepBase)) (ucast (DataStep chip))
      else if m = DCTRL_LMODE_BYTES then dv Length (ucast (DataStep chip))
      else Ok 0)"

definition begin_stream :: "u8 \<Rightarrow> u32 \<Rightarrow> dac_control \<Rightarrow> dac_control" where
  "begin_stream LenMode n chip = (let rev = drop_bit 4 (LenMode AND 0x10) in
     chip\<lparr>CmdsToSend := n, Reverse := rev, RemainCmds := n, Step := 0, Pos := 0,
       RealPos := (if rev = 0 then 0 else (n - 1) * ucast (DataStep chip)),
       Running := ((Running chip AND NOT 0x04 OR (if LenMode AND 0x80 \<noteq> 0 then 0x04 else 0)) OR 0x01) AND NOT 0x10\<rparr>)"

definition daccontrol_start :: "u32 \<Rightarrow> u8 \<Rightarrow> u32 \<Rightarrow> dac_control \<Rightarrow> dac_control res" where
  "daccontrol_start DataPos LenMode Length chip =
     (if Running chip AND 0x80 \<noteq> 0 then Ok chip
      else let CmdStepBase = ucast (CmdSize chip) * ucast (StepBase chip) :: u32;
             chip = (if DataPos \<noteq> 0xFFFFFFFF then
                 let st = DataPos + CmdStepBase in chip\<lparr>DataStart := if st > DataLen chip then DataLen chip else st\<rparr>
               else chip) in
      bind_res (commands_for LenMode Length CmdStepBase chip) (\<lambda>n. Ok (begin_stream LenMode n chip)))"

definition daccontrol_stop :: "dac_control \<Rightarrow> dac_control" where
  "daccontrol_stop chip = (if Running chip AND 0x80 \<noteq> 0 then chip else chip\<lparr>Running := Running chip AND NOT 0x01\<rparr>)"

section \<open>A stream plays its sample\<close>

text \<open>What a read inside the sample gives.\<close>

lemma chip_data_ok: "Data chip = Some d \<Longrightarrow> unat (DataStart chip + RealPos chip) + i < length d \<Longrightarrow>
    chip_data chip i = Ok (d ! (unat (DataStart chip + RealPos chip) + i))"
  by (simp add: chip_data_def Let_def)

text \<open>
  The chips that take one byte of the sample as one register write, with or without a port (\<^verbatim>\<open>YM2612\<close>, the OPL and OPN chips, AY8910 and so on).
  \<open>play i\<close>: the call for the command number \<open>i\<close> of a stream to one of them, forward or backward.
\<close>

definition port_chips :: "u8 set" where
  "port_chips = {0x02, 0x07, 0x08, 0x0C, 0x0D, 0x0E, 0x19, 0x1A, 0x1C}"

definition plain_chips :: "u8 set" where
  "plain_chips = {0x01, 0x03, 0x06, 0x09, 0x0A, 0x0B, 0x0F, 0x12, 0x13, 0x14, 0x16, 0x17, 0x1D, 0x1E}"

definition item :: "dac_control \<Rightarrow> nat \<Rightarrow> nat" where
  "item chip i = (if Reverse chip = 0 then i else unat (CmdsToSend chip) - 1 - i) * unat (DataStep chip)"

definition play :: "dac_control \<Rightarrow> nat \<Rightarrow> chip_call" where
  "play chip i = chip_reg_write (DstChipType chip) (DstChipID chip) (if DstChipType chip \<in> port_chips then hi8 (DstCommand chip) else 0)
     (lo8 (DstCommand chip))
     (the (Data chip) ! (unat (DataStart chip) + item chip i))"

text \<open>A stream whose sample lies inside its data.\<close>

definition stream_ok :: "dac_control \<Rightarrow> bool" where
  "stream_ok chip \<longleftrightarrow> DstChipType chip \<in> port_chips \<union> plain_chips \<and> DataStep chip \<noteq> 0 \<and> CmdsToSend chip \<noteq> 0 \<and>
     (\<exists>d. Data chip = Some d \<and> unat (DataLen chip) \<le> length d) \<and>
     unat (DataStart chip) + unat (CmdsToSend chip) * unat (DataStep chip) \<le> unat (DataLen chip)"

text \<open>
  \<open>at chip calls k sent s\<close>: the stream that started as \<open>chip\<close> with the calls \<open>calls\<close> has reached its command \<open>k\<close>, and has sent it
  or not.
\<close>

definition running :: "bool \<Rightarrow> u8" where
  "running sent = (if sent then 0x11 else 0x01)"

definition progress :: "dac_control \<Rightarrow> nat \<Rightarrow> bool \<Rightarrow> u32 \<Rightarrow> u32 \<Rightarrow> dac_control" where
  "progress chip k sent st rp = chip\<lparr>Running := running sent, Step := st, Pos := of_nat (k * unat (DataStep chip)),
     RemainCmds := of_nat (unat (CmdsToSend chip) - k), RealPos := rp\<rparr>"

definition at :: "dac_control \<Rightarrow> chip_call list \<Rightarrow> nat \<Rightarrow> bool \<Rightarrow> dac_control \<times> chip_call list \<Rightarrow> bool" where
  "at chip calls k sent s \<longleftrightarrow> k \<le> unat (CmdsToSend chip) \<and> (k = unat (CmdsToSend chip) \<longrightarrow> \<not> sent) \<and>
     (\<exists>st rp. s = (progress chip k sent st rp, calls @ map (play chip) [0..<k + (if sent then 1 else 0)]) \<and>
        (k < unat (CmdsToSend chip) \<longrightarrow> rp = of_nat (item chip k)))"

lemma running_bits [simp]:
  "running True AND 0x10 \<noteq> 0" "running False AND 0x10 = 0" "running False OR 0x10 = running True" "running True AND NOT 0x10 = running False"
  "running sent AND 0x80 = 0" "running sent AND 0x01 \<noteq> 0" "running sent AND 0x04 = 0"
  by (simp_all add: running_def)

lemma progress_simps [simp]:
  "Running (progress chip k sent st rp) = running sent" "RemainCmds (progress chip k sent st rp) = of_nat (unat (CmdsToSend chip) - k)"
  "Pos (progress chip k sent st rp) = of_nat (k * unat (DataStep chip))" "RealPos (progress chip k sent st rp) = rp"
  "Step (progress chip k sent st rp) = st" "DataLen (progress chip k sent st rp) = DataLen chip" "Data (progress chip k sent st rp) = Data chip"
  "DataStart (progress chip k sent st rp) = DataStart chip" "DstChipType (progress chip k sent st rp) = DstChipType chip"
  "DstChipID (progress chip k sent st rp) = DstChipID chip" "DstCommand (progress chip k sent st rp) = DstCommand chip"
  "DataStep (progress chip k sent st rp) = DataStep chip" "Reverse (progress chip k sent st rp) = Reverse chip"
  "Frequency (progress chip k sent st rp) = Frequency chip"
  "(progress chip k sent st rp)\<lparr>Step := x\<rparr> = progress chip k sent x rp"
  "(progress chip k False st rp)\<lparr>Running := running True\<rparr> = progress chip k True st rp"
  by (simp_all add: progress_def)

lemma item_less:
  assumes "stream_ok chip" "k < unat (CmdsToSend chip)"
  shows "item chip k + unat (DataStep chip) \<le> unat (CmdsToSend chip) * unat (DataStep chip)"
proof -
  have "(if Reverse chip = 0 then k else unat (CmdsToSend chip) - 1 - k) + 1 \<le> unat (CmdsToSend chip)"
    using assms(2) by (cases "Reverse chip = 0") arith+
  then have "((if Reverse chip = 0 then k else unat (CmdsToSend chip) - 1 - k) + 1) * unat (DataStep chip) \<le> unat (CmdsToSend chip) * unat (DataStep chip)"
    by (rule mult_right_mono) simp
  then show ?thesis by (simp add: item_def)
qed

lemma unat_sum: "unat (a :: u32) + k \<le> unat (b :: u32) \<Longrightarrow> unat (a + of_nat k) = unat a + k"
proof -
  have "unat b < 4294967296" using unsigned_less[of b] by simp
  then show "unat a + k \<le> unat b \<Longrightarrow> ?thesis" by (simp add: unat_word_ariths unat_of_nat)
qed

lemma unat_nat_diff: "unat (of_nat (unat (w :: u32) - k) :: u32) = unat w - k"
proof -
  have "unat w < 4294967296" using unsigned_less[of w] by simp
  then have "unat w - k < 4294967296" by linarith
  then show ?thesis unfolding unat_of_nat by (simp del: of_nat_diff)
qed

lemma one_write:
  assumes "DstChipType chip \<in> port_chips \<union> plain_chips" "chip_data chip 0 = Ok b"
  shows "stream_calls c6280_r calls chip = Ok [chip_reg_write (DstChipType chip) (DstChipID chip)
    (if DstChipType chip \<in> port_chips then hi8 (DstCommand chip) else 0) (lo8 (DstCommand chip)) b]"
proof (cases "DstChipType chip \<in> port_chips")
  case True
  then show ?thesis using assms(2) unfolding port_chips_def insert_iff empty_iff
    by (elim disjE FalseE) (simp_all add: stream_calls_def)
next
  case False
  then have "DstChipType chip \<in> plain_chips" using assms(1) by simp
  then show ?thesis using False assms(2) unfolding plain_chips_def insert_iff empty_iff
    by (elim disjE FalseE) (simp_all add: stream_calls_def)
qed

text \<open>One command is sent unless it has been sent before.\<close>

lemma SendCommand_at:
  assumes "stream_ok chip" "at chip calls k sent s" "k < unat (CmdsToSend chip)"
  shows "\<exists>s'. daccontrol_SendCommand c6280_r s = Ok s' \<and> at chip calls k True s'"
proof (cases sent)
  case True
  then show ?thesis using assms(2) by (auto simp: at_def daccontrol_SendCommand_def)
next
  case False
  obtain d where d: "Data chip = Some d" "unat (DataLen chip) \<le> length d" "DstChipType chip \<in> port_chips \<union> plain_chips" "DataStep chip \<noteq> 0"
      "unat (DataStart chip) + unat (CmdsToSend chip) * unat (DataStep chip) \<le> unat (DataLen chip)"
    using assms(1) by (auto simp: stream_ok_def)
  have less: "item chip k + unat (DataStep chip) \<le> unat (CmdsToSend chip) * unat (DataStep chip)" by (rule item_less[OF assms(1,3)])
  then have pos: "unat (DataStart chip + of_nat (item chip k)) = unat (DataStart chip) + item chip k"
    using d(5) by (intro unat_sum[of _ _ "DataLen chip"]) linarith
  have "0 < unat (DataStep chip)" using d(4) by (simp add: unat_gt_0)
  then have inside: "unat (DataStart chip) + item chip k < unat (DataLen chip)" using less d(5) by linarith
  obtain st where s: "s = (progress chip k False st (of_nat (item chip k)), calls @ map (play chip) [0..<k])"
    using assms(2,3) False by (auto simp: at_def)
  have "chip_data (fst s) 0 = Ok (the (Data chip) ! (unat (DataStart chip) + item chip k))"
    using inside pos d(1,2) by (simp add: s Let_def chip_data_def)
  then have "stream_calls c6280_r (snd s) (fst s) = Ok [play chip k]"
    using one_write[of "fst s"] d(3) by (simp add: s play_def)
  moreover have "\<not> DataLen chip \<le> DataStart chip + of_nat (item chip k)" using inside pos by (simp add: word_le_nat_alt)
  ultimately have "daccontrol_SendCommand c6280_r s = Ok (progress chip k True st (of_nat (item chip k)), snd s @ [play chip k])"
    by (simp add: daccontrol_SendCommand_def s)
  then show ?thesis using assms(3) by (auto simp: at_def s)
qed

text \<open>Going on to the next command.\<close>

lemma next_pos_at:
  assumes "stream_ok chip" "at chip calls k True s" "k < unat (CmdsToSend chip)"
  shows "at chip calls (k + 1) False
    ((next_pos (fst s))\<lparr>Running := Running (fst s) AND NOT 0x10, RemainCmds := of_nat (unat (CmdsToSend chip) - (k + 1))\<rparr>, snd s)"
proof -
  obtain st where s: "s = (progress chip k True st (of_nat (item chip k)), calls @ map (play chip) [0..<k + 1])"
    using assms(2,3) by (auto simp: at_def)
  have "of_nat (item chip k) + RealDataStp chip = (of_nat (item chip (k + 1)) :: u32)" if "k + 1 < unat (CmdsToSend chip)"
  proof (cases "Reverse chip = 0")
    case False
    define m where "m = unat (CmdsToSend chip) - 1 - (k + 1)"
    have "unat (CmdsToSend chip) - 1 - k = m + 1" using that by (simp add: m_def)
    then have "item chip k = m * unat (DataStep chip) + unat (DataStep chip)" "item chip (k + 1) = m * unat (DataStep chip)"
      using False by (simp_all add: item_def m_def)
    then show ?thesis using False by (simp add: RealDataStp_def)
  qed (simp add: item_def RealDataStp_def algebra_simps)
  moreover have "(next_pos (progress chip k True st rp))\<lparr>Running := running False, RemainCmds := of_nat (unat (CmdsToSend chip) - (k + 1))\<rparr> =
      progress chip (k + 1) False st (rp + RealDataStp chip)" for rp
    by (simp add: progress_def next_pos_def RealDataStp_def algebra_simps)
  ultimately show ?thesis
    using assms(3) unfolding s fst_conv snd_conv progress_simps running_bits by (auto simp: at_def)
qed

lemma send_loop_at:
  assumes "stream_ok chip"
  shows "at chip calls k sent s \<Longrightarrow> n = unat (CmdsToSend chip) - k \<Longrightarrow>
    \<exists>s' k' sent'. send_loop n c6280_r NewPos s = Ok s' \<and> at chip calls k' sent' s'"
proof (induction n arbitrary: k sent s)
  case (Suc n)
  then have k: "k < unat (CmdsToSend chip)" "n = unat (CmdsToSend chip) - (k + 1)" by simp_all
  obtain s1 where s1: "daccontrol_SendCommand c6280_r s = Ok s1" "at chip calls k True s1"
    using SendCommand_at[OF assms Suc.prems(1) k(1)] by blast
  show ?case
  proof (cases "Pos (fst s) < NewPos")
    case True
    from Suc.IH[OF next_pos_at[OF assms s1(2) k(1)] k(2)] show ?thesis
      using s1(1) k(2) True by (cases s1) (auto simp del: of_nat_diff)
  next
    case False
    then show ?thesis using Suc.prems(1) by auto
  qed
qed auto

text \<open>\<open>updates SampleRate c6280_r samples s\<close>: the player's updates, each for some number of output samples.\<close>

primrec updates :: "u32 \<Rightarrow> chip_read \<Rightarrow> u32 list \<Rightarrow> dac_control \<times> chip_call list \<Rightarrow> (dac_control \<times> chip_call list) res" where
  "updates SampleRate c6280_r [] s = Ok s"
| "updates SampleRate c6280_r (n # ns) s = bind_res (daccontrol_update SampleRate c6280_r n s) (updates SampleRate c6280_r ns)"

text \<open>The state after an update: going on, or stopped behind the last command.\<close>

definition played :: "dac_control \<Rightarrow> chip_call list \<Rightarrow> dac_control \<times> chip_call list \<Rightarrow> bool" where
  "played chip calls s \<longleftrightarrow> (\<exists>k sent. at chip calls k sent s \<and> k < unat (CmdsToSend chip)) \<or>
     (Running (fst s) = 0 \<and> snd s = calls @ map (play chip) [0..<unat (CmdsToSend chip)])"

lemma update_played:
  assumes "stream_ok chip" "played chip calls s" "samples \<le> 0x20" "SampleRate \<noteq> 0"
  shows "\<exists>s'. daccontrol_update SampleRate c6280_r samples s = Ok s' \<and> played chip calls s'"
proof (cases "Running (fst s) = 0")
  case True
  then show ?thesis using assms(2) by (cases s) (auto simp: daccontrol_update_def)
next
  case False
  then obtain k sent where at: "at chip calls k sent s" "k < unat (CmdsToSend chip)" using assms(2) by (auto simp: played_def)
  then obtain st rp where s: "s = (progress chip k sent st rp, snd s)" "snd s = calls @ map (play chip) [0..<k + (if sent then 1 else 0)]"
      "rp = of_nat (item chip k)" by (auto simp: at_def)
  define s1 where "s1 = (progress chip k sent (st + samples) rp, snd s)"
  have "at chip calls k sent s1" unfolding at_def s1_def s(2) using at(2) s(3) by auto
  then obtain s2 where s2: "daccontrol_SendCommand c6280_r s1 = Ok s2" "at chip calls k True s2"
    using SendCommand_at[OF assms(1) _ at(2)] by blast
  have rc: "unat (RemainCmds (fst s2)) = unat (CmdsToSend chip) - k"
    using s2(2) by (auto simp: at_def unat_nat_diff simp del: of_nat_diff)
  obtain v where v: "muldiv64round ((st + samples) * ucast (DataStep chip)) (Frequency chip) SampleRate = Ok v"
    using assms(4) by (simp add: muldiv64round_def)
  obtain s3 k' sent' where s3: "send_loop (unat (CmdsToSend chip) - k) c6280_r v s2 = Ok s3" "at chip calls k' sent' s3"
    using send_loop_at[OF assms(1) s2(2) refl] by blast
  have upd: "daccontrol_update SampleRate c6280_r samples s = (let chip = loop_back (fst s3) in
      Ok (if RemainCmds chip = 0 then chip\<lparr>Running := Running chip AND NOT 0x01\<rparr> else chip, snd s3))"
  proof -
    have "\<not> samples > 0x20" using assms(3) by (simp add: not_less)
    then show ?thesis
      using s2(1) rc s3(1) v unfolding s1_def
      by (subst s(1)) (simp add: daccontrol_update_def case_prod_unfold Let_def)
  qed
  show ?thesis
  proof (cases "k' < unat (CmdsToSend chip)")
    case True
    have "unat (RemainCmds (fst s3)) = unat (CmdsToSend chip) - k'"
      using s3(2) by (auto simp: at_def unat_nat_diff simp del: of_nat_diff)
    then have "RemainCmds (fst s3) \<noteq> 0" "loop_back (fst s3) = fst s3"
      using True by (auto simp: loop_back_def)
    then show ?thesis unfolding upd using s3(2) True by (auto simp: Let_def played_def)
  next
    case False
    then have "k' = unat (CmdsToSend chip)" "\<not> sent'" using s3(2) by (auto simp: at_def)
    then have "RemainCmds (fst s3) = 0" "Running (fst s3) = running False" "snd s3 = calls @ map (play chip) [0..<unat (CmdsToSend chip)]"
      using s3(2) by (auto simp: at_def)
    then show ?thesis unfolding upd by (simp add: Let_def played_def loop_back_def) (simp add: running_def)
  qed
qed

lemma updates_played:
  assumes "stream_ok chip" "SampleRate \<noteq> 0"
  shows "played chip calls s \<Longrightarrow> \<forall>n \<in> set ns. n \<le> 0x20 \<Longrightarrow>
    \<exists>s'. updates SampleRate c6280_r ns s = Ok s' \<and> played chip calls s'"
proof (induction ns arbitrary: s)
  case (Cons n ns)
  then obtain s1 where "daccontrol_update SampleRate c6280_r n s = Ok s1" "played chip calls s1"
    using update_played[OF assms(1) Cons.prems(1) _ assms(2), of n c6280_r] by auto
  then show ?case using Cons by auto
qed simp

lemma start_fields:
  assumes "daccontrol_start DataPos LenMode Length chip0 = Ok chip" "Running chip = 0x01"
  shows "RemainCmds chip = CmdsToSend chip" "Pos chip = 0"
    "RealPos chip = (if Reverse chip = 0 then 0 else (CmdsToSend chip - 1) * ucast (DataStep chip))"
proof -
  have "Running chip0 AND 0x80 = 0"
    using assms by (cases "Running chip0 AND 0x80 = 0") (simp_all add: daccontrol_start_def)
  then obtain n c where "chip = begin_stream LenMode n c"
    using assms(1) by (auto simp: daccontrol_start_def Let_def bind_res_Ok_iff simp del: split_paired_Ex split del: if_split)
  then show "RemainCmds chip = CmdsToSend chip" "Pos chip = 0"
    "RealPos chip = (if Reverse chip = 0 then 0 else (CmdsToSend chip - 1) * ucast (DataStep chip))"
    by (simp_all add: begin_stream_def Let_def)
qed


section \<open>What can be read, and what is lost\<close>

text \<open>A command of one byte is read inside the data.\<close>

lemma SendCommand_reads_inside:
  assumes "Data chip = Some d" "unat (DataLen chip) \<le> length d" "DstChipType chip \<notin> {0x00, 0x11, 0x1F}"
  shows "\<exists>s'. daccontrol_SendCommand c6280_r (chip, calls) = Ok s'"
proof -
  have "chip_data chip 0 = Ok (d ! unat (DataStart chip + RealPos chip))" if "\<not> DataLen chip \<le> DataStart chip + RealPos chip"
    using assms(1,2) that by (simp add: chip_data_def Let_def word_le_nat_alt)
  then show ?thesis
    using assms(3) by (simp add: daccontrol_SendCommand_def stream_calls_def Let_def)
qed

text \<open>A stream built by the commands of the player.\<close>

definition stream_for :: "u8 \<Rightarrow> u16 \<Rightarrow> u8 list \<Rightarrow> dac_control" where
  "stream_for t cmd d = daccontrol_set_frequency 44100 (daccontrol_set_data (Some d) (of_nat (length d)) 1 0 (daccontrol_setup_chip t 0 cmd
     (device_reset_daccontrol \<lparr>DstChipType = 0, DstChipID = 0, DstCommand = 0, CmdSize = 0, Frequency = 0, DataLen = 0,
       Data = None, DataStart = 0, StepSize = 0, StepBase = 0, CmdsToSend = 0, Running = 0, Reverse = 0, Step = 0, Pos = 0,
       RemainCmds = 0, RealPos = 0, DataStep = 0\<rparr>)))"

definition started :: "u8 \<Rightarrow> u16 \<Rightarrow> u8 list \<Rightarrow> u8 \<Rightarrow> u32 \<Rightarrow> dac_control" where
  "started t cmd d mode n = (case daccontrol_start 0 mode n (stream_for t cmd d) of Inr chip \<Rightarrow> chip | Inl e \<Rightarrow> stream_for t cmd d)"

text \<open>A command of two bytes, when the data ends with its first: the PWM reads past the end.\<close>

lemma pwm_reads_past_end: "daccontrol_update 44100 (\<lambda>_ _ _. 0) 1 (started 0x11 0x02 [1] 0x01 1, []) = Fail OutOfBounds"
  by code_simp

text \<open>A stream of no commands sends one.\<close>

lemma empty_stream_sends: "map_sum id snd (daccontrol_update 44100 (\<lambda>_ _ _. 0) 1 (started 0x02 0x2A [7, 8] 0x01 0, [])) = Ok [chip_reg_write 2 0 0 0x2A 7]"
  by code_simp

text \<open>A seek forgets that the command it arrives at has not been sent: of the bytes 0, 1, 2, ... the one at the new position is missing.\<close>

lemma seek_loses_a_command:
  "map_sum id (\<lambda>s. map (\<lambda>c. case c of chip_reg_write t n p r d \<Rightarrow> d | _ \<Rightarrow> 0) (snd s))
     (updates 44100 (\<lambda>_ _ _. 0) [0, 0x24, 1] (started 0x02 0x2A [0, 1, 2, 3, 4, 5, 6, 7, 8, 9, 10, 11, 12, 13, 14, 15, 16, 17, 18, 19, 20, 21,
       22, 23, 24, 25, 26, 27, 28, 29, 30, 31, 32, 33, 34, 35, 36, 37, 38, 39, 40] 0x01 41, [])) =
   Ok [0, 21, 22, 23, 24, 25, 26, 27, 28, 29, 30, 31, 32, 33, 34, 35, 36]"
  by code_simp

text \<open>Half a second at 44100 commands per second is 11 commands.\<close>

lemma msec_mode_divides: "commands_for 0x02 500 0 (stream_for 0x02 0x2A [7]) = Ok 11"
  by code_simp


end
