(* ===== verification/PcmBanks.thy ===== *)
theory PcmBanks
  imports Prelude
begin

text \<open>
  The sample banks of the VGM player, from \<^verbatim>\<open>VGMPlay/VGMPlay.c\<close>: data blocks of a file are appended to one of 64 banks, as
  they are or unpacked. \<^verbatim>\<open>FUINT8\<close> and \<^verbatim>\<open>FUINT16\<close> are \<^verbatim>\<open>unsigned int\<close>. The data of a block is given as the rest of the file from it on,
  since nothing stops the code from reading behind the block. Memory is not exhausted; what \<^verbatim>\<open>realloc\<close> finds in new memory
  is a parameter. The pointer \<^verbatim>\<open>Data\<close> of a single block is not kept: it is only used while the block is filled.
\<close>

section \<open>Data\<close>

record VGM_PCM_DATA =
  blk_DataSize :: u32
  blk_DataStart :: u32

record VGM_PCM_BANK =
  BankCount :: u32
  Bank :: "VGM_PCM_DATA list"
  bank_DataSize :: u32
  bank_Data :: "u8 list"
  DataPos :: u32
  BnkPos :: u32

record PCMBANK_TBL =
  ComprType :: u8
  CmpSubType :: u8
  BitDec :: u8
  BitCmp :: u8
  EntryCount :: u16
  Entries :: "u8 list"

definition no_table :: PCMBANK_TBL where
  "no_table = \<lparr>ComprType = 0, CmpSubType = 0, BitDec = 0, BitCmp = 0, EntryCount = 0, Entries = []\<rparr>"

definition PCM_BANK_COUNT :: nat where
  "PCM_BANK_COUNT = 0x40"

definition byte_at :: "u8 list \<Rightarrow> nat \<Rightarrow> u8 res" where
  "byte_at data p = require (p < length data) OutOfBounds (Ok (data ! p))"

definition ReadLE16 :: "u8 list \<Rightarrow> nat \<Rightarrow> u16 res" where
  "ReadLE16 data p = bind_res (byte_at data (p + 1)) (\<lambda>b1. bind_res (byte_at data p) (\<lambda>b0. Ok (le16 b0 b1)))"

definition ReadBE16 :: "u8 list \<Rightarrow> nat \<Rightarrow> u16 res" where
  "ReadBE16 data p = bind_res (byte_at data (p + 1)) (\<lambda>b1. bind_res (byte_at data p) (\<lambda>b0. Ok (le16 b1 b0)))"

definition ReadLE24 :: "u8 list \<Rightarrow> nat \<Rightarrow> u32 res" where
  "ReadLE24 data p = bind_res (byte_at data (p + 2)) (\<lambda>b2. bind_res (byte_at data (p + 1)) (\<lambda>b1. bind_res (byte_at data p) (\<lambda>b0. 
     Ok (le32 b0 b1 b2 0))))"

definition ReadLE32 :: "u8 list \<Rightarrow> nat \<Rightarrow> u32 res" where
  "ReadLE32 data p = bind_res (byte_at data (p + 3)) (\<lambda>b3. bind_res (byte_at data (p + 2)) (\<lambda>b2. bind_res (byte_at data (p + 1)) (\<lambda>b1.
     bind_res (byte_at data p) (\<lambda>b0. Ok (le32 b0 b1 b2 b3)))))"

section \<open>Reading values of some bits\<close>

text \<open>\<open>bit_part b sh n\<close>: \<^verbatim>\<open>(b << sh >> 8) & ((1 << n) - 1)\<close>\<close>

definition bit_part :: "u8 \<Rightarrow> nat \<Rightarrow> nat \<Rightarrow> u32" where
  "bit_part b sh n = drop_bit 8 (push_bit sh (ucast b)) AND (push_bit n 1 - 1)"

text \<open>One round: \<open>n\<close>, at most eight, bits from the position \<open>(InPos, InShift)\<close>.\<close>

definition read_part :: "u8 list \<Rightarrow> nat \<Rightarrow> nat \<times> nat \<Rightarrow> (u32 \<times> nat \<times> nat) res" where
  "read_part data n p = (let InPos = fst p; InShift = snd p + n in
     bind_res (byte_at data InPos) (\<lambda>b.
     if 8 \<le> InShift then
       if InShift - 8 \<noteq> 0 then bind_res (byte_at data (InPos + 1)) (\<lambda>b1.
         Ok (bit_part b InShift n OR bit_part b1 (InShift - 8) n, InPos + 1, InShift - 8))
       else Ok (bit_part b InShift n, InPos + 1, InShift - 8)
     else Ok (bit_part b InShift n, InPos, InShift)))"

function read_bits :: "u8 list \<Rightarrow> nat \<Rightarrow> nat \<Rightarrow> u32 \<Rightarrow> nat \<times> nat \<Rightarrow> (u32 \<times> nat \<times> nat) res" where
  "read_bits data BitsToRead OutBit InVal p =
     (if BitsToRead = 0 then Ok (InVal, p)
      else let n = min 8 BitsToRead in
        bind_res (read_part data n p) (\<lambda>(v, p1). require (OutBit < 32) Undefined
          (read_bits data (BitsToRead - n) (OutBit + n) (InVal OR push_bit OutBit v) p1)))"
  by pat_completeness auto
termination
  by (relation "measure (\<lambda>(data, n, o1, v, p). n)") auto

declare read_bits.simps [simp del]

section \<open>Unpacking\<close>

definition set_byte :: "nat \<Rightarrow> u8 \<Rightarrow> u8 list \<Rightarrow> u8 list res" where
  "set_byte p b buf = require (p < length buf) OutOfBounds (Ok (buf[p := b]))"

definition set_word :: "nat \<Rightarrow> u32 \<Rightarrow> u8 list \<Rightarrow> u8 list res" where
  "set_word p v buf = bind_res (set_byte p (ucast (v AND 0x00FF)) buf) (set_byte (p + 1) (ucast (drop_bit 8 (v AND 0xFF00))))"

text \<open>
  The loop over the values. \<open>val\<close> computes the next \<^verbatim>\<open>OutVal\<close> from the bits and the last one, \<open>put\<close> stores it. The output runs from
  \<open>OutPos\<close> to \<open>OutEnd\<close>, the input stops at \<open>InEnd\<close>.
\<close>

primrec value_loop :: "nat \<Rightarrow> (u32 \<Rightarrow> u32 \<Rightarrow> u32 res) \<Rightarrow> (nat \<Rightarrow> u32 \<Rightarrow> u8 list \<Rightarrow> u8 list res) \<Rightarrow> u8 list \<Rightarrow> nat \<Rightarrow> nat \<Rightarrow> nat \<Rightarrow> nat \<Rightarrow> nat \<Rightarrow>
    nat \<times> nat \<Rightarrow> u32 \<Rightarrow> u8 list \<Rightarrow> u8 list res" where
  "value_loop 0 val put data InEnd bits ValSize OutEnd OutPos p OutVal buf = Fail OutOfFuel"
| "value_loop (Suc k) val put data InEnd bits ValSize OutEnd OutPos p OutVal buf =
     (if OutPos < OutEnd \<and> fst p < InEnd then
        bind_res (read_bits data bits 0 0 p) (\<lambda>(InVal, p1).
        bind_res (val InVal OutVal) (\<lambda>OutVal1.
        bind_res (put OutPos OutVal1 buf) (value_loop k val put data InEnd bits ValSize OutEnd (OutPos + ValSize) p1 OutVal1)))
      else Ok buf)"

definition ValSize_of :: "u8 \<Rightarrow> nat" where
  "ValSize_of dec = (unat dec + 7) div 8"

definition table_entry :: "PCMBANK_TBL \<Rightarrow> nat \<Rightarrow> u32 \<Rightarrow> u32 res" where
  "table_entry tbl ValSize InVal = (if ValSize = 1 then bind_res (byte_at (Entries tbl) (unat InVal)) (\<lambda>b. Ok (ucast b))
     else bind_res (ReadLE16 (Entries tbl) (2 * unat InVal)) (\<lambda>v. Ok (ucast v)))"

definition table_fits :: "PCMBANK_TBL \<Rightarrow> u8 \<Rightarrow> u8 \<Rightarrow> bool" where
  "table_fits tbl dec cmp \<longleftrightarrow> EntryCount tbl \<noteq> 0 \<and> dec = BitDec tbl \<and> cmp = BitCmp tbl"

text \<open>The value of \<open>InVal\<close> by the kind of n-bit compression; the last value stays where no kind applies.\<close>

definition nbit_value :: "PCMBANK_TBL \<Rightarrow> u8 \<Rightarrow> u8 \<Rightarrow> u8 \<Rightarrow> u16 \<Rightarrow> u32 \<Rightarrow> u32 \<Rightarrow> u32 res" where
  "nbit_value tbl dec cmp sub AddVal InVal OutVal =
     (if sub = 0x00 then Ok (InVal + ucast AddVal)
      else if sub = 0x01 then require (0 \<le> uint dec - uint cmp \<and> uint dec - uint cmp < 32) Undefined
        (Ok (push_bit (unat (dec - cmp)) InVal + ucast AddVal))
      else if sub = 0x02 then if ValSize_of dec = 1 \<or> ValSize_of dec = 2 then table_entry tbl (ValSize_of dec) InVal else Ok OutVal
      else Ok OutVal)"

definition put_nbit :: "u8 \<Rightarrow> nat \<Rightarrow> u32 \<Rightarrow> u8 list \<Rightarrow> u8 list res" where
  "put_nbit dec p v buf = (if ValSize_of dec = 1 then set_byte p (ucast v) buf else set_word p v buf)"

definition delta_value :: "PCMBANK_TBL \<Rightarrow> u8 \<Rightarrow> u32 \<Rightarrow> u32 \<Rightarrow> u32 res" where
  "delta_value tbl dec InVal OutVal =
     (if ValSize_of dec = 1 \<or> ValSize_of dec = 2 then
        bind_res (table_entry tbl (ValSize_of dec) InVal) (\<lambda>add. Ok ((OutVal + add) AND (push_bit (unat dec) 1 - 1) AND 0xFFFF))
      else Ok OutVal)"

definition put_delta :: "u8 \<Rightarrow> nat \<Rightarrow> u32 \<Rightarrow> u8 list \<Rightarrow> u8 list res" where
  "put_delta dec p v buf = (if ValSize_of dec = 1 then set_byte p (ucast v) buf
     else if ValSize_of dec = 2 then set_word p v buf else Ok buf)"

text \<open>
  \<open>unpack\<close>: the answer of \<^verbatim>\<open>DecompressDataBlk\<close>, the size it leaves in the block and the buffer of the bank, in which the block
  starts at \<open>start\<close>. A value takes at least a byte of the output or a bit of the input, unless it has neither.
\<close>

definition DecompressDataBlk :: "PCMBANK_TBL \<Rightarrow> nat \<Rightarrow> u32 \<Rightarrow> u8 list \<Rightarrow> u8 list \<Rightarrow> (bool \<times> u32 \<times> u8 list) res" where
  "DecompressDataBlk tbl start DataSize data buf =
     bind_res (byte_at data 0) (\<lambda>ComprType. bind_res (ReadLE32 data 1) (\<lambda>n.
     if ComprType \<noteq> 0 \<and> ComprType \<noteq> 1 then Ok (False, n, buf)
     else bind_res (byte_at data 5) (\<lambda>dec. bind_res (byte_at data 6) (\<lambda>cmp. bind_res (byte_at data 7) (\<lambda>sub. bind_res (ReadLE16 data 8) (\<lambda>w.
     if (ComprType = 1 \<or> sub = 0x02) \<and> \<not> table_fits tbl dec cmp then Ok (False, 0, buf)
     else require (ComprType = 1 \<longrightarrow> uint dec < 31) Undefined
       (let fuel = unat n + 8 * length data + 1 in
        bind_res (if ComprType = 0
            then value_loop fuel (nbit_value tbl dec cmp sub w) (put_nbit dec) data (unat DataSize) (unat cmp) (ValSize_of dec)
              (start + unat n) start (10, 0) 0 buf
            else value_loop fuel (delta_value tbl dec) (put_delta dec) data (unat DataSize) (unat cmp) (ValSize_of dec)
              (start + unat n) start (10, 0) (ucast w) buf) (\<lambda>out. Ok (True, n, out)))))))))"

section \<open>The banks\<close>

definition ReadPCMTable :: "u8 list \<Rightarrow> PCMBANK_TBL \<Rightarrow> PCMBANK_TBL res" where
  "ReadPCMTable data tbl =
     bind_res (byte_at data 0) (\<lambda>t. bind_res (byte_at data 1) (\<lambda>sub. bind_res (byte_at data 2) (\<lambda>dec. bind_res (byte_at data 3) (\<lambda>cmp.
     bind_res (ReadLE16 data 4) (\<lambda>count.
     let size = unat count * ((unat dec + 7) div 8) in
     require (6 + size \<le> length data) OutOfBounds
       (Ok \<lparr>ComprType = t, CmpSubType = sub, BitDec = dec, BitCmp = cmp, EntryCount = count, Entries = take size (drop 6 data)\<rparr>))))))"

definition GetDACFromPCMBank :: "VGM_PCM_BANK \<Rightarrow> (u8 \<times> VGM_PCM_BANK) res" where
  "GetDACFromPCMBank b = (if DataPos b \<ge> bank_DataSize b then Ok (0x80, b)
     else bind_res (byte_at (bank_Data b) (unat (DataPos b))) (\<lambda>d. Ok (d, b\<lparr>DataPos := DataPos b + 1\<rparr>)))"

text \<open>The pointer into a bank, as the rest of the bank from there on.\<close>

definition GetPointerFromPCMBank :: "VGM_PCM_BANK list \<Rightarrow> u8 \<Rightarrow> u32 \<Rightarrow> u8 list option" where
  "GetPointerFromPCMBank banks Type pos =
     (if unat Type \<ge> PCM_BANK_COUNT then None
      else if pos \<ge> bank_DataSize (banks ! unat Type) then None
      else Some (drop (unat pos) (bank_Data (banks ! unat Type))))"

text \<open>\<^verbatim>\<open>realloc\<close> of a buffer; \<open>fresh\<close> is what new memory holds.\<close>

definition resize :: "(nat \<Rightarrow> u8) \<Rightarrow> nat \<Rightarrow> u8 list \<Rightarrow> u8 list" where
  "resize fresh n buf = take n (buf @ map fresh [length buf..<n])"

definition fill_block :: "u8 list \<Rightarrow> nat \<Rightarrow> nat \<Rightarrow> u8 list \<Rightarrow> u8 list res" where
  "fill_block data n start buf = require (n \<le> length data \<and> start + n \<le> length buf) OutOfBounds
     (Ok (take start buf @ take n data @ drop (start + n) buf))"

text \<open>
  \<^verbatim>\<open>AddPCMData\<close> for a bank, as far as the bank goes: \<open>None\<close> if the block has been loaded before.
\<close>

definition add_block :: "(nat \<Rightarrow> u8) \<Rightarrow> PCMBANK_TBL \<Rightarrow> u8 \<Rightarrow> u32 \<Rightarrow> u8 list \<Rightarrow> VGM_PCM_BANK \<Rightarrow> (bool \<times> VGM_PCM_BANK) res" where
  "add_block fresh tbl Type DataSize data b0 =
     (let b = b0\<lparr>BnkPos := BnkPos b0 + 1\<rparr> in
      if BnkPos b \<le> BankCount b then Ok (False, b)
      else
        bind_res (if Type AND 0x40 = 0 then Ok DataSize else ReadLE32 data 1) (\<lambda>BankSize.
        let start = bank_DataSize b; buf = resize fresh (unat (start + BankSize)) (bank_Data b);
            added = (\<lambda>n buf2 total. (True, b\<lparr>BankCount := BankCount b + 1,
              Bank := Bank b @ [\<lparr>blk_DataSize = n, blk_DataStart = start\<rparr>], bank_Data := buf2, bank_DataSize := total\<rparr>)) in
        if Type AND 0x40 = 0 then
          bind_res (fill_block data (unat DataSize) (unat start) buf) (\<lambda>buf2. Ok (added DataSize buf2 (start + BankSize)))
        else bind_res (DecompressDataBlk tbl (unat start) DataSize data buf) (\<lambda>(good, n, buf2).
          if good then Ok (added n buf2 (start + BankSize)) else Ok (added 0 buf2 start))))"

section \<open>The bit reader reads the bit stream\<close>

text \<open>The bits of the data, the highest of each byte first, and the value of a row of bits.\<close>

definition bits_of :: "u8 list \<Rightarrow> bool list" where
  "bits_of data = concat (map (\<lambda>b. map (\<lambda>i. bit b (7 - i)) [0..<8]) data)"

definition value_of :: "bool list \<Rightarrow> u32" where
  "value_of bs = fold (\<lambda>b v. push_bit 1 v OR of_bool b) bs 0"

lemma value_of_snoc: "value_of (bs @ [b]) = push_bit 1 (value_of bs) OR of_bool b"
  by (simp add: value_of_def)

lemma bit_append: "bit (push_bit 1 v OR of_bool b :: u32) 0 \<longleftrightarrow> b" "bit (push_bit 1 v OR of_bool b :: u32) (Suc i) \<longleftrightarrow> i < 31 \<and> bit v i"
  unfolding bit_or_iff bit_push_bit_iff bit_of_bool_iff by simp_all

lemma bit_value_of: "length bs \<le> 32 \<Longrightarrow> bit (value_of bs) j \<longleftrightarrow> j < length bs \<and> bs ! (length bs - 1 - j)"
proof (induction bs arbitrary: j rule: rev_induct)
  case Nil
  then show ?case by (simp add: value_of_def)
next
  case (snoc b bs)
  show ?case
  proof (cases j)
    case (Suc i)
    have "bit (value_of (bs @ [b])) j \<longleftrightarrow> i < 31 \<and> bit (value_of bs) i" unfolding value_of_snoc Suc bit_append(2) by (rule refl)
    also have "\<dots> \<longleftrightarrow> i < 31 \<and> i < length bs \<and> bs ! (length bs - 1 - i)" using snoc by simp
    also have "\<dots> \<longleftrightarrow> j < length (bs @ [b]) \<and> (bs @ [b]) ! (length (bs @ [b]) - 1 - j)"
    proof (cases "i < length bs")
      case True
      then have "length bs - Suc i < length bs" by simp
      then show ?thesis using True snoc.prems by (simp add: Suc nth_append)
    qed (simp add: Suc)
    finally show ?thesis .
  next
    case 0
    show ?thesis unfolding value_of_snoc 0 bit_append(1) by simp
  qed
qed

lemma length_bits_of [simp]: "length (bits_of data) = 8 * length data"
  by (induction data) (simp_all add: bits_of_def)

lemma nth_bits_of: "i < length data \<Longrightarrow> r < 8 \<Longrightarrow> bits_of data ! (8 * i + r) = bit (data ! i) (7 - r)"
proof (induction data arbitrary: i)
  case (Cons b data)
  have c: "bits_of (b # data) = map (\<lambda>i. bit b (7 - i)) [0..<8] @ bits_of data" by (simp add: bits_of_def)
  show ?case
  proof (cases i)
    case 0
    then show ?thesis using Cons.prems(2) by (simp add: c nth_append del: upt_small)
  next
    case (Suc k)
    then have "bits_of (b # data) ! (8 * i + r) = bits_of data ! (8 * k + r)" by (simp add: c nth_append del: upt_small)
    then show ?thesis using Cons Suc by simp
  qed
qed simp

lemma bit_bit_part: "n \<le> 8 \<Longrightarrow> bit (bit_part b sh n) j \<longleftrightarrow> j < n \<and> sh \<le> j + 8 \<and> bit b (j + 8 - sh)"
  by (auto simp: bit_part_def bit_and_iff bit_drop_bit_eq bit_push_bit_iff bit_unsigned_iff bit_mask_iff mask_eq_exp_minus_1[symmetric] add.commute[of 8])

lemma read_part_bits:
  assumes "1 \<le> n" "n \<le> 8" "snd p < 8" "8 * fst p + snd p + n \<le> 8 * length data"
  shows "\<exists>p1. read_part data n p = Ok (value_of (take n (drop (8 * fst p + snd p) (bits_of data))), p1) \<and>
    8 * fst p1 + snd p1 = 8 * fst p + snd p + n \<and> snd p1 < 8"
proof -
  define i s where "i = fst p" and "s = snd p"
  have i: "i < length data" using assms unfolding i_def by linarith
  define w where "w = value_of (take n (drop (8 * i + s) (bits_of data)))"
  have w: "bit w j \<longleftrightarrow> j < n \<and> bits_of data ! (8 * i + (s + (n - 1 - j)))" for j
  proof -
    have "length (take n (drop (8 * i + s) (bits_of data))) = n" using assms(4) by (simp add: i_def s_def)
    moreover have "take n (drop (8 * i + s) (bits_of data)) ! (n - 1 - j) = bits_of data ! (8 * i + (s + (n - 1 - j)))" if "j < n"
      using that assms(4) by (simp add: i_def s_def add.assoc)
    ultimately show ?thesis using assms(2) unfolding w_def by (subst bit_value_of) auto
  qed
  have at0: "bits_of data ! (8 * i + r) = bit (data ! i) (7 - r)" if "r < 8" for r by (rule nth_bits_of[OF i that])
  show ?thesis
  proof (cases "8 < s + n")
    case False
    have "bit_part (data ! i) (s + n) n = w"
    proof (rule bit_eqI)
      fix j
      show "bit (bit_part (data ! i) (s + n) n) j \<longleftrightarrow> bit w j"
      proof (cases "j < n")
        case True
        then have r: "7 - (s + (n - 1 - j)) = j + 8 - (s + n)" "s + (n - 1 - j) < 8" "s + n \<le> j + 8" using False by arith+
        show ?thesis using True r(3) unfolding w at0[OF r(2)] r(1) bit_bit_part[OF assms(2)] by simp
      qed (simp add: w bit_bit_part[OF assms(2)])
    qed
    then show ?thesis using False i assms(1,2)
      by (auto simp: read_part_def Let_def byte_at_def i_def[symmetric] s_def[symmetric] w_def[symmetric])
  next
    case True
    have i1: "i + 1 < length data" using True assms(4) unfolding i_def s_def by linarith
    have at1: "bits_of data ! (8 * i + r) = bit (data ! (i + 1)) (15 - r)" if "8 \<le> r" "r < 16" for r
    proof -
      have "8 * (i + 1) + (r - 8) = 8 * i + r" "7 - (r - 8) = 15 - r" "r - 8 < 8" using that by arith+
      then show ?thesis using nth_bits_of[OF i1, of "r - 8"] by simp
    qed
    have "bit_part (data ! i) (s + n) n OR bit_part (data ! (i + 1)) (s + n - 8) n = w"
    proof (rule bit_eqI)
      fix j
      show "bit (bit_part (data ! i) (s + n) n OR bit_part (data ! (i + 1)) (s + n - 8) n) j \<longleftrightarrow> bit w j"
      proof (cases "j < n")
        case j: True
        show ?thesis
        proof (cases "s + n \<le> j + 8")
          case le: True
          then have r: "7 - (s + (n - 1 - j)) = j + 8 - (s + n)" "s + (n - 1 - j) < 8" using j by arith+
          have "\<not> bit (data ! (i + 1)) (j + 8 - (s + n - 8))" using le by (intro bit_u8_big) arith
          then show ?thesis using j le unfolding w at0[OF r(2)] r(1) bit_or_iff bit_bit_part[OF assms(2)] by simp
        next
          case False
          then have r: "15 - (s + (n - 1 - j)) = j + 8 - (s + n - 8)" "8 \<le> s + (n - 1 - j)" "s + (n - 1 - j) < 16" "s + n - 8 \<le> j + 8"
            using j assms(2,3) \<open>8 < s + n\<close> unfolding s_def by arith+
          show ?thesis using j False r(4) unfolding w at1[OF r(2,3)] r(1) bit_or_iff bit_bit_part[OF assms(2)] by simp
        qed
      qed (simp add: w bit_or_iff bit_bit_part[OF assms(2)])
    qed
    then show ?thesis using True i i1 assms(2,3)
      by (auto simp: read_part_def Let_def byte_at_def i_def[symmetric] s_def[symmetric] w_def[symmetric])
  qed
qed

text \<open>A value of at most eight bits.\<close>

lemma read_bits_value:
  assumes "1 \<le> n" "n \<le> 8" "snd p < 8" "8 * fst p + snd p + n \<le> 8 * length data"
  obtains p1 where "read_bits data n 0 0 p = Ok (value_of (take n (drop (8 * fst p + snd p) (bits_of data))), p1)"
    "8 * fst p1 + snd p1 = 8 * fst p + snd p + n" "snd p1 < 8"
proof -
  obtain p1 where "read_part data n p = Ok (value_of (take n (drop (8 * fst p + snd p) (bits_of data))), p1)"
    "8 * fst p1 + snd p1 = 8 * fst p + snd p + n" "snd p1 < 8"
    using read_part_bits[OF assms] by blast
  then show ?thesis using that assms(1,2) by (simp add: read_bits.simps)
qed

section \<open>Unpacking gives the values\<close>

text \<open>The value number \<open>k\<close> of a block whose bits start behind its header of ten bytes.\<close>

definition packed :: "u8 list \<Rightarrow> nat \<Rightarrow> nat \<Rightarrow> u32" where
  "packed data n k = value_of (take n (drop (80 + k * n) (bits_of data)))"

lemma unpack_loop_bytes:
  assumes n: "1 \<le> n" "n \<le> 8" and enough: "80 + amount * n \<le> 8 * InEnd" "InEnd \<le> length data"
    and val: "\<And>v w. val v w = Ok (f v)" and put: "\<And>p v buf. put p v buf = set_byte p (ucast v) buf"
    and room: "start + amount \<le> length buf"
  shows "m = amount - k \<Longrightarrow> k \<le> amount \<Longrightarrow> m < fuel \<Longrightarrow> 8 * fst p + snd p = 80 + k * n \<Longrightarrow> snd p < 8 \<Longrightarrow>
    cur = take start buf @ map (\<lambda>i. ucast (f (packed data n i))) [0..<k] @ drop (start + k) buf \<Longrightarrow>
    value_loop fuel val put data InEnd n 1 (start + amount) (start + k) p w cur =
      Ok (take start buf @ map (\<lambda>i. ucast (f (packed data n i))) [0..<amount] @ drop (start + amount) buf)"
proof (induction m arbitrary: k fuel p w cur)
  case 0
  then show ?case by (cases fuel) simp_all
next
  case (Suc m)
  obtain fuel' where fuel: "fuel = Suc fuel'" "m < fuel'" using Suc.prems(3) by (cases fuel) simp_all
  have k: "k < amount" using Suc.prems(1) by simp
  have "(k + 1) * n \<le> amount * n" using k by (intro mult_le_mono1) simp
  then have in8: "80 + k * n + n \<le> 8 * InEnd" using enough(1) by (simp add: algebra_simps)
  then have inside: "fst p < InEnd" using Suc.prems(4) n(1) by linarith
  have "8 * fst p + snd p + n \<le> 8 * length data" using in8 enough(2) Suc.prems(4) by linarith
  from read_bits_value[OF n Suc.prems(5) this] obtain p1 where
    p1: "read_bits data n 0 0 p = Ok (packed data n k, p1)" "8 * fst p1 + snd p1 = 80 + k * n + n" "snd p1 < 8"
    by (auto simp: packed_def Suc.prems(4))
  have len: "length cur = length buf" using Suc.prems(6) k room by simp
  define cur1 where "cur1 = cur[start + k := ucast (f (packed data n k))]"
  have put1: "put (start + k) (f (packed data n k)) cur = Ok cur1"
    using k room len by (simp add: put set_byte_def cur1_def)
  have "drop (start + k) buf = buf ! (start + k) # drop (start + Suc k) buf" using k room by (simp add: Cons_nth_drop_Suc)
  then have "cur1 = take start buf @ map (\<lambda>i. ucast (f (packed data n i))) [0..<Suc k] @ drop (start + Suc k) buf"
    using room k by (simp add: cur1_def Suc.prems(6) list_update_append)
  then have "value_loop fuel' val put data InEnd n 1 (start + amount) (start + Suc k) p1 (f (packed data n k)) cur1 =
      Ok (take start buf @ map (\<lambda>i. ucast (f (packed data n i))) [0..<amount] @ drop (start + amount) buf)"
    using Suc.prems(1) k fuel(2) p1(2,3) by (intro Suc.IH) (simp_all add: algebra_simps)
  then show ?case using k inside p1(1) put1 by (simp add: fuel(1) val[of "packed data n k" w])
qed

text \<open>What the two kinds of compression without a table make of a value.\<close>

definition expand :: "u8 \<Rightarrow> nat \<Rightarrow> u16 \<Rightarrow> u32 \<Rightarrow> u32" where
  "expand sub k AddVal v = (if sub = 0 then v else push_bit k v) + ucast AddVal"

text \<open>C10: the loop that reads a value from its two bytes with shifts and masks gives the values of the bit stream, highest bit first:
  a block of values of one to eight bits, copied or shifted left, becomes one byte for each value, and nothing else in the bank changes.\<close>
theorem DecompressDataBlk_values:
  assumes "byte_at data 0 = Ok 0" "ReadLE32 data 1 = Ok n" "byte_at data 5 = Ok dec" "byte_at data 6 = Ok cmp" "byte_at data 7 = Ok sub"
    "ReadLE16 data 8 = Ok w"
    and "sub = 0 \<or> sub = 1" "0 < cmp" "cmp \<le> dec" "dec \<le> 8" "80 + unat n * unat cmp \<le> 8 * unat DataSize" "unat DataSize \<le> length data"
    and "start + unat n \<le> length buf"
  shows "DecompressDataBlk tbl start DataSize data buf = Ok (True, n, take start buf @
    map (\<lambda>k. ucast (expand sub (unat dec - unat cmp) w (packed data (unat cmp) k))) [0..<unat n] @ drop (start + unat n) buf)"
proof -
  have d: "1 \<le> unat cmp" "unat cmp \<le> unat dec" "unat dec \<le> 8" using assms(8-10) by (simp_all add: word_le_nat_alt word_less_nat_alt)
  then have one: "ValSize_of dec = 1" by (simp add: ValSize_of_def)
  have minus: "unat (dec - cmp) = unat dec - unat cmp" using assms(9) by (simp add: unat_sub word_le_nat_alt)
  have val: "nbit_value tbl dec cmp sub w v u = Ok (expand sub (unat dec - unat cmp) w v)" for v u
  proof -
    have "0 \<le> uint dec - uint cmp \<and> uint dec - uint cmp < 32"
      using d unfolding uint_nat[of dec] uint_nat[of cmp] by linarith
    then show ?thesis using assms(7) by (cases "sub = 0") (simp_all only: nbit_value_def expand_def minus, simp_all)
  qed
  have put: "put_nbit dec p v buf = set_byte p (ucast v) buf" for p v buf by (simp add: put_nbit_def one)
  have "value_loop (unat n + 8 * length data + 1) (nbit_value tbl dec cmp sub w) (put_nbit dec) data (unat DataSize) (unat cmp) 1
      (start + unat n) (start + 0) (10, 0) 0 buf = Ok (take start buf @
        map (\<lambda>k. ucast (expand sub (unat dec - unat cmp) w (packed data (unat cmp) k))) [0..<unat n] @ drop (start + unat n) buf)"
    using d assms(11-13) by (intro unpack_loop_bytes[OF _ _ _ _ val put, where m = "unat n"]) simp_all
  then show ?thesis using assms(1-7) by (auto simp: DecompressDataBlk_def one)
qed

section \<open>Unpacking ends\<close>

lemma byte_at_returns [simp]: "returns (byte_at data p)"
  by (simp add: byte_at_def require_def)

lemma ReadLE_returns [simp]: "returns (ReadLE16 data p)" "returns (ReadLE32 data p)"
  by (auto simp: ReadLE16_def ReadLE32_def intro!: returns_bind)

lemma read_part_moves:
  assumes "read_part data n p = Ok (v, p1)" "n \<le> 8" "snd p < 8"
  shows "8 * fst p1 + snd p1 = 8 * fst p + snd p + n" "snd p1 < 8" "fst p < length data"
  using assms by (auto simp: read_part_def Let_def res_iffs byte_at_def split: if_splits)

lemma read_part_returns: "returns (read_part data n p)"
  by (auto simp: read_part_def Let_def intro!: returns_bind)

lemma read_bits_moves:
  "snd p < 8 \<Longrightarrow> read_bits data n o1 v p = Ok (v1, p1) \<Longrightarrow>
    8 * fst p1 + snd p1 = 8 * fst p + snd p + n \<and> snd p1 < 8 \<and> (0 < n \<longrightarrow> fst p < length data)"
proof (induction data n o1 v p arbitrary: v1 p1 rule: read_bits.induct)
  case (1 data n o1 v p)
  show ?case
  proof (cases "n = 0")
    case False
    then obtain x q where q: "read_part data (min 8 n) p = Ok (x, q)" "o1 < 32"
        "read_bits data (n - min 8 n) (o1 + min 8 n) (v OR push_bit o1 x) q = Ok (v1, p1)"
      using 1(3) by (subst (asm) read_bits.simps) (auto simp: Let_def res_iffs)
    note m = read_part_moves[OF q(1) _ 1(2)]
    have "8 * fst p1 + snd p1 = 8 * fst q + snd q + (n - min 8 n) \<and> snd p1 < 8"
      using 1(1)[OF False refl q(1) _ m(2) q(3)] by simp
    then show ?thesis using m by simp
  qed (use 1 in \<open>simp add: read_bits.simps\<close>)
qed

lemma read_bits_returns: "returns (read_bits data n o1 v p)"
proof (induction data n o1 v p rule: read_bits.induct)
  case (1 data n o1 v p)
  then show ?case
    by (subst read_bits.simps) (auto simp: Let_def require_def intro!: returns_bind read_part_returns)
qed

lemma unpack_loop_returns:
  assumes "0 < bits \<or> 0 < ValSize" "\<And>v w. returns (val v w)" "\<And>q v b. returns (put q v b)"
  shows "snd p < 8 \<Longrightarrow> (if 0 < ValSize then OutEnd - OutPos else 8 * length data - (8 * fst p + snd p)) < k \<Longrightarrow>
    returns (value_loop k val put data InEnd bits ValSize OutEnd OutPos p w buf)"
proof (induction k arbitrary: OutPos p w buf)
  case (Suc k)
  show ?case
    unfolding value_loop.simps
  proof (intro returns_if returns_bind returns_case_prod assms(2,3) read_bits_returns returns_simps)
    fix x InVal p1 w1 buf1
    assume a: "OutPos < OutEnd \<and> fst p < InEnd" "read_bits data bits 0 0 p = Ok x" "x = (InVal, p1)"
    note m = read_bits_moves[OF Suc.prems(1), of data bits 0 0 InVal p1, OF a(2)[unfolded a(3)]]
    show "returns (value_loop k val put data InEnd bits ValSize OutEnd (OutPos + ValSize) p1 w1 buf1)"
    proof (intro Suc.IH)
      have "0 < bits \<longrightarrow> 8 * fst p + snd p < 8 * length data" using m Suc.prems(1) by linarith
      then show "(if 0 < ValSize then OutEnd - (OutPos + ValSize) else 8 * length data - (8 * fst p1 + snd p1)) < k"
        using m assms(1) a(1) Suc.prems(2) by (auto split: if_splits)
    qed (use m in simp)
  qed
qed simp

text \<open>Unpacking a data block ends, whatever the block says about itself and wherever its data stops, unless it asks for values
  of no bits that take no bytes.\<close>
theorem DecompressDataBlk_returns:
  assumes "\<not> (byte_at data 5 = Ok 0 \<and> byte_at data 6 = Ok 0)"
  shows "returns (DecompressDataBlk tbl start DataSize data buf)"
proof -
  have e: "returns (table_entry tbl V v)" for V v by (auto simp: table_entry_def intro!: returns_bind)
  have val: "returns (nbit_value tbl dec cmp sub w v u)" "returns (delta_value tbl dec v u)" for dec cmp sub w v u
    using e by (auto simp: nbit_value_def delta_value_def require_def intro!: returns_bind)
  have put: "returns (put_nbit dec q v b)" "returns (put_delta dec q v b)" for dec q v b
    by (auto simp: put_nbit_def put_delta_def set_word_def set_byte_def require_def intro!: returns_bind)
  have pos: "0 < unat cmp \<or> 0 < ValSize_of dec" if "byte_at data 5 = Ok dec" "byte_at data 6 = Ok cmp" for dec cmp
  proof (rule ccontr)
    assume "\<not> ?thesis"
    then have "cmp = 0" "unat dec = 0" by (auto simp: ValSize_of_def unat_eq_0 div_eq_0_iff)
    then show False using assms that by (simp add: unat_eq_0)
  qed
  show ?thesis
    unfolding DecompressDataBlk_def require_def Let_def
    by (auto intro!: returns_bind returns_if unpack_loop_returns val put) (use pos in force)+
qed

text \<open>Values of no bits that take no bytes are unpacked for ever.\<close>

lemma empty_values_never_return:
  assumes "OutPos < OutEnd" "fst p < InEnd" "OutPos + 1 < length buf"
  shows "value_loop k (nbit_value tbl 0 0 0 w) (put_nbit 0) data InEnd 0 0 OutEnd OutPos p u buf = Fail OutOfFuel"
  using assms
  by (induction k arbitrary: u buf) (auto simp: read_bits.simps nbit_value_def put_nbit_def ValSize_of_def set_word_def set_byte_def)

section \<open>Witnesses\<close>

text \<open>A block of three values of three bits, to be shifted left by one: 101, 110 and 001 after a header of ten bytes.\<close>

definition example_block :: "u8 list" where
  "example_block = [0, 3, 0, 0, 0, 4, 3, 1, 2, 0, 0xB8, 0x80]"

theorem DecompressDataBlk_values_witness:
  "\<exists>out. DecompressDataBlk no_table 1 12 example_block [9, 0, 0, 0, 9] = Ok (True, 3, out) \<and> out = [9, 12, 14, 4, 9]"
proof -
  have h: "byte_at example_block 0 = Ok 0" "ReadLE32 example_block 1 = Ok 3" "byte_at example_block 5 = Ok 4"
    "byte_at example_block 6 = Ok 3" "byte_at example_block 7 = Ok 1" "ReadLE16 example_block 8 = Ok 2" by code_simp+
  have len: "length example_block = 12" by (simp add: example_block_def)
  have vals: "packed example_block 3 0 = 5" "packed example_block 3 1 = 6" "packed example_block 3 2 = 1" by code_simp+
  show ?thesis
    using DecompressDataBlk_values[OF h, of 12 1 "[9, 0, 0, 0, 9]" no_table] vals
    by (simp add: len expand_def upt_small)
qed

theorem DecompressDataBlk_returns_witness: "returns (DecompressDataBlk no_table 1 12 example_block [9, 0, 0, 0, 9])"
  by (rule DecompressDataBlk_returns) (simp add: byte_at_def example_block_def)

end
