(* ===== verification/VgmPlayer.thy ===== *)
theory VgmPlayer
  imports DacControl PcmBanks
begin

text \<open>
  The player of VGM files, from \<^verbatim>\<open>VGMPlay/VGMPlay.c\<close>: the interpreter of the commands of a file, the calls the application makes, and the
  streams and sample banks they work on. Time is counted in samples of the file and of the output; the conversion is a fraction.
  Positions in the file are 32-bit and wrap; so do, as on all hosts, the signed sample counters. The sound chips are the list of
  calls made to them. Hardware FM output is off (\<^verbatim>\<open>UseFM\<close>), there is one thread, and the floating-point volume is not modelled.
\<close>

section \<open>Chips and header\<close>

datatype chip = SN76496 | YM2413 | YM2612 | YM2151 | SegaPCM | RF5C68 | YM2203 | YM2608 | YM2610 | YM3812 | YM3526 | Y8950 | YMF262
  | YMF278B | YMF271 | YMZ280B | RF5C164 | PWM | AY8910 | GameBoy | NES | MultiPCM | UPD7759 | OKIM6258 | OKIM6295 | K051649 | K054539
  | HuC6280 | C140 | K053260 | Pokey | QSound | SCSP | WSwan | VSU | SAA1099 | ES5503 | ES5506 | X1_010 | C352 | GA20

record VGM_HEADER =
  lngEOFOffset :: u32
  lngVersion :: u32
  lngHzPSG :: u32
  lngHzYM2413 :: u32
  lngTotalSamples :: u32
  lngLoopOffset :: u32
  lngLoopSamples :: u32
  lngRate :: u32
  lngHzYM2612 :: u32
  lngHzYM2151 :: u32
  lngDataOffset :: u32
  lngHzYM2203 :: u32
  lngHzYM2608 :: u32
  lngHzYM2610 :: u32
  lngHzYM3812 :: u32
  lngHzYM3526 :: u32
  lngHzY8950 :: u32
  lngHzYMF262 :: u32
  lngHzYMZ280B :: u32
  bytLoopBase :: u8
  bytLoopModifier :: u8

record DACCTRL_DATA =
  Enable :: bool
  dac_Bank :: u8

section \<open>The state of the player\<close>

text \<open>\<open>ChipAudio s c chip\<close>: the chip is there, \<^verbatim>\<open>ChipType\<close> is not \<^verbatim>\<open>0xFF\<close>. \<open>DacCtrlUsg\<close> is the used part of the array.\<close>

record vgm =
  VGMHead :: VGM_HEADER
  VGMData :: "u8 list"
  VGMPos :: u32
  VGMSmplPos :: s32
  VGMSmplPlayed :: s32
  VGMSmplRateMul :: u32
  VGMSmplRateDiv :: u32
  VGMCurLoop :: u32
  VGMMaxLoopM :: u32
  VGMEnd :: bool
  EndPlay :: bool
  PausePlay :: bool
  ForceVGMExec :: bool
  FadePlay :: bool
  FadeTime :: u32
  FadeStart :: u32
  HardStopOldVGMs :: u8
  PlayingMode :: u8
  PlayingTime :: u32
  PauseTime :: u32
  PauseSmpls :: u32
  SampleRate :: u32
  VGMMaxLoop :: u32
  VGMPbRate :: u32
  PCMBank :: "VGM_PCM_BANK list"
  PCMTbl :: PCMBANK_TBL
  DacCtrlUsg :: "nat list"
  DacCtrl :: "nat \<Rightarrow> DACCTRL_DATA"
  DACData :: "nat \<Rightarrow> dac_control"
  Last95Drum :: u16
  Last95Max :: u16
  Last95Freq :: u32
  ChipAudio :: "u8 \<Rightarrow> chip \<Rightarrow> bool"
  chip_calls :: "chip_call list"
  new_memory :: "nat \<Rightarrow> u8"
  read_c6280 :: chip_read

definition emit :: "chip_call \<Rightarrow> vgm \<Rightarrow> vgm" where
  "emit c s = s\<lparr>chip_calls := chip_calls s @ [c]\<rparr>"

definition on_dac :: "nat \<Rightarrow> (dac_control \<Rightarrow> dac_control) \<Rightarrow> vgm \<Rightarrow> vgm" where
  "on_dac i f s = s\<lparr>DACData := (DACData s)(i := f (DACData s i))\<rparr>"

definition on_bank :: "nat \<Rightarrow> (VGM_PCM_BANK \<Rightarrow> VGM_PCM_BANK) \<Rightarrow> vgm \<Rightarrow> vgm" where
  "on_bank i f s = s\<lparr>PCMBank := (PCMBank s)[i := f (PCMBank s ! i)]\<rparr>"

definition skip :: "u32 \<Rightarrow> vgm \<Rightarrow> vgm" where
  "skip n s = s\<lparr>VGMPos := VGMPos s + n\<rparr>"

definition wait :: "u32 \<Rightarrow> vgm \<Rightarrow> vgm" where
  "wait n s = s\<lparr>VGMSmplPos := VGMSmplPos s + n\<rparr>"

section \<open>Time\<close>

text \<open>Division of C, towards zero; the divisor is positive.\<close>

definition trunc_div :: "int \<Rightarrow> int \<Rightarrow> int" where
  "trunc_div a b = (if a < 0 then - ((- a) div b) else a div b)"

definition SampleVGM2Pbk_I :: "vgm \<Rightarrow> s32 \<Rightarrow> s32 res" where
  "SampleVGM2Pbk_I s v = require (VGMSmplRateDiv s \<noteq> 0) Undefined
     (Ok (word_of_int (trunc_div (sint v * uint (VGMSmplRateMul s)) (uint (VGMSmplRateDiv s)))))"

definition SamplePbk2VGM_I :: "vgm \<Rightarrow> s32 \<Rightarrow> s32 res" where
  "SamplePbk2VGM_I s v = require (VGMSmplRateMul s \<noteq> 0) Undefined
     (Ok (word_of_int (trunc_div (sint v * uint (VGMSmplRateDiv s)) (uint (VGMSmplRateMul s)))))"

section \<open>Resetting the chips\<close>

text \<open>\<^verbatim>\<open>Chips_GeneralActions(0x01)\<close>, the part behind the chips.\<close>

definition reset_chips :: "vgm \<Rightarrow> vgm" where
  "reset_chips s = fold (\<lambda>i. on_dac i device_reset_daccontrol) (DacCtrlUsg s)
     (emit (Chips_GeneralActions 0x01) s\<lparr>PCMBank := map (\<lambda>b. b\<lparr>DataPos := 0, BnkPos := 0\<rparr>) (PCMBank s),
        PCMTbl := (PCMTbl s)\<lparr>EntryCount := 0\<rparr>\<rparr>)"

section \<open>Data blocks\<close>

definition refresh_dacs :: "nat \<Rightarrow> vgm \<Rightarrow> vgm" where
  "refresh_dacs bank s = fold (\<lambda>i s. if unat (dac_Bank (DacCtrl s i)) = bank
     then on_dac i (daccontrol_refresh_data (Some (bank_Data (PCMBank s ! bank))) (bank_DataSize (PCMBank s ! bank))) s else s) (DacCtrlUsg s) s"

definition AddPCMData :: "u8 \<Rightarrow> u32 \<Rightarrow> u8 list \<Rightarrow> vgm \<Rightarrow> vgm res" where
  "AddPCMData Type DataSize data s =
     (let BnkType = unat (Type AND 0x3F) in
      if BnkType \<ge> PCM_BANK_COUNT \<or> VGMCurLoop s \<noteq> 0 then Ok s
      else if Type = 0x7F then bind_res (ReadPCMTable data (PCMTbl s)) (\<lambda>t. Ok (s\<lparr>PCMTbl := t\<rparr>))
      else bind_res (add_block (new_memory s) (PCMTbl s) Type DataSize data (PCMBank s ! BnkType)) (\<lambda>(added, b).
        let s1 = s\<lparr>PCMBank := (PCMBank s)[BnkType := b]\<rparr> in
        if \<not> added then Ok s1
        else Ok (refresh_dacs BnkType (s1\<lparr>Last95Max := if Last95Max s \<noteq> 0xFFFF then ucast (BankCount b) else Last95Max s\<rparr>))))"

text \<open>Operand \<open>k\<close> of the command, and the file from there on.\<close>

definition VGMPnt :: "vgm \<Rightarrow> nat \<Rightarrow> u8 res" where
  "VGMPnt s k = byte_at (VGMData s) (unat (VGMPos s) + k)"

definition pnt16 :: "vgm \<Rightarrow> nat \<Rightarrow> u16 res" where
  "pnt16 s k = ReadLE16 (VGMData s) (unat (VGMPos s) + k)"

definition pnt24 :: "vgm \<Rightarrow> nat \<Rightarrow> u32 res" where
  "pnt24 s k = ReadLE24 (VGMData s) (unat (VGMPos s) + k)"

definition pnt32 :: "vgm \<Rightarrow> nat \<Rightarrow> u32 res" where
  "pnt32 s k = ReadLE32 (VGMData s) (unat (VGMPos s) + k)"

definition pnt_from :: "vgm \<Rightarrow> nat \<Rightarrow> u8 list" where
  "pnt_from s k = drop (unat (VGMPos s) + k) (VGMData s)"

text \<open>The chip a ROM or RAM image is for.\<close>

definition rom_chip :: "u8 \<Rightarrow> chip option" where
  "rom_chip t = (if t = 0x80 then Some SegaPCM else if t = 0x81 then Some YM2608 else if t = 0x82 \<or> t = 0x83 then Some YM2610
     else if t = 0x84 then Some YMF278B else if t = 0x85 then Some YMF271 else if t = 0x86 then Some YMZ280B
     else if t = 0x88 then Some Y8950 else if t = 0x89 then Some MultiPCM else if t = 0x8A then Some UPD7759
     else if t = 0x8B then Some OKIM6295 else if t = 0x8C then Some K054539 else if t = 0x8D then Some C140
     else if t = 0x8E then Some K053260 else if t = 0x8F then Some QSound else if t = 0x90 then Some ES5506
     else if t = 0x91 then Some X1_010 else if t = 0x92 then Some C352 else if t = 0x93 then Some GA20 else None)"

definition ram_chip :: "u8 \<Rightarrow> chip option" where
  "ram_chip t = (if t = 0xC0 then Some RF5C68 else if t = 0xC1 then Some RF5C164 else if t = 0xC2 then Some NES
     else if t = 0xE0 then Some SCSP else if t = 0xE1 then Some ES5503 else None)"

definition data_block :: "u8 \<Rightarrow> vgm \<Rightarrow> vgm res" where
  "data_block CurChip s = bind_res (VGMPnt s 2) (\<lambda>TempByt. bind_res (pnt32 s 3) (\<lambda>w.
     let TempLng = w AND 0x7FFFFFFF; c = (if w AND 0x80000000 \<noteq> 0 then 1 else CurChip) in
     bind_res
      (if TempByt AND 0xC0 = 0x00 \<or> TempByt AND 0xC0 = 0x40 then AddPCMData TempByt TempLng (pnt_from s 7) s
       else if TempByt AND 0xC0 = 0x80 then
         if VGMCurLoop s \<noteq> 0 then Ok s
         else bind_res (pnt32 s 7) (\<lambda>ROMSize. bind_res (pnt32 s 0x0B) (\<lambda>DataStart.
           let DataLen = TempLng - 8 in
           (case rom_chip TempByt of None \<Rightarrow> Ok s
            | Some chip \<Rightarrow> if \<not> ChipAudio s c chip \<or> (TempByt = 0x88 \<and> PlayingMode s = 0x01) then Ok s
                else Ok (emit (write_rom TempByt c ROMSize DataStart DataLen (take (unat DataLen) (pnt_from s 0x0F))) s))))
       else
         bind_res (if TempByt AND 0x20 = 0 then bind_res (pnt16 s 7) (\<lambda>st. Ok (ucast st, TempLng - 2, 9))
                   else bind_res (pnt32 s 7) (\<lambda>st. Ok (st, TempLng - 4, 0x0B))) (\<lambda>(DataStart, DataLen, k).
           case ram_chip TempByt of None \<Rightarrow> Ok s
           | Some chip \<Rightarrow> if \<not> ChipAudio s c chip then Ok s
               else Ok (emit (write_ram TempByt c DataStart DataLen (take (unat DataLen) (pnt_from s k))) s)))
      (\<lambda>s. Ok (skip (7 + TempLng) s))))"

definition pcm_ram_write :: "vgm \<Rightarrow> vgm res" where
  "pcm_ram_write s = bind_res (VGMPnt s 2) (\<lambda>b. bind_res (pnt24 s 3) (\<lambda>DataStart. bind_res (pnt24 s 6) (\<lambda>dest. bind_res (pnt24 s 9) (\<lambda>len.
     let c = drop_bit 7 (b AND 0x80); TempByt = b AND 0x7F; DataLen = (if len = 0 then 0x01000000 else len);
         send = (\<lambda>chip data s. if ChipAudio s c chip then emit (write_ram TempByt c dest DataLen (take (unat DataLen) data)) s else s) in
     Ok (skip 0x0C (case GetPointerFromPCMBank (PCMBank s) TempByt DataStart of None \<Rightarrow> s
       | Some data \<Rightarrow>
           if TempByt = 0x01 then send RF5C68 data s
           else if TempByt = 0x02 then send RF5C164 data s
           else if TempByt = 0x06 then send SCSP data s
           else if TempByt = 0x07 then
             if ChipAudio s c NES then send NES data (s\<lparr>Last95Drum := ucast (DataStart div DataLen - 1),
               Last95Max := ucast (bank_DataSize (PCMBank s ! unat TempByt) div DataLen)\<rparr>) else s
           else s))))))"

section \<open>Writes to chips\<close>

text \<open>The commands for the second chip of a pair: the command they stand for, and the number of the chip.\<close>

definition second_clock :: "VGM_HEADER \<Rightarrow> u8 \<Rightarrow> u32" where
  "second_clock h c = (if c = 0x30 \<or> c = 0x3F then lngHzPSG h else if c = 0xA1 then lngHzYM2413 h
     else if c = 0xA2 \<or> c = 0xA3 then lngHzYM2612 h else if c = 0xA4 then lngHzYM2151 h else if c = 0xA5 then lngHzYM2203 h
     else if c = 0xA6 \<or> c = 0xA7 then lngHzYM2608 h else if c = 0xA8 \<or> c = 0xA9 then lngHzYM2610 h
     else if c = 0xAA then lngHzYM3812 h else if c = 0xAB then lngHzYM3526 h else if c = 0xAC then lngHzY8950 h
     else if c = 0xAE \<or> c = 0xAF then lngHzYMF262 h else if c = 0xAD then lngHzYMZ280B h else 0)"

definition second_chip :: "VGM_HEADER \<Rightarrow> u8 \<Rightarrow> u8 \<times> u8" where
  "second_chip h c = (if second_clock h c AND 0x40000000 \<noteq> 0
     then (if c = 0x30 then c + 0x20 else if c = 0x3F then c + 0x10 else c - 0x50, 1) else (c, 0))"

text \<open>\<open>operands s n\<close>: the operands 1 to \<open>n\<close>.\<close>

primrec operands :: "vgm \<Rightarrow> nat \<Rightarrow> u8 list res" where
  "operands s 0 = Ok []"
| "operands s (Suc n) = bind_res (operands s n) (\<lambda>bs. bind_res (VGMPnt s (Suc n)) (\<lambda>b. Ok (bs @ [b])))"

text \<open>If the chip is there, its operands are read and the call is made; the command is skipped in any case.\<close>

definition chip_write :: "chip \<Rightarrow> u8 \<Rightarrow> nat \<Rightarrow> (u8 list \<Rightarrow> chip_call) \<Rightarrow> u32 \<Rightarrow> vgm \<Rightarrow> vgm res" where
  "chip_write chip CurChip n call len s =
     bind_res (if ChipAudio s CurChip chip then bind_res (operands s n) (\<lambda>b. Ok (emit (call b) s)) else Ok s) (\<lambda>s. Ok (skip len s))"

text \<open>The writes whose chip is chosen by the command: the chip, the number of operands, the call and the length of the command.\<close>

definition plain_write :: "u8 \<Rightarrow> u8 \<Rightarrow> (chip \<times> nat \<times> (u8 list \<Rightarrow> chip_call) \<times> u32) option" where
  "plain_write cmd n =
     (let reg = (\<lambda>chip t. Some (chip, 2, \<lambda>b. chip_reg_write t n 0 (b ! 0) (b ! 1), 3));
          port = (\<lambda>chip t. Some (chip, 2, \<lambda>b. chip_reg_write t n (cmd AND 0x01) (b ! 0) (b ! 1), 3));
          bit7 = (\<lambda>b. drop_bit 7 (b AND 0x80)) in
      if cmd = 0x50 then Some (SN76496, 1, \<lambda>b. chip_reg_write 0x00 n 0 0 (b ! 0), 2)
      else if cmd = 0x51 then reg YM2413 0x01
      else if cmd = 0x52 \<or> cmd = 0x53 then port YM2612 0x02
      else if cmd = 0x4F then Some (SN76496, 1, \<lambda>b. chip_reg_write 0x00 n 0x01 0 (b ! 0), 2)
      else if cmd = 0x54 then Some (YM2151, 2, \<lambda>b. chip_reg_write 0x03 n 0x01 (b ! 0) (b ! 1), 3)
      else if cmd = 0xB0 then reg RF5C68 0x05
      else if cmd = 0xC1 then Some (RF5C68, 3, \<lambda>b. mem_w cmd n (le16 (b ! 0) (b ! 1)) (b ! 2), 4)
      else if cmd = 0x55 then reg YM2203 0x06
      else if cmd = 0x56 \<or> cmd = 0x57 then port YM2608 0x07
      else if cmd = 0x58 \<or> cmd = 0x59 then port YM2610 0x08
      else if cmd = 0x5A then reg YM3812 0x09
      else if cmd = 0x5B then reg YM3526 0x0A
      else if cmd = 0x5C then reg Y8950 0x0B
      else if cmd = 0x5E \<or> cmd = 0x5F then port YMF262 0x0C
      else if cmd = 0x5D then reg YMZ280B 0x0F
      else if cmd = 0xD0 then Some (YMF278B, 3, \<lambda>b. chip_reg_write 0x0D (bit7 (b ! 0)) (b ! 0 AND 0x7F) (b ! 1) (b ! 2), 4)
      else if cmd = 0xD1 then Some (YMF271, 3, \<lambda>b. chip_reg_write 0x0E (bit7 (b ! 0)) (b ! 0 AND 0x7F) (b ! 1) (b ! 2), 4)
      else if cmd = 0xB1 then reg RF5C164 0x10
      else if cmd = 0xC2 then Some (RF5C164, 3, \<lambda>b. mem_w cmd n (le16 (b ! 0) (b ! 1)) (b ! 2), 4)
      else if cmd = 0xB2 then Some (PWM, 2, \<lambda>b. chip_reg_write 0x11 n (drop_bit 4 (b ! 0 AND 0xF0)) (b ! 0 AND 0x0F) (b ! 1), 3)
      else if cmd = 0xC4 then Some (QSound, 3, \<lambda>b. chip_reg_write 0x1F n (b ! 0) (b ! 1) (b ! 2), 4)
      else None)"

text \<open>The writes whose first operand has the number of the chip in its highest bit.\<close>

definition paired_write :: "u8 \<Rightarrow> u8 \<Rightarrow> (chip \<times> nat \<times> (u8 list \<Rightarrow> chip_call) \<times> u32) option" where
  "paired_write cmd n =
     (let r = (\<lambda>b. (b ! 0 :: u8) AND 0x7F);
          reg = (\<lambda>chip t. Some (chip, 2, \<lambda>b. chip_reg_write t n 0 (r b) (b ! 1), 3));
          reg16 = (\<lambda>chip t. Some (chip, 3, \<lambda>b. chip_reg_write t n (r b) (b ! 1) (b ! 2), 4)) in
      if cmd = 0xA0 then reg AY8910 0x12
      else if cmd = 0xB3 then reg GameBoy 0x13
      else if cmd = 0xB4 then reg NES 0x14
      else if cmd = 0xB5 then reg MultiPCM 0x15
      else if cmd = 0xC3 then Some (MultiPCM, 3, \<lambda>b. multipcm_bank_write n (r b) (le16 (b ! 1) (b ! 2)), 4)
      else if cmd = 0xB6 then reg UPD7759 0x16
      else if cmd = 0xB7 then reg OKIM6258 0x17
      else if cmd = 0xB8 then reg OKIM6295 0x18
      else if cmd = 0xD2 then reg16 K051649 0x19
      else if cmd = 0xD3 then reg16 K054539 0x1A
      else if cmd = 0xB9 then reg HuC6280 0x1B
      else if cmd = 0xD4 then reg16 C140 0x1C
      else if cmd = 0xBA then reg K053260 0x1D
      else if cmd = 0xBB then reg Pokey 0x1E
      else if cmd = 0xC5 then reg16 SCSP 0x20
      else if cmd = 0xBC then reg WSwan 0x21
      else if cmd = 0xC6 then Some (WSwan, 3, \<lambda>b. mem_w cmd n (le16 (b ! 1) (b ! 0) AND 0x7FFF) (b ! 2), 4)
      else if cmd = 0xC7 then reg16 VSU 0x22
      else if cmd = 0xBD then reg SAA1099 0x23
      else if cmd = 0xD5 then reg16 ES5503 0x24
      else if cmd = 0xBE then Some (ES5506, 2, \<lambda>b. chip_reg_write 0x25 n (r b) 0 (b ! 1), 3)
      else if cmd = 0xD6 then Some (ES5506, 3, \<lambda>b. chip_reg_write 0x25 n (0x80 OR r b) (b ! 1) (b ! 2), 4)
      else if cmd = 0xC8 then reg16 X1_010 0x26
      else if cmd = 0xE1 then Some (C352, 4, \<lambda>b. c352_w n (le16 (b ! 1) (r b)) (le16 (b ! 3) (b ! 2)), 5)
      else if cmd = 0xBF then reg GA20 0x28
      else None)"

text \<open>Its address has the number of the chip in its highest bit.\<close>

definition sega_pcm_write :: "vgm \<Rightarrow> vgm res" where
  "sega_pcm_write s = bind_res (pnt16 s 1) (\<lambda>a. chip_write SegaPCM (ucast (drop_bit 15 (a AND 0x8000))) 3
     (\<lambda>b. mem_w 0xC0 (ucast (drop_bit 15 (a AND 0x8000))) (a AND 0x7FFF) (b ! 2)) 4 s)"

section \<open>Stream commands\<close>

definition setup_stream :: "vgm \<Rightarrow> vgm res" where
  "setup_stream s = bind_res (VGMPnt s 1) (\<lambda>c. let i = unat c in
     if c = 0xFF then Ok (skip 5 s)
     else let s1 = (if Enable (DacCtrl s i) then s
           else (on_dac i (device_reset_daccontrol \<circ> device_start_daccontrol) s)\<lparr>DacCtrl := (DacCtrl s)(i := (DacCtrl s i)\<lparr>Enable := True\<rparr>),
             DacCtrlUsg := DacCtrlUsg s @ [i]\<rparr>) in
       bind_res (VGMPnt s 2) (\<lambda>t. bind_res (ReadBE16 (VGMData s) (unat (VGMPos s) + 3)) (\<lambda>w.
       Ok (skip 5 (on_dac i (daccontrol_setup_chip (t AND 0x7F) (drop_bit 7 (t AND 0x80)) w) s1)))))"

definition set_stream_data :: "vgm \<Rightarrow> vgm res" where
  "set_stream_data s = bind_res (VGMPnt s 1) (\<lambda>c. let i = unat c in
     if c = 0xFF \<or> \<not> Enable (DacCtrl s i) then Ok (skip 5 s)
     else bind_res (VGMPnt s 2) (\<lambda>b. bind_res (VGMPnt s 3) (\<lambda>st. bind_res (VGMPnt s 4) (\<lambda>base.
       let bank = (if unat b \<ge> PCM_BANK_COUNT then 0 else b); p = PCMBank s ! unat bank in
       Ok (skip 5 (on_dac i (daccontrol_set_data (Some (bank_Data p)) (bank_DataSize p) st base)
         (s\<lparr>DacCtrl := (DacCtrl s)(i := (DacCtrl s i)\<lparr>dac_Bank := bank\<rparr>), Last95Max := ucast (BankCount p)\<rparr>)))))))"

definition set_stream_frequency :: "vgm \<Rightarrow> vgm res" where
  "set_stream_frequency s = bind_res (VGMPnt s 1) (\<lambda>c. let i = unat c in
     if c = 0xFF \<or> \<not> Enable (DacCtrl s i) then Ok (skip 6 s)
     else bind_res (pnt32 s 2) (\<lambda>f. Ok (skip 6 (on_dac i (daccontrol_set_frequency f) (s\<lparr>Last95Freq := f\<rparr>)))))"

definition start_dac :: "nat \<Rightarrow> u32 \<Rightarrow> u8 \<Rightarrow> u32 \<Rightarrow> vgm \<Rightarrow> vgm res" where
  "start_dac i pos mode len s = bind_res (daccontrol_start pos mode len (DACData s i)) (\<lambda>d. Ok (on_dac i (\<lambda>_. d) s))"

definition start_stream :: "vgm \<Rightarrow> vgm res" where
  "start_stream s = bind_res (VGMPnt s 1) (\<lambda>c. let i = unat c in
     if c = 0xFF \<or> \<not> Enable (DacCtrl s i) \<or> BankCount (PCMBank s ! unat (dac_Bank (DacCtrl s i))) = 0 then Ok (skip 0x0B s)
     else bind_res (pnt32 s 2) (\<lambda>st. bind_res (VGMPnt s 6) (\<lambda>mode. bind_res (pnt32 s 7) (\<lambda>len.
       bind_res (start_dac i st mode len (s\<lparr>Last95Drum := 0xFFFF\<rparr>)) (\<lambda>s. Ok (skip 0x0B s))))))"

text \<open>Stopping all streams is command \<^verbatim>\<open>0xFF\<close>, which the code looks up behind the end of the array \<^verbatim>\<open>DacCtrl[0xFF]\<close>.\<close>

definition stop_stream :: "vgm \<Rightarrow> vgm res" where
  "stop_stream s = bind_res (VGMPnt s 1) (\<lambda>c. require (unat c < 0xFF) OutOfBounds
     (if \<not> Enable (DacCtrl s (unat c)) then Ok (skip 2 s)
      else Ok (skip 2 (on_dac (unat c) daccontrol_stop (s\<lparr>Last95Drum := 0xFFFF\<rparr>)))))"

definition play_block :: "vgm \<Rightarrow> vgm res" where
  "play_block s = bind_res (VGMPnt s 1) (\<lambda>c. let i = unat c; p = PCMBank s ! unat (dac_Bank (DacCtrl s i)) in
     if c = 0xFF \<or> \<not> Enable (DacCtrl s i) \<or> BankCount p = 0 then Ok (skip 5 s)
     else bind_res (pnt16 s 2) (\<lambda>w. bind_res (VGMPnt s 4) (\<lambda>f.
       let k = (if unat w \<ge> unat (BankCount p) then 0 else unat w); blk = Bank p ! k;
           mode = DCTRL_LMODE_BYTES OR (f AND 0x10) OR push_bit 7 (f AND 0x01) in
       bind_res (start_dac i (blk_DataStart blk) mode (blk_DataSize blk) (s\<lparr>Last95Drum := w, Last95Max := ucast (BankCount p)\<rparr>)) (\<lambda>s.
       Ok (skip 5 s)))))"

section \<open>The interpreter\<close>

text \<open>The end of the file: back to the loop point or the end of the song. \<^verbatim>\<open>SmplPlayed\<close> is computed again after a loop.\<close>

definition end_of_file :: "u32 \<Rightarrow> s32 \<Rightarrow> vgm \<Rightarrow> (s32 \<times> vgm) res" where
  "end_of_file SampleCount SmplPlayed s = (let h = VGMHead s in
     if lngLoopOffset h \<noteq> 0 then
       bind_res (SampleVGM2Pbk_I s (lngLoopSamples h)) (\<lambda>l.
       let s1 = s\<lparr>VGMPos := lngLoopOffset h, VGMSmplPos := VGMSmplPos s - lngLoopSamples h, VGMSmplPlayed := VGMSmplPlayed s - l,
             VGMCurLoop := VGMCurLoop s + 1\<rparr> in
       bind_res (SamplePbk2VGM_I s1 (VGMSmplPlayed s1 + SampleCount)) (\<lambda>SmplPlayed1.
       bind_res (if VGMMaxLoopM s1 \<noteq> 0 \<and> VGMCurLoop s1 \<ge> VGMMaxLoopM s1 then
           bind_res (if \<not> FadePlay s1
             then SampleVGM2Pbk_I s1 (lngTotalSamples h + (VGMCurLoop s1 - 1) * lngLoopSamples h) else Ok (FadeStart s1)) (\<lambda>f.
           Ok (s1\<lparr>FadeStart := f, FadePlay := True\<rparr>))
         else Ok s1) (\<lambda>s2.
       Ok (SmplPlayed1, if FadePlay s2 \<and> FadeTime s2 = 0 then s2\<lparr>VGMEnd := True\<rparr> else s2))))
     else
       let s1 = s\<lparr>VGMHead := h\<lparr>lngTotalSamples := VGMSmplPos s\<rparr>\<rparr>;
           s2 = (if HardStopOldVGMs s \<noteq> 0 \<and> (lngVersion h < 0x150 \<or> (lngVersion h = 0x150 \<and> HardStopOldVGMs s = 0x02))
             then reset_chips s1 else s1) in
       Ok (SmplPlayed, s2\<lparr>VGMEnd := True\<rparr>))"

text \<open>The length of a command the player does not know; \<open>0\<close> where it gives up.\<close>

definition unknown_length :: "u8 \<Rightarrow> u32" where
  "unknown_length cmd = (let n = cmd AND 0xF0 in
     if n \<in> {0x00, 0x10, 0x20} then 1 else if n = 0x30 then 2 else if n \<in> {0x40, 0x50, 0xA0, 0xB0} then 3
     else if n \<in> {0xC0, 0xD0} then 4 else if n \<in> {0xE0, 0xF0} then 5 else 0)"

text \<open>The commands that neither wait nor end the file.\<close>

definition command :: "u8 \<Rightarrow> u8 \<Rightarrow> vgm \<Rightarrow> vgm res" where
  "command cmd CurChip s =
     (case plain_write cmd CurChip of Some (chip, n, call, len) \<Rightarrow> chip_write chip CurChip n call len s
      | None \<Rightarrow>
      if paired_write cmd 0 \<noteq> None then
        bind_res (VGMPnt s 1) (\<lambda>b. let c = drop_bit 7 (b AND 0x80) in
        case paired_write cmd c of Some (chip, n, call, len) \<Rightarrow> chip_write chip c n call len s | None \<Rightarrow> Ok s)
      else if cmd = 0xC0 then sega_pcm_write s
      else if cmd = 0x67 then data_block CurChip s
      else if cmd = 0x68 then pcm_ram_write s
      else if cmd = 0xE0 then bind_res (pnt32 s 1) (\<lambda>p. Ok (skip 5 (on_bank 0 (\<lambda>b. b\<lparr>DataPos := p\<rparr>) s)))
      else if cmd = 0x90 then setup_stream s
      else if cmd = 0x91 then set_stream_data s
      else if cmd = 0x92 then set_stream_frequency s
      else if cmd = 0x93 then start_stream s
      else if cmd = 0x94 then stop_stream s
      else if cmd = 0x95 then play_block s
      else if unknown_length cmd \<noteq> 0 then Ok (skip (unknown_length cmd) s)
      else Ok (s\<lparr>VGMEnd := True, EndPlay := True\<rparr>))"

definition sample_wait :: "u8 \<Rightarrow> vgm \<Rightarrow> vgm res" where
  "sample_wait cmd s = bind_res
     (if cmd AND 0xF0 = 0x70 then Ok (wait (ucast (cmd AND 0x0F) + 1) s)
      else bind_res (GetDACFromPCMBank (PCMBank s ! 0)) (\<lambda>(d, b).
        let s1 = on_bank 0 (\<lambda>_. b) s in
        Ok (wait (ucast (cmd AND 0x0F)) (if lngHzYM2612 (VGMHead s) \<noteq> 0 then emit (chip_reg_write 0x02 0 0 0x2A d) s1 else s1))))
     (\<lambda>s. Ok (skip 1 s))"

text \<open>One round of the loop.\<close>

definition vgm_step :: "u32 \<Rightarrow> s32 \<Rightarrow> vgm \<Rightarrow> (s32 \<times> vgm) res" where
  "vgm_step SampleCount SmplPlayed s = bind_res (VGMPnt s 0) (\<lambda>Command.
     bind_res
      (if 0x70 \<le> Command \<and> Command \<le> 0x8F then bind_res (sample_wait Command s) (\<lambda>s. Ok (SmplPlayed, s))
       else case second_chip (VGMHead s) Command of (cmd, CurChip) \<Rightarrow>
         if cmd = 0x66 then end_of_file SampleCount SmplPlayed s
         else if cmd = 0x62 then Ok (SmplPlayed, skip 1 (wait 735 s))
         else if cmd = 0x63 then Ok (SmplPlayed, skip 1 (wait 882 s))
         else if cmd = 0x61 then bind_res (pnt16 s 1) (\<lambda>n. Ok (SmplPlayed, skip 3 (wait (ucast n) s)))
         else bind_res (command cmd CurChip s) (\<lambda>s. Ok (SmplPlayed, s)))
      (\<lambda>(SmplPlayed, s). Ok (SmplPlayed, if VGMPos s \<ge> lngEOFOffset (VGMHead s) then s\<lparr>VGMEnd := True\<rparr> else s)))"

primrec vgm_loop :: "nat \<Rightarrow> u32 \<Rightarrow> s32 \<Rightarrow> vgm \<Rightarrow> vgm res" where
  "vgm_loop 0 SampleCount SmplPlayed s = Fail OutOfFuel"
| "vgm_loop (Suc k) SampleCount SmplPlayed s =
     (if VGMSmplPos s \<le>s SmplPlayed then
        bind_res (vgm_step SampleCount SmplPlayed s) (\<lambda>(SmplPlayed, s).
        if VGMEnd s then Ok s else vgm_loop k SampleCount SmplPlayed s)
      else Ok s)"

definition InterpretVGM :: "nat \<Rightarrow> u32 \<Rightarrow> vgm \<Rightarrow> vgm res" where
  "InterpretVGM k SampleCount s =
     (if VGMEnd s then Ok s
      else if PausePlay s \<and> \<not> ForceVGMExec s then Ok s
      else bind_res (SamplePbk2VGM_I s (VGMSmplPlayed s + SampleCount)) (\<lambda>SmplPlayed. vgm_loop k SampleCount SmplPlayed s))"

section \<open>Playing\<close>

definition update_dacs :: "u32 \<Rightarrow> vgm \<Rightarrow> vgm res" where
  "update_dacs samples s = for_each (DacCtrlUsg s) (\<lambda>i s.
     bind_res (daccontrol_update (SampleRate s) (read_c6280 s) samples (DACData s i, chip_calls s)) (\<lambda>(d, calls).
     Ok (on_dac i (\<lambda>_. d) (s\<lparr>chip_calls := calls\<rparr>)))) s"

definition InterpretFile :: "nat \<Rightarrow> u32 \<Rightarrow> vgm \<Rightarrow> vgm res" where
  "InterpretFile k SampleCount s =
     bind_res (if 1 < SampleCount then update_dacs (SampleCount - 1) s else Ok s) (\<lambda>s.
     bind_res (InterpretVGM k SampleCount s) (\<lambda>s.
     bind_res (if SampleCount \<noteq> 0 then update_dacs 1 s else Ok s) (\<lambda>s.
     Ok (s\<lparr>VGMSmplPlayed := if \<not> PausePlay s \<or> ForceVGMExec s then VGMSmplPlayed s + SampleCount else VGMSmplPlayed s,
           PlayingTime := PlayingTime s + SampleCount\<rparr>))))"

definition rewind :: "vgm \<Rightarrow> vgm" where
  "rewind s = s\<lparr>VGMPos := lngDataOffset (VGMHead s), VGMSmplPos := 0, VGMSmplPlayed := 0, VGMEnd := False, EndPlay := False,
     VGMCurLoop := 0, PauseSmpls := (PauseTime s * SampleRate s + 500) div 1000\<rparr>"

definition RestartPlaying :: "nat \<Rightarrow> vgm \<Rightarrow> vgm res" where
  "RestartPlaying k s =
     bind_res (InterpretFile k 0 ((reset_chips (rewind s))\<lparr>Last95Drum := 0xFFFF, Last95Freq := 0, ForceVGMExec := True\<rparr>)) (\<lambda>s.
     Ok (s\<lparr>ForceVGMExec := False, FadePlay := False, FadeStart := 0, PlayingTime := 0\<rparr>))"

definition RestartVGM :: "nat \<Rightarrow> vgm \<Rightarrow> vgm res" where
  "RestartVGM k s = (if PlayingMode s = 0xFF \<or> VGMSmplPlayed s = 0 then Ok s else RestartPlaying k s)"

definition PauseVGM :: "bool \<Rightarrow> vgm \<Rightarrow> vgm" where
  "PauseVGM Pause s = (if PlayingMode s = 0xFF \<or> Pause = PausePlay s then s else s\<lparr>PausePlay := Pause\<rparr>)"

definition SeekVGM :: "nat \<Rightarrow> bool \<Rightarrow> s32 \<Rightarrow> vgm \<Rightarrow> vgm res" where
  "SeekVGM k Relative PlayBkSamples s =
     (if PlayingMode s = 0xFF \<or> (Relative \<and> PlayBkSamples = 0) then Ok s
      else bind_res (SampleVGM2Pbk_I s (lngLoopSamples (VGMHead s))) (\<lambda>l.
        let LoopSmpls = VGMCurLoop s * l; played = LoopSmpls + VGMSmplPlayed s;
            Samples = (if \<not> Relative then PlayBkSamples - played else PlayBkSamples) in
        bind_res (if Samples <s 0 then
            bind_res (RestartPlaying k s) (\<lambda>s1. Ok (if played + Samples <s 0 then 0 else played + Samples, s1))
          else Ok (Samples, s)) (\<lambda>(Samples, s1).
        bind_res (InterpretFile k Samples (s1\<lparr>ForceVGMExec := True\<rparr>)) (\<lambda>s2. Ok (s2\<lparr>ForceVGMExec := False\<rparr>)))))"

end
