(* ===== verification/VgmLaws.thy ===== *)
theory VgmLaws
  imports VgmPlayer
begin

text \<open>
  Laws of the interpreter of VGM files. No command but a wait, the end and the position moves the clock; every round moves on in the file or ends
  it. Every command takes the player past exactly itself. So a file without a loop and without a packed block of zero-bit values is interpreted to
  its end, with a bound on the rounds, and playing it in two goes is playing it in one.
\<close>

section \<open>What a command leaves alone\<close>

text \<open>
  \<open>stays s t\<close>: neither the clock nor the position nor the end differ; \<open>ahead s t\<close>: the position has moved on,
  or the file has ended.
\<close>

definition clock :: "vgm \<Rightarrow> s32 \<times> (u32 \<times> u32) \<times> (bool \<times> bool) \<times> u8 list \<times> u32 \<times> u32 \<times> u32" where
  "clock s = (VGMSmplPlayed s, (VGMSmplRateMul s, VGMSmplRateDiv s), (PausePlay s, ForceVGMExec s), VGMData s,
     lngLoopOffset (VGMHead s), lngEOFOffset (VGMHead s), lngDataOffset (VGMHead s))"

definition stays :: "vgm \<Rightarrow> vgm \<Rightarrow> bool" where
  "stays s t \<longleftrightarrow> clock t = clock s \<and> VGMPos t = VGMPos s \<and> VGMEnd t = VGMEnd s"

definition ahead :: "vgm \<Rightarrow> vgm \<Rightarrow> bool" where
  "ahead s t \<longleftrightarrow> clock t = clock s \<and> (VGMEnd t \<or> (VGMEnd t = VGMEnd s \<and> (\<exists>n. VGMPos t = VGMPos s + n \<and> 1 \<le> n \<and> n \<le> 0x80000006)))"

lemma stays_refl [simp]: "stays s s"
  by (simp add: stays_def)

lemma stays_trans: "stays s t \<Longrightarrow> stays t u \<Longrightarrow> stays s u"
  by (simp add: stays_def)

lemma stays_simps [simp]:
  "stays s (emit c t) = stays s t" "stays s (on_dac i f t) = stays s t" "stays s (on_bank j g t) = stays s t"
  "stays s (t\<lparr>PCMTbl := a\<rparr>) = stays s t" "stays s (t\<lparr>PCMBank := b\<rparr>) = stays s t" "stays s (t\<lparr>Last95Max := w\<rparr>) = stays s t"
  "stays s (t\<lparr>Last95Drum := w\<rparr>) = stays s t" "stays s (t\<lparr>Last95Freq := v\<rparr>) = stays s t" "stays s (t\<lparr>DacCtrl := d\<rparr>) = stays s t"
  "stays s (t\<lparr>DacCtrlUsg := us\<rparr>) = stays s t" "stays s (t\<lparr>chip_calls := cs\<rparr>) = stays s t" "stays s (wait n t) = stays s t"
  by (simp_all add: stays_def clock_def emit_def on_dac_def on_bank_def wait_def)

lemma stays_fold: "(\<And>i t. stays s t \<Longrightarrow> stays s (f i t)) \<Longrightarrow> stays s t \<Longrightarrow> stays s (fold f xs t)"
  by (rule fold_inv)

lemma moved_skip: "stays s t \<Longrightarrow> 1 \<le> n \<Longrightarrow> n \<le> 0x80000006 \<Longrightarrow> ahead s (skip n t)"
  by (auto simp: stays_def ahead_def skip_def clock_def)

lemma post_stays: "post r (stays s) \<Longrightarrow> 1 \<le> n \<Longrightarrow> n \<le> 0x80000006 \<Longrightarrow> post (bind_res r (\<lambda>t. Ok (skip n t))) (ahead s)"
  by (erule post_bind) (simp add: moved_skip)

lemma refresh_stays: "stays s (refresh_dacs b s)"
  unfolding refresh_dacs_def by (rule stays_fold) simp_all

lemma AddPCMData_stays: "post (AddPCMData t n d s) (stays s)"
  unfolding AddPCMData_def Let_def
  by (intro post_if post_bind_any post_case_prod post_Ok_I stays_trans[OF _ refresh_stays]) simp_all

lemma post_any_bind: "(\<And>x. post (f x) P) \<Longrightarrow> post (bind_res m f) P"
  by (rule post_bind_any)

lemma rom_ram_len: "7 + (w AND 0x7FFFFFFF :: u32) \<le> 0x80000006" "1 \<le> 7 + (w AND 0x7FFFFFFF :: u32)"
proof -
  have "uint (w AND 0x7FFFFFFF :: u32) \<le> 0x7FFFFFFF" using uint_and_le[of w "0x7FFFFFFF"] by simp
  moreover have "0 \<le> uint (w AND 0x7FFFFFFF :: u32)" by simp
  ultimately have "uint (7 + (w AND 0x7FFFFFFF :: u32)) = 7 + uint (w AND 0x7FFFFFFF :: u32)"
    by (subst uint_plus_32) simp
  then show "7 + (w AND 0x7FFFFFFF :: u32) \<le> 0x80000006" "1 \<le> 7 + (w AND 0x7FFFFFFF :: u32)"
    using \<open>uint (w AND 0x7FFFFFFF :: u32) \<le> 0x7FFFFFFF\<close> \<open>0 \<le> uint (w AND 0x7FFFFFFF :: u32)\<close> by (simp_all only: word_le_def, simp_all)
qed

lemma data_block_moved: "post (data_block c s) (ahead s)"
  unfolding data_block_def Let_def
  by (intro post_any_bind post_stays rom_ram_len post_if AddPCMData_stays post_case_option post_case_prod post_Ok_I) simp_all

lemma pcm_ram_write_moved: "post (pcm_ram_write s) (ahead s)"
  unfolding pcm_ram_write_def Let_def
  by (intro post_any_bind post_Ok_I moved_skip) (auto split: option.splits)

lemma chip_write_moved: "1 \<le> n \<Longrightarrow> n \<le> 5 \<Longrightarrow> post (chip_write ch c k f n s) (ahead s)"
  unfolding chip_write_def
  by (intro post_stays post_if post_any_bind post_Ok_I) (simp_all, unat_arith)

lemma Some_if: "(if b then x else y) = Some z \<Longrightarrow> (x = Some z \<Longrightarrow> P) \<Longrightarrow> (y = Some z \<Longrightarrow> P) \<Longrightarrow> P"
  by (simp split: if_splits)

lemma plain_write_len: "plain_write cmd c = Some (chip, n, call, len) \<Longrightarrow> 1 \<le> len \<and> len \<le> 5"
  unfolding plain_write_def Let_def by (elim Some_if) auto

lemma paired_write_len: "paired_write cmd c = Some (chip, n, call, len) \<Longrightarrow> 1 \<le> len \<and> len \<le> 5"
  unfolding paired_write_def Let_def by (elim Some_if) auto

lemma paired_write_None: "paired_write cmd c = None \<longleftrightarrow> paired_write cmd 0 = None"
  by (simp add: paired_write_def Let_def)

lemma start_dac_stays: "stays t s \<Longrightarrow> post (start_dac i p m l s) (stays t)"
  unfolding start_dac_def by (intro post_any_bind post_Ok_I) simp

lemma stream_command_moved:
  "post (setup_stream s) (ahead s)" "post (set_stream_data s) (ahead s)" "post (set_stream_frequency s) (ahead s)"
  "post (start_stream s) (ahead s)" "post (stop_stream s) (ahead s)" "post (play_block s) (ahead s)"
  unfolding setup_stream_def set_stream_data_def set_stream_frequency_def start_stream_def stop_stream_def play_block_def Let_def
  by (intro post_any_bind post_if post_require post_stays start_dac_stays post_Ok_I moved_skip; simp)+

lemma paired_moved:
  "paired_write cmd 0 \<noteq> None \<Longrightarrow>
    post (case paired_write cmd c of None \<Rightarrow> Ok s | Some (chip, n, call, len) \<Rightarrow> chip_write chip c n call len s) (ahead s)"
proof (cases "paired_write cmd c")
  case None
  then have "paired_write cmd 0 = None" by (rule iffD1[OF paired_write_None])
  then show "paired_write cmd 0 \<noteq> None \<Longrightarrow> ?thesis" by simp
next
  case (Some x)
  obtain chip n call len where "x = (chip, n, call, len)" by (cases x)
  then show ?thesis using paired_write_len[of cmd c chip n call len] Some by (simp add: chip_write_moved)
qed

lemma if_le: "x \<le> (b :: u32) \<Longrightarrow> y \<le> b \<Longrightarrow> (if c then x else y) \<le> b"
  by simp

lemma unknown_length_cases: "unknown_length cmd \<noteq> 0 \<Longrightarrow> 1 \<le> unknown_length cmd" "unknown_length cmd \<le> 0x80000006"
proof -
  show "unknown_length cmd \<noteq> 0 \<Longrightarrow> 1 \<le> unknown_length cmd" by unat_arith
  show "unknown_length cmd \<le> 0x80000006"
    unfolding unknown_length_def Let_def by (intro if_le) simp_all
qed

lemma command_moved: "post (command cmd c s) (ahead s)"
proof (cases "plain_write cmd c")
  case None
  have "ahead s (s\<lparr>VGMEnd := True, EndPlay := True\<rparr>)" by (simp add: ahead_def clock_def)
  then show ?thesis
    unfolding command_def None option.case Let_def sega_pcm_write_def
    by (intro post_if post_any_bind data_block_moved pcm_ram_write_moved stream_command_moved paired_moved chip_write_moved post_Ok_I
        moved_skip unknown_length_cases) simp_all
next
  case (Some x)
  obtain chip n call len where x: "x = (chip, n, call, len)" by (cases x)
  then show ?thesis using plain_write_len[of cmd c chip n call len] Some by (simp add: command_def chip_write_moved)
qed

lemma sample_wait_moved: "post (sample_wait cmd s) (ahead s)"
  unfolding sample_wait_def Let_def by (intro post_stays post_if post_any_bind post_case_prod post_Ok_I) simp_all

text \<open>A file without a loop: one round goes on or ends the song.\<close>

lemma reset_chips_stays: "stays s (reset_chips s)"
  unfolding reset_chips_def by (rule stays_fold) simp_all

lemma end_of_file_moved:
  assumes "lngLoopOffset (VGMHead s) = 0"
  shows "post (end_of_file n P s) (\<lambda>(P', t). P' = P \<and> VGMEnd t \<and> clock t = clock s)"
proof -
  have "stays s (s\<lparr>VGMHead := (VGMHead s)\<lparr>lngTotalSamples := v\<rparr>\<rparr>)" for v by (simp add: stays_def clock_def)
  then have "clock (if b then reset_chips (s\<lparr>VGMHead := (VGMHead s)\<lparr>lngTotalSamples := v\<rparr>\<rparr>)
      else s\<lparr>VGMHead := (VGMHead s)\<lparr>lngTotalSamples := v\<rparr>\<rparr>) = clock s" for b v
    using stays_trans[OF _ reset_chips_stays] by (simp add: stays_def)
  then have "clock ((if b then reset_chips (s\<lparr>VGMHead := (VGMHead s)\<lparr>lngTotalSamples := v\<rparr>\<rparr>)
      else s\<lparr>VGMHead := (VGMHead s)\<lparr>lngTotalSamples := v\<rparr>\<rparr>)\<lparr>VGMEnd := True\<rparr>) = clock s" for b v
    by (simp add: clock_def)
  then show ?thesis using assms by (simp add: end_of_file_def Let_def)
qed

lemma moved_end: "VGMEnd t \<Longrightarrow> clock t = clock s \<Longrightarrow> ahead s t"
  by (simp add: ahead_def)

lemma vgm_step_moved:
  assumes "lngLoopOffset (VGMHead s) = 0"
  shows "post (vgm_step n P s) (\<lambda>(P', t). P' = P \<and> ahead s t \<and> (lngEOFOffset (VGMHead s) \<le> VGMPos t \<longrightarrow> VGMEnd t))"
proof -
  have fin: "ahead s (if lngEOFOffset (VGMHead t) \<le> VGMPos t then t\<lparr>VGMEnd := True\<rparr> else t) \<and>
      (lngEOFOffset (VGMHead s) \<le> VGMPos (if lngEOFOffset (VGMHead t) \<le> VGMPos t then t\<lparr>VGMEnd := True\<rparr> else t) \<longrightarrow>
        VGMEnd (if lngEOFOffset (VGMHead t) \<le> VGMPos t then t\<lparr>VGMEnd := True\<rparr> else t))" if "ahead s t" for t
    using that by (auto simp: ahead_def clock_def)
  have w: "ahead s (skip k (wait m s))" if "1 \<le> k" "k \<le> 0x80000006" for k m by (rule moved_skip) (use that in simp_all)
  have main: "post (if 0x70 \<le> c \<and> c \<le> 0x8F then bind_res (sample_wait c s) (\<lambda>s. Ok (P, s))
       else case second_chip (VGMHead s) c of (cmd, d) \<Rightarrow>
         if cmd = 0x66 then end_of_file n P s
         else if cmd = 0x62 then Ok (P, skip 1 (wait 735 s))
         else if cmd = 0x63 then Ok (P, skip 1 (wait 882 s))
         else if cmd = 0x61 then bind_res (pnt16 s 1) (\<lambda>m. Ok (P, skip 3 (wait (ucast m) s)))
         else bind_res (command cmd d s) (\<lambda>s. Ok (P, s))) (\<lambda>(P', t). P' = P \<and> ahead s t)" for c
    by (intro post_if post_case_prod post_any_bind post_bind[OF sample_wait_moved] post_bind[OF command_moved]
        post_mono[OF end_of_file_moved[OF assms]] post_Ok_I) (auto intro: w moved_end)
  show ?thesis
    unfolding vgm_step_def
    by (rule post_any_bind, rule post_bind, rule main, rule post_case_prod, rule post_Ok_I) (auto dest: fin)
qed

section \<open>The commands of a file\<close>

text \<open>
  The length of a command, by its first byte; \<open>0\<close> for the end of the file and where the player gives up, and for a data block, which has a
  length of its own. It does not depend on the chips, present or not.
\<close>

definition command_length :: "u8 \<Rightarrow> u32" where
  "command_length cmd = (let n = cmd AND 0xF0 in
     if cmd = 0x4F \<or> cmd = 0x50 \<or> cmd = 0x94 then 2 else if cmd = 0x61 then 3 else if cmd = 0x62 \<or> cmd = 0x63 then 1 else if cmd = 0x68 then 12
     else if cmd = 0x90 \<or> cmd = 0x91 \<or> cmd = 0x95 then 5 else if cmd = 0x92 then 6 else if cmd = 0x93 then 11
     else if n \<in> {0x00, 0x10, 0x20, 0x70, 0x80} then 1 else if n = 0x30 then 2 else if n \<in> {0x40, 0x50, 0xA0, 0xB0} then 3
     else if n \<in> {0xC0, 0xD0} then 4 else if n \<in> {0xE0, 0xF0} then 5 else 0)"

definition next_command :: "u8 list \<Rightarrow> u32 \<Rightarrow> u32 option" where
  "next_command data p = (case byte_at data (unat p) of Fail _ \<Rightarrow> None
     | Ok c \<Rightarrow>
         if c = 0x67 then (case ReadLE32 data (unat p + 3) of Fail _ \<Rightarrow> None | Ok w \<Rightarrow> Some (p + (7 + (w AND 0x7FFFFFFF))))
         else if command_length c = 0 then None else Some (p + command_length c))"

lemma pos_skip: "post r (stays s) \<Longrightarrow> post (bind_res r (\<lambda>t. Ok (skip n t))) (\<lambda>t. VGMPos t = VGMPos s + n)"
  by (erule post_bind) (simp add: stays_def skip_def)

lemma pos_Ok: "stays s t \<Longrightarrow> post (Ok (skip n t)) (\<lambda>t. VGMPos t = VGMPos s + n)"
  by (simp add: stays_def skip_def)

lemma chip_write_pos: "post (chip_write ch c k f n s) (\<lambda>t. VGMPos t = VGMPos s + n)"
  unfolding chip_write_def by (intro pos_skip post_if post_any_bind post_Ok_I) simp_all

lemma stream_command_pos:
  "post (setup_stream s) (\<lambda>t. VGMPos t = VGMPos s + 5)" "post (set_stream_data s) (\<lambda>t. VGMPos t = VGMPos s + 5)"
  "post (set_stream_frequency s) (\<lambda>t. VGMPos t = VGMPos s + 6)" "post (start_stream s) (\<lambda>t. VGMPos t = VGMPos s + 11)"
  "post (stop_stream s) (\<lambda>t. VGMPos t = VGMPos s + 2)" "post (play_block s) (\<lambda>t. VGMPos t = VGMPos s + 5)"
  "post (pcm_ram_write s) (\<lambda>t. VGMPos t = VGMPos s + 12)" "post (sega_pcm_write s) (\<lambda>t. VGMPos t = VGMPos s + 4)"
  "post (sample_wait cmd s) (\<lambda>t. VGMPos t = VGMPos s + 1)"
  unfolding setup_stream_def set_stream_data_def set_stream_frequency_def start_stream_def stop_stream_def play_block_def Let_def
    pcm_ram_write_def sega_pcm_write_def sample_wait_def
  by (intro post_any_bind post_if post_require pos_skip start_dac_stays chip_write_pos post_case_prod pos_Ok; auto split: option.splits)+

lemma data_block_pos: "post (data_block c s) (\<lambda>t. \<exists>w. ReadLE32 (VGMData s) (unat (VGMPos s) + 3) = Ok w \<and> VGMPos t = VGMPos s + (7 + (w AND 0x7FFFFFFF)))"
proof -
  have fin: "post (bind_res r (\<lambda>t. Ok (skip (7 + (w AND 0x7FFFFFFF)) t))) (\<lambda>t. \<exists>w. ReadLE32 (VGMData s) (unat (VGMPos s) + 3) = Ok w \<and>
      VGMPos t = VGMPos s + (7 + (w AND 0x7FFFFFFF)))" if "pnt32 s 3 = Ok w" "post r (stays s)" for r w
    by (rule post_mono[OF pos_skip[OF that(2)]]) (use that(1) in \<open>auto simp: pnt32_def\<close>)
  show ?thesis
    unfolding data_block_def Let_def
    by (rule post_bind_any, rule post_bind_any, erule fin)
      (intro post_any_bind post_if AddPCMData_stays post_case_option post_case_prod post_Ok_I; simp)
qed

lemma Some_if_then: "(if b then x else y) = Some z \<Longrightarrow> (b \<Longrightarrow> x = Some z \<Longrightarrow> P) \<Longrightarrow> (y = Some z \<Longrightarrow> P) \<Longrightarrow> P"
  by (simp split: if_splits)

lemma plain_write_length: "plain_write cmd c = Some (chip, n, call, len) \<Longrightarrow> len = command_length cmd \<and> cmd \<noteq> 0x67 \<and> command_length cmd \<noteq> 0"
  unfolding plain_write_def Let_def by (elim Some_if_then disjE; clarsimp simp: command_length_def)

lemma paired_write_length:
  "paired_write cmd c = Some (chip, n, call, len) \<Longrightarrow> len = command_length cmd \<and> cmd \<noteq> 0x67 \<and> command_length cmd \<noteq> 0"
  unfolding paired_write_def Let_def by (elim Some_if_then disjE; clarsimp simp: command_length_def)

text \<open>\<open>moves data p t\<close>: the song is over, or the position is at the command that follows the one at \<open>p\<close>.\<close>

definition moves :: "u8 list \<Rightarrow> u32 \<Rightarrow> vgm \<Rightarrow> bool" where
  "moves data p t \<longleftrightarrow> VGMEnd t \<or> next_command data p = Some (VGMPos t)"

lemma movesI:
  assumes "byte_at data (unat p) = Ok c" "c \<noteq> 0x67" "command_length c \<noteq> 0" "VGMPos t = p + command_length c"
  shows "moves data p t"
  using assms by (simp add: moves_def next_command_def)

lemma length_moves:
  assumes "VGMPnt s 0 = Ok c" "c \<noteq> 0x67" "command_length c = n" "n \<noteq> 0" "post r (\<lambda>t. VGMPos t = VGMPos s + n)"
  shows "post r (moves (VGMData s) (VGMPos s))"
  by (rule post_mono[OF assms(5)], rule movesI) (use assms(1-4) in \<open>auto simp: VGMPnt_def\<close>)

text \<open>A command for the second chip is as long as the one for the first.\<close>

lemma second_chip_length:
  "second_chip h c = (cmd, d) \<Longrightarrow> command_length c = command_length cmd \<and> (c = 0x67 \<longleftrightarrow> cmd = 0x67)"
  unfolding second_chip_def second_clock_def by (auto simp: command_length_def split: if_splits)

lemma unknown_command_length:
  assumes "plain_write cmd c = None" "unknown_length cmd \<noteq> 0"
  shows "command_length cmd = unknown_length cmd" "cmd \<noteq> 0x67"
proof -
  have n: "cmd \<noteq> 0x4F" "cmd \<noteq> 0x50" using assms(1) by (auto simp: plain_write_def Let_def)
  have u: "unknown_length 0x94 = 0" "unknown_length 0x61 = 0" "unknown_length 0x62 = 0" "unknown_length 0x63 = 0" "unknown_length 0x68 = 0"
    "unknown_length 0x90 = 0" "unknown_length 0x91 = 0" "unknown_length 0x95 = 0" "unknown_length 0x92 = 0" "unknown_length 0x93 = 0"
    "unknown_length 0x67 = 0" by (simp_all add: unknown_length_def)
  then have o: "cmd \<notin> {0x94, 0x61, 0x62, 0x63, 0x68, 0x90, 0x91, 0x95, 0x92, 0x93, 0x67}" using assms(2) by auto
  then show "cmd \<noteq> 0x67" by simp
  have "cmd AND 0xF0 \<notin> {0x70, 0x80}" using assms(2) by (auto simp: unknown_length_def Let_def)
  then show "command_length cmd = unknown_length cmd" using n o by (simp add: command_length_def unknown_length_def Let_def)
qed

lemma command_moves:
  assumes "VGMPnt s 0 = Ok c" "second_chip h c = (cmd, d)"
  shows "post (command cmd d s) (moves (VGMData s) (VGMPos s))"
proof -
  have l: "command_length c = command_length cmd" "c = 0x67 \<longleftrightarrow> cmd = 0x67" using second_chip_length[OF assms(2)] by simp_all
  have by_length: "post r (moves (VGMData s) (VGMPos s))"
    if "cmd \<noteq> 0x67" "command_length cmd = n" "n \<noteq> 0" "post r (\<lambda>t. VGMPos t = VGMPos s + n)" for r n
    using length_moves[OF assms(1) _ _ that(3,4)] l that(1,2) by simp
  have by_write: "post (chip_write chip e n call len s) (moves (VGMData s) (VGMPos s))"
    if "plain_write cmd d = Some (chip, n, call, len) \<or> paired_write cmd e' = Some (chip, n, call, len)" for chip e e' n call len
    using that plain_write_length[of cmd d] paired_write_length[of cmd e'] by (intro by_length) (auto simp: chip_write_pos)
  show ?thesis
  proof (cases "plain_write cmd d")
    case (Some x)
    obtain chip n call len where x: "x = (chip, n, call, len)" by (cases x)
    then show ?thesis using Some by_write by (simp add: command_def)
  next
    case None
    have pair: "post (case paired_write cmd e of None \<Rightarrow> Ok s | Some (chip, n, call, len) \<Rightarrow> chip_write chip e n call len s)
        (moves (VGMData s) (VGMPos s))" if "paired_write cmd 0 \<noteq> None" for e
    proof (cases "paired_write cmd e")
      case None
      then have "paired_write cmd 0 = None" by (rule iffD1[OF paired_write_None])
      then show ?thesis using that by simp
    next
      case (Some x)
      obtain chip n call len where "x = (chip, n, call, len)" by (cases x)
      then show ?thesis using by_write[where e' = e and e = e] Some by simp
    qed
    have block: "post (data_block d s) (moves (VGMData s) (VGMPos s))" if "cmd = 0x67"
      by (rule post_mono[OF data_block_pos]) (use assms(1) l that in \<open>auto simp: moves_def next_command_def VGMPnt_def\<close>)
    show ?thesis
      unfolding command_def None option.case Let_def
    proof (intro post_if post_any_bind pair block)
      show "post (Ok (skip (unknown_length cmd) s)) (moves (VGMData s) (VGMPos s))" if "unknown_length cmd \<noteq> 0"
        using unknown_command_length[OF None that] that by (intro by_length) (simp_all add: skip_def)
      show "post (Ok (skip 5 (on_bank 0 (\<lambda>b. b\<lparr>DataPos := p\<rparr>) s))) (moves (VGMData s) (VGMPos s))" if "cmd = 0xE0" for p
        by (rule by_length) (simp_all add: that command_length_def skip_def on_bank_def)
    qed (auto intro!: by_length stream_command_pos simp: command_length_def skip_def on_bank_def moves_def)
  qed
qed

lemma nibble_cases:
  assumes "0x70 \<le> c \<and> c \<le> (0x8F :: u8)"
  shows "c AND 0xF0 = 0x70 \<or> c AND 0xF0 = 0x80"
proof -
  have "unat c \<in> set [0x70..<0x90]" using assms unfolding set_upt by (simp add: word_le_nat_alt)
  moreover have "list_all (\<lambda>n. (word_of_nat n :: u8) AND 0xF0 = 0x70 \<or> (word_of_nat n :: u8) AND 0xF0 = 0x80) [0x70..<0x90]" by code_simp
  ultimately have "(word_of_nat (unat c) :: u8) AND 0xF0 = 0x70 \<or> (word_of_nat (unat c) :: u8) AND 0xF0 = 0x80"
    unfolding list_all_iff by blast
  then show ?thesis by simp
qed

lemma vgm_step_next:
  assumes "lngLoopOffset (VGMHead s) = 0"
  shows "post (vgm_step n P s) (\<lambda>(P', t). moves (VGMData s) (VGMPos s) t)"
proof -
  have w: "moves (VGMData s) (VGMPos s) (skip k (wait m s))"
    if "VGMPnt s 0 = Ok c" "c \<noteq> 0x67" "command_length c = k" "k \<noteq> 0" for k m c
    using that by (intro movesI[of _ _ c]) (simp_all add: VGMPnt_def skip_def wait_def)
  have sw: "post (sample_wait c s) (moves (VGMData s) (VGMPos s))" if "VGMPnt s 0 = Ok c" "0x70 \<le> c \<and> c \<le> 0x8F" for c
  proof -
    have "c AND 0xF0 = 0x70 \<or> c AND 0xF0 = 0x80" using that(2) by (rule nibble_cases)
    moreover have "c \<notin> {0x4F, 0x50, 0x94, 0x61, 0x62, 0x63, 0x68, 0x90, 0x91, 0x95, 0x92, 0x93, 0x67}" using that(2) by auto
    ultimately have "command_length c = 1" "c \<noteq> 0x67" by (auto simp: command_length_def Let_def)
    then show ?thesis by (intro length_moves[OF that(1) _ _ _ stream_command_pos(9)]) simp_all
  qed
  have e: "moves (VGMData s) (VGMPos s) t" if "VGMEnd t" for t using that by (simp add: moves_def)
  have main: "post (if 0x70 \<le> c \<and> c \<le> 0x8F then bind_res (sample_wait c s) (\<lambda>s. Ok (P, s))
       else case second_chip (VGMHead s) c of (cmd, d) \<Rightarrow>
         if cmd = 0x66 then end_of_file n P s
         else if cmd = 0x62 then Ok (P, skip 1 (wait 735 s))
         else if cmd = 0x63 then Ok (P, skip 1 (wait 882 s))
         else if cmd = 0x61 then bind_res (pnt16 s 1) (\<lambda>m. Ok (P, skip 3 (wait (ucast m) s)))
         else bind_res (command cmd d s) (\<lambda>s. Ok (P, s))) (\<lambda>(P', t). moves (VGMData s) (VGMPos s) t)" if c: "VGMPnt s 0 = Ok c" for c
  proof -
    have one: "post (bind_res (sample_wait c s) (\<lambda>s. Ok (P, s))) (\<lambda>(P', t). moves (VGMData s) (VGMPos s) t)" if "0x70 \<le> c \<and> c \<le> 0x8F"
      by (rule post_bind[OF sw[OF c that]]) simp
    have other: "post (bind_res (command cmd d s) (\<lambda>s. Ok (P, s))) (\<lambda>(P', t). moves (VGMData s) (VGMPos s) t)"
      if "second_chip (VGMHead s) c = (cmd, d)" for cmd d
      by (rule post_bind[OF command_moves[OF c that]]) simp
    have fixed: "moves (VGMData s) (VGMPos s) (skip k (wait m s))"
      if "second_chip (VGMHead s) c = (cmd, d)" "cmd \<noteq> 0x67" "command_length cmd = k" "k \<noteq> 0" for cmd d k m
      using second_chip_length[OF that(1)] that(2-4) by (intro w[OF c]) auto
    have long: "post (bind_res (pnt16 s 1) (\<lambda>m. Ok (P, skip 3 (wait (ucast m) s)))) (\<lambda>(P', t). moves (VGMData s) (VGMPos s) t)"
      if "second_chip (VGMHead s) c = (0x61, d)" for d
      by (rule post_bind_any) (use fixed[OF that] in \<open>simp add: command_length_def\<close>)
    show ?thesis
      by (intro post_if post_case_prod one other long post_mono[OF end_of_file_moved[OF assms]] post_Ok_I)
        (auto intro: e fixed simp: command_length_def)
  qed
  show ?thesis
    unfolding vgm_step_def
    by (rule post_bind_any, rule post_bind, erule main, rule post_case_prod, rule post_Ok_I) (auto simp: moves_def)
qed

section \<open>A file without a loop comes to an end\<close>

text \<open>
  \<open>command_at data st p\<close>: a command of the music that starts at \<open>st\<close> is at \<open>p\<close>. \<open>empty_values data p\<close>: a
  packed data block is at \<open>p\<close> whose values are zero bits wide, in the file and unpacked: the code unpacks such a block for ever
  (\<open>empty_values_never_return\<close>; \<^verbatim>\<open>while(InPos < InPosEnd && OutBytes > 0)\<close> in \<^verbatim>\<open>DecompressDataBlk\<close>).
\<close>

inductive command_at :: "u8 list \<Rightarrow> u32 \<Rightarrow> u32 \<Rightarrow> bool" for data st where
  first_command: "command_at data st st"
| later_command: "command_at data st p \<Longrightarrow> next_command data p = Some q \<Longrightarrow> command_at data st q"

definition empty_values :: "u8 list \<Rightarrow> nat \<Rightarrow> bool" where
  "empty_values data p \<longleftrightarrow> byte_at data p = Ok 0x67 \<and>
     (case byte_at data (p + 2) of Ok t \<Rightarrow> t AND 0xC0 = 0x40 \<and> t \<noteq> 0x7F | Fail _ \<Rightarrow> False) \<and>
     byte_at data (p + 12) = Ok 0 \<and> byte_at data (p + 13) = Ok 0"

definition blocks_ok :: "u32 \<Rightarrow> u8 list \<Rightarrow> bool" where
  "blocks_ok st data \<longleftrightarrow> (\<forall>p. command_at data st p \<longrightarrow> \<not> empty_values data (unat p))"

lemma command_at_later: "command_at data st p \<Longrightarrow> command_at data p q \<Longrightarrow> command_at data st q"
  by (rotate_tac 1, induction rule: command_at.induct) (auto intro: later_command)

lemma blocks_ok_later: "blocks_ok st data \<Longrightarrow> command_at data st p \<Longrightarrow> blocks_ok p data"
  by (auto simp: blocks_ok_def intro: command_at_later)

text \<open>To check a file it is enough to list its commands.\<close>

lemma listed_commands:
  assumes "st \<in> set ps" "list_all (\<lambda>p. \<not> empty_values data (unat p) \<and> (case next_command data p of None \<Rightarrow> True | Some q \<Rightarrow> q \<in> set ps)) ps"
  shows "blocks_ok st data"
proof -
  have "p \<in> set ps" if "command_at data st p" for p
    using that by induction (use assms in \<open>fastforce simp: list_all_iff\<close>)+
  then show ?thesis using assms(2) by (auto simp: blocks_ok_def list_all_iff)
qed

lemma returns_reads [simp]:
  "returns (byte_at d p)" "returns (ReadLE16 d p)" "returns (ReadBE16 d p)" "returns (ReadLE24 d p)" "returns (ReadLE32 d p)"
  "returns (VGMPnt s k)" "returns (pnt16 s k)" "returns (pnt24 s k)" "returns (pnt32 s k)"
  by (auto simp: byte_at_def ReadLE16_def ReadBE16_def ReadLE24_def ReadLE32_def VGMPnt_def pnt16_def pnt24_def pnt32_def
      intro!: returns_bind)

lemma operands_returns [simp]: "returns (operands s n)"
  by (induction n) (auto intro!: returns_bind)

lemmas returns_rules = returns_bind returns_if returns_case_option returns_case_prod returns_let

lemma chip_write_returns [simp]: "returns (chip_write ch c n f l s)"
  unfolding chip_write_def by (intro returns_rules) simp_all

lemma GetDAC_returns [simp]: "returns (GetDACFromPCMBank b)"
  unfolding GetDACFromPCMBank_def by (intro returns_rules) simp_all

lemma start_dac_returns [simp]: "returns (start_dac i p m l s)"
  unfolding start_dac_def daccontrol_start_def commands_for_def Let_def by (intro returns_rules) simp_all

lemma stream_commands_return [simp]:
  "returns (setup_stream s)" "returns (set_stream_data s)" "returns (set_stream_frequency s)"
  "returns (start_stream s)" "returns (stop_stream s)" "returns (play_block s)" "returns (pcm_ram_write s)" "returns (sega_pcm_write s)"
  "returns (sample_wait cmd s)"
  unfolding setup_stream_def set_stream_data_def set_stream_frequency_def start_stream_def stop_stream_def play_block_def
    pcm_ram_write_def sega_pcm_write_def sample_wait_def Let_def
  by (intro returns_rules; simp)+

lemma byte_at_drop: "byte_at (drop n d) k = byte_at d (n + k)"
  by (cases "n + k < length d") (auto simp: byte_at_def require_def)


lemma AddPCMData_returns:
  assumes "Type AND 0xC0 = 0x40 \<and> Type \<noteq> 0x7F \<Longrightarrow> \<not> (byte_at data 5 = Ok 0 \<and> byte_at data 6 = Ok 0)" "Type AND 0xC0 = 0 \<or> Type AND 0xC0 = 0x40"
  shows "returns (AddPCMData Type n data s)"
proof -
  have "returns (ReadPCMTable data p)" for p
    unfolding ReadPCMTable_def Let_def by (intro returns_rules) simp_all
  moreover have "returns (add_block fresh tbl Type n data b)" if "Type \<noteq> 0x7F" for fresh tbl b
  proof (cases "Type AND 0x40 = 0")
    case False
    have "Type AND 0x40 = (Type AND 0xC0) AND 0x40" by (simp add: and.assoc)
    then have "Type AND 0xC0 = 0x40" using assms(2) False by auto
    then have packed: "\<not> (byte_at data 5 = Ok 0 \<and> byte_at data 6 = Ok 0)" using assms(1) that by simp
    show ?thesis unfolding add_block_def fill_block_def Let_def by (intro returns_rules DecompressDataBlk_returns[OF packed]) simp_all
  qed (auto simp: add_block_def fill_block_def Let_def intro!: returns_rules)
  ultimately show ?thesis
    unfolding AddPCMData_def Let_def by (intro returns_rules) simp_all
qed

lemma data_block_returns:
  assumes "\<not> empty_values (VGMData s) (unat (VGMPos s))" "VGMPnt s 0 = Ok 0x67"
  shows "returns (data_block c s)"
proof -
  have "returns (AddPCMData t n (pnt_from s 7) s)" if "VGMPnt s 2 = Ok t" "t AND 0xC0 = 0 \<or> t AND 0xC0 = 0x40" for t n
    by (rule AddPCMData_returns[OF _ that(2)])
      (use assms that in \<open>auto simp: empty_values_def VGMPnt_def pnt_from_def byte_at_drop ac_simps\<close>)
  then show ?thesis
    unfolding data_block_def Let_def by (intro returns_rules) simp_all
qed

lemma second_chip_data: "second_chip h c = (0x67, d) \<Longrightarrow> c = 0x67"
  using second_chip_length by blast

lemma vgm_step_returns:
  assumes "lngLoopOffset (VGMHead s) = 0" "\<not> empty_values (VGMData s) (unat (VGMPos s))"
  shows "returns (vgm_step n P s)"
proof -
  have c: "returns (command cmd d s)" if "second_chip (VGMHead s) c = (cmd, d)" "VGMPnt s 0 = Ok c" for cmd c d
    unfolding command_def Let_def
    by (intro returns_rules data_block_returns assms(2)) (use that second_chip_data in auto)
  have "returns (end_of_file n P s)" using assms(1) by (simp add: end_of_file_def Let_def)
  then show ?thesis
    unfolding vgm_step_def by (intro returns_rules c) simp_all
qed

lemma clock_eq:
  assumes "clock t = clock s"
  shows "VGMSmplPlayed t = VGMSmplPlayed s" "VGMSmplRateMul t = VGMSmplRateMul s" "VGMSmplRateDiv t = VGMSmplRateDiv s"
    "PausePlay t = PausePlay s" "ForceVGMExec t = ForceVGMExec s" "VGMData t = VGMData s"
    "lngLoopOffset (VGMHead t) = lngLoopOffset (VGMHead s)" "lngEOFOffset (VGMHead t) = lngEOFOffset (VGMHead s)"
    "lngDataOffset (VGMHead t) = lngDataOffset (VGMHead s)"
  using assms by (simp_all add: clock_def)

lemma moved_inside:
  assumes "ahead s t" "\<not> VGMEnd t" "VGMPos s \<le> lngEOFOffset (VGMHead s)" "lngEOFOffset (VGMHead s) \<le> 0x7FFFFFF9"
  shows "unat (VGMPos s) < unat (VGMPos t)"
proof -
  obtain n where n: "VGMPos t = VGMPos s + n" "1 \<le> n" "n \<le> 0x80000006" using assms(1,2) by (auto simp: ahead_def)
  have "unat (VGMPos s) \<le> 0x7FFFFFF9" using assms(3,4) by (simp add: word_le_nat_alt)
  moreover have "1 \<le> unat n" "unat n \<le> 0x80000006" using n(2,3) by (simp_all add: word_le_nat_alt)
  ultimately show ?thesis unfolding n(1) by (simp add: unat_word_ariths)
qed

lemma moved_clock: "ahead s t \<Longrightarrow> clock t = clock s"
  by (simp add: ahead_def)


text \<open>After a call the song is over, or a command of the music or the end of the file is next.\<close>

lemma vgm_loop_ends:
  assumes "lngLoopOffset (VGMHead s) = 0" "lngEOFOffset (VGMHead s) \<le> 0x7FFFFFF9" "blocks_ok (VGMPos s) (VGMData s)"
    "VGMPos s \<le> lngEOFOffset (VGMHead s)" "unat (lngEOFOffset (VGMHead s)) - unat (VGMPos s) < k"
  shows "ends (vgm_loop k n T s) (\<lambda>t. (VGMEnd t \<or> (T <s VGMSmplPos t \<and> command_at (VGMData s) (VGMPos s) (VGMPos t) \<and>
    VGMPos t \<le> lngEOFOffset (VGMHead s))) \<and> clock t = clock s)"
  using assms
proof (induction k arbitrary: s)
  case (Suc k)
  have here: "\<not> empty_values (VGMData s) (unat (VGMPos s))"
    using Suc.prems(3) by (auto simp: blocks_ok_def intro: first_command)
  have step: "ends (vgm_step n T s) (\<lambda>(P, t). P = T \<and> ahead s t \<and> moves (VGMData s) (VGMPos s) t \<and>
      (lngEOFOffset (VGMHead s) \<le> VGMPos t \<longrightarrow> VGMEnd t))"
    using vgm_step_returns[OF Suc.prems(1) here] vgm_step_moved[OF Suc.prems(1), of n T] vgm_step_next[OF Suc.prems(1), of n T]
    by (auto simp: ends_def returns_def post_def)
  have rest: "ends (if VGMEnd t then Ok t else vgm_loop k n T t) (\<lambda>u. (VGMEnd u \<or>
      (T <s VGMSmplPos u \<and> command_at (VGMData s) (VGMPos s) (VGMPos u) \<and> VGMPos u \<le> lngEOFOffset (VGMHead s))) \<and> clock u = clock s)"
    if m: "ahead s t" "moves (VGMData s) (VGMPos s) t" and e: "lngEOFOffset (VGMHead s) \<le> VGMPos t \<longrightarrow> VGMEnd t" for t
  proof (cases "VGMEnd t")
    case False
    have c: "clock t = clock s" using m by (simp add: ahead_def)
    have "VGMPos t < lngEOFOffset (VGMHead s)" using e False by (simp add: not_le)
    then have "unat (VGMPos t) < unat (lngEOFOffset (VGMHead s))" by (simp add: word_less_nat_alt)
    have on: "unat (VGMPos s) < unat (VGMPos t)" by (rule moved_inside[OF m(1) False Suc.prems(4,2)])
    then have "unat (lngEOFOffset (VGMHead s)) - unat (VGMPos t) < k"
      using \<open>unat (VGMPos t) < _\<close> Suc.prems(5) by arith
    moreover have "VGMPos t \<le> lngEOFOffset (VGMHead s)" using e False by simp
    moreover have at: "command_at (VGMData s) (VGMPos s) (VGMPos t)"
      using m(2) False by (auto simp: moves_def intro: later_command first_command)
    moreover have "blocks_ok (VGMPos t) (VGMData t)" using blocks_ok_later[OF Suc.prems(3) at] clock_eq[OF c] by simp
    ultimately have "ends (vgm_loop k n T t) (\<lambda>u. (VGMEnd u \<or> (T <s VGMSmplPos u \<and> command_at (VGMData s) (VGMPos t) (VGMPos u) \<and>
        VGMPos u \<le> lngEOFOffset (VGMHead s))) \<and> clock u = clock s)"
      using Suc.IH[of t] Suc.prems(1,2) by (simp_all add: clock_eq[OF c] c)
    then show ?thesis using False by (auto elim!: ends_mono intro: command_at_later[OF at])
  qed (use m in \<open>simp add: ahead_def\<close>)
  show ?case
    by (simp only: vgm_loop.simps, rule ends_if, rule ends_bind, rule step)
      (use Suc.prems(4) in \<open>auto simp: rest first_command dest: moved_clock split del: if_split\<close>)
qed simp

text \<open>C25: a file without a loop comes to its end: with as many rounds as bytes are left, and one more, the interpreter is not cut off. If no
  command reads or writes outside the buffers, it returns a state, and then the song has ended, or everything up to the time asked for has
  been interpreted and the position is at one of the commands of the file, each of which has the length its first byte says. No field of the
  clock has changed. The file is shorter than two gigabytes, and none of its commands is a packed data block of zero-bit values, on which the
  code never returns; a loop of no samples is why files with a loop are left out.\<close>
theorem InterpretVGM_ends:
  assumes "lngLoopOffset (VGMHead s) = 0" "lngEOFOffset (VGMHead s) \<le> 0x7FFFFFF9" "blocks_ok (VGMPos s) (VGMData s)"
    "VGMPos s \<le> lngEOFOffset (VGMHead s)" "unat (lngEOFOffset (VGMHead s)) - unat (VGMPos s) < k"
    "\<not> PausePlay s \<or> ForceVGMExec s" "SamplePbk2VGM_I s (VGMSmplPlayed s + n) = Ok T"
  shows "ends (InterpretVGM k n s) (\<lambda>t. (VGMEnd t \<or> (T <s VGMSmplPos t \<and> command_at (VGMData s) (VGMPos s) (VGMPos t))) \<and>
    clock t = clock s)"
  using vgm_loop_ends[OF assms(1-5), of n T] assms(6,7)
  by (auto simp: InterpretVGM_def first_command elim!: ends_mono)

section \<open>Playing is incremental\<close>

lemma vgm_loop_more_fuel: "vgm_loop k n T s = Ok t \<Longrightarrow> vgm_loop (k + j) n T s = Ok t"
proof (induction k arbitrary: T s)
  case (Suc k)
  show ?case
  proof (cases "VGMSmplPos s \<le>s T")
    case True
    then obtain P u where u: "vgm_step n T s = Ok (P, u)" using Suc.prems by (auto elim: bind_res_OkE)
    then show ?thesis using Suc True by auto
  qed (use Suc.prems in simp)
qed simp

text \<open>Without a loop, neither of the two numbers of a round counts.\<close>

lemma vgm_step_time:
  assumes "lngLoopOffset (VGMHead s) = 0" "vgm_step a T s = Ok (P, t)"
  shows "P = T" "vgm_step b U s = Ok (U, t)" "clock t = clock s"
proof -
  have e: "end_of_file b U s = bind_res (end_of_file a T s) (\<lambda>(_, t). Ok (U, t))"
    using assms(1) by (simp add: end_of_file_def Let_def)
  have f: "bind_res (bind_res m (\<lambda>s. Ok (U, s))) f = bind_res (bind_res m (\<lambda>s. Ok (T, s))) (\<lambda>(_, s). f (U, s))" for m :: "vgm res" and f :: "s32 \<times> vgm \<Rightarrow> (s32 \<times> vgm) res"
    by (cases m) simp_all
  have "vgm_step b U s = bind_res (vgm_step a T s) (\<lambda>(_, t). Ok (U, t))"
    unfolding vgm_step_def e
    by (auto simp: bind_res_assoc split: prod.splits intro!: arg_cong[where f = "bind_res _"] ext)
  then show "vgm_step b U s = Ok (U, t)" using assms(2) by simp
  show "P = T" "clock t = clock s" using vgm_step_moved[OF assms(1), of a T] assms(2) by (auto simp: post_def ahead_def)
qed

lemma vgm_loop_clock: "vgm_loop k a T s = Ok t \<Longrightarrow> lngLoopOffset (VGMHead s) = 0 \<Longrightarrow> clock t = clock s"
proof (induction k arbitrary: T s)
  case (Suc k)
  show ?case
  proof (cases "VGMSmplPos s \<le>s T")
    case True
    then obtain P v where v: "vgm_step a T s = Ok (P, v)" using Suc.prems by (auto elim: bind_res_OkE)
    note w = vgm_step_time[OF Suc.prems(2) v]
    have "lngLoopOffset (VGMHead v) = 0" using clock_eq(7)[OF w(3)] Suc.prems(2) by simp
    then show ?thesis using Suc.IH[of T v] Suc.prems True v w by (auto split: if_splits)
  qed (use Suc.prems in simp)
qed simp

lemma vgm_loop_split:
  assumes "lngLoopOffset (VGMHead s) = 0" "T \<le>s U" "\<not> VGMEnd s" "vgm_loop k a T s = Ok t"
  shows "if VGMEnd t then vgm_loop (k + j) b U s = Ok t else vgm_loop j b U t = Ok u \<longrightarrow> vgm_loop (k + j) b U s = Ok u"
  using assms
proof (induction k arbitrary: s)
  case (Suc k)
  note * = Suc.prems
  show ?case
  proof (cases "VGMSmplPos s \<le>s T")
    case True
    then have U: "VGMSmplPos s \<le>s U" using *(2) by (rule signed.order_trans)
    obtain P v where v: "vgm_step a T s = Ok (P, v)" using *(4) True by (auto elim: bind_res_OkE)
    note w = vgm_step_time[OF *(1) v]
    have "lngLoopOffset (VGMHead v) = 0" using clock_eq(7)[OF w(3)] *(1) by simp
    then show ?thesis using Suc.IH[of v] *(2,4) True U v w(1) w(2)[of b U] by (auto split: if_splits)
  next
    case False
    then have "t = s" using *(4) by simp
    then show ?thesis using *(3) vgm_loop_more_fuel[of j b U s u "Suc k"] by (simp add: add.commute[of j])
  qed
qed simp_all

text \<open>C20: playing is incremental: interpreting a file without a loop up to one time, and what is left up to a later one, does to the
  chips, the streams and the banks what interpreting it up to the later time in one go does.\<close>
theorem InterpretVGM_incremental:
  assumes "lngLoopOffset (VGMHead s) = 0" "SamplePbk2VGM_I s (VGMSmplPlayed s + a) = Ok T" "SamplePbk2VGM_I s (VGMSmplPlayed s + b) = Ok U"
    "T \<le>s U" "InterpretVGM k a s = Ok t" "InterpretVGM j b t = Ok u"
  shows "InterpretVGM (k + j) b s = Ok u"
proof (cases "VGMEnd s \<or> (PausePlay s \<and> \<not> ForceVGMExec s)")
  case True
  then show ?thesis using assms(5,6) by (auto simp: InterpretVGM_def split: if_splits)
next
  case False
  then have k: "vgm_loop k a T s = Ok t" using assms(2,5) by (auto simp: InterpretVGM_def split: if_splits)
  have c: "clock t = clock s"
    using k assms(1) vgm_loop_clock by blast
  have "SamplePbk2VGM_I t (VGMSmplPlayed t + b) = Ok U"
    using assms(3) by (simp add: SamplePbk2VGM_I_def clock_eq[OF c])
  then have "if VGMEnd t then t = u else vgm_loop j b U t = Ok u"
    using assms(6) False by (auto simp: InterpretVGM_def clock_eq[OF c] split: if_splits)
  then have "vgm_loop (k + j) b U s = Ok u"
    using vgm_loop_split[OF assms(1,4) _ k, of j b u] False by (auto split: if_splits)
  then show ?thesis using False assms(3) by (auto simp: InterpretVGM_def)
qed

section \<open>Witnesses\<close>

text \<open>A file with a data block, a stream of its three bytes to the first YM2612, and a wait of two samples.\<close>

definition example_file :: "u8 list" where
  "example_file = [0x67, 0x66, 0, 3, 0, 0, 0, 0x11, 0x22, 0x33, 0x90, 0, 0x02, 0, 0x2A, 0x91, 0, 0, 1, 0, 0x92, 0, 0x44, 0xAC, 0, 0,
     0x93, 0, 0, 0, 0, 0, 1, 3, 0, 0, 0, 0x61, 2, 0, 0x66]"

definition example_vgm :: vgm where
  "example_vgm = \<lparr>VGMHead = \<lparr>lngEOFOffset = 41, lngVersion = 0x160, lngHzPSG = 0, lngHzYM2413 = 0, lngTotalSamples = 2, lngLoopOffset = 0,
       lngLoopSamples = 0, lngRate = 0, lngHzYM2612 = 7670454, lngHzYM2151 = 0, lngDataOffset = 0, lngHzYM2203 = 0, lngHzYM2608 = 0,
       lngHzYM2610 = 0, lngHzYM3812 = 0, lngHzYM3526 = 0, lngHzY8950 = 0, lngHzYMF262 = 0, lngHzYMZ280B = 0, bytLoopBase = 0,
       bytLoopModifier = 0x10\<rparr>,
     VGMData = example_file, VGMPos = 0, VGMSmplPos = 0, VGMSmplPlayed = 0, VGMSmplRateMul = 1, VGMSmplRateDiv = 1, VGMCurLoop = 0,
     VGMMaxLoopM = 0, VGMEnd = False, EndPlay = False, PausePlay = False, ForceVGMExec = False, FadePlay = False, FadeTime = 5000,
     FadeStart = 0, HardStopOldVGMs = 0, PlayingMode = 0, PlayingTime = 0, PauseTime = 0, PauseSmpls = 0, SampleRate = 44100,
     VGMMaxLoop = 2, VGMPbRate = 0,
     PCMBank = replicate PCM_BANK_COUNT \<lparr>BankCount = 0, Bank = [], bank_DataSize = 0, bank_Data = [], DataPos = 0, BnkPos = 0\<rparr>,
     PCMTbl = no_table, DacCtrlUsg = [], DacCtrl = \<lambda>_. \<lparr>Enable = False, dac_Bank = 0\<rparr>,
     DACData = \<lambda>_. \<lparr>DstChipType = 0, DstChipID = 0, DstCommand = 0, CmdSize = 0, Frequency = 0, DataLen = 0, Data = None, DataStart = 0,
       StepSize = 0, StepBase = 0, CmdsToSend = 0, Running = 0, Reverse = 0, Step = 0, Pos = 0, RemainCmds = 0, RealPos = 0, DataStep = 0\<rparr>,
     Last95Drum = 0xFFFF, Last95Max = 0xFFFF, Last95Freq = 0, ChipAudio = \<lambda>_ _. True, chip_calls = [], new_memory = \<lambda>_. 0,
     read_c6280 = \<lambda>_ _ _. 0\<rparr>"

definition is_Ok :: "'a res \<Rightarrow> bool" where
  "is_Ok r = (case r of Ok _ \<Rightarrow> True | Fail _ \<Rightarrow> False)"

lemma is_OkE: "is_Ok r \<Longrightarrow> (\<And>x. r = Ok x \<Longrightarrow> P) \<Longrightarrow> P"
  by (cases r) (auto simp: is_Ok_def)

lemma example_file_ok: "blocks_ok 0 example_file"
  by (rule listed_commands[of _ "[0, 10, 15, 20, 26, 37, 40]"]) (simp, code_simp)

lemma example_time: "SamplePbk2VGM_I example_vgm (VGMSmplPlayed example_vgm + 0) = Ok 0"
    "SamplePbk2VGM_I example_vgm (VGMSmplPlayed example_vgm + 3) = Ok 3"
  by code_simp+

lemma example_runs: "is_Ok (InterpretVGM 42 3 example_vgm)" "is_Ok (bind_res (InterpretVGM 42 0 example_vgm) (InterpretVGM 42 3))"
  by code_simp+

theorem InterpretVGM_ends_witness:
  "\<exists>t. InterpretVGM 42 3 example_vgm = Ok t \<and>
    (VGMEnd t \<or> (3 <s VGMSmplPos t \<and> command_at example_file 0 (VGMPos t))) \<and> clock t = clock example_vgm"
proof -
  have f: "VGMData example_vgm = example_file" "VGMPos example_vgm = 0" by (simp_all add: example_vgm_def)
  have "ends (InterpretVGM 42 3 example_vgm) (\<lambda>t. (VGMEnd t \<or> (3 <s VGMSmplPos t \<and> command_at (VGMData example_vgm) (VGMPos example_vgm) (VGMPos t))) \<and>
      clock t = clock example_vgm)"
    using InterpretVGM_ends[of example_vgm 42 3 3] example_file_ok example_time(2) by (simp add: example_vgm_def)
  moreover obtain t where "InterpretVGM 42 3 example_vgm = Ok t" using example_runs(1) by (rule is_OkE)
  ultimately show ?thesis by (simp add: f)
qed

theorem InterpretVGM_incremental_witness:
  "\<exists>t u. InterpretVGM 42 0 example_vgm = Ok t \<and> InterpretVGM 42 3 t = Ok u \<and> InterpretVGM 84 3 example_vgm = Ok u"
proof -
  obtain t u where *: "InterpretVGM 42 0 example_vgm = Ok t" "InterpretVGM 42 3 t = Ok u"
    using example_runs(2) by (auto elim!: is_OkE bind_res_OkE)
  have "lngLoopOffset (VGMHead example_vgm) = 0" "(0 :: s32) \<le>s 3" by (simp_all add: example_vgm_def word_sle_eq)
  then have "InterpretVGM (42 + 42) 3 example_vgm = Ok u"
    using InterpretVGM_incremental[OF _ example_time _ *] by blast
  then show ?thesis using * by auto
qed

end
