(* ===== verification/VgmStreams.thy ===== *)
theory VgmStreams
  imports VgmLaws
begin

text \<open>
  No stream of the VGM player reads a buffer that is gone: whenever a data block has moved a bank, the streams on that bank have been
  pointed to the new buffer. In the model a stream holds the bytes its pointer led to when it was set; \<open>no_stale\<close> says that
  those are the bytes of its bank. First the stream operations, then the commands, then the calls of the application.
\<close>

section \<open>The streams\<close>

text \<open>\<open>dac_fits b d\<close>: the stream has no data or all data of the bank, and has been started.\<close>

definition dac_fits :: "VGM_PCM_BANK \<Rightarrow> dac_control \<Rightarrow> bool" where
  "dac_fits b d \<longleftrightarrow> Running d AND 0x80 = 0 \<and>
     ((Data d, DataLen d) = (None, 0) \<or> (Data d, DataLen d) = (Some (bank_Data b), bank_DataSize b))"

definition no_stale :: "vgm \<Rightarrow> bool" where
  "no_stale s \<longleftrightarrow> length (PCMBank s) = PCM_BANK_COUNT \<and> (\<forall>i. Enable (DacCtrl s i) \<longrightarrow> i \<in> set (DacCtrlUsg s)) \<and>
     (\<forall>i. unat (dac_Bank (DacCtrl s i)) < PCM_BANK_COUNT) \<and>
     (\<forall>i \<in> set (DacCtrlUsg s). dac_fits (PCMBank s ! unat (dac_Bank (DacCtrl s i))) (DACData s i))"

definition same_source :: "dac_control \<Rightarrow> dac_control \<Rightarrow> bool" where
  "same_source d e \<longleftrightarrow> Data e = Data d \<and> DataLen e = DataLen d \<and> Running e AND 0x80 = Running d AND 0x80"

lemma same_source_fits: "same_source d e \<Longrightarrow> dac_fits b d \<Longrightarrow> dac_fits b e"
  by (simp add: same_source_def dac_fits_def)

lemma same_source_refl [simp]: "same_source d d"
  by (simp add: same_source_def)

lemma same_source_trans: "same_source c d \<Longrightarrow> same_source d e \<Longrightarrow> same_source c e"
  by (simp add: same_source_def)

lemma bit7_kept [simp]:
  "(r OR 0x10) AND 0x80 = r AND (0x80 :: u8)" "(r AND - 17) AND 0x80 = r AND (0x80 :: u8)"
  "(r AND - 5) AND 0x80 = r AND (0x80 :: u8)" "(r AND - 2) AND 0x80 = r AND (0x80 :: u8)"
  "(r OR 0x04) AND 0x80 = r AND (0x80 :: u8)" "(r OR 0x01) AND 0x80 = r AND (0x80 :: u8)"
  by (simp_all add: bit.conj_disj_distrib2 and.assoc)

lemma same_source_simps [simp]:
  "same_source d (next_pos e) = same_source d e" "same_source d (loop_back e) = same_source d e"
  "same_source d (e\<lparr>RemainCmds := n\<rparr>) = same_source d e" "same_source d (e\<lparr>Step := n\<rparr>) = same_source d e"
  "same_source d (begin_stream m n e) = same_source d e" "same_source d (e\<lparr>DataStart := n\<rparr>) = same_source d e"
  "same_source d (daccontrol_setup_chip t c w e) = same_source d e" "same_source d (daccontrol_set_frequency f e) = same_source d e"
  "same_source d (daccontrol_stop e) = same_source d e"
  by (auto simp: same_source_def next_pos_def loop_back_def begin_stream_def daccontrol_setup_chip_def daccontrol_set_frequency_def
      daccontrol_stop_def Let_def)

lemma same_source_Running [simp]:
  "r AND 0x80 = Running e AND 0x80 \<Longrightarrow> same_source d (e\<lparr>Running := r\<rparr>) = same_source d e"
  by (simp add: same_source_def)

lemma Running_next_pos [simp]: "Running (next_pos c) = Running c"
  by (simp add: next_pos_def)

lemma SendCommand_source: "same_source d (fst s) \<Longrightarrow> post (daccontrol_SendCommand r s) (\<lambda>s. same_source d (fst s))"
  unfolding daccontrol_SendCommand_def by (intro post_case_prod post_if post_bind_any post_Ok_I) simp_all

lemma skip_loop_source: "same_source d (skip_loop n p e) = same_source d e"
  by (induction n arbitrary: e) simp_all

lemma send_loop_source: "same_source d (fst s) \<Longrightarrow> post (send_loop n r p s) (\<lambda>s. same_source d (fst s))"
proof (induction n arbitrary: s)
  case (Suc n)
  show ?case
    by (simp only: send_loop.simps, intro post_if post_bind[OF SendCommand_source[OF Suc.prems]] post_case_prod Suc.IH post_Ok_I)
      (use Suc.prems in simp_all)
qed simp

lemma update_source: "post (daccontrol_update rate r n (d, calls)) (\<lambda>(e, cs). same_source d e)"
proof -
  have skip: "post (if b then bind_res m (\<lambda>p. Ok (skip_loop k p d)) else Ok d) (same_source d)" for b m k
    by (intro post_if post_bind_any post_Ok_I) (simp_all add: skip_loop_source)
  have send: "post (daccontrol_SendCommand r (e\<lparr>Step := w\<rparr>, calls)) (\<lambda>s. same_source d (fst s))" if "same_source d e" for e w
    by (rule SendCommand_source) (simp add: that)
  show ?thesis
    unfolding daccontrol_update_def Let_def prod.case
    by (intro post_if post_bind[OF skip] post_bind_any[of "muldiv64round _ _ _"] post_bind[OF send] post_bind[OF send_loop_source]
        post_case_prod post_Ok_I) (auto split: if_splits)
qed

lemma start_source: "post (daccontrol_start p m l d) (same_source d)"
  unfolding daccontrol_start_def Let_def by (intro post_if post_bind_any post_Ok_I) simp_all

section \<open>Steps that keep the sources\<close>

lemma no_stale_cong:
  "PCMBank t = PCMBank s \<Longrightarrow> DacCtrl t = DacCtrl s \<Longrightarrow> DacCtrlUsg t = DacCtrlUsg s \<Longrightarrow> DACData t = DACData s \<Longrightarrow>
    no_stale t \<longleftrightarrow> no_stale s"
  by (simp add: no_stale_def)

lemma no_stale_fields [simp]:
  "no_stale (emit c s) = no_stale s" "no_stale (skip n s) = no_stale s" "no_stale (wait n s) = no_stale s"
  "no_stale (s\<lparr>PCMTbl := a\<rparr>) = no_stale s" "no_stale (s\<lparr>Last95Max := w\<rparr>) = no_stale s" "no_stale (s\<lparr>Last95Drum := w\<rparr>) = no_stale s"
  "no_stale (s\<lparr>Last95Freq := v\<rparr>) = no_stale s" "no_stale (s\<lparr>VGMEnd := e\<rparr>) = no_stale s" "no_stale (s\<lparr>EndPlay := e\<rparr>) = no_stale s"
  "no_stale (s\<lparr>VGMHead := h\<rparr>) = no_stale s" "no_stale (s\<lparr>VGMPos := v\<rparr>) = no_stale s" "no_stale (s\<lparr>VGMSmplPos := q\<rparr>) = no_stale s"
  "no_stale (s\<lparr>VGMSmplPlayed := q\<rparr>) = no_stale s" "no_stale (s\<lparr>VGMCurLoop := v\<rparr>) = no_stale s"
  "no_stale (s\<lparr>FadeStart := v\<rparr>) = no_stale s" "no_stale (s\<lparr>FadePlay := e\<rparr>) = no_stale s" "no_stale (s\<lparr>PlayingTime := v\<rparr>) = no_stale s"
  "no_stale (s\<lparr>ForceVGMExec := e\<rparr>) = no_stale s" "no_stale (s\<lparr>PausePlay := e\<rparr>) = no_stale s" "no_stale (s\<lparr>chip_calls := cs\<rparr>) = no_stale s"
  "no_stale (s\<lparr>PauseSmpls := v\<rparr>) = no_stale s" "no_stale (s\<lparr>PauseSmpls := v\<rparr>) = no_stale s"
  by (rule no_stale_cong; simp add: emit_def skip_def wait_def)+

lemma on_dac_stale: "no_stale s \<Longrightarrow> (i \<in> set (DacCtrlUsg s) \<Longrightarrow> same_source (DACData s i) (f (DACData s i))) \<Longrightarrow> no_stale (on_dac i f s)"
  by (auto simp: no_stale_def on_dac_def intro: same_source_fits)

lemma bank_fits: "dac_fits (b\<lparr>DataPos := p\<rparr>) d = dac_fits b d" "dac_fits (b\<lparr>BnkPos := n\<rparr>) d = dac_fits b d"
  by (simp_all add: dac_fits_def)

lemma on_bank_stale:
  assumes "no_stale s" "\<And>d. dac_fits (f (PCMBank s ! j)) d = dac_fits (PCMBank s ! j) d"
  shows "no_stale (on_bank j f s)"
proof -
  have "dac_fits ((PCMBank s)[j := f (PCMBank s ! j)] ! k) d = dac_fits (PCMBank s ! k) d" if "k < length (PCMBank s)" for k d
    using that assms(2) by (cases "j = k") simp_all
  then show ?thesis using assms(1) by (simp add: no_stale_def on_bank_def)
qed

lemma reset_dac_fits: "dac_fits b (device_reset_daccontrol d)"
  by (simp add: dac_fits_def device_reset_daccontrol_def)

text \<open>A fold over streams: what it does to each.\<close>

lemma fold_on_dac:
  assumes "\<And>d. f (f d) = f d"
  shows "fold (\<lambda>i s. if P (DacCtrl s i) then on_dac i f s else s) xs s =
    s\<lparr>DACData := \<lambda>i. if i \<in> set xs \<and> P (DacCtrl s i) then f (DACData s i) else DACData s i\<rparr>"
proof (induction xs arbitrary: s)
  case (Cons x xs)
  show ?case by (simp add: Cons.IH on_dac_def fun_eq_iff assms)
qed simp

lemma reset_chips_stale: "no_stale s \<Longrightarrow> no_stale (reset_chips s)"
proof -
  have "fold (\<lambda>i. on_dac i device_reset_daccontrol) xs s =
      fold (\<lambda>i s. if True then on_dac i device_reset_daccontrol s else s) xs s" for xs s by simp
  then show "no_stale s \<Longrightarrow> no_stale (reset_chips s)"
    unfolding reset_chips_def
    by (subst (asm) fold_on_dac) (auto simp: no_stale_def emit_def dac_fits_def device_reset_daccontrol_def)
qed

section \<open>Data blocks\<close>

lemma refresh_idem: "daccontrol_refresh_data a n (daccontrol_refresh_data a n d) = daccontrol_refresh_data a n d"
  by (simp add: daccontrol_refresh_data_def)

lemma refresh_fits: "Running d AND 0x80 = 0 \<Longrightarrow> dac_fits b (daccontrol_refresh_data (Some (bank_Data b)) (bank_DataSize b) d)"
  by (simp add: dac_fits_def daccontrol_refresh_data_def)

lemma refresh_fold:
  "refresh_dacs k s = fold (\<lambda>i s. if unat (dac_Bank (DacCtrl s i)) = k
     then on_dac i (daccontrol_refresh_data (Some (bank_Data (PCMBank s0 ! k))) (bank_DataSize (PCMBank s0 ! k))) s else s) (DacCtrlUsg s) s"
  if "PCMBank s0 = PCMBank s"
proof -
  have "fold (\<lambda>i s. if unat (dac_Bank (DacCtrl s i)) = k
        then on_dac i (daccontrol_refresh_data (Some (bank_Data (PCMBank s ! k))) (bank_DataSize (PCMBank s ! k))) s else s) xs s =
      fold (\<lambda>i s. if unat (dac_Bank (DacCtrl s i)) = k
        then on_dac i (daccontrol_refresh_data (Some (bank_Data (PCMBank s0 ! k))) (bank_DataSize (PCMBank s0 ! k))) s else s) xs s"
    if "PCMBank s0 = PCMBank s" for xs s
    using that by (induction xs arbitrary: s) (auto simp: on_dac_def)
  then show ?thesis using that unfolding refresh_dacs_def by blast
qed

text \<open>A bank may change as it likes if the streams on it are pointed to the new buffer.\<close>

lemma refresh_stale:
  assumes "no_stale s" "k < PCM_BANK_COUNT" "PCMBank t = (PCMBank s)[k := b]"
    "DacCtrl t = DacCtrl s" "DacCtrlUsg t = DacCtrlUsg s" "DACData t = DACData s"
  shows "no_stale (refresh_dacs k t)"
proof -
  have "(PCMBank s)[k := b] ! k = b" using assms(1,2) by (simp add: no_stale_def)
  moreover have "Running (DACData s i) AND 0x80 = 0" if "i \<in> set (DacCtrlUsg s)" for i
    using that assms(1) by (auto simp: no_stale_def dac_fits_def)
  ultimately show ?thesis
    using assms unfolding refresh_fold[of t t, OF refl] fold_on_dac[where P = "\<lambda>c. unat (dac_Bank c) = k", OF refresh_idem]
    by (auto simp: no_stale_def refresh_fits)
qed

lemma add_block_known: "post (add_block fresh tbl ty n data b) (\<lambda>(added, c). added \<or> c = b\<lparr>BnkPos := BnkPos b + 1\<rparr>)"
  unfolding add_block_def Let_def
  by (intro post_if post_bind_any post_case_prod post_Ok_I) auto

lemma AddPCMData_stale:
  assumes s: "no_stale s"
  shows "post (AddPCMData ty n data s) no_stale"
proof -
  let ?k = "unat (ty AND 0x3F)"
  have refreshed: "no_stale (refresh_dacs ?k (s\<lparr>PCMBank := (PCMBank s)[?k := b], Last95Max := w\<rparr>))" if "?k < PCM_BANK_COUNT" for b w
    by (rule refresh_stale[OF s that]) simp_all
  have known: "no_stale (s\<lparr>PCMBank := (PCMBank s)[?k := (PCMBank s ! ?k)\<lparr>BnkPos := v\<rparr>]\<rparr>)" for v
    using on_bank_stale[OF s, where j = ?k and f = "\<lambda>b. b\<lparr>BnkPos := v\<rparr>"] by (simp add: on_bank_def bank_fits)
  show ?thesis
    unfolding AddPCMData_def Let_def
    by (intro post_if post_bind_any[of "ReadPCMTable _ _"] post_bind[OF add_block_known] post_case_prod post_Ok_I)
      (use s in \<open>auto simp: refreshed known\<close>)
qed

section \<open>Commands\<close>

lemma chip_write_stale: "no_stale s \<Longrightarrow> post (chip_write ch c k f n s) no_stale"
  unfolding chip_write_def by (intro post_bind_any post_Ok_I) (auto split: if_splits elim: bind_res_OkE)

lemma start_dac_stale: "no_stale s \<Longrightarrow> post (start_dac i p m l s) no_stale"
  unfolding start_dac_def by (rule post_bind[OF start_source]) (simp add: on_dac_stale)

lemma data_block_stale: "no_stale s \<Longrightarrow> post (data_block c s) no_stale"
  unfolding data_block_def Let_def
  by (intro post_bind_any[of "VGMPnt _ _"] post_bind_any[of "pnt32 _ _"] post_bind[where Q = no_stale] post_if AddPCMData_stale
      post_bind_any[of "if _ then bind_res (pnt16 _ _) _ else _"] post_case_option post_case_prod post_Ok_I) simp_all

lemma pcm_ram_write_stale: "no_stale s \<Longrightarrow> post (pcm_ram_write s) no_stale"
  unfolding pcm_ram_write_def Let_def by (intro post_bind_any post_Ok_I) (auto split: option.splits)

lemma setup_fits: "same_source (DACData s i) e \<Longrightarrow> same_source (DACData s i) (daccontrol_setup_chip t c w e)"
  by simp

lemma setup_stream_stale:
  assumes "no_stale s"
  shows "post (setup_stream s) no_stale"
proof -
  have "no_stale ((on_dac i (device_reset_daccontrol \<circ> device_start_daccontrol) s)\<lparr>DacCtrl := (DacCtrl s)(i := (DacCtrl s i)\<lparr>Enable := True\<rparr>),
             DacCtrlUsg := DacCtrlUsg s @ [i]\<rparr>)" for i
    using assms by (auto simp: no_stale_def on_dac_def reset_dac_fits)
  then show ?thesis
    unfolding setup_stream_def Let_def
    by (intro post_bind_any post_if post_Ok_I) (use assms in \<open>auto intro: on_dac_stale\<close>)
qed

lemma set_data_fits:
  "Running d AND 0x80 = 0 \<Longrightarrow> dac_fits b (daccontrol_set_data (Some (bank_Data b)) (bank_DataSize b) st base d)"
  by (simp add: dac_fits_def daccontrol_set_data_def Let_def)

lemma set_stream_data_stale:
  assumes "no_stale s"
  shows "post (set_stream_data s) no_stale"
proof -
  have "no_stale (on_dac i (daccontrol_set_data (Some (bank_Data (PCMBank s ! unat b))) (bank_DataSize (PCMBank s ! unat b)) st base)
       (s\<lparr>DacCtrl := (DacCtrl s)(i := (DacCtrl s i)\<lparr>dac_Bank := b\<rparr>), Last95Max := w\<rparr>))"
    if "Enable (DacCtrl s i)" "unat b < PCM_BANK_COUNT" for i b st base w
  proof -
    have "i \<in> set (DacCtrlUsg s)" using assms that by (auto simp: no_stale_def)
    then have "Running (DACData s i) AND 0x80 = 0" using assms by (auto simp: no_stale_def dac_fits_def)
    then show ?thesis using assms that by (auto simp: no_stale_def on_dac_def set_data_fits)
  qed
  then show ?thesis
    unfolding set_stream_data_def Let_def
    by (intro post_bind_any post_if post_Ok_I) (use assms in \<open>auto simp: PCM_BANK_COUNT_def\<close>)
qed

lemma stream_command_stale:
  assumes "no_stale s"
  shows "post (set_stream_frequency s) no_stale" "post (start_stream s) no_stale" "post (stop_stream s) no_stale" "post (play_block s) no_stale"
  unfolding set_stream_frequency_def start_stream_def stop_stream_def play_block_def Let_def
  by (intro post_bind_any[of "VGMPnt _ _"] post_bind_any[of "pnt32 _ _"] post_bind_any[of "pnt16 _ _"] post_if post_require
      post_bind[OF start_dac_stale] post_Ok_I; use assms in \<open>auto intro!: on_dac_stale\<close>)+

lemma command_stale:
  assumes "no_stale s"
  shows "post (command cmd c s) no_stale"
proof -
  have "no_stale (on_bank 0 (\<lambda>b. b\<lparr>DataPos := p\<rparr>) s)" for p by (rule on_bank_stale[OF assms]) (simp add: bank_fits)
  then show ?thesis
    unfolding command_def Let_def sega_pcm_write_def
    by (intro post_case_option post_case_prod post_if chip_write_stale data_block_stale pcm_ram_write_stale setup_stream_stale
        set_stream_data_stale stream_command_stale post_bind_any post_Ok_I) (use assms in simp_all)
qed

section \<open>The interpreter and the calls of the application\<close>

lemma GetDAC_fits: "post (GetDACFromPCMBank b) (\<lambda>(x, c). \<forall>d. dac_fits c d = dac_fits b d)"
  unfolding GetDACFromPCMBank_def by (intro post_if post_bind_any post_Ok_I) (simp_all add: bank_fits)

lemma sample_wait_stale:
  assumes "no_stale s"
  shows "post (sample_wait cmd s) no_stale"
proof -
  have "no_stale (on_bank 0 (\<lambda>_. b) s)" if "\<forall>d. dac_fits b d = dac_fits (PCMBank s ! 0) d" for b
    by (rule on_bank_stale[OF assms]) (simp add: that)
  then show ?thesis
    unfolding sample_wait_def Let_def
    by (intro post_bind[where Q = no_stale] post_if post_bind[OF GetDAC_fits] post_case_prod post_Ok_I) (use assms in auto)
qed

lemma end_of_file_stale: "no_stale s \<Longrightarrow> post (end_of_file n P s) (\<lambda>(_, t). no_stale t)"
  unfolding end_of_file_def Let_def
  by (intro post_if post_bind_any[of "SampleVGM2Pbk_I _ _"] post_bind_any[of "SamplePbk2VGM_I _ _"]
      post_bind_any[of "if _ then SampleVGM2Pbk_I _ _ else _"] post_bind[where Q = no_stale] post_Ok_I) (simp_all add: reset_chips_stale)

lemma vgm_step_stale:
  assumes "no_stale s"
  shows "post (vgm_step n P s) (\<lambda>(_, t). no_stale t)"
  unfolding vgm_step_def
  by (intro post_bind_any[of "VGMPnt _ _"] post_bind_any[of "pnt16 _ _"] post_bind[where Q = "\<lambda>(_, t). no_stale t"] post_if post_case_prod
      post_bind[OF sample_wait_stale] post_bind[OF command_stale] end_of_file_stale post_Ok_I) (use assms in auto)

lemma vgm_loop_stale: "no_stale s \<Longrightarrow> post (vgm_loop k n P s) no_stale"
proof (induction k arbitrary: P s)
  case (Suc k)
  show ?case
    by (simp only: vgm_loop.simps, intro post_if post_bind[OF vgm_step_stale] post_case_prod Suc.IH post_Ok_I) (use Suc.prems in auto)
qed simp

lemma InterpretVGM_stale: "no_stale s \<Longrightarrow> post (InterpretVGM k n s) no_stale"
  unfolding InterpretVGM_def by (intro post_if post_bind_any vgm_loop_stale post_Ok_I)

lemma update_dacs_stale:
  assumes "no_stale s"
  shows "post (update_dacs n s) no_stale"
  unfolding update_dacs_def
  by (rule post_for_each[where P = no_stale, OF assms], rule post_bind[OF update_source], rule post_case_prod, rule post_Ok_I) (auto intro: on_dac_stale)

lemma InterpretFile_stale: "no_stale s \<Longrightarrow> post (InterpretFile k n s) no_stale"
  unfolding InterpretFile_def
  by (intro post_bind[where Q = no_stale] post_if update_dacs_stale InterpretVGM_stale post_Ok_I) simp_all

lemma RestartPlaying_stale:
  assumes "no_stale s"
  shows "post (RestartPlaying k s) no_stale"
proof -
  have "no_stale (reset_chips (rewind s))" using assms by (intro reset_chips_stale) (simp add: rewind_def)
  then show ?thesis
    unfolding RestartPlaying_def by (intro post_bind[where Q = no_stale] InterpretFile_stale post_Ok_I) simp_all
qed

text \<open>No stream reads a buffer that is gone: the invariant that every stream in use has either no data or all the current data of its bank
  is kept by playing on, pausing, restarting and seeking.\<close>
theorem player_no_stale:
  assumes "no_stale s"
  shows "post (InterpretFile k n s) no_stale \<and> no_stale (PauseVGM b s) \<and> post (RestartVGM k s) no_stale \<and> post (SeekVGM k rel m s) no_stale"
proof (intro conjI)
  show "post (InterpretFile k n s) no_stale" by (rule InterpretFile_stale[OF assms])
  show "no_stale (PauseVGM b s)" using assms by (simp add: PauseVGM_def)
  show "post (RestartVGM k s) no_stale"
    unfolding RestartVGM_def by (intro post_if RestartPlaying_stale post_Ok_I assms)
  show "post (SeekVGM k rel m s) no_stale"
    unfolding SeekVGM_def Let_def
    by (intro post_if post_bind_any[of "SampleVGM2Pbk_I _ _"] post_bind[where Q = "\<lambda>(_, t). no_stale t"] post_bind[OF RestartPlaying_stale]
        post_bind[OF InterpretFile_stale] post_case_prod post_Ok_I) (use assms in simp_all)
qed

lemma example_no_stale: "no_stale example_vgm"
  by (simp add: no_stale_def example_vgm_def PCM_BANK_COUNT_def)

lemma example_plays: "is_Ok (InterpretFile 42 3 example_vgm)"
  by code_simp

theorem player_no_stale_witness: "\<exists>t. InterpretFile 42 3 example_vgm = Ok t \<and> no_stale t"
proof -
  obtain t where "InterpretFile 42 3 example_vgm = Ok t" using example_plays by (rule is_OkE)
  then show ?thesis using player_no_stale[OF example_no_stale, of 42 3] by (auto simp: post_def)
qed

end
