(* ===== verification/VgmTime.thy ===== *)
theory VgmTime
  imports VgmStreams
begin

text \<open>
  The rates of the VGM player, from \<^verbatim>\<open>VGMPlay/VGMPlay.c\<close>: the greatest common divisor that keeps the fraction between the samples of
  the file and those of the output small, the start of a song, and the times shown to the user.
\<close>

section \<open>The greatest common divisor\<close>

definition strip_zeros :: "u32 \<Rightarrow> u32 res" where
  "strip_zeros x = while_res 33 (\<lambda>x. Ok (x AND 1 = 0)) (\<lambda>x. Ok (drop_bit 1 x)) x"

definition common_zeros :: "u32 \<times> u32 \<times> nat \<Rightarrow> (u32 \<times> u32 \<times> nat) res" where
  "common_zeros s = while_res 33 (\<lambda>(x, y, shift). Ok ((x OR y) AND 1 = 0)) (\<lambda>(x, y, shift). Ok (drop_bit 1 x, drop_bit 1 y, shift + 1)) s"

text \<open>One round of the main loop; at most 65 rounds, since each halves the product of the two numbers.\<close>

definition gcd_round :: "u32 \<times> u32 \<Rightarrow> (bool \<times> u32 \<times> u32) res" where
  "gcd_round s = (case s of (x, y) \<Rightarrow> bind_res (strip_zeros y) (\<lambda>y.
     let (x1, y1) = (if x < y then (x, y - x) else (y, x - y)) in Ok (drop_bit 1 y1 \<noteq> 0, x1, drop_bit 1 y1)))"

definition vgm_gcd :: "u32 \<Rightarrow> u32 \<Rightarrow> u32 res" where
  "vgm_gcd x y =
     (if x = 0 \<or> y = 0 then Ok (x OR y)
      else bind_res (common_zeros (x, y, 0)) (\<lambda>(x, y, shift).
        bind_res (strip_zeros x) (\<lambda>x. bind_res (do_res 65 gcd_round (x, y)) (\<lambda>(x, y). Ok (push_bit shift x)))))"

lemma half [simp]: "unat (drop_bit (Suc 0) x :: u32) = unat x div 2"
  by (subst unat_drop_bit_eq) (simp add: drop_bit_eq_div)

lemma even_word: "x AND 1 = 0 \<longleftrightarrow> even (unat (x :: u32))"
proof -
  have "odd (unat x) \<longleftrightarrow> bit (unat x) 0" by (simp add: bit_0)
  also have "\<dots> \<longleftrightarrow> bit x 0" by (simp add: bit_unsigned_iff del: bit_0)
  finally show ?thesis by (simp add: and_one_eq bit_0 mod_2_eq_odd)
qed

lemma strip_zeros_ok:
  assumes "x \<noteq> 0"
  shows "\<exists>y k. strip_zeros x = Ok y \<and> odd (unat y) \<and> unat x = 2 ^ k * unat y"
proof -
  have "\<exists>y k. while_res (Suc n) (\<lambda>x. Ok (x AND 1 = 0)) (\<lambda>x. Ok (drop_bit 1 x)) x = Ok y \<and> odd (unat y) \<and> unat x = 2 ^ k * unat y"
    if "x \<noteq> 0" "unat x < 2 ^ n" for n and x :: u32
    using that
  proof (induction n arbitrary: x)
    case (Suc n)
    show ?case
    proof (cases "even (unat x)")
      case True
      then have u: "unat (drop_bit 1 x) * 2 = unat x" by simp
      then have "drop_bit 1 x \<noteq> 0" "unat (drop_bit 1 x) < 2 ^ n" using Suc.prems by (auto simp: unat_eq_0[symmetric])
      then obtain y k where "while_res (Suc n) (\<lambda>x. Ok (x AND 1 = 0)) (\<lambda>x. Ok (drop_bit 1 x)) (drop_bit 1 x) = Ok y"
          "odd (unat y)" "unat (drop_bit 1 x) = 2 ^ k * unat y" using Suc.IH by blast
      then show ?thesis using True u by (intro exI[of _ y] exI[of _ "Suc k"]) (simp add: even_word)
    next
      case False
      then show ?thesis by (intro exI[of _ x] exI[of _ 0]) (simp add: even_word)
    qed
  qed (simp add: unat_eq_0)
  moreover have "33 = Suc (32 :: nat)" by simp
  moreover have "unat x < 2 ^ 32" using unsigned_less[of x, where 'a = nat] by simp
  ultimately show ?thesis unfolding strip_zeros_def by (metis assms)
qed

lemma odd_gcd_shift: "odd (a :: nat) \<Longrightarrow> gcd a (2 ^ k * b) = gcd a b"
  using gcd_mult_left_right_cancel[of a "2 ^ k" b] by (simp add: mult.commute gcd.commute)

lemma odd_gcd_half:
  assumes "odd (a :: nat)" "odd b" "a \<le> b"
  shows "gcd a ((b - a) div 2) = gcd a b"
proof -
  have "b - a = 2 ^ 1 * ((b - a) div 2)" using assms by simp
  then have "gcd a ((b - a) div 2) = gcd a (b - a)" using odd_gcd_shift[OF assms(1), of 1] by metis
  then show ?thesis using gcd_diff1_nat[OF assms(3)] by (simp add: gcd.commute)
qed

text \<open>One round keeps the divisors of the odd number and halves the product.\<close>

lemma gcd_round_ok:
  assumes "odd (unat x)" "y \<noteq> 0"
  shows "\<exists>x1 y1. gcd_round (x, y) = Ok (y1 \<noteq> 0, x1, y1) \<and> odd (unat x1) \<and> gcd (unat x1) (unat y1) = gcd (unat x) (unat y) \<and>
    2 * (unat x1 * unat y1) \<le> unat x * unat y"
proof -
  obtain z k where z: "strip_zeros y = Ok z" "odd (unat z)" "unat y = 2 ^ k * unat z" using strip_zeros_ok[OF assms(2)] by auto
  have g: "gcd (unat x) (unat y) = gcd (unat x) (unat z)" unfolding z(3) by (rule odd_gcd_shift[OF assms(1)])
  have le: "unat x * unat z \<le> unat x * unat y" unfolding z(3) by simp
  show ?thesis
  proof (cases "x < z")
    case True
    then have d: "unat (z - x) = unat z - unat x" by (simp add: unat_sub less_imp_le)
    have "2 * (unat x * ((unat z - unat x) div 2)) \<le> unat x * unat z"
      by (simp add: mult.left_commute[of 2]) (meson diff_le_self le_trans times_div_less_eq_dividend)
    then have "2 * (unat x * ((unat z - unat x) div 2)) \<le> unat x * unat y" using le by (rule order.trans)
    moreover have "gcd (unat x) ((unat z - unat x) div 2) = gcd (unat x) (unat z)"
      using odd_gcd_half[OF assms(1) z(2)] True by (simp add: word_less_nat_alt)
    moreover have "gcd_round (x, y) = Ok (drop_bit 1 (z - x) \<noteq> 0, x, drop_bit 1 (z - x))" using z(1) True by (simp add: gcd_round_def)
    ultimately show ?thesis using assms(1) g le by - (rule exI[of _ x], rule exI[of _ "drop_bit 1 (z - x)"], simp add: d)
  next
    case False
    then have d: "unat (x - z) = unat x - unat z" by (simp add: unat_sub not_less)
    have "2 * (unat z * ((unat x - unat z) div 2)) \<le> unat z * unat x"
      by (simp add: mult.left_commute[of 2]) (meson diff_le_self le_trans times_div_less_eq_dividend)
    also have "\<dots> \<le> unat x * unat y" using le by (simp only: mult.commute[of "unat z"])
    finally have "2 * (unat z * ((unat x - unat z) div 2)) \<le> unat x * unat y" .
    moreover have "gcd (unat z) ((unat x - unat z) div 2) = gcd (unat x) (unat z)"
      using odd_gcd_half[OF z(2) assms(1)] False by (simp add: word_less_nat_alt gcd.commute)
    moreover have "gcd_round (x, y) = Ok (drop_bit 1 (x - z) \<noteq> 0, z, drop_bit 1 (x - z))" using z(1) False by (simp add: gcd_round_def)
    ultimately show ?thesis using z(2) g le by - (rule exI[of _ z], rule exI[of _ "drop_bit 1 (x - z)"], simp add: d mult.commute)
  qed
qed

lemma gcd_loop:
  assumes "odd (unat x)" "y \<noteq> 0" "unat x * unat y < 2 ^ n"
  shows "\<exists>z. do_res (Suc n) gcd_round (x, y) = Ok (z, 0) \<and> unat z = gcd (unat x) (unat y)"
  using assms
proof (induction n arbitrary: x y)
  case 0
  then show ?case by (auto simp: unat_eq_0 elim: oddE)
next
  case (Suc n)
  obtain x1 y1 where r: "gcd_round (x, y) = Ok (y1 \<noteq> 0, x1, y1)" "odd (unat x1)" "gcd (unat x1) (unat y1) = gcd (unat x) (unat y)"
      "2 * (unat x1 * unat y1) \<le> unat x * unat y" using gcd_round_ok[OF Suc.prems(1,2)] by blast
  show ?case
  proof (cases "y1 = 0")
    case True
    then show ?thesis using r by simp
  next
    case False
    have "unat x1 * unat y1 < 2 ^ n" using r(4) Suc.prems(3) by simp
    then show ?thesis using Suc.IH[OF r(2) False] r(1,3) False by (simp del: do_res.simps add: do_res.simps(2)[of "Suc n"])
  qed
qed

lemma common_zeros_ok:
  assumes "x \<noteq> 0" "y \<noteq> 0"
  shows "\<exists>a b k. common_zeros (x, y, 0) = Ok (a, b, k) \<and> unat x = 2 ^ k * unat a \<and> unat y = 2 ^ k * unat b \<and> (odd (unat a) \<or> odd (unat b))"
proof -
  let ?w = "\<lambda>n. while_res n (\<lambda>(x, y, shift). Ok ((x OR y) AND (1 :: u32) = 0)) (\<lambda>(x, y, shift). Ok (drop_bit 1 x, drop_bit 1 y, shift + 1))"
  have e: "(x OR y) AND 1 = 0 \<longleftrightarrow> even (unat x) \<and> even (unat y)" for x y :: u32
    by (simp add: even_word unsigned_or_eq even_or_iff)
  have main: "\<exists>a b k. ?w (Suc n) (x, y, s) = Ok (a, b, s + k) \<and> unat x = 2 ^ k * unat a \<and> unat y = 2 ^ k * unat b \<and> (odd (unat a) \<or> odd (unat b))"
    if "x \<noteq> 0" "unat x < 2 ^ n" for n s x y
    using that
  proof (induction n arbitrary: x y s)
    case (Suc n)
    show ?case
    proof (cases "even (unat x) \<and> even (unat y)")
      case True
      then have u: "unat (drop_bit 1 x) * 2 = unat x" "unat (drop_bit 1 y) * 2 = unat y" by simp_all
      then have "drop_bit 1 x \<noteq> 0" "unat (drop_bit 1 x) < 2 ^ n" using Suc.prems by (auto simp: unat_eq_0[symmetric])
      then obtain a b k where "?w (Suc n) (drop_bit 1 x, drop_bit 1 y, s + 1) = Ok (a, b, s + 1 + k)"
          "unat (drop_bit 1 x) = 2 ^ k * unat a" "unat (drop_bit 1 y) = 2 ^ k * unat b" "odd (unat a) \<or> odd (unat b)"
        using Suc.IH[of "drop_bit 1 x" "drop_bit 1 y" "s + 1"] by blast
      then show ?thesis using True u by (intro exI[of _ a] exI[of _ b] exI[of _ "Suc k"]) (simp add: e)
    next
      case False
      then have "\<not> (x OR y) AND 1 = 0" using e by simp
      then have "?w (Suc (Suc n)) (x, y, s) = Ok (x, y, s + 0)" by simp
      then show ?thesis using False by (metis mult_1 power_0)
    qed
  qed (simp add: unat_eq_0)
  have "unat x < 2 ^ 32" using unsigned_less[of x, where 'a = nat] by simp
  then show ?thesis
    using main[OF assms(1), of 32 y 0] unfolding common_zeros_def by (simp del: while_res_numeral while_res.simps)
qed

text \<open>The binary algorithm ends on all numbers and gives their greatest common divisor.\<close>
theorem vgm_gcd_correct: "vgm_gcd x y = Ok (of_nat (gcd (unat x) (unat y)))"
proof (cases "x = 0 \<or> y = 0")
  case True
  then show ?thesis by (auto simp: vgm_gcd_def)
next
  case False
  obtain a b k where c: "common_zeros (x, y, 0) = Ok (a, b, k)" "unat x = 2 ^ k * unat a" "unat y = 2 ^ k * unat b"
      "odd (unat a) \<or> odd (unat b)" using common_zeros_ok[of x y] False by blast
  have ab: "a \<noteq> 0" "b \<noteq> 0" using False c(2,3) by (auto simp: unat_eq_0[symmetric])
  obtain d j where d: "strip_zeros a = Ok d" "odd (unat d)" "unat a = 2 ^ j * unat d" using strip_zeros_ok[OF ab(1)] by blast
  have g: "gcd (unat d) (unat b) = gcd (unat a) (unat b)"
  proof (cases "odd (unat b)")
    case True
    then show ?thesis using odd_gcd_shift[OF True, of j "unat d"] d(3) by (simp add: gcd.commute)
  next
    case False
    then have "j = 0" using c(4) d(3) by (cases j) auto
    then show ?thesis using d(3) by simp
  qed
  have "unat d * unat b < 2 ^ 32 * 2 ^ 32" using unsigned_less[of d, where 'a = nat] unsigned_less[of b, where 'a = nat] by (intro mult_strict_mono) simp_all
  then have "unat d * unat b < 2 ^ 64" by simp
  then obtain z where z: "do_res 65 gcd_round (d, b) = Ok (z, 0)" "unat z = gcd (unat a) (unat b)"
    using gcd_loop[OF d(2) ab(2), of 64] g by (metis eval_nat_numeral(3) numeral_plus_one semiring_norm(5))
  have "push_bit k z = of_nat (2 ^ k * unat z)" by (simp add: push_bit_eq_mult mult.commute)
  also have "2 ^ k * unat z = gcd (unat x) (unat y)" by (simp add: z(2) c(2,3) gcd_mult_distrib_nat)
  finally show ?thesis using False c(1) d(1) z(1) by (simp add: vgm_gcd_def del: do_res_numeral)
qed

section \<open>Rates\<close>

text \<open>The sample rate of all files, and the fraction by which the user has changed the speed.\<close>

definition VGMSampleRate :: u32 where
  "VGMSampleRate = 44100"

definition pb_rates :: "u32 \<Rightarrow> u32 \<Rightarrow> (u32 \<times> u32) res" where
  "pb_rates rate PbRate = (if PbRate = 0 \<or> rate = 0 then Ok (1, 1)
     else bind_res (vgm_gcd rate PbRate) (\<lambda>g. Ok (rate div g, PbRate div g)))"

definition set_rates :: "vgm \<Rightarrow> vgm res" where
  "set_rates s = bind_res (pb_rates (lngRate (VGMHead s)) (VGMPbRate s)) (\<lambda>(PbRateMul, PbRateDiv).
     let m = SampleRate s * PbRateMul; d = VGMSampleRate * PbRateDiv in
     bind_res (vgm_gcd m d) (\<lambda>g. require (g \<noteq> 0) Undefined (Ok (s\<lparr>VGMSmplRateMul := m div g, VGMSmplRateDiv := d div g\<rparr>))))"

definition max_loops :: "vgm \<Rightarrow> u32" where
  "max_loops s = (if VGMMaxLoop s = 0 then 0
     else let t = (VGMMaxLoop s * ucast (bytLoopModifier (VGMHead s)) + 0x08) div 0x10 - scast (bytLoopBase (VGMHead s)) in
     if 0x01 \<le>s t then t else 0x01)"

section \<open>Start and stop of a song\<close>

definition empty_bank :: VGM_PCM_BANK where
  "empty_bank = \<lparr>BankCount = 0, Bank = [], bank_DataSize = 0, bank_Data = [], DataPos = 0, BnkPos = 0\<rparr>"

text \<open>
  \<^verbatim>\<open>Chips_GeneralActions\<close>, the part behind the chips; \<open>present\<close> are the chips it finds in the header. Stopping frees the banks, whose sizes
  stay.
\<close>

definition start_chips :: "(u8 \<Rightarrow> chip \<Rightarrow> bool) \<Rightarrow> vgm \<Rightarrow> vgm" where
  "start_chips present s = reset_chips ((emit (Chips_GeneralActions 0x00) s)\<lparr>ChipAudio := present, DacCtrlUsg := [],
     DacCtrl := (\<lambda>i. (DacCtrl s i)\<lparr>Enable := False\<rparr>), PCMBank := replicate PCM_BANK_COUNT empty_bank, PCMTbl := no_table\<rparr>)"

definition stop_stream_of :: "nat \<Rightarrow> vgm \<Rightarrow> vgm" where
  "stop_stream_of i s = (on_dac i device_stop_daccontrol s)\<lparr>DacCtrl := (DacCtrl s)(i := (DacCtrl s i)\<lparr>Enable := False\<rparr>)\<rparr>"

definition stop_chips :: "vgm \<Rightarrow> vgm" where
  "stop_chips s = (fold stop_stream_of (DacCtrlUsg s) (emit (Chips_GeneralActions 0x02) s))
     \<lparr>ChipAudio := (\<lambda>_ _. False), DacCtrlUsg := [], PCMBank := map (\<lambda>b. b\<lparr>Bank := [], bank_Data := []\<rparr>) (PCMBank s),
      PCMTbl := (PCMTbl s)\<lparr>Entries := []\<rparr>\<rparr>"

definition PlayVGM :: "nat \<Rightarrow> (u8 \<Rightarrow> chip \<Rightarrow> bool) \<Rightarrow> vgm \<Rightarrow> vgm res" where
  "PlayVGM k present s = (if PlayingMode s \<noteq> 0xFF then Ok s
     else bind_res (set_rates (s\<lparr>FadePlay := False, FadeStart := 0, ForceVGMExec := True, PlayingMode := 0x00, VGMMaxLoopM := max_loops s\<rparr>)) (\<lambda>s.
       let s1 = s\<lparr>PlayingTime := 0, EndPlay := False, VGMPos := lngDataOffset (VGMHead s), VGMSmplPos := 0, VGMSmplPlayed := 0,
             VGMEnd := lngEOFOffset (VGMHead s) \<le> lngDataOffset (VGMHead s), VGMCurLoop := 0,
             PauseSmpls := (PauseTime s * SampleRate s + 500) div 1000\<rparr> in
       bind_res (InterpretFile k 0 ((start_chips present s1)\<lparr>Last95Drum := 0xFFFF, Last95Freq := 0, Last95Max := 0xFFFF\<rparr>)) (\<lambda>s.
       Ok (s\<lparr>ForceVGMExec := False\<rparr>))))"

definition StopVGM :: "vgm \<Rightarrow> vgm" where
  "StopVGM s = (if PlayingMode s = 0xFF then s else (stop_chips s)\<lparr>PlayingMode := 0xFF\<rparr>)"

section \<open>Times\<close>

definition MulDivRound :: "u64 \<Rightarrow> u64 \<Rightarrow> u64 \<Rightarrow> u32 res" where
  "MulDivRound Number Numerator Denominator = require (Denominator \<noteq> 0) Undefined
     (Ok (ucast ((Number * Numerator + Denominator div 2) div Denominator)))"

definition CalcSampleMSec :: "u32 \<Rightarrow> u32 \<times> u32 \<Rightarrow> u64 \<Rightarrow> u8 \<Rightarrow> u32 res" where
  "CalcSampleMSec rate pb Value Mode =
     (let (SmplRate, PbMul, PbDiv) = (if Mode AND 0x02 = 0 then (rate, 1, 1) else (VGMSampleRate, fst pb, snd pb)) in
      if Mode AND 0x01 = 0 then MulDivRound Value (1000 * ucast PbMul) (ucast SmplRate * ucast PbDiv)
      else MulDivRound Value (ucast SmplRate * ucast PbDiv) (1000 * ucast PbMul))"

text \<open>For another file; here the products are computed in 32 bits.\<close>

definition CalcSampleMSecExt :: "u32 \<Rightarrow> u32 \<Rightarrow> u64 \<Rightarrow> u8 \<Rightarrow> VGM_HEADER \<Rightarrow> u32 res" where
  "CalcSampleMSecExt rate PbRate Value Mode FileHead =
     (let (SmplRate, PbMul, PbDiv) = (if Mode AND 0x02 = 0 then (rate, 1, 1)
         else if PbRate = 0 \<or> lngRate FileHead = 0 then (44100, 1, 1) else (44100, lngRate FileHead, PbRate)) in
      if Mode AND 0x01 = 0 then MulDivRound Value (ucast (1000 * PbMul :: u32)) (ucast (SmplRate * PbDiv))
      else MulDivRound Value (ucast (SmplRate * PbDiv)) (ucast (1000 * PbMul :: u32)))"

lemma MulDivRound_nat:
  assumes "D \<noteq> 0" "unat N * unat M + unat D div 2 < 2 ^ 64"
  shows "MulDivRound N M D = Ok (of_nat ((unat N * unat M + unat D div 2) div unat D))"
proof -
  have "unat (N * M + D div 2) = unat N * unat M + unat D div 2"
    using assms(2) by (simp add: unat_word_ariths unat_div)
  then have "unat ((N * M + D div 2) div D) = (unat N * unat M + unat D div 2) div unat D" by (simp add: unat_div)
  then have "ucast ((N * M + D div 2) div D) = (of_nat ((unat N * unat M + unat D div 2) div unat D) :: u32)"
    by (metis of_nat_unat)
  then show ?thesis using assms(1) by (simp add: MulDivRound_def)
qed

lemma round_back:
  assumes "1000 < (r :: nat)"
  shows "((m * r + 500) div 1000 * 1000 + r div 2) div r = m"
proof (rule div_nat_eqI)
  define q where "q = (m * r + 500) div 1000"
  have q: "q * 1000 \<le> m * r + 500" "m * r + 500 < q * 1000 + 1000" unfolding q_def by auto
  show "r * m \<le> (m * r + 500) div 1000 * 1000 + r div 2" "(m * r + 500) div 1000 * 1000 + r div 2 < r * Suc m"
    unfolding q_def[symmetric] using q assms by (simp_all add: mult.commute[of r])
qed

lemma unat_u64 [simp]: "unat (ucast (x :: u32) :: u64) = unat x"
  using unsigned_less[of x, where 'a = nat] by (simp add: unsigned_ucast_eq take_bit_nat_eq_self)

text \<open>A time in milliseconds, converted to samples and back, is the same, at all rates above 1000 Hz and up to the last sample that 32
  bits count.\<close>
theorem CalcSampleMSec_roundtrip:
  assumes "1000 < rate" "unat ms * unat rate + 500 < 1000 * 2 ^ 32"
  shows "bind_res (CalcSampleMSec rate pb (ucast ms) 0x01) (\<lambda>n. CalcSampleMSec rate pb (ucast n) 0x00) = Ok (ms :: u32)"
proof -
  let ?n = "(unat ms * unat rate + 500) div 1000"
  have r: "1000 < unat rate" using assms(1) by (simp add: word_less_nat_alt)
  have n: "?n < 2 ^ 32" using assms(2) by simp
  have "MulDivRound (ucast ms) (ucast rate) 1000 = Ok (of_nat ?n)"
    using MulDivRound_nat[of 1000 "ucast ms" "ucast rate"] assms(2) by simp
  moreover have "MulDivRound (ucast (of_nat ?n :: u32)) 1000 (ucast rate) = Ok ms"
  proof -
    have u: "unat (ucast (of_nat ?n :: u32) :: u64) = ?n" using n by (simp add: unat_of_nat take_bit_nat_eq_self)
    have "unat (ucast rate :: u64) \<noteq> 0" using r by simp
    then have "(ucast rate :: u64) \<noteq> 0" by (metis unat_0)
    moreover have "?n * 1000 + unat rate div 2 < 2 ^ 64" using n unsigned_less[of rate, where 'a = nat] by simp
    ultimately have "MulDivRound (ucast (of_nat ?n :: u32)) 1000 (ucast rate) = Ok (of_nat ((?n * 1000 + unat rate div 2) div unat rate))"
      using MulDivRound_nat[of "ucast rate" "ucast (of_nat ?n :: u32)" 1000] u by simp
    then show ?thesis by (simp only: round_back[OF r] of_nat_unat)  simp
  qed
  ultimately show ?thesis by (simp add: CalcSampleMSec_def)
qed

lemma set_rates_reduced:
  assumes "set_rates s = Ok t" "pb_rates (lngRate (VGMHead s)) (VGMPbRate s) = Ok (pm, pd)" "VGMSampleRate * pd \<noteq> 0"
  shows "coprime (unat (VGMSmplRateMul t)) (unat (VGMSmplRateDiv t)) \<and>
    SampleVGM2Pbk_I t v = Ok (word_of_int (trunc_div (sint v * uint (SampleRate s * pm)) (uint (VGMSampleRate * pd))))"
proof -
  let ?m = "SampleRate s * pm" and ?d = "VGMSampleRate * pd"
  define g where "g = gcd (unat ?m) (unat ?d)"
  have d: "unat ?d \<noteq> 0" using assms(3) by (simp add: unat_eq_0)
  then have g0: "g \<noteq> 0" "g dvd unat ?m" "g dvd unat ?d" by (simp_all add: g_def)
  have gl: "unat (of_nat g :: u32) = g"
    using dvd_imp_le[OF g0(3)] d unsigned_less[of ?d, where 'a = nat] by (simp add: unat_of_nat take_bit_nat_eq_self)
  have t: "VGMSmplRateMul t = ?m div of_nat g" "VGMSmplRateDiv t = ?d div of_nat g"
    using assms(1,2) by (auto simp: set_rates_def vgm_gcd_correct g_def Let_def require_Ok_iff)
  then have u: "unat (VGMSmplRateMul t) = unat ?m div g" "unat (VGMSmplRateDiv t) = unat ?d div g" by (simp_all add: unat_div gl)
  have c: "coprime (unat ?m div g) (unat ?d div g)" unfolding g_def by (rule div_gcd_coprime) (use d in simp)
  have nz: "unat ?d div g \<noteq> 0" using g0 d by (auto simp: dvd_div_eq_0_iff)
  have e: "uint ?m = int g * int (unat ?m div g)" "uint ?d = int g * int (unat ?d div g)"
    using g0(2,3) by (simp_all flip: of_nat_mult)
  have "trunc_div (int g * x) (int g * b) = trunc_div x b" for x b
    using g0(1) by (simp add: trunc_div_def mult_less_0_iff flip: mult_minus_right)
  from this[of "sint v * int (unat ?m div g)"]
  have "trunc_div (sint v * uint ?m) (uint ?d) = trunc_div (sint v * int (unat ?m div g)) (int (unat ?d div g))"
    unfolding e by (simp add: mult.left_commute)
  moreover have "uint (VGMSmplRateMul t) = int (unat ?m div g)" "uint (VGMSmplRateDiv t) = int (unat ?d div g)"
    using u by (metis uint_nat)+
  moreover have "VGMSmplRateDiv t \<noteq> 0" using nz u(2) by (metis unat_0)
  ultimately show ?thesis using c u by (simp add: SampleVGM2Pbk_I_def)
qed

lemma trunc_div_scale: "0 < g \<Longrightarrow> trunc_div (int g * x) (int g * b) = trunc_div x b"
  by (simp add: trunc_div_def mult_less_0_iff flip: mult_minus_right)

lemma gcd_word_nonzero:
  assumes "b \<noteq> (0 :: u32)"
  shows "(of_nat (gcd (unat a) (unat b)) :: u32) \<noteq> 0"
proof
  assume z: "(of_nat (gcd (unat a) (unat b)) :: u32) = 0"
  have "0 < unat b" using assms by (simp add: unat_gt_0)
  then have "gcd (unat a) (unat b) \<le> unat b" by (intro gcd_le2_nat) simp
  then have "unat (of_nat (gcd (unat a) (unat b)) :: u32) = gcd (unat a) (unat b)"
    using unsigned_less[of b, where 'a = nat] by (simp add: unat_of_nat take_bit_nat_eq_self)
  then show False using z \<open>0 < unat b\<close> by simp
qed

text \<open>The speed of a song: the rate it was recorded at and the rate to play it at, in Hz; without one of the two it is not changed.\<close>

definition speed :: "vgm \<Rightarrow> nat \<times> nat" where
  "speed s = (if lngRate (VGMHead s) = 0 \<or> VGMPbRate s = 0 then (1, 1) else (unat (lngRate (VGMHead s)), unat (VGMPbRate s)))"

lemma pb_rates_speed:
  assumes "speed s = (M, D)"
  shows "pb_rates (lngRate (VGMHead s)) (VGMPbRate s) = Ok (of_nat (M div gcd M D), of_nat (D div gcd M D))" "0 < D" "0 < gcd M D"
proof -
  let ?r = "lngRate (VGMHead s)" and ?p = "VGMPbRate s"
  show "0 < D" using assms by (auto simp: speed_def unat_gt_0 split: if_splits)
  then show "0 < gcd M D" by simp
  show "pb_rates ?r ?p = Ok (of_nat (M div gcd M D), of_nat (D div gcd M D))"
  proof (cases "?r = 0 \<or> ?p = 0")
    case True
    then show ?thesis using assms by (auto simp: pb_rates_def speed_def)
  next
    case False
    define g where "g = gcd (unat ?r) (unat ?p)"
    have "g dvd unat ?r" by (simp add: g_def)
    then have "unat (of_nat g :: u32) = g"
      using dvd_imp_le[of g "unat ?r"] False unsigned_less[of ?r, where 'a = nat] by (simp add: unat_gt_0 unat_of_nat take_bit_nat_eq_self)
    then have "?r div of_nat g = of_nat (unat ?r div g)" "?p div of_nat g = of_nat (unat ?p div g)"
      by (simp_all add: word_arith_nat_div)
    then show ?thesis using False assms by (auto simp: pb_rates_def vgm_gcd_correct speed_def g_def[symmetric])
  qed
qed

text \<open>C26: as long as the two factors fit 32 bits, the rates set up when a song starts are a reduced fraction, and a number \<open>v\<close> of samples of the file
  becomes \<open>v\<close> times the output rate times the rate of the recording, over 44100 times the rate of playing, rounded towards zero; without one
  of the two rates they count as one. The answer is a number of 32 bits.\<close>
theorem set_rates_exact:
  assumes "speed s = (M, D)" "unat (SampleRate s) * (M div gcd M D) < 2 ^ 32" "44100 * (D div gcd M D) < 2 ^ 32"
  shows "\<exists>t. set_rates s = Ok t \<and> coprime (unat (VGMSmplRateMul t)) (unat (VGMSmplRateDiv t)) \<and>
    SampleVGM2Pbk_I t v = Ok (word_of_int (trunc_div (sint v * (int (unat (SampleRate s)) * int M)) (44100 * int D)))"
proof -
  define g where "g = gcd M D"
  note pb = pb_rates_speed[OF assms(1), folded g_def]
  let ?m = "SampleRate s * of_nat (M div g)" and ?d = "VGMSampleRate * of_nat (D div g)"
  have w: "?m = of_nat (unat (SampleRate s) * (M div g))" "?d = of_nat (44100 * (D div g))" by (simp_all add: VGMSampleRate_def)
  have m: "uint ?m = int (unat (SampleRate s) * (M div g))" and d: "uint ?d = int (44100 * (D div g))"
    unfolding w uint_nat using assms(2,3) by (simp_all only: g_def unat_of_nat take_bit_nat_eq_self, simp_all add: take_bit_nat_eq_self)
  have "g dvd D" "0 < D div g" using pb(2,3) by (simp_all add: g_def div_greater_zero_iff gcd_le2_nat)
  then have d0: "?d \<noteq> 0" using d by (metis mult_is_0 of_nat_eq_0_iff uint_0_eq less_numeral_extra(3) zero_neq_numeral)
  obtain t where t: "set_rates s = Ok t"
    using gcd_word_nonzero[OF d0, of ?m] by (auto simp: set_rates_def pb(1) vgm_gcd_correct Let_def require_def)
  have "g * (M div g) = M" "g * (D div g) = D" by (simp_all add: g_def)
  then have scale: "int g * int (M div g) = int M" "int g * int (D div g) = int D" by (metis of_nat_mult)+
  have "int g * (sint v * uint ?m) = sint v * (int (unat (SampleRate s)) * int M)" "int g * uint ?d = 44100 * int D"
    using scale unfolding m d by (simp_all only: of_nat_mult mult.left_commute[of "int g"] of_nat_numeral)
  then have "trunc_div (sint v * uint ?m) (uint ?d) = trunc_div (sint v * (int (unat (SampleRate s)) * int M)) (44100 * int D)"
    using trunc_div_scale[OF pb(3), of "sint v * uint ?m" "uint ?d"] by (simp only:)
  then show ?thesis using t set_rates_reduced[OF t pb(1) d0, of v] by auto
qed

section \<open>Witnesses\<close>

theorem CalcSampleMSec_roundtrip_witness:
  "bind_res (CalcSampleMSec 44100 (1, 1) (ucast (1500 :: u32)) 0x01) (\<lambda>n. CalcSampleMSec 44100 (1, 1) (ucast n) 0x00) = Ok 1500"
  by (rule CalcSampleMSec_roundtrip) simp_all

text \<open>A song of 50 Hz played at 60 Hz, with an output of 48000 Hz: 400 samples for 441 of the file.\<close>

abbreviation pal_song :: vgm where
  "pal_song \<equiv> example_vgm\<lparr>SampleRate := 48000, VGMPbRate := 60, VGMHead := (VGMHead example_vgm)\<lparr>lngRate := 50\<rparr>\<rparr>"

lemma pal_rates: "bind_res (set_rates pal_song) (\<lambda>t. Ok (VGMSmplRateMul t, VGMSmplRateDiv t)) = Ok (400, 441)"
  by code_simp

theorem set_rates_exact_witness:
  "\<exists>t. set_rates pal_song = Ok t \<and> VGMSmplRateMul t = 400 \<and> VGMSmplRateDiv t = 441 \<and> coprime (unat (VGMSmplRateMul t)) (unat (VGMSmplRateDiv t)) \<and>
    SampleVGM2Pbk_I t 882 = Ok 800"
proof -
  obtain t where t: "set_rates pal_song = Ok t" "VGMSmplRateMul t = 400" "VGMSmplRateDiv t = 441"
    using pal_rates by (auto elim: bind_res_OkE)
  have "speed pal_song = (50, 60)" "gcd 50 (60 :: nat) = 10" by (simp add: speed_def) code_simp
  then show ?thesis using set_rates_exact[of pal_song 50 60 882] t by (auto simp: trunc_div_def)
qed

end
