(* ===== verification/VgmFile.thy ===== *)
theory VgmFile
  imports VgmTime
begin

text \<open>
  Reading VGM files, from \<^verbatim>\<open>VGMPlay/VGMPlay.c\<close>: the header with its repairs for old versions and broken files, the extra header with
  clocks and volumes, the tag, and what the player asks the header. The header is the byte image of \<^verbatim>\<open>VGM_HEADER\<close>; \<open>header_of\<close> gives the
  fields the interpreter uses. \<^verbatim>\<open>gzopen\<close> and \<^verbatim>\<open>gzread\<close> are those of zlib: \<open>gunzip\<close> is what they deliver for the bytes of a file. Memory is not
  exhausted; \<open>stack\<close> and \<open>heap\<close> are what uninitialised memory holds.
\<close>

section \<open>The header\<close>

definition VGM_HEADER_SIZE :: nat where
  "VGM_HEADER_SIZE = 0xE4"

definition get32 :: "u8 list \<Rightarrow> nat \<Rightarrow> u32" where
  "get32 h p = le32 (h ! p) (h ! (p + 1)) (h ! (p + 2)) (h ! (p + 3))"

definition set32 :: "nat \<Rightarrow> u32 \<Rightarrow> u8 list \<Rightarrow> u8 list" where
  "set32 p v h = h[p := byte_of 0 v, p + 1 := byte_of 1 v, p + 2 := byte_of 2 v, p + 3 := byte_of 3 v]"

definition get16 :: "u8 list \<Rightarrow> nat \<Rightarrow> u16" where
  "get16 h p = le16 (h ! p) (h ! (p + 1))"

definition set16 :: "nat \<Rightarrow> u16 \<Rightarrow> u8 list \<Rightarrow> u8 list" where
  "set16 p v h = h[p := byte_of 0 v, p + 1 := byte_of 1 v]"

text \<open>Offsets of the fields that are repaired.\<close>

definition EOFOffset_at :: nat where "EOFOffset_at = 0x04"
definition Version_at :: nat where "Version_at = 0x08"
definition HzPSG_at :: nat where "HzPSG_at = 0x0C"
definition HzYM2413_at :: nat where "HzYM2413_at = 0x10"
definition GD3Offset_at :: nat where "GD3Offset_at = 0x14"
definition LoopOffset_at :: nat where "LoopOffset_at = 0x1C"
definition LoopSamples_at :: nat where "LoopSamples_at = 0x20"
definition Rate_at :: nat where "Rate_at = 0x24"
definition PSG_Feedback_at :: nat where "PSG_Feedback_at = 0x28"
definition PSG_SRWidth_at :: nat where "PSG_SRWidth_at = 0x2A"
definition PSG_Flags_at :: nat where "PSG_Flags_at = 0x2B"
definition HzYM2612_at :: nat where "HzYM2612_at = 0x2C"
definition HzYM2151_at :: nat where "HzYM2151_at = 0x30"
definition DataOffset_at :: nat where "DataOffset_at = 0x34"
definition HzSPCM_at :: nat where "HzSPCM_at = 0x38"
definition SPCMIntf_at :: nat where "SPCMIntf_at = 0x3C"
definition LoopModifier_at :: nat where "LoopModifier_at = 0x7F"
definition ExtraOffset_at :: nat where "ExtraOffset_at = 0xBC"

lemmas offset_defs = EOFOffset_at_def Version_at_def HzPSG_at_def HzYM2413_at_def GD3Offset_at_def LoopOffset_at_def LoopSamples_at_def
  Rate_at_def PSG_Feedback_at_def PSG_SRWidth_at_def PSG_Flags_at_def HzYM2612_at_def HzYM2151_at_def DataOffset_at_def HzSPCM_at_def
  SPCMIntf_at_def LoopModifier_at_def ExtraOffset_at_def

definition header_of :: "u8 list \<Rightarrow> VGM_HEADER" where
  "header_of h = \<lparr>lngEOFOffset = get32 h EOFOffset_at, lngVersion = get32 h Version_at, lngHzPSG = get32 h HzPSG_at,
     lngHzYM2413 = get32 h HzYM2413_at, lngTotalSamples = get32 h 0x18, lngLoopOffset = get32 h LoopOffset_at,
     lngLoopSamples = get32 h LoopSamples_at, lngRate = get32 h Rate_at, lngHzYM2612 = get32 h HzYM2612_at, lngHzYM2151 = get32 h HzYM2151_at,
     lngDataOffset = get32 h DataOffset_at, lngHzYM2203 = get32 h 0x44, lngHzYM2608 = get32 h 0x48, lngHzYM2610 = get32 h 0x4C,
     lngHzYM3812 = get32 h 0x50, lngHzYM3526 = get32 h 0x54, lngHzY8950 = get32 h 0x58, lngHzYMF262 = get32 h 0x5C,
     lngHzYMZ280B = get32 h 0x68, bytLoopBase = h ! 0x7E, bytLoopModifier = h ! LoopModifier_at\<rparr>"

text \<open>What a read of \<open>n\<close> bytes leaves in memory.\<close>

definition gzread :: "nat \<Rightarrow> (nat \<Rightarrow> u8) \<Rightarrow> u8 list \<Rightarrow> u8 list" where
  "gzread n old contents = map (\<lambda>i. if i < length contents then contents ! i else old i) [0..<n]"

definition clear_from :: "u32 \<Rightarrow> u8 list \<Rightarrow> u8 list" where
  "clear_from p h = (if p < of_nat VGM_HEADER_SIZE then take (unat p) h @ replicate (VGM_HEADER_SIZE - unat p) 0 else h)"

definition old_versions :: "u8 list \<Rightarrow> u8 list" where
  "old_versions h0 =
     (let v = get32 h0 Version_at;
          h1 = (if v < 0x101 then set32 Rate_at 0 h0 else h0);
          h2 = (if v < 0x110 then set32 HzYM2151_at (get32 h1 HzYM2413_at) (set32 HzYM2612_at (get32 h1 HzYM2413_at)
                  ((set16 PSG_Feedback_at 0 h1)[PSG_SRWidth_at := 0])) else h1);
          h3 = (if v < 0x150 then set32 SPCMIntf_at 0 (set32 HzSPCM_at 0 ((set32 DataOffset_at 0 h2)[PSG_Flags_at := 0])) else h2) in
      if get32 h3 HzPSG_at \<noteq> 0 then
        let h4 = (if get16 h3 PSG_Feedback_at = 0 then set16 PSG_Feedback_at 0x0009 h3 else h3) in
        if h4 ! PSG_SRWidth_at = 0 then h4[PSG_SRWidth_at := 0x10] else h4
      else h3)"

definition make_absolute :: "nat \<Rightarrow> u32 \<Rightarrow> u8 list \<Rightarrow> u8 list" where
  "make_absolute p base h = (if get32 h p \<noteq> 0 then set32 p (get32 h p + base) h else h)"

definition drop_behind_end :: "nat \<Rightarrow> u32 \<Rightarrow> u8 list \<Rightarrow> u8 list" where
  "drop_behind_end p v h = (if get32 h EOFOffset_at \<le> get32 h p then set32 p v h else h)"

definition ReadVGMHeader :: "(nat \<Rightarrow> u8) \<Rightarrow> u8 list \<Rightarrow> u8 list" where
  "ReadVGMHeader stack contents =
     (let h0 = old_versions (gzread VGM_HEADER_SIZE stack contents);
          old = get32 h0 Version_at < 0x150;
          h1 = make_absolute LoopOffset_at 0x1C (make_absolute GD3Offset_at 0x14 (make_absolute EOFOffset_at 0x04 h0));
          h2 = make_absolute DataOffset_at 0x34 (if old then set32 DataOffset_at 0x0C h1 else h1);
          h3 = clear_from (if old \<or> get32 h2 DataOffset_at = 0 then 0x40 else get32 h2 DataOffset_at) h2;
          h4 = (if h3 ! LoopModifier_at = 0 then h3[LoopModifier_at := 0x10] else h3);
          h5 = (if get32 h4 ExtraOffset_at \<noteq> 0 then let x = get32 h4 ExtraOffset_at + 0xBC in clear_from x (set32 ExtraOffset_at x h4) else h4) in
      drop_behind_end ExtraOffset_at 0 (drop_behind_end DataOffset_at 0x40 (drop_behind_end LoopOffset_at 0 (drop_behind_end GD3Offset_at 0 h5))))"

section \<open>The tag\<close>

text \<open>A string is the contents of its buffer, with its terminator.\<close>

record GD3_TAG =
  fccGD3 :: u32
  gd3_Version :: u32
  lngTagLength :: u32
  strTrackNameE :: "u16 list option"
  strTrackNameJ :: "u16 list option"
  strGameNameE :: "u16 list option"
  strGameNameJ :: "u16 list option"
  strSystemNameE :: "u16 list option"
  strSystemNameJ :: "u16 list option"
  strAuthorNameE :: "u16 list option"
  strAuthorNameJ :: "u16 list option"
  strReleaseDate :: "u16 list option"
  strCreator :: "u16 list option"
  strNotes :: "u16 list option"

definition FCC_VGM :: u32 where "FCC_VGM = 0x206D6756"
definition FCC_GD3 :: u32 where "FCC_GD3 = 0x20336447"

definition tag_of :: "u32 \<Rightarrow> u32 \<Rightarrow> u32 \<Rightarrow> u16 list option list \<Rightarrow> GD3_TAG" where
  "tag_of fcc ver len s = \<lparr>fccGD3 = fcc, gd3_Version = ver, lngTagLength = len, strTrackNameE = s ! 0, strTrackNameJ = s ! 1,
     strGameNameE = s ! 2, strGameNameJ = s ! 3, strSystemNameE = s ! 4, strSystemNameJ = s ! 5, strAuthorNameE = s ! 6,
     strAuthorNameJ = s ! 7, strReleaseDate = s ! 8, strCreator = s ! 9, strNotes = s ! 10\<rparr>"

text \<open>A number from the file; its variable is not initialised when the file is too short.\<close>

definition gzgetLE32 :: "u8 list \<Rightarrow> u32 \<Rightarrow> u32 res" where
  "gzgetLE32 contents p = require (unat p + 3 < length contents) Undefined (Ok (get32 contents (unat p)))"

text \<open>The loop over the characters; \<open>room\<close> is the number of characters left in the buffer, the list the file from the position on.\<close>

fun wstr_loop :: "nat \<Rightarrow> u32 \<Rightarrow> u32 \<Rightarrow> u8 list \<Rightarrow> (u16 list \<times> u32) res" where
  "wstr_loop room CurPos EOFPos (b0 # b1 # rest) = require (0 < room) OutOfBounds
     (let c = le16 b0 b1; p = CurPos + 2 in
      if EOFPos \<le> p then Ok ([0], p)
      else if c = 0 then Ok ([0], p)
      else bind_res (wstr_loop (room - 1) p EOFPos rest) (\<lambda>(s, q). Ok (c # s, q)))"
| "wstr_loop room CurPos EOFPos _ = Fail Undefined"

definition ReadWStrFromFile :: "u8 list \<Rightarrow> u32 \<Rightarrow> u32 \<Rightarrow> (u16 list option \<times> u32) res" where
  "ReadWStrFromFile contents FilePos EOFPos = (if EOFPos \<le> FilePos then Ok (None, FilePos)
     else bind_res (wstr_loop (unat (EOFPos - FilePos) div 2) FilePos EOFPos (drop (unat FilePos) contents)) (\<lambda>(s, p). Ok (Some s, p)))"

primrec read_strings :: "nat \<Rightarrow> u8 list \<Rightarrow> u32 \<Rightarrow> u32 \<Rightarrow> u16 list option list res" where
  "read_strings 0 contents p EOFPos = Ok []"
| "read_strings (Suc n) contents p EOFPos = bind_res (ReadWStrFromFile contents p EOFPos) (\<lambda>(s, q).
     bind_res (read_strings n contents q EOFPos) (\<lambda>ss. Ok (s # ss)))"

text \<open>The code and the tag; \<open>0x10\<close>: the offset was wrong.\<close>

definition ReadGD3Tag :: "u8 list \<Rightarrow> u32 \<Rightarrow> (u8 \<times> GD3_TAG) res" where
  "ReadGD3Tag contents GD3Offset =
     (let none = tag_of 0 0 0 (replicate 11 None) in
      if GD3Offset = 0 then Ok (0, none)
      else bind_res (gzgetLE32 contents GD3Offset) (\<lambda>fcc.
        if fcc \<noteq> FCC_GD3 then Ok (0x10, none)
        else bind_res (gzgetLE32 contents (GD3Offset + 4)) (\<lambda>ver. bind_res (gzgetLE32 contents (GD3Offset + 8)) (\<lambda>len.
          bind_res (read_strings 11 contents (GD3Offset + 12) (GD3Offset + 12 + len)) (\<lambda>ss. Ok (0, tag_of fcc ver len ss))))))"

definition MakeEmptyWStr :: "u16 list" where
  "MakeEmptyWStr = [0]"

section \<open>The extra header\<close>

text \<open>Clocks of second chips and volumes: the number of entries and the entries, \<open>None\<close> for \<^verbatim>\<open>NULL\<close>.\<close>

record VGM_HDR_EXTRA =
  extra_DataSize :: u32
  Chp2ClkOffset :: u32
  ChpVolOffset :: u32

type_synonym VGMX_CHP_EXTRA32 = "u8 \<times> (u8 \<times> u32) list option"
type_synonym VGMX_CHP_EXTRA16 = "u8 \<times> (u8 \<times> u8 \<times> u16) list option"

primrec read_clocks :: "nat \<Rightarrow> u8 list \<Rightarrow> u32 \<Rightarrow> (u8 \<times> u32) list res" where
  "read_clocks 0 data p = Ok []"
| "read_clocks (Suc n) data p = bind_res (byte_at data (unat p)) (\<lambda>t. bind_res (ReadLE32 data (unat (p + 1))) (\<lambda>d.
     bind_res (read_clocks n data (p + 5)) (\<lambda>xs. Ok ((t, d) # xs))))"

primrec read_volumes :: "nat \<Rightarrow> u8 list \<Rightarrow> u32 \<Rightarrow> (u8 \<times> u8 \<times> u16) list res" where
  "read_volumes 0 data p = Ok []"
| "read_volumes (Suc n) data p = bind_res (byte_at data (unat p)) (\<lambda>t. bind_res (byte_at data (unat (p + 1))) (\<lambda>f.
     bind_res (ReadLE16 data (unat (p + 2))) (\<lambda>d. bind_res (read_volumes n data (p + 4)) (\<lambda>xs. Ok ((t, f, d) # xs)))))"

definition ReadChipExtraData32 :: "u8 list \<Rightarrow> u32 \<Rightarrow> VGMX_CHP_EXTRA32 res" where
  "ReadChipExtraData32 data StartOffset = (if StartOffset = 0 \<or> length data \<le> unat StartOffset then Ok (0, None)
     else bind_res (byte_at data (unat StartOffset)) (\<lambda>n. bind_res (read_clocks (unat n) data (StartOffset + 1)) (\<lambda>xs.
       Ok (n, if n = 0 then None else Some xs))))"

definition ReadChipExtraData16 :: "u8 list \<Rightarrow> u32 \<Rightarrow> VGMX_CHP_EXTRA16 res" where
  "ReadChipExtraData16 data StartOffset = (if StartOffset = 0 \<or> length data \<le> unat StartOffset then Ok (0, None)
     else bind_res (byte_at data (unat StartOffset)) (\<lambda>n. bind_res (read_volumes (unat n) data (StartOffset + 1)) (\<lambda>xs.
       Ok (n, if n = 0 then None else Some xs))))"

definition extra_offset :: "u8 list \<Rightarrow> u32 \<Rightarrow> u32 res" where
  "extra_offset data p = bind_res (ReadLE32 data (unat p)) (\<lambda>v. Ok (if v \<noteq> 0 then v + p else 0))"

definition read_extra_header :: "u8 list \<Rightarrow> u32 \<Rightarrow> VGM_HDR_EXTRA res" where
  "read_extra_header data CurPos = bind_res (ReadLE32 data (unat CurPos)) (\<lambda>n.
     let DataSize = (if 12 < n then 12 else n); HdrLimit = CurPos + DataSize in
     if CurPos + 4 < HdrLimit then bind_res (extra_offset data (CurPos + 4)) (\<lambda>c.
       if CurPos + 8 < HdrLimit then bind_res (extra_offset data (CurPos + 8)) (\<lambda>v.
         Ok \<lparr>extra_DataSize = DataSize, Chp2ClkOffset = c, ChpVolOffset = v\<rparr>)
       else Ok \<lparr>extra_DataSize = DataSize, Chp2ClkOffset = c, ChpVolOffset = 0\<rparr>)
     else Ok \<lparr>extra_DataSize = DataSize, Chp2ClkOffset = 0, ChpVolOffset = 0\<rparr>)"

section \<open>Opening and closing a file\<close>

record vgm_file =
  FileMode :: u8
  file_head :: "u8 list"
  VGMDataLen :: u32
  file_data :: "u8 list option"
  VGMHeadX :: VGM_HDR_EXTRA
  Clocks :: VGMX_CHP_EXTRA32
  Volumes :: VGMX_CHP_EXTRA16
  VGMTag :: GD3_TAG

definition FreeGD3Tag :: "GD3_TAG \<Rightarrow> GD3_TAG" where
  "FreeGD3Tag t = tag_of 0 (gd3_Version t) (lngTagLength t) (replicate 11 None)"

definition CloseVGMFile :: "vgm_file \<Rightarrow> vgm_file" where
  "CloseVGMFile f = (if FileMode f = 0xFF then f
     else f\<lparr>FileMode := 0xFF, file_head := set32 0 0 (file_head f), Clocks := (fst (Clocks f), None), Volumes := (fst (Volumes f), None),
       file_data := None, VGMTag := if FileMode f = 0x00 then FreeGD3Tag (VGMTag f) else VGMTag f\<rparr>)"

definition GetGZFileLength_Internal :: "u8 list \<Rightarrow> u32" where
  "GetGZFileLength_Internal b = (if 4 \<le> length b \<and> b ! 0 = 0x1F \<and> b ! 1 = 0x8B then get32 b (length b - 4) else of_nat (length b))"

text \<open>The repairs after reading, before the size of the data is known to fit.\<close>

definition repair_header :: "u32 \<Rightarrow> u8 list \<Rightarrow> u8 list" where
  "repair_header FileSize h =
     (let len = (if FileSize = 0 then get32 h EOFOffset_at else FileSize);
          h1 = (if get32 h EOFOffset_at = 0 \<or> len < get32 h EOFOffset_at then set32 EOFOffset_at len h else h);
          h2 = (if get32 h1 LoopOffset_at \<noteq> 0 \<and> get32 h1 LoopSamples_at = 0 then set32 LoopOffset_at 0 h1 else h1) in
      if get32 h2 DataOffset_at < 0x40 then set32 DataOffset_at 0x40 h2 else h2)"

definition OpenVGMFile_Internal :: "(nat \<Rightarrow> u8) \<Rightarrow> (nat \<Rightarrow> u8) \<Rightarrow> u8 list \<Rightarrow> u32 \<Rightarrow> vgm_file \<Rightarrow> (bool \<times> vgm_file) res" where
  "OpenVGMFile_Internal stack heap contents FileSize f =
     bind_res (gzgetLE32 contents 0) (\<lambda>fcc.
     if fcc \<noteq> FCC_VGM then Ok (False, f)
     else let h0 = ReadVGMHeader stack contents; f1 = (CloseVGMFile f)\<lparr>FileMode := 0x00, VGMDataLen := FileSize, file_head := h0\<rparr> in
       if get32 h0 0 \<noteq> FCC_VGM then Ok (False, f1)
       else let h = repair_header FileSize h0; len = get32 h EOFOffset_at; data = gzread (unat len) heap contents;
                zero = \<lparr>extra_DataSize = 0, Chp2ClkOffset = 0, ChpVolOffset = 0\<rparr> in
         bind_res (if get32 h ExtraOffset_at \<noteq> 0 then
             bind_res (read_extra_header data (get32 h ExtraOffset_at)) (\<lambda>x. bind_res (ReadChipExtraData32 data (Chp2ClkOffset x)) (\<lambda>c.
             bind_res (ReadChipExtraData16 data (ChpVolOffset x)) (\<lambda>v. Ok (x, c, v))))
           else Ok (zero, (0, None), (0, None))) (\<lambda>(x, c, v).
         bind_res (ReadGD3Tag contents (get32 h GD3Offset_at)) (\<lambda>(ret, tag).
         let h' = (if ret = 0x10 then set32 GD3Offset_at 0 h else h) in
         Ok (True, f1\<lparr>file_head := h', VGMDataLen := len, file_data := Some data, VGMHeadX := x, Clocks := c, Volumes := v,
           VGMTag := if get32 h' GD3Offset_at = 0 then tag_of (fccGD3 tag) (gd3_Version tag) (lngTagLength tag) (replicate 11 (Some MakeEmptyWStr))
             else tag\<rparr>))))"

definition OpenVGMFile :: "(string \<Rightarrow> u8 list option) \<Rightarrow> (u8 list \<Rightarrow> u8 list) \<Rightarrow> (nat \<Rightarrow> u8) \<Rightarrow> (nat \<Rightarrow> u8) \<Rightarrow> string \<Rightarrow> vgm_file \<Rightarrow>
    (bool \<times> vgm_file) res" where
  "OpenVGMFile disk gunzip stack heap FileName f = (case disk FileName of None \<Rightarrow> Ok (False, f)
     | Some b \<Rightarrow> OpenVGMFile_Internal stack heap (gunzip b) (GetGZFileLength_Internal b) f)"

text \<open>The size, and the header and the tag if the caller wants them.\<close>

definition GetVGMFileInfo_Internal :: "(nat \<Rightarrow> u8) \<Rightarrow> u8 list \<Rightarrow> u32 \<Rightarrow> bool \<Rightarrow> bool \<Rightarrow> (u32 \<times> u8 list option \<times> GD3_TAG option) res" where
  "GetVGMFileInfo_Internal stack contents FileSize want_head want_tag =
     bind_res (gzgetLE32 contents 0) (\<lambda>fcc.
     if fcc \<noteq> FCC_VGM then Ok (0, None, None)
     else if \<not> want_head \<and> \<not> want_tag then Ok (FileSize, None, None)
     else let h = ReadVGMHeader stack contents;
              h1 = (if get32 h EOFOffset_at = 0 \<or> FileSize < get32 h EOFOffset_at then set32 EOFOffset_at FileSize h else h);
              h2 = (if get32 h1 DataOffset_at < 0x40 then set32 DataOffset_at 0x40 h1 else h1);
              head = (if want_head then Some h2 else None) in
       if want_tag then bind_res (ReadGD3Tag contents (get32 h2 GD3Offset_at)) (\<lambda>(ret, tag). Ok (FileSize, head, Some tag))
       else Ok (FileSize, head, None))"

section \<open>Clocks and volumes of the chips\<close>

text \<open>The offset of the clock of each chip.\<close>

definition clock_offsets :: "nat list" where
  "clock_offsets = [0x0C, 0x10, 0x2C, 0x30, 0x38, 0x40, 0x44, 0x48, 0x4C, 0x50, 0x54, 0x58, 0x5C, 0x60, 0x64, 0x68,
     0x6C, 0x70, 0x74, 0x80, 0x84, 0x88, 0x8C, 0x90, 0x98, 0x9C, 0xA0, 0xA4, 0xA8, 0xAC, 0xB0, 0xB4,
     0xB8, 0xC0, 0xC4, 0xC8, 0xCC, 0xD0, 0xD8, 0xDC, 0xE0]"

definition CHIP_COUNT :: nat where
  "CHIP_COUNT = 0x29"

definition psg_type :: "u8 list \<Rightarrow> u8" where
  "psg_type h = (let w = h ! PSG_SRWidth_at; d8 = (h ! PSG_Flags_at) AND 0x08; fb = get16 h PSG_Feedback_at in
     if w = 0x0F then if d8 \<noteq> 0 then 0x05 else 0x01
     else if w = 0x10 then if fb = 0x0009 then 0x07 else if fb = 0x0022 then 0x06 else 0x00
     else if w = 0x11 then if d8 \<noteq> 0 then 0x03 else 0x02
     else 0x00)"

definition first_entry :: "u8 \<times> 'a list option \<Rightarrow> ('a \<Rightarrow> bool) \<Rightarrow> 'a option res" where
  "first_entry e P = (if fst e = 0 then Ok None
     else case snd e of None \<Rightarrow> Fail NullPointer | Some xs \<Rightarrow> Ok (find P (take (unat (fst e)) xs)))"

text \<open>The clock and, where the code sets it, the sub-type; bit 31 is kept for the chips that use it.\<close>

definition GetChipClock :: "u8 list \<Rightarrow> VGMX_CHP_EXTRA32 \<Rightarrow> u8 \<Rightarrow> (u32 \<times> u8 option) res" where
  "GetChipClock h clocks ChipID =
     (let id = ChipID AND 0x7F; second = ChipID AND 0x80 \<noteq> 0 in
      if CHIP_COUNT \<le> unat id \<or> (second \<and> id \<in> {0x05, 0x10, 0x11, 0x1F}) then Ok (0, None)
      else
        let c0 = get32 h (clock_offsets ! unat id);
            sub = (if id = 0x00 \<and> c0 AND 0x80000000 = 0 then psg_type h else if id = 0x12 then h ! 0x78 else if id = 0x1C then h ! 0x96 else 0);
            mask = (if id \<in> {0x00, 0x01, 0x08, 0x09, 0x10, 0x14, 0x16, 0x18, 0x19, 0x25, 0x27} then 0xBFFFFFFF else 0x3FFFFFFF) in
        if second then
          if c0 AND 0x40000000 = 0 then Ok (0, None)
          else bind_res (first_entry clocks (\<lambda>(t, d). t = id)) (\<lambda>e.
            Ok ((case e of Some (t, d) \<Rightarrow> if d \<noteq> 0 then d else c0 | None \<Rightarrow> c0) AND mask, Some sub))
        else Ok (c0 AND mask, Some sub))"

definition CHIP_VOLS :: "u16 list" where
  "CHIP_VOLS = [0x80, 0x200, 0x100, 0x100, 0x180, 0xB0, 0x100, 0x80, 0x80, 0x100, 0x100, 0x100, 0x100, 0x100, 0x100, 0x98,
     0x80, 0xE0, 0x100, 0xC0, 0x100, 0x40, 0x11E, 0x1C0, 0x100, 0xA0, 0x100, 0x100, 0x100, 0xB3, 0x100, 0x100,
     0x20, 0x100, 0x100, 0x100, 0x40, 0x20, 0x100, 0x40, 0x280]"

definition base_volume :: "GD3_TAG \<Rightarrow> u8 \<Rightarrow> u16 res" where
  "base_volume tag ChipID = (let k = unat (ChipID AND 0x7F) in require (k < length CHIP_VOLS) OutOfBounds
     (Ok (if ChipID = 0x18 \<and> (case strSystemNameE tag of None \<Rightarrow> False | Some s \<Rightarrow> take 2 s = [0x43, 0x50]) then 110
          else if ChipID = 0x86 then (CHIP_VOLS ! k) div 2
          else CHIP_VOLS ! k)))"

definition GetChipVolume :: "vgm_file \<Rightarrow> bool \<Rightarrow> u8 \<Rightarrow> u8 \<Rightarrow> u8 \<Rightarrow> u16 res" where
  "GetChipVolume f DoubleSSGVol ChipID ChipNum0 ChipCnt0 =
     bind_res (base_volume (VGMTag f) ChipID) (\<lambda>v0.
     bind_res (if ChipID = 0x00 then GetChipClock (file_head f) (Clocks f) 0x00 else Ok (0, None)) (\<lambda>(clk, _).
     let t6w28 = (clk AND 0x80000000 \<noteq> 0); ChipNum = (if t6w28 then 0x01 else ChipNum0); ChipCnt = (if t6w28 then 0x01 else ChipCnt0);
         v1 = (if 1 < ChipCnt then v0 div ucast ChipCnt else v0) in
     bind_res (first_entry (Volumes f) (\<lambda>(t, fl, d). t = ChipID \<and> fl AND 0x01 = ChipNum)) (\<lambda>e.
     Ok (case e of None \<Rightarrow> v1
         | Some (t, fl, d) \<Rightarrow>
             if d AND 0x8000 \<noteq> 0 then ucast (drop_bit 8 (ucast v1 * ucast (d AND 0x7FFF) + 0x80 :: u32))
             else if ChipID AND 0x80 \<noteq> 0 \<and> DoubleSSGVol then d * 2 else d))))"

end
