(* ===== verification/VgmSession.thy ===== *)
theory VgmSession
  imports VgmFileLaws
begin

text \<open>
  Sessions with the VGM player: the calls of the application, in any order. A file is opened, played, paused, moved in and stopped. One
  step relation has all calls, for the invariant of the streams; for files without a loop the calls are run as a program that is shown to
  end.
\<close>

section \<open>From the file to the player\<close>

text \<open>Reader and interpreter work on the same header and the same buffer.\<close>

definition opened :: "vgm_file \<Rightarrow> vgm \<Rightarrow> vgm" where
  "opened f s = s\<lparr>VGMHead := header_of (file_head f), VGMData := (case file_data f of None \<Rightarrow> [] | Some d \<Rightarrow> d)\<rparr>"

text \<open>The calls; \<open>Fill\<close> is the interpreter's part of one \<^verbatim>\<open>FillBuffer\<close>.\<close>

datatype vgm_call = Play "u8 \<Rightarrow> chip \<Rightarrow> bool" | Fill u32 | Pause bool | Restart | Seek bool s32 | Stop

fun run_call :: "nat \<Rightarrow> vgm_call \<Rightarrow> vgm \<Rightarrow> vgm res" where
  "run_call k (Play present) s = PlayVGM k present s"
| "run_call k (Fill n) s = InterpretFile k n s"
| "run_call k (Pause b) s = Ok (PauseVGM b s)"
| "run_call k Restart s = RestartVGM k s"
| "run_call k (Seek rel m) s = SeekVGM k rel m s"
| "run_call k Stop s = Ok (StopVGM s)"

definition run_calls :: "nat \<Rightarrow> vgm_call list \<Rightarrow> vgm \<Rightarrow> vgm res" where
  "run_calls k cs s = for_each cs (run_call k) s"

text \<open>Before the first call; the arrays of the program are cleared.\<close>

definition fresh_player :: "vgm \<Rightarrow> bool" where
  "fresh_player s \<longleftrightarrow> PlayingMode s = 0xFF \<and> DacCtrlUsg s = [] \<and> (\<forall>i. DacCtrl s i = \<lparr>Enable = False, dac_Bank = 0\<rparr>) \<and>
     length (PCMBank s) = PCM_BANK_COUNT"

inductive session_step :: "vgm \<Rightarrow> vgm \<Rightarrow> bool" where
  open_file: "PlayingMode s = 0xFF \<Longrightarrow> OpenVGMFile_Internal stack heap contents n f = Ok (True, t) \<Longrightarrow> session_step s (opened t s)"
| call: "run_call k c s = Ok t \<Longrightarrow> session_step s t"

section \<open>The streams\<close>

lemma stop_streams:
  "DacCtrl (fold stop_stream_of xs s) = (\<lambda>i. if i \<in> set xs then (DacCtrl s i)\<lparr>Enable := False\<rparr> else DacCtrl s i)"
  "PCMBank (fold stop_stream_of xs s) = PCMBank s"
  by (induction xs arbitrary: s) (auto simp: stop_stream_of_def on_dac_def fun_eq_iff)

lemma StopVGM_stale:
  assumes "no_stale s"
  shows "no_stale (StopVGM s)"
proof -
  have "DacCtrl (emit c s) = DacCtrl s" "PCMBank (emit c s) = PCMBank s" "DacCtrlUsg (emit c s) = DacCtrlUsg s" for c by (simp_all add: emit_def)
  then show ?thesis
    using assms by (auto simp: StopVGM_def stop_chips_def no_stale_def stop_streams)
qed

lemma set_rates_known: "post (set_rates s) (\<lambda>t. \<exists>m d. t = s\<lparr>VGMSmplRateMul := m, VGMSmplRateDiv := d\<rparr>)"
  unfolding set_rates_def Let_def
  by (intro post_bind_any post_case_prod post_require post_Ok_I) auto

lemma start_chips_stale:
  assumes "\<forall>i. unat (dac_Bank (DacCtrl s i)) < PCM_BANK_COUNT"
  shows "no_stale (start_chips present s)"
  unfolding start_chips_def using assms
  by (intro reset_chips_stale) (simp add: no_stale_def)

lemma PlayVGM_stale:
  assumes "no_stale s"
  shows "post (PlayVGM k present s) no_stale"
proof -
  have b: "\<forall>i. unat (dac_Bank (DacCtrl s i)) < PCM_BANK_COUNT" using assms by (simp add: no_stale_def)
  show ?thesis
    unfolding PlayVGM_def Let_def
    by (intro post_if post_bind[OF set_rates_known] post_bind[where Q = no_stale] InterpretFile_stale post_Ok_I)
      (use b assms in \<open>auto intro!: start_chips_stale\<close>)
qed

lemma run_call_stale: "no_stale s \<Longrightarrow> post (run_call k c s) no_stale"
  using player_no_stale[of s] by (cases c) (auto simp: PlayVGM_stale StopVGM_stale)

interpretation session: invariant_of fresh_player session_step no_stale
proof
  fix s :: vgm
  assume "fresh_player s"
  then show "no_stale s" by (simp add: fresh_player_def no_stale_def PCM_BANK_COUNT_def)
next
  fix s t
  assume s: "no_stale s" and "session_step s t"
  from this(2) show "no_stale t"
  proof cases
    case (open_file stack heap contents n f u)
    then show ?thesis using s by (simp add: opened_def no_stale_def)
  next
    case (call k c)
    then show ?thesis using run_call_stale[OF s, of k c] by (simp add: post_def)
  qed
qed

text \<open>C9: no stream reads a buffer that is gone: in all states that the calls of the application lead to, with whatever files in between, every
  stream in use is on a bank, and has either no data or all the current data of its bank.\<close>
theorem session_no_stale:
  assumes "reach fresh_player session_step s" "i \<in> set (DacCtrlUsg s)"
  shows "let b = unat (dac_Bank (DacCtrl s i)) in b < length (PCMBank s) \<and>
    ((Data (DACData s i), DataLen (DACData s i)) = (None, 0) \<or>
     (Data (DACData s i), DataLen (DACData s i)) = (Some (bank_Data (PCMBank s ! b)), bank_DataSize (PCMBank s ! b)))"
  using session.reach_inv[OF assms(1)] assms(2) by (auto simp: no_stale_def dac_fits_def Let_def)

section \<open>All calls return\<close>

text \<open>
  \<open>playable k s\<close>: a file without a loop, of less than \<open>k\<close> bytes, none of whose commands is a packed block of zero-bit values and whose music
  does not start behind its end; the song is over, or a command of the music or the end of the file is next.
\<close>

definition good_file :: "nat \<Rightarrow> vgm \<Rightarrow> bool" where
  "good_file k s \<longleftrightarrow> lngLoopOffset (VGMHead s) = 0 \<and> lngEOFOffset (VGMHead s) \<le> 0x7FFFFFF9 \<and>
     blocks_ok (lngDataOffset (VGMHead s)) (VGMData s) \<and> lngDataOffset (VGMHead s) \<le> lngEOFOffset (VGMHead s) \<and>
     unat (lngEOFOffset (VGMHead s)) < k"

definition playable :: "nat \<Rightarrow> vgm \<Rightarrow> bool" where
  "playable k s \<longleftrightarrow> good_file k s \<and>
     (VGMEnd s \<or> (command_at (VGMData s) (lngDataOffset (VGMHead s)) (VGMPos s) \<and> VGMPos s \<le> lngEOFOffset (VGMHead s)))"

lemma playable_fields [simp]:
  "playable k (s\<lparr>VGMSmplPlayed := p\<rparr>) = playable k s" "playable k (s\<lparr>PlayingTime := v\<rparr>) = playable k s"
  "playable k (s\<lparr>ForceVGMExec := e\<rparr>) = playable k s" "playable k (s\<lparr>FadePlay := e\<rparr>) = playable k s"
  "playable k (s\<lparr>FadeStart := v\<rparr>) = playable k s" "playable k (s\<lparr>PausePlay := e\<rparr>) = playable k s"
  "playable k (s\<lparr>Last95Drum := w\<rparr>) = playable k s" "playable k (s\<lparr>Last95Freq := v\<rparr>) = playable k s"
  "playable k (s\<lparr>Last95Max := w\<rparr>) = playable k s" "playable k (s\<lparr>PlayingMode := b\<rparr>) = playable k s"
  "playable k (s\<lparr>chip_calls := cs\<rparr>) = playable k s" "playable k (on_dac i f s) = playable k s" "playable k (emit c s) = playable k s"
  by (simp_all add: playable_def good_file_def on_dac_def emit_def)

lemma stays_playable: "stays s t \<Longrightarrow> playable k s \<Longrightarrow> playable k t"
  by (simp add: stays_def clock_def playable_def good_file_def)

lemma clock_good: "clock t = clock s \<Longrightarrow> good_file k s \<Longrightarrow> good_file k t"
  by (simp add: clock_def good_file_def)

lemma pbk_returns: "SamplePbk2VGM_I s v \<noteq> Fail OutOfFuel" "SampleVGM2Pbk_I s v \<noteq> Fail OutOfFuel"
  by (simp_all add: SamplePbk2VGM_I_def SampleVGM2Pbk_I_def require_def)

lemma InterpretVGM_playable:
  assumes "playable k s"
  shows "ends (InterpretVGM k n s) (playable k)"
proof -
  have s: "ends (vgm_loop k n T s) (playable k)" if "\<not> VGMEnd s" for T
  proof -
    have g: "good_file k s" and p: "command_at (VGMData s) (lngDataOffset (VGMHead s)) (VGMPos s)" "VGMPos s \<le> lngEOFOffset (VGMHead s)"
      using assms that by (simp_all add: playable_def)
    then have "blocks_ok (VGMPos s) (VGMData s)" by (auto simp: good_file_def intro: blocks_ok_later)
    then have "ends (vgm_loop k n T s) (\<lambda>t. (VGMEnd t \<or> (T <s VGMSmplPos t \<and> command_at (VGMData s) (VGMPos s) (VGMPos t) \<and>
        VGMPos t \<le> lngEOFOffset (VGMHead s))) \<and> clock t = clock s)"
      using g p by (intro vgm_loop_ends) (auto simp: good_file_def)
    then show ?thesis
    proof (rule ends_mono)
      fix t
      assume t: "(VGMEnd t \<or> (T <s VGMSmplPos t \<and> command_at (VGMData s) (VGMPos s) (VGMPos t) \<and>
        VGMPos t \<le> lngEOFOffset (VGMHead s))) \<and> clock t = clock s"
      then have c: "clock t = clock s" by simp
      show "playable k t" using t clock_good[OF c g] command_at_later[OF p(1)] by (auto simp: playable_def clock_eq[OF c])
    qed
  qed
  show ?thesis
    unfolding InterpretVGM_def by (intro ends_if ends_bind_any pbk_returns s) (use assms in simp_all)
qed
lemma update_returns: "returns (daccontrol_update rate r n s)"
proof -
  have data: "returns (chip_data d i)" for d i by (simp add: chip_data_def returns_def require_def Let_def split: option.splits)
  have send: "returns (daccontrol_SendCommand r s)" for s
    unfolding daccontrol_SendCommand_def stream_calls_def Let_def
    by (intro returns_rules returns_bind data) (simp_all add: data)
  have loop: "returns (send_loop m r P s)" for m P s
    by (induction m arbitrary: s) (auto intro!: returns_bind send)
  have div: "returns (muldiv64round a b c)" for a b c by (simp add: muldiv64round_def returns_def require_def)
  show ?thesis
    unfolding daccontrol_update_def Let_def by (intro returns_rules send loop div) simp_all
qed

lemma update_dacs_playable:
  assumes "playable k s"
  shows "ends (update_dacs n s) (playable k)"
  unfolding update_dacs_def
  by (rule ends_for_each[where P = "playable k", OF assms], rule ends_bind_any)
    (use update_returns in \<open>auto simp: returns_def split: prod.splits\<close>)

lemma InterpretFile_playable: "playable k s \<Longrightarrow> ends (InterpretFile k n s) (playable k)"
  unfolding InterpretFile_def
  by (intro ends_bind[where Q = "playable k"] ends_if update_dacs_playable InterpretVGM_playable) simp_all

lemma good_fields: "good_file k s \<Longrightarrow> playable k (rewind s)"
  by (simp add: playable_def good_file_def rewind_def first_command)

lemma RestartPlaying_playable:
  assumes "playable k s"
  shows "ends (RestartPlaying k s) (playable k)"
proof -
  have "playable k (reset_chips (rewind s))"
    using assms by (intro stays_playable[OF reset_chips_stays] good_fields) (simp add: playable_def)
  then show ?thesis
    unfolding RestartPlaying_def by (intro ends_bind[where Q = "playable k"] InterpretFile_playable) simp_all
qed

lemma SeekVGM_playable:
  assumes "playable k s"
  shows "ends (SeekVGM k rel m s) (playable k)"
proof -
  have r: "ends (bind_res (RestartPlaying k s) (\<lambda>s1. Ok (f s1, s1))) (\<lambda>(_, t). playable k t)" for f :: "vgm \<Rightarrow> s32"
    by (rule ends_bind[OF RestartPlaying_playable[OF assms]]) simp
  show ?thesis
    unfolding SeekVGM_def Let_def
    by (intro ends_if ends_bind_any[OF pbk_returns(2)] ends_bind[where Q = "\<lambda>(_, t). playable k t"] r)
      (use assms in \<open>auto intro!: ends_bind[where Q = "playable k"] InterpretFile_playable\<close>)
qed
lemma set_rates_ends: "ends (set_rates s) (\<lambda>t. \<exists>m d. t = s\<lparr>VGMSmplRateMul := m, VGMSmplRateDiv := d\<rparr>)"
proof -
  have "set_rates s \<noteq> Fail OutOfFuel"
    by (simp add: set_rates_def pb_rates_def vgm_gcd_correct Let_def require_def)
  then show ?thesis using set_rates_known by (simp add: ends_def)
qed

lemma reset_good: "good_file k (reset_chips s) = good_file k s" "playable k (reset_chips s) = playable k s"
  using reset_chips_stays[of s] by (auto simp: stays_def clock_def playable_def good_file_def)

lemma start_playable: "playable k (start_chips present s) = playable k s"
  unfolding start_chips_def reset_good by (simp add: playable_def good_file_def emit_def)

lemma PlayVGM_playable:
  assumes "good_file k s" "PlayingMode s = 0xFF \<or> playable k s"
  shows "ends (PlayVGM k present s) (playable k)"
  unfolding PlayVGM_def Let_def
  by (intro ends_if ends_bind[OF set_rates_ends] ends_bind[where Q = "playable k"] InterpretFile_playable)
    (use assms in \<open>auto simp: start_playable\<close>, simp_all add: playable_def good_file_def first_command)

lemma StopVGM_playable: "playable k s \<Longrightarrow> playable k (StopVGM s)"
proof -
  have "playable k (fold stop_stream_of xs t) = playable k t" for xs t
    by (induction xs arbitrary: t) (simp_all add: stop_stream_of_def on_dac_def playable_def good_file_def)
  then have "playable k (fold stop_stream_of xs (emit c s)) = playable k s" for xs c by simp
  then show "playable k s \<Longrightarrow> ?thesis"
    by (simp add: StopVGM_def stop_chips_def) (simp add: playable_def good_file_def)
qed

lemma run_call_playable: "playable k s \<Longrightarrow> ends (run_call k c s) (playable k)"
  by (cases c) (auto simp: PlayVGM_playable InterpretFile_playable PauseVGM_def RestartVGM_def RestartPlaying_playable SeekVGM_playable
      StopVGM_playable playable_def[THEN iffD1])

text \<open>C4: a file without a loop that has been opened can be played to its end, whatever the application does: after the start no further call,
  in any order, is cut off by the bound on its rounds, which is the length of the file. Each leaves the song over, or the player at a command
  of the music, reached from the first one by the lengths of the commands. This asks of the file that it is shorter than two gigabytes, that
  its music does not start behind its end, and that no command of the music is a packed data block of zero-bit values, on which the code
  never returns. A damaged file may have a command that reaches outside the buffers, where the model stops with a fault: that is no loop, and
  is not excluded.\<close>
theorem session_ends:
  assumes "OpenVGMFile_Internal stack heap contents n f = Ok (True, t)" "file_data t = Some data"
    "blocks_ok (lngDataOffset (header_of (file_head t))) data"
    "lngLoopOffset (header_of (file_head t)) = 0" "lngDataOffset (header_of (file_head t)) \<le> VGMDataLen t"
    "VGMDataLen t \<le> 0x7FFFFFF9" "unat (VGMDataLen t) < k" "PlayingMode s = 0xFF"
  shows "ends (run_calls k (Play present # cs) (opened t s)) (playable k)"
proof -
  have "good_file k (opened t s)"
    using assms(2-7) OpenVGMFile_length[OF assms(1)] by (simp add: good_file_def opened_def)
  then have "ends (PlayVGM k present (opened t s)) (playable k)"
    using assms(8) by (intro PlayVGM_playable) (simp_all add: opened_def)
  then show ?thesis
    unfolding run_calls_def for_each.simps run_call.simps
    by (rule ends_bind) (rule ends_for_each, simp_all add: run_call_playable)
qed

section \<open>Witnesses\<close>

abbreviation idle_player :: vgm where
  "idle_player \<equiv> example_vgm\<lparr>PlayingMode := 0xFF\<rparr>"

lemma idle_fresh: "fresh_player idle_player"
  by (simp add: fresh_player_def example_vgm_def PCM_BANK_COUNT_def)

lemma small_session:
  "map_sum id DacCtrlUsg (PlayVGM 87 (\<lambda>_ _. True) (idle_player\<lparr>VGMHead := small_head, VGMData := small_file\<rparr>)) = Ok [0]"
  by code_simp

theorem session_no_stale_witness:
  "\<exists>t u. OpenVGMFile_Internal (\<lambda>_. 0) (\<lambda>_. 0) small_file 0x56 no_file = Ok (True, t) \<and>
    run_call 87 (Play (\<lambda>_ _. True)) (opened t idle_player) = Ok u \<and> DacCtrlUsg u = [0] \<and>
    (let b = unat (dac_Bank (DacCtrl u 0)) in b < length (PCMBank u) \<and>
      ((Data (DACData u 0), DataLen (DACData u 0)) = (None, 0) \<or>
       (Data (DACData u 0), DataLen (DACData u 0)) = (Some (bank_Data (PCMBank u ! b)), bank_DataSize (PCMBank u ! b))))"
proof -
  obtain t where t: "OpenVGMFile_Internal (\<lambda>_. 0) (\<lambda>_. 0) small_file 0x56 no_file = Ok (True, t)" "VGMDataLen t = 0x56"
      "header_of (file_head t) = small_head" "file_data t = Some small_file"
    by (rule small_file_Ok)
  then obtain u where u: "run_call 87 (Play (\<lambda>_ _. True)) (opened t idle_player) = Ok u" "DacCtrlUsg u = [0]"
    using small_session by (cases "PlayVGM 87 (\<lambda>_ _. True) (idle_player\<lparr>VGMHead := small_head, VGMData := small_file\<rparr>)") (auto simp: opened_def)
  have "reach fresh_player session_step (opened t idle_player)"
    by (rule reach_step[OF reach_init[of fresh_player, OF idle_fresh]], rule session_step.open_file[OF _ t(1)]) simp
  then have "reach fresh_player session_step u" using session_step.call[OF u(1)] by (rule reach_step)
  from session_no_stale[OF this, of 0] show ?thesis using t(1) u by auto
qed

abbreviation small_calls :: "vgm_call list" where
  "small_calls \<equiv> [Fill 1000, Seek False 20, Pause True, Fill 10, Stop]"

lemma small_calls_run:
  "is_Ok (run_calls 87 (Play (\<lambda>_ _. True) # small_calls) (idle_player\<lparr>VGMHead := small_head, VGMData := small_file\<rparr>))"
  by code_simp

theorem session_ends_witness:
  "\<exists>t u. OpenVGMFile_Internal (\<lambda>_. 0) (\<lambda>_. 0) small_file 0x56 no_file = Ok (True, t) \<and>
    run_calls 87 (Play (\<lambda>_ _. True) # small_calls) (opened t idle_player) = Ok u \<and> playable 87 u"
proof -
  obtain t where t: "OpenVGMFile_Internal (\<lambda>_. 0) (\<lambda>_. 0) small_file 0x56 no_file = Ok (True, t)" "VGMDataLen t = 0x56"
      "header_of (file_head t) = small_head" "file_data t = Some small_file"
    by (rule small_file_Ok)
  have "blocks_ok 0x40 small_file" by (rule listed_commands[of _ "[0x40, 69, 79, 84, 85]"]) (simp, code_simp)
  then have e: "ends (run_calls 87 (Play (\<lambda>_ _. True) # small_calls) (opened t idle_player)) (playable 87)"
    using t by (intro session_ends[OF t(1,4)]) (simp_all add: small_head_def)
  have "opened t idle_player = idle_player\<lparr>VGMHead := small_head, VGMData := small_file\<rparr>" using t(3,4) by (simp add: opened_def)
  then obtain u where "run_calls 87 (Play (\<lambda>_ _. True) # small_calls) (opened t idle_player) = Ok u"
    using small_calls_run by (metis is_OkE)
  then show ?thesis using t(1) e by auto
qed

end
