(* ===== verification/VgmOutput.thy ===== *)
theory VgmOutput
  imports VgmSession
begin

text \<open>
  The output of the VGM player, from \<^verbatim>\<open>VGMPlay/VGMPlay.c\<close>: every chip renders at a rate of its own and is resampled to the rate of the
  output; the samples of all chips are added, scaled by the volume and clipped. The emulated chips are a parameter: \<open>upd\<close> gives, for the calls
  made so far, the type and number of a chip and the number of samples, the samples and the new state of the chips. So is the floating-point
  computation of the fading volume.
\<close>

section \<open>Chips and buffers\<close>

type_synonym s16 = "16 word"
type_synonym stereo = "s32 \<times> s32"

definition both :: "(s32 \<Rightarrow> 'a) \<Rightarrow> stereo \<Rightarrow> 'a \<times> 'a" where
  "both f x = (f (fst x), f (snd x))"

definition add2 :: "'a \<times> 'a \<Rightarrow> 'a \<times> 'a \<Rightarrow> 'a \<times> ('a :: plus)" where
  "add2 x y = (fst x + fst y, snd x + snd y)"

text \<open>The chips paired with a chip follow it in a list.\<close>

record CAUD_ATTR =
  SmpRate :: u32
  chip_Volume :: u16
  ChipType :: u8
  ChipID :: u8
  Resampler :: u8
  SmpP :: u32
  SmpLast :: u32
  SmpNext :: u32
  LSmpl :: stereo
  NSmpl :: stereo

type_synonym 'c stream_func = "chip_call list \<Rightarrow> u8 \<Rightarrow> u8 \<Rightarrow> nat \<Rightarrow> 'c \<Rightarrow> (nat \<Rightarrow> stereo) \<times> 'c"

definition SMPL_BUFSIZE :: nat where
  "SMPL_BUFSIZE = 0x100"

definition buf_at :: "(nat \<Rightarrow> stereo) \<Rightarrow> u32 \<Rightarrow> stereo res" where
  "buf_at buf i = require (unat i < SMPL_BUFSIZE) OutOfBounds (Ok (buf (unat i)))"

text \<open>\<open>StreamUpdate\<close> for \<open>n\<close> samples to the buffer from \<open>off\<close> on.\<close>

definition StreamUpdate :: "'c stream_func \<Rightarrow> chip_call list \<Rightarrow> CAUD_ATTR \<Rightarrow> nat \<Rightarrow> u32 \<Rightarrow> (nat \<Rightarrow> stereo) \<times> 'c \<Rightarrow> ((nat \<Rightarrow> stereo) \<times> 'c) res" where
  "StreamUpdate upd calls c off n s = (case s of (buf, e) \<Rightarrow> require (off + unat n \<le> SMPL_BUFSIZE) OutOfBounds
     (case upd calls (ChipType c) (ChipID c) (unat n) e of (x, e') \<Rightarrow>
       Ok (\<lambda>i. if off \<le> i \<and> i < off + unat n then x (i - off) else buf i, e')))"

section \<open>Fixed-point positions\<close>

definition FIXPNT_FACT :: u32 where
  "FIXPNT_FACT = 2048"

definition getfriction :: "u32 \<Rightarrow> u32" where
  "getfriction x = x AND (FIXPNT_FACT - 1)"

definition getnfriction :: "u32 \<Rightarrow> u32" where
  "getnfriction x = (FIXPNT_FACT - x) AND (FIXPNT_FACT - 1)"

definition fp2i_floor :: "u32 \<Rightarrow> u32" where
  "fp2i_floor x = x div FIXPNT_FACT"

definition fp2i_ceil :: "u32 \<Rightarrow> u32" where
  "fp2i_ceil x = (x + (FIXPNT_FACT - 1)) div FIXPNT_FACT"

text \<open>The position in the chip's stream for sample \<open>n\<close> of the output.\<close>

definition InPosL :: "u32 \<Rightarrow> u32 \<Rightarrow> u32 \<Rightarrow> u32" where
  "InPosL chip_rate out_rate n = ucast ((ucast (FIXPNT_FACT * n) * ucast chip_rate :: u64) div ucast out_rate)"

section \<open>The resamplers\<close>

definition vol :: "CAUD_ATTR \<Rightarrow> s32" where
  "vol c = ucast (chip_Volume c)"

definition sdiv64 :: "u64 \<Rightarrow> s32 \<Rightarrow> s32 res" where
  "sdiv64 a b = require (b \<noteq> 0) Undefined (Ok (word_of_int (sint a sdiv sint b)))"

definition scaled :: "CAUD_ATTR \<Rightarrow> s32 \<Rightarrow> u64 \<times> u64 \<Rightarrow> stereo res" where
  "scaled c SmpCnt t = bind_res (sdiv64 (fst t * ucast (chip_Volume c)) SmpCnt) (\<lambda>l.
     bind_res (sdiv64 (snd t * ucast (chip_Volume c)) SmpCnt) (\<lambda>r. Ok (l, r)))"

text \<open>The sum over the first \<open>n\<close> samples, and what the fast resampler makes of them.\<close>

primrec sum_loop :: "nat \<Rightarrow> (nat \<Rightarrow> stereo) \<Rightarrow> stereo" where
  "sum_loop 0 buf = (0, 0)"
| "sum_loop (Suc n) buf = add2 (sum_loop n buf) (buf n)"

definition old_value :: "CAUD_ATTR \<Rightarrow> s32 \<Rightarrow> (nat \<Rightarrow> stereo) \<Rightarrow> stereo" where
  "old_value c SmpCnt buf =
     (if SmpCnt = 1 then both (\<lambda>x. x * vol c) (buf 0)
      else if SmpCnt = 2 then both (\<lambda>x. signed_drop_bit 1 (x * vol c)) (add2 (buf 0) (buf 1))
      else both (\<lambda>x. c_div (x * vol c) SmpCnt) (sum_loop (unat SmpCnt) buf))"

text \<open>The resamplers change the chip, the buffers and the chips' state, and add to the samples of \<open>out\<close>.\<close>

type_synonym 'c rs = "CAUD_ATTR \<times> stereo list \<times> (nat \<Rightarrow> stereo) \<times> 'c"

definition resample_old :: "'c stream_func \<Rightarrow> chip_call list \<Rightarrow> u32 \<Rightarrow> 'c rs \<Rightarrow> 'c rs res" where
  "resample_old upd calls out_rate s = (case s of (c, out, buf, e) \<Rightarrow> require (out_rate \<noteq> 0 \<and> out \<noteq> []) Undefined
     (let p = SmpP c + of_nat (length out); next_pos = ucast ((ucast p * ucast (SmpRate c) :: u64) div ucast out_rate);
          c1 = c\<lparr>SmpLast := SmpNext c, SmpP := p, SmpNext := next_pos\<rparr> in
      if next_pos \<le> SmpLast c1 then Ok (c1, out[0 := add2 (out ! 0) (both (\<lambda>x. x * vol c) (LSmpl c))], buf, e)
      else let SmpCnt = next_pos - SmpLast c1 in
        bind_res (StreamUpdate upd calls c 0 SmpCnt (buf, e)) (\<lambda>(buf, e).
        Ok (c1\<lparr>LSmpl := buf (unat (SmpCnt - 1))\<rparr>, out[0 := add2 (out ! 0) (old_value c SmpCnt buf)], buf, e))))"

definition interpolate :: "CAUD_ATTR \<Rightarrow> (nat \<Rightarrow> stereo) \<Rightarrow> u32 \<Rightarrow> stereo res" where
  "interpolate c buf InPos = bind_res (buf_at buf (fp2i_floor InPos)) (\<lambda>x. bind_res (buf_at buf (fp2i_ceil InPos)) (\<lambda>y.
     let SmpFrc = getfriction InPos in
     scaled c FIXPNT_FACT (add2 (both (\<lambda>v. scast v * ucast (FIXPNT_FACT - SmpFrc)) x) (both (\<lambda>v. scast v * ucast SmpFrc) y))))"

primrec up_loop :: "CAUD_ATTR \<Rightarrow> u32 \<Rightarrow> u32 \<Rightarrow> (nat \<Rightarrow> stereo) \<Rightarrow> u32 \<Rightarrow> stereo list \<Rightarrow> stereo list res" where
  "up_loop c out_rate InBase buf OutPos [] = Ok []"
| "up_loop c out_rate InBase buf OutPos (x # xs) =
     bind_res (interpolate c buf (InBase + InPosL (SmpRate c) out_rate OutPos)) (\<lambda>v.
     bind_res (up_loop c out_rate InBase buf (OutPos + 1) xs) (\<lambda>ys. Ok (add2 x v # ys)))"

definition resample_up :: "'c stream_func \<Rightarrow> chip_call list \<Rightarrow> u32 \<Rightarrow> 'c rs \<Rightarrow> 'c rs res" where
  "resample_up upd calls out_rate s = (case s of (c, out, buf, e) \<Rightarrow> require (out_rate \<noteq> 0) Undefined
     (let p = InPosL (SmpRate c) out_rate (SmpP c); InPre = fp2i_floor p; InNow = fp2i_ceil p in
      bind_res (StreamUpdate upd calls c 2 (InNow - SmpNext c) (buf(0 := LSmpl c, 1 := NSmpl c), e)) (\<lambda>(buf, e).
      let InBase = FIXPNT_FACT + (p - SmpNext c * FIXPNT_FACT);
          last_pos = InBase + InPosL (SmpRate c) out_rate (of_nat (length out) - 1);
          i = (if out = [] then InPre else fp2i_floor last_pos); j = (if out = [] then InNow else fp2i_ceil last_pos) in
      bind_res (up_loop c out_rate InBase buf 0 out) (\<lambda>out'.
      bind_res (buf_at buf i) (\<lambda>x. bind_res (buf_at buf j) (\<lambda>y.
      Ok (c\<lparr>SmpLast := InPre, SmpNext := InNow, LSmpl := x, NSmpl := y, SmpP := SmpP c + of_nat (length out)\<rparr>, out', buf, e)))))))"

definition resample_copy :: "'c stream_func \<Rightarrow> chip_call list \<Rightarrow> u32 \<Rightarrow> 'c rs \<Rightarrow> 'c rs res" where
  "resample_copy upd calls out_rate s = (case s of (c, out, buf, e) \<Rightarrow> require (out_rate \<noteq> 0) Undefined
     (let next_pos = SmpP c * SmpRate c div out_rate in
      bind_res (StreamUpdate upd calls c 0 (of_nat (length out)) (buf, e)) (\<lambda>(buf, e).
      Ok (c\<lparr>SmpNext := next_pos, SmpP := SmpP c + of_nat (length out), SmpLast := next_pos\<rparr>,
        map (\<lambda>i. add2 (out ! i) (both (\<lambda>x. x * vol c) (buf i))) [0..<length out], buf, e))))"

text \<open>The downsampler gives the average over the time of one sample of the output.\<close>

primrec whole_loop :: "nat \<Rightarrow> (nat \<Rightarrow> stereo) \<Rightarrow> u32 \<Rightarrow> u64 \<times> u64 \<Rightarrow> (u64 \<times> u64) res" where
  "whole_loop 0 buf InNow t = Ok t"
| "whole_loop (Suc n) buf InNow t = bind_res (buf_at buf InNow) (\<lambda>x.
     whole_loop n buf (InNow + 1) (add2 t (both (\<lambda>v. scast v * ucast FIXPNT_FACT) x)))"

definition average :: "CAUD_ATTR \<Rightarrow> (nat \<Rightarrow> stereo) \<Rightarrow> u32 \<Rightarrow> u32 \<Rightarrow> stereo res" where
  "average c buf InPos InPosNext =
     (let first = getnfriction InPos; last = getfriction InPosNext; InPre = fp2i_floor InPosNext; InNow = fp2i_ceil InPos in
      bind_res (if first \<noteq> 0 then bind_res (buf_at buf (fp2i_floor InPos)) (\<lambda>x. Ok (both (\<lambda>v. scast v * ucast first) x)) else Ok (0, 0)) (\<lambda>t0.
      bind_res (if last \<noteq> 0 then bind_res (buf_at buf InPre) (\<lambda>x. Ok (add2 t0 (both (\<lambda>v. scast v * ucast last) x))) else Ok t0) (\<lambda>t1.
      bind_res (whole_loop (unat InPre - unat InNow) buf InNow t1) (\<lambda>t2.
      scaled c (first + last + (InPre - InNow) * FIXPNT_FACT) t2))))"

primrec down_loop :: "CAUD_ATTR \<Rightarrow> u32 \<Rightarrow> u32 \<Rightarrow> (nat \<Rightarrow> stereo) \<Rightarrow> u32 \<Rightarrow> u32 \<Rightarrow> stereo list \<Rightarrow> stereo list res" where
  "down_loop c out_rate InBase buf OutPos InPos [] = Ok []"
| "down_loop c out_rate InBase buf OutPos InPos (x # xs) =
     (let InPosNext = InBase + InPosL (SmpRate c) out_rate (OutPos + 1) in
      bind_res (average c buf InPos InPosNext) (\<lambda>v.
      bind_res (down_loop c out_rate InBase buf (OutPos + 1) InPosNext xs) (\<lambda>ys. Ok (add2 x v # ys))))"

definition resample_down :: "'c stream_func \<Rightarrow> chip_call list \<Rightarrow> u32 \<Rightarrow> 'c rs \<Rightarrow> 'c rs res" where
  "resample_down upd calls out_rate s = (case s of (c, out, buf, e) \<Rightarrow> require (out_rate \<noteq> 0 \<and> out \<noteq> []) Undefined
     (let n = of_nat (length out); next_pos = fp2i_ceil (InPosL (SmpRate c) out_rate (SmpP c + n)) in
      bind_res (StreamUpdate upd calls c 1 (next_pos - SmpLast c) (buf(0 := LSmpl c), e)) (\<lambda>(buf, e).
      let InBase = FIXPNT_FACT + (InPosL (SmpRate c) out_rate (SmpP c) - SmpLast c * FIXPNT_FACT) in
      bind_res (down_loop c out_rate InBase buf 0 InBase out) (\<lambda>out'.
      bind_res (buf_at buf (fp2i_floor (InBase + InPosL (SmpRate c) out_rate n))) (\<lambda>x.
      Ok (c\<lparr>SmpNext := next_pos, LSmpl := x, SmpP := SmpP c + n, SmpLast := next_pos\<rparr>, out', buf, e))))))"

definition wrap_second :: "u32 \<Rightarrow> CAUD_ATTR \<Rightarrow> CAUD_ATTR" where
  "wrap_second out_rate c = (if SmpRate c \<le> SmpLast c
     then c\<lparr>SmpLast := SmpLast c - SmpRate c, SmpNext := SmpNext c - SmpRate c, SmpP := SmpP c - out_rate\<rparr> else c)"

definition resample_chip :: "'c stream_func \<Rightarrow> chip_call list \<Rightarrow> u32 \<Rightarrow> 'c rs \<Rightarrow> 'c rs res" where
  "resample_chip upd calls out_rate s = bind_res
     (if Resampler (fst s) = 0x00 then resample_old upd calls out_rate s
      else if Resampler (fst s) = 0x01 then resample_up upd calls out_rate s
      else if Resampler (fst s) = 0x02 then resample_copy upd calls out_rate s
      else if Resampler (fst s) = 0x03 then resample_down upd calls out_rate s
      else Ok ((fst s)\<lparr>SmpP := SmpP (fst s) + out_rate\<rparr>, snd s))
     (\<lambda>(c, s). Ok (wrap_second out_rate c, s))"

primrec ResampleChipStream :: "'c stream_func \<Rightarrow> chip_call list \<Rightarrow> u32 \<Rightarrow> CAUD_ATTR list \<Rightarrow> stereo list \<times> (nat \<Rightarrow> stereo) \<times> 'c \<Rightarrow>
    (CAUD_ATTR list \<times> stereo list \<times> (nat \<Rightarrow> stereo) \<times> 'c) res" where
  "ResampleChipStream upd calls out_rate [] s = Ok ([], s)"
| "ResampleChipStream upd calls out_rate (c # cs) s = bind_res (resample_chip upd calls out_rate (c, s)) (\<lambda>(c', s).
     bind_res (ResampleChipStream upd calls out_rate cs s) (\<lambda>(cs', s). Ok (c' # cs', s)))"

section \<open>Setting up\<close>

record 'c mixer =
  player :: vgm
  CAudio :: "u8 \<Rightarrow> chip \<Rightarrow> CAUD_ATTR list"
  Disabled :: "u8 \<Rightarrow> chip \<Rightarrow> bool"
  ChipListAll :: "(u8 \<times> chip) list"
  ChipListPause :: "(u8 \<times> chip) list"
  StreamBufs :: "nat \<Rightarrow> stereo"
  emulators :: 'c
  SurroundSound :: bool
  ResampleMode :: u8
  FinalVol :: s32

text \<open>The chips in the order of their numbers, and the lists of the chips in use; the last, for pauses, without the RF5Cxx chips.\<close>

definition all_chips :: "chip list" where
  "all_chips = [SN76496, YM2413, YM2612, YM2151, SegaPCM, RF5C68, YM2203, YM2608, YM2610, YM3812, YM3526, Y8950, YMF262, YMF278B, YMF271,
     YMZ280B, RF5C164, PWM, AY8910, GameBoy, NES, MultiPCM, UPD7759, OKIM6258, OKIM6295, K051649, K054539, HuC6280, C140, K053260, Pokey,
     QSound, SCSP, WSwan, VSU, SAA1099, ES5503, ES5506, X1_010, C352, GA20]"

definition GeneralChipLists :: "'c mixer \<Rightarrow> 'c mixer" where
  "GeneralChipLists m =
     (let used = filter (\<lambda>(n, ch). ChipAudio (player m) n ch) (concat (map (\<lambda>ch. [(0, ch), (1, ch)]) all_chips)) in
      m\<lparr>ChipListAll := used, ChipListPause := filter (\<lambda>(n, ch). ChipType (hd (CAudio m n ch)) \<noteq> 0x05 \<and> ChipType (hd (CAudio m n ch)) \<noteq> 0x10) used\<rparr>)"

definition by_rate :: "u32 \<Rightarrow> u32 \<Rightarrow> u8" where
  "by_rate chip_rate out_rate = (if chip_rate < out_rate then 0x01 else if chip_rate = out_rate then 0x02 else 0x03)"

definition SetupResampler :: "'c stream_func \<Rightarrow> chip_call list \<Rightarrow> u32 \<Rightarrow> u8 \<Rightarrow> CAUD_ATTR \<Rightarrow> (nat \<Rightarrow> stereo) \<times> 'c \<Rightarrow>
    (CAUD_ATTR \<times> (nat \<Rightarrow> stereo) \<times> 'c) res" where
  "SetupResampler upd calls out_rate mode c s =
     (if SmpRate c = 0 then Ok (c\<lparr>Resampler := 0xFF\<rparr>, s)
      else let r = by_rate (SmpRate c) out_rate;
               r' = (if (r = 0x01 \<or> r = 0x03) \<and> (mode = 0x02 \<or> (mode = 0x01 \<and> r = 0x03)) then 0x00 else r);
               c1 = c\<lparr>Resampler := r', SmpP := 0, SmpLast := 0, SmpNext := 0, LSmpl := (0, 0), NSmpl := (0, 0)\<rparr> in
        if r' = 0x01 then bind_res (StreamUpdate upd calls c1 0 1 s) (\<lambda>(buf, e). Ok (c1\<lparr>NSmpl := buf 0\<rparr>, buf, e)) else Ok (c1, s))"

definition ChangeChipSampleRate :: "u32 \<Rightarrow> u32 \<Rightarrow> CAUD_ATTR \<Rightarrow> CAUD_ATTR" where
  "ChangeChipSampleRate out_rate NewSmplRate c = (if SmpRate c = NewSmplRate then c
     else c\<lparr>SmpRate := NewSmplRate, Resampler := by_rate NewSmplRate out_rate, SmpP := 1, SmpNext := SmpNext c - SmpLast c, SmpLast := 0\<rparr>)"

text \<open>The streams of silent chips and of the two chips of a stereo pair.\<close>

definition null_update :: "'c stream_func" where
  "null_update calls t n k e = (\<lambda>_. (0, 0), e)"

definition dual_opl2_stereo :: "'c stream_func \<Rightarrow> 'c stream_func" where
  "dual_opl2_stereo ym3812_stream_update calls t n k e = (case ym3812_stream_update calls t n k e of (x, e') \<Rightarrow>
     (if n AND 0x01 \<noteq> 0 then (\<lambda>i. (0, snd (x i))) else (\<lambda>i. (fst (x i), 0)), e'))"

section \<open>Filling the buffer of the application\<close>

definition Limit2Short :: "s32 \<Rightarrow> s16" where
  "Limit2Short Value = (let v = (if Value <s - 0x8000 then - 0x8000 else Value); w = (if 0x7FFF <s v then 0x7FFF else v) in ucast w)"

text \<open>\<open>fade elapsed rate FadeTime\<close>: whether the volume has become negative, and the final volume in units of 1/256.\<close>

type_synonym fade_func = "u32 \<Rightarrow> u32 \<Rightarrow> u32 \<Rightarrow> bool \<times> s32"

definition RecalcFadeVolume :: "fade_func \<Rightarrow> 'c mixer \<Rightarrow> s32 \<times> 'c mixer" where
  "RecalcFadeVolume fade m = (let p = player m in
     if FadePlay p then
       let start = (if FadeStart p = 0 then PlayingTime p else FadeStart p); (over, v) = fade (PlayingTime p - start) (SampleRate p) (FadeTime p) in
       (v, m\<lparr>player := p\<lparr>FadeStart := start, VGMEnd := (VGMEnd p \<or> over)\<rparr>, FinalVol := v\<rparr>)
     else (FinalVol m, m))"

definition mix_chip :: "'c stream_func \<Rightarrow> u8 \<times> chip \<Rightarrow> stereo \<times> 'c mixer \<Rightarrow> (stereo \<times> 'c mixer) res" where
  "mix_chip upd i s = (case (i, s) of ((n, ch), (TempBuf, m)) \<Rightarrow>
     if Disabled m n ch then Ok s
     else bind_res (ResampleChipStream upd (chip_calls (player m)) (SampleRate (player m)) (CAudio m n ch) ([TempBuf], StreamBufs m, emulators m))
       (\<lambda>(cs, out, buf, e). Ok (hd out, m\<lparr>CAudio := (CAudio m)(n := (CAudio m n)(ch := cs)), StreamBufs := buf, emulators := e\<rparr>)))"

definition out_value :: "s32 \<Rightarrow> s32 \<Rightarrow> s32" where
  "out_value CurMstVol x = signed_drop_bit 11 (signed_drop_bit 5 x * CurMstVol)"

definition out_sample :: "bool \<Rightarrow> s32 \<Rightarrow> stereo \<Rightarrow> s16 \<times> s16" where
  "out_sample surround CurMstVol x = (Limit2Short (out_value CurMstVol (fst x)),
     Limit2Short (if surround then - out_value CurMstVol (snd x) else out_value CurMstVol (snd x)))"

definition on_player :: "(vgm \<Rightarrow> vgm res) \<Rightarrow> 'c mixer \<Rightarrow> 'c mixer res" where
  "on_player f m = bind_res (f (player m)) (\<lambda>p. Ok (m\<lparr>player := p\<rparr>))"

text \<open>Where a fade begins and where its volume is computed again, after each sample or all of them.\<close>

definition fade_round :: "fade_func \<Rightarrow> (u32 \<Rightarrow> bool) \<Rightarrow> u32 \<Rightarrow> s32 \<Rightarrow> 'c mixer \<Rightarrow> u32 \<times> s32 \<times> 'c mixer" where
  "fade_round fade due RecalcStep CurMstVol m =
     (let p = player m; begins = FadePlay p \<and> FadeStart p = 0;
          step = (if begins then SampleRate p div 100 else RecalcStep);
          m1 = (if begins then m\<lparr>player := p\<lparr>FadeStart := PlayingTime p\<rparr>\<rparr> else m) in
      if step \<noteq> 0 \<and> due step then case RecalcFadeVolume fade m1 of (v, m2) \<Rightarrow> (step, v, m2) else (step, CurMstVol, m1))"

definition fill_sample :: "nat \<Rightarrow> 'c stream_func \<Rightarrow> (u8 \<times> chip) list \<Rightarrow> s32 \<Rightarrow> 'c mixer \<Rightarrow> ((s16 \<times> s16) \<times> 'c mixer) res" where
  "fill_sample k upd chips CurMstVol m = bind_res (on_player (InterpretFile k 1) m) (\<lambda>m.
     bind_res (for_each chips (mix_chip upd) ((0, 0), m)) (\<lambda>(TempBuf, m). Ok (out_sample (SurroundSound m) CurMstVol TempBuf, m)))"

text \<open>The end of the song: the samples of the pause are counted, then the playback ends. \<open>True\<close>: the loop is left.\<close>

definition count_pause :: "'c mixer \<Rightarrow> bool \<times> 'c mixer" where
  "count_pause m = (let p = player m in
     if \<not> VGMEnd p then (False, m)
     else if PauseSmpls p = 0 then if \<not> EndPlay p then (True, m\<lparr>player := p\<lparr>EndPlay := True\<rparr>\<rparr>) else (False, m)
     else (False, m\<lparr>player := p\<lparr>PauseSmpls := PauseSmpls p - 1\<rparr>\<rparr>))"

primrec fill_loop :: "nat \<Rightarrow> nat \<Rightarrow> 'c stream_func \<Rightarrow> fade_func \<Rightarrow> (u8 \<times> chip) list \<Rightarrow> u32 \<Rightarrow> u32 \<times> s32 \<times> 'c mixer \<Rightarrow>
    (u32 \<times> (s16 \<times> s16) list \<times> 'c mixer) res" where
  "fill_loop 0 k upd fade chips CurSmpl s = (case s of (RecalcStep, CurMstVol, m) \<Rightarrow> Ok (CurSmpl, [], m))"
| "fill_loop (Suc n) k upd fade chips CurSmpl s = (case s of (RecalcStep, CurMstVol, m) \<Rightarrow>
     bind_res (fill_sample k upd chips CurMstVol m) (\<lambda>(x, m).
     case fade_round fade (\<lambda>step. CurSmpl mod step = 0) RecalcStep CurMstVol m of (RecalcStep, CurMstVol, m) \<Rightarrow>
     case count_pause m of (ended, m) \<Rightarrow>
       if ended then Ok (CurSmpl, [x], m)
       else bind_res (fill_loop n k upd fade chips (CurSmpl + 1) (RecalcStep, CurMstVol, m)) (\<lambda>(c, xs, m). Ok (c, x # xs, m))))"

definition first_step :: "vgm \<Rightarrow> u32" where
  "first_step p = (if FadePlay p then SampleRate p div 44100 else 0)"

text \<open>Without a buffer the file is only interpreted.\<close>

definition skip_samples :: "nat \<Rightarrow> fade_func \<Rightarrow> u32 \<Rightarrow> 'c mixer \<Rightarrow> (u32 \<times> 'c mixer) res" where
  "skip_samples k fade BufferSize m =
     (case RecalcFadeVolume fade m of (v, m1) \<Rightarrow>
      bind_res (on_player (InterpretFile k BufferSize) m1) (\<lambda>m2.
      case fade_round fade (\<lambda>_. True) (first_step (player m)) v m2 of (_, _, m3) \<Rightarrow> let p = player m3 in
      Ok (BufferSize, if \<not> VGMEnd p then m3
        else if PauseSmpls p \<le> BufferSize then m3\<lparr>player := p\<lparr>PauseSmpls := 0, EndPlay := True\<rparr>\<rparr>
        else m3\<lparr>player := p\<lparr>PauseSmpls := PauseSmpls p - BufferSize\<rparr>\<rparr>)))"

definition FillBuffer :: "nat \<Rightarrow> 'c stream_func \<Rightarrow> fade_func \<Rightarrow> u32 \<Rightarrow> 'c mixer \<Rightarrow> (u32 \<times> (s16 \<times> s16) list \<times> 'c mixer) res" where
  "FillBuffer k upd fade BufferSize m =
     (case RecalcFadeVolume fade m of (v, m1) \<Rightarrow>
      fill_loop (unat BufferSize) k upd fade (if VGMEnd (player m1) \<or> PausePlay (player m1) then ChipListPause m1 else ChipListAll m1) 0
        (first_step (player m), v, m1))"

end
