(* ===== verification/VgmOutputLaws.thy ===== *)
theory VgmOutputLaws
  imports VgmOutput
begin

text \<open>
  Laws of the output: the downsampler gives the exact average of the chip's stream, taken as a step function, over the time of one output
  sample, the upsampler the linear interpolation between neighbouring samples of the stream, both without losing or repeating a sample of the
  chip from call to call; the buffer of the application is filled up to the end of the song.
\<close>

section \<open>Fixed-point positions\<close>

lemma fix_defs [simp]: "unat FIXPNT_FACT = 2048" "FIXPNT_FACT = 2048"
  by (simp_all add: FIXPNT_FACT_def)

lemma unat_friction: "unat (getfriction x) = unat x mod 2048"
proof -
  have "getfriction x = take_bit 11 x" by (simp add: getfriction_def take_bit_eq_mask mask_eq_exp_minus_1)
  then show ?thesis by (simp add: take_bit_eq_mod unat_mod)
qed

lemma unat_nfriction: "unat (getnfriction x) = (2048 - unat x mod 2048) mod 2048"
proof -
  have "getnfriction x = take_bit 11 (2048 - x)" by (simp add: getnfriction_def take_bit_eq_mask mask_eq_exp_minus_1)
  then have "unat (getnfriction x) = unat (2048 - x) mod 2048" by (simp add: take_bit_eq_mod unat_mod)
  moreover have "int (unat (2048 - x)) = (2048 - int (unat x)) mod 2 ^ 32" by (simp add: uint_word_ariths flip: uint_nat)
  then have "int (unat (2048 - x)) mod 2048 = (2048 - int (unat x)) mod 2048" by (simp add: mod_mod_cancel)
  moreover have "(2048 - int (unat x)) mod 2048 = int ((2048 - unat x mod 2048) mod 2048)"
    by (simp add: zmod_int of_nat_diff mod_diff_right_eq mod_minus_eq)
  ultimately show ?thesis by (simp add: zmod_int flip: of_nat_eq_iff[where 'a = int])
qed

lemma unat_floor: "unat (fp2i_floor x) = unat x div 2048"
  by (simp add: fp2i_floor_def unat_div)

lemma unat_ceil: "unat x + 2047 < 2 ^ 32 \<Longrightarrow> unat (fp2i_ceil x) = (unat x + 2047) div 2048"
  by (simp add: fp2i_ceil_def unat_div unat_word_ariths)

section \<open>The downsampler averages\<close>

text \<open>The sum of a step function, one step for 2048 positions.\<close>

definition area :: "(nat \<Rightarrow> u64) \<Rightarrow> nat \<Rightarrow> nat \<Rightarrow> u64" where
  "area f a b = (\<Sum>p\<in>{a..<b}. f (p div 2048))"

definition area2 :: "(nat \<Rightarrow> stereo) \<Rightarrow> nat \<Rightarrow> nat \<Rightarrow> u64 \<times> u64" where
  "area2 x a b = (area (\<lambda>i. scast (fst (x i))) a b, area (\<lambda>i. scast (snd (x i))) a b)"

lemma area_split: "a \<le> b \<Longrightarrow> b \<le> c \<Longrightarrow> area f a c = area f a b + area f b c"
  by (simp add: area_def sum.atLeastLessThan_concat)

lemma area_step: "i * 2048 \<le> a \<Longrightarrow> b \<le> (i + 1) * 2048 \<Longrightarrow> area f a b = f i * of_nat (b - a)"
proof -
  assume *: "i * 2048 \<le> a" "b \<le> (i + 1) * 2048"
  have "p div 2048 = i" if "p \<in> {a..<b}" for p using that * by (intro div_nat_eqI) auto
  then have "area f a b = of_nat (b - a) * f i" by (simp add: area_def)
  then show ?thesis by (simp add: mult.commute)
qed

lemma area2_split: "a \<le> b \<Longrightarrow> b \<le> c \<Longrightarrow> area2 x a c = add2 (area2 x a b) (area2 x b c)"
  by (simp add: area2_def add2_def area_split[of a b c])

lemma area2_step: "i * 2048 \<le> a \<Longrightarrow> b \<le> (i + 1) * 2048 \<Longrightarrow> area2 x a b = both (\<lambda>v. scast v * of_nat (b - a)) (x i)"
  by (simp only: area2_def both_def area_step[of i a b])

lemma area2_empty [simp]: "area2 x a a = (0, 0)"
  by (simp add: area2_def area_def)

lemma add2_simps [simp]: "add2 (0, 0) (y :: 'a :: len word \<times> 'a word) = y" "add2 y (0, 0) = y" "add2 (add2 x y) z = add2 x (add2 y z)"
  by (simp_all add: add2_def add.assoc)

lemma add2_commute: "add2 x y = add2 y (x :: u64 \<times> u64)"
  by (simp add: add2_def add.commute)

lemma whole_loop_area: "unat i + n \<le> SMPL_BUFSIZE \<Longrightarrow> whole_loop n buf i t = Ok (add2 t (area2 buf (unat i * 2048) ((unat i + n) * 2048)))"
proof (induction n arbitrary: i t)
  case (Suc n)
  have i: "unat (i + 1) = unat i + 1" using Suc.prems by (simp add: unat_word_ariths SMPL_BUFSIZE_def)
  have "area2 buf (unat i * 2048) ((unat i + Suc n) * 2048) =
      add2 (both (\<lambda>v. scast v * 2048) (buf (unat i))) (area2 buf ((unat i + 1) * 2048) ((unat i + 1 + n) * 2048))"
    by (subst area2_split[of _ "(unat i + 1) * 2048"]) (simp_all add: area2_step[of "unat i"])
  then show ?case using Suc by (simp add: buf_at_def i add.assoc)
qed simp


lemma ceil_gap: "(2048 - n mod 2048) mod 2048 = (n + 2047) div 2048 * 2048 - n" "(n + 2047) div 2048 * 2048 - n < (2048 :: nat)"
proof -
  obtain q r where n: "n = q * 2048 + r" "r < 2048" by (metis div_mult_mod_eq mod_less_divisor zero_less_numeral)
  have d: "(n + 2047) div 2048 = q + (if r = 0 then 0 else 1)" using n by (auto intro!: div_nat_eqI)
  then show "(2048 - n mod 2048) mod 2048 = (n + 2047) div 2048 * 2048 - n" using n by simp
  show "(n + 2047) div 2048 * 2048 - n < 2048" unfolding d using n by simp
qed

lemma average_area:
  assumes "unat a + 2048 \<le> unat b" "unat b \<le> SMPL_BUFSIZE * 2048"
  shows "average c buf a b = scaled c (b - a) (area2 buf (unat a) (unat b))"
proof -
  let ?a = "unat a" and ?b = "unat b"
  let ?i = "(?a + 2047) div 2048" and ?j = "?b div 2048"
  have b: "?b \<le> 524288" using assms(2) by (simp add: SMPL_BUFSIZE_def)
  have ij: "?i \<le> ?j" "?a \<le> ?i * 2048" "?j * 2048 \<le> ?b" "?j \<le> SMPL_BUFSIZE" using assms by (auto simp: SMPL_BUFSIZE_def)
  have u: "unat (fp2i_ceil a) = ?i" "unat (fp2i_floor b) = ?j" "unat (fp2i_floor a) = ?a div 2048"
    using b assms(1) by (simp_all add: unat_ceil unat_floor)
  have first: "unat (getnfriction a) = ?i * 2048 - ?a" "?i * 2048 - ?a < 2048" unfolding unat_nfriction by (simp_all only: ceil_gap)
  have last: "unat (getfriction b) = ?b - ?j * 2048" unfolding unat_friction by (rule minus_div_mult_eq_mod[symmetric])
  have c0: "of_nat (?i * 2048 - ?a) = (ucast (getnfriction a) :: u64)" unfolding first(1)[symmetric] by (rule of_nat_unat)
  have c1: "of_nat (?b - ?j * 2048) = (ucast (getfriction b) :: u64)" unfolding last[symmetric] by (rule of_nat_unat)
  have i1: "?i * 2048 \<le> (?a div 2048 + 1) * 2048"
    using div_le_mono[of "?a + 2047" "?a + 2048" 2048] by (intro mult_le_mono1) simp
  have j1: "?b \<le> (?j + 1) * 2048" by simp
  have f0: "area2 buf ?a (?i * 2048) = both (\<lambda>v. scast v * ucast (getnfriction a)) (buf (?a div 2048))"
    using area2_step[of "?a div 2048" ?a "?i * 2048" buf] i1 by (simp only: c0)
  have l0: "area2 buf (?j * 2048) ?b = both (\<lambda>v. scast v * ucast (getfriction b)) (buf ?j)"
    using area2_step[of ?j "?j * 2048" ?b buf] j1 by (simp only: c1)
  have t0: "(if getnfriction a \<noteq> 0 then bind_res (buf_at buf (fp2i_floor a)) (\<lambda>x. Ok (both (\<lambda>v. scast v * ucast (getnfriction a)) x)) else Ok (0, 0)) =
      Ok (area2 buf ?a (?i * 2048))"
  proof -
    have "?a div 2048 < 256" using b assms(1) by linarith
    then show ?thesis by (auto simp: f0 buf_at_def u SMPL_BUFSIZE_def both_def)
  qed
  have t1: "(if getfriction b \<noteq> 0 then bind_res (buf_at buf (fp2i_floor b)) (\<lambda>x. Ok (add2 t (both (\<lambda>v. scast v * ucast (getfriction b)) x)))
      else Ok t) = Ok (add2 t (area2 buf (?j * 2048) ?b))" for t
  proof (cases "getfriction b = 0")
    case False
    then have "?b - ?j * 2048 \<noteq> 0" using last by (metis unat_eq_0)
    then have "?j < SMPL_BUFSIZE" using assms(2) by (simp add: SMPL_BUFSIZE_def)
    then show ?thesis using False by (simp add: l0 buf_at_def u)
  qed (simp add: l0 both_def)
  have t2: "whole_loop (?j - ?i) buf (fp2i_ceil a) t = Ok (add2 t (area2 buf (?i * 2048) (?j * 2048)))" for t
    using whole_loop_area[of "fp2i_ceil a" "?j - ?i" buf t] ij u(1) by simp
  have w0: "of_nat (?i * 2048 - ?a) = getnfriction a" unfolding first(1)[symmetric] by simp
  have w1: "of_nat (?b - ?j * 2048) = getfriction b" unfolding last[symmetric] by simp
  have w2: "of_nat (?j - ?i) = fp2i_floor b - fp2i_ceil a" using ij(1) by (simp add: of_nat_diff flip: u)
  have "getnfriction a + getfriction b + (fp2i_floor b - fp2i_ceil a) * 2048 =
      of_nat ((?i * 2048 - ?a) + (?b - ?j * 2048) + (?j - ?i) * 2048)"
    by (simp only: of_nat_add of_nat_mult w0 w1 w2 of_nat_numeral)
  also have "(?i * 2048 - ?a) + (?b - ?j * 2048) + (?j - ?i) * 2048 = ?b - ?a" using ij by (simp add: diff_mult_distrib)
  also have "of_nat (?b - ?a) = b - a" using assms(1) by (simp add: of_nat_diff)
  finally have cnt: "getnfriction a + getfriction b + (fp2i_floor b - fp2i_ceil a) * 2048 = b - a" .
  have "area2 buf ?a ?b = add2 (area2 buf ?a (?i * 2048)) (add2 (area2 buf (?i * 2048) (?j * 2048)) (area2 buf (?j * 2048) ?b))"
    using ij by (simp flip: area2_split)
  then show ?thesis
    using cnt by (simp add: average_def Let_def t0 t1 t2 u add2_commute[of "area2 buf (?i * 2048) (?j * 2048)"])
qed


section \<open>Output and stream in step\<close>

text \<open>A chip that plays the stream \<open>x\<close>; its state is the number of samples it has given.\<close>

definition played_stream :: "(nat \<Rightarrow> stereo) \<Rightarrow> nat stream_func" where
  "played_stream x calls t n k e = (\<lambda>i. x (e + i), e + k)"

text \<open>The position of output sample \<open>i\<close> in the stream, in units of 1/2048 sample, for a chip rate \<open>R\<close> and an output rate \<open>S\<close>.\<close>

definition stream_pos :: "nat \<Rightarrow> nat \<Rightarrow> nat \<Rightarrow> nat" where
  "stream_pos R S i = 2048 * i * R div S"

lemma stream_pos_0 [simp]: "stream_pos R S 0 = 0"
  by (simp add: stream_pos_def)

lemma stream_pos_wrap: "0 < S \<Longrightarrow> stream_pos R S (q * S + p) = 2048 * (R * q) + stream_pos R S p"
proof -
  assume "0 < S"
  have "2048 * (q * S + p) * R = 2048 * p * R + 2048 * (R * q) * S" by algebra
  then show ?thesis using \<open>0 < S\<close> by (simp add: stream_pos_def)
qed

lemma stream_pos_S: "0 < S \<Longrightarrow> stream_pos R S S = 2048 * R"
  using stream_pos_wrap[of S R 1 0] by simp

lemma stream_pos_mono: "p \<le> p' \<Longrightarrow> stream_pos R S p \<le> stream_pos R S p'"
  by (simp add: stream_pos_def div_le_mono)

lemma stream_pos_step:
  "stream_pos R S p + stream_pos R S 1 \<le> stream_pos R S (p + 1)" "stream_pos R S (p + 1) \<le> stream_pos R S p + stream_pos R S 1 + 1"
proof -
  have "2048 * (p + 1) * R = 2048 * p * R + 2048 * R" by algebra
  then have e: "stream_pos R S (p + 1) = stream_pos R S p + stream_pos R S 1 + (2048 * p * R mod S + 2048 * R mod S) div S"
    unfolding stream_pos_def by (simp add: div_add1_eq[of "2048 * p * R"])
  then show "stream_pos R S p + stream_pos R S 1 \<le> stream_pos R S (p + 1)" by simp
  have "(2048 * p * R mod S + 2048 * R mod S) div S \<le> 1"
  proof (cases "S = 0")
    case False
    then have "2048 * p * R mod S + 2048 * R mod S < 2 * S" using mod_less_divisor[of S] by (simp add: add_strict_mono mult_2)
    then have "(2048 * p * R mod S + 2048 * R mod S) div S < 2" using False by (simp add: div_less_iff_less_mult)
    then show ?thesis by simp
  qed simp
  then show "stream_pos R S (p + 1) \<le> stream_pos R S p + stream_pos R S 1 + 1" using e by simp
qed

lemma stream_pos_less: "p < S \<Longrightarrow> S < R \<Longrightarrow> p + 1 < S \<Longrightarrow> stream_pos R S (p + 1) \<le> 2048 * (R - 1)"
proof -
  assume *: "S < R" "p + 1 < S"
  have "(p + 1) * R + R \<le> S * R" using mult_le_mono1[of "p + 2" S R] *(2) by simp
  then have "(p + 1) * R + S \<le> R * S" using *(1) by (simp add: mult.commute)
  moreover have "(R - 1) * S + S = R * S" using *(1) by (simp add: diff_mult_distrib)
  ultimately have "(p + 1) * R \<le> (R - 1) * S" by linarith
  then have "2048 * (p + 1) * R \<le> 2048 * (R - 1) * S" unfolding mult.assoc by (rule mult_le_mono2)
  then have "2048 * (p + 1) * R div S \<le> 2048 * (R - 1) * S div S" by (rule div_le_mono)
  then show "stream_pos R S (p + 1) \<le> 2048 * (R - 1)" using *(2) unfolding stream_pos_def by simp
qed

lemma InPosL_nat:
  assumes "unat n < 2 ^ 21" "S \<noteq> 0" "stream_pos (unat R) (unat S) (unat n) < 2 ^ 32"
  shows "InPosL R S n = of_nat (stream_pos (unat R) (unat S) (unat n))"
proof -
  have "unat (2048 * n) = 2048 * unat n" using assms(1) by (simp add: unat_word_ariths)
  moreover have "2048 * unat n * unat R < 2 ^ 32 * 2 ^ 32"
    using assms(1) unsigned_less[of R, where 'a = nat] by (intro mult_strict_mono) simp_all
  ultimately have "unat (ucast (2048 * n) * ucast R :: u64) = 2048 * unat n * unat R"
    by (simp add: unat_word_ariths)
  then have "unat ((ucast (2048 * n) * ucast R :: u64) div ucast S) = stream_pos (unat R) (unat S) (unat n)"
    by (simp add: unat_div stream_pos_def)
  then show ?thesis unfolding InPosL_def fix_defs by (metis of_nat_unat)
qed

text \<open>\<open>n\<close> calls for one sample each.\<close>

primrec resample_run :: "'c stream_func \<Rightarrow> chip_call list \<Rightarrow> u32 \<Rightarrow> nat \<Rightarrow> CAUD_ATTR \<times> (nat \<Rightarrow> stereo) \<times> 'c \<Rightarrow>
    (stereo list \<times> CAUD_ATTR \<times> (nat \<Rightarrow> stereo) \<times> 'c) res" where
  "resample_run upd calls S 0 s = Ok ([], s)"
| "resample_run upd calls S (Suc n) s = (case s of (c, buf, e) \<Rightarrow>
     bind_res (resample_chip upd calls S (c, [(0, 0)], buf, e)) (\<lambda>(c, out, buf, e).
     bind_res (resample_run upd calls S n (c, buf, e)) (\<lambda>(outs, s). Ok (out @ outs, s))))"

text \<open>A step that gives output \<open>i\<close> and leaves the chip ready for output \<open>i + 1\<close>.\<close>

lemma resample_run_steps:
  assumes "\<And>i c buf e. sync i c e \<Longrightarrow> \<exists>c' buf' e' v. resample_chip upd calls S (c, [(0, 0)], buf, e) = Ok (c', [v], buf', e') \<and>
      Ok v = spec c i \<and> sync (i + 1) c' e' \<and> spec c' = spec c" "sync i c e"
  shows "\<exists>outs s. resample_run upd calls S n (c, buf, e) = Ok (outs, s) \<and> map Ok outs = map (spec c) [i..<i + n]"
  using assms(2)
proof (induction n arbitrary: i c buf e)
  case (Suc n)
  obtain c' buf' e' v where 1: "resample_chip upd calls S (c, [(0, 0)], buf, e) = Ok (c', [v], buf', e')" "Ok v = spec c i" "sync (i + 1) c' e'"
      "spec c' = spec c" using assms(1)[OF Suc.prems] by blast
  obtain outs s where 2: "resample_run upd calls S n (c', buf', e') = Ok (outs, s)" "map Ok outs = map (spec c') [i + 1..<i + 1 + n]"
    using Suc.IH[OF 1(3)] by blast
  have "[i..<i + Suc n] = i # [i + 1..<i + 1 + n]" by (simp add: upt_rec)
  then show ?case using 1 2 by (intro exI[of _ "v # outs"] exI[of _ s]) (simp del: upt_Suc)
qed simp

lemma area_shift: "area f a (a + w) = (\<Sum>u<w. f ((a + u) div 2048))"
  unfolding area_def by (simp add: sum.atLeastLessThan_shift_0 atLeast0LessThan)

lemma area2_eq: "(\<And>u. u < w \<Longrightarrow> x ((a + u) div 2048) = y ((b + u) div 2048)) \<Longrightarrow> area2 x a (a + w) = area2 y b (b + w)"
  by (simp add: area2_def area_shift)

lemma SmpP_next: "unat p < 2 ^ 21 \<Longrightarrow> unat (p + 1 :: u32) = unat p + 1"
  by (simp add: unat_word_ariths)

lemma ceil_bounds: "n \<le> (n + 2047) div 2048 * 2048" "(n + 2047) div 2048 * 2048 \<le> n + (2047 :: nat)"
  by simp_all

lemma unat32: "n < 4294967296 \<Longrightarrow> unat (of_nat n :: u32) = n"
  by (simp add: unat_of_nat take_bit_nat_eq_self)

lemma ceil_floor: "(n + 2047) div 2048 \<le> n div 2048 + (1 :: nat)"
proof -
  have "(n + 2047) div 2048 \<le> (n + 1 * 2048) div 2048" by (intro div_le_mono) simp
  then show ?thesis by (simp only: div_mult_self1)
qed

lemma ceil_next: "m \<le> n + 2048 \<Longrightarrow> (m + 2047) div 2048 \<le> (n + 2047) div 2048 + (1 :: nat)"
proof -
  assume "m \<le> n + 2048"
  then have "(m + 2047) div 2048 \<le> (n + 2047 + 1 * 2048) div 2048" by (intro div_le_mono) simp
  then show ?thesis by (simp only: div_mult_self1)
qed

section \<open>The downsampler\<close>

definition down_sync :: "(nat \<Rightarrow> stereo) \<Rightarrow> u32 \<Rightarrow> nat \<Rightarrow> CAUD_ATTR \<Rightarrow> nat \<Rightarrow> bool" where
  "down_sync x S i c e \<longleftrightarrow> (let R = unat (SmpRate c); p = unat (SmpP c); a = stream_pos R (unat S) p in
     Resampler c = 0x03 \<and> S < SmpRate c \<and> R \<le> 250 * unat S \<and> R < 2 ^ 21 \<and> p < unat S \<and> unat (SmpLast c) = (a + 2047) div 2048 \<and>
     (\<exists>q. i = q * unat S + p \<and> e = R * q + unat (SmpLast c)) \<and> (a mod 2048 \<noteq> 0 \<longrightarrow> LSmpl c = x (e - 1)))"

definition down_value :: "(nat \<Rightarrow> stereo) \<Rightarrow> u32 \<Rightarrow> CAUD_ATTR \<Rightarrow> nat \<Rightarrow> stereo res" where
  "down_value x S c i = (let R = unat (SmpRate c); w = 2048 * R div unat S; a = stream_pos R (unat S) i in scaled c (of_nat w) (area2 x a (a + w)))"

lemma ceil_exact: "s * 2048 \<le> 2048 * m + 2047 \<Longrightarrow> s \<le> (m :: nat)"
proof -
  assume "s * 2048 \<le> 2048 * m + 2047"
  then have "s * 2048 div 2048 \<le> (2048 * m + 2047) div 2048" by (rule div_le_mono)
  then show "s \<le> m" by simp
qed

text \<open>What the downsampler reads lies in the part of the buffer that has been filled.\<close>

lemma down_window:
  assumes "s * 2048 \<le> a + 2047" "a \<le> s * 2048" "T + 2048 = 2048 * e + (2048 + a - s * 2048)" "a + w \<le> s' * 2048"
    "a mod 2048 \<noteq> 0 \<longrightarrow> LS = x (e - 1)" "\<And>j. 1 \<le> j \<Longrightarrow> j \<le> s' - s \<Longrightarrow> buf j = x (e + j - 1)" "buf 0 = LS"
  shows "area2 buf (2048 + a - s * 2048) (2048 + a - s * 2048 + w) = area2 x T (T + w)"
proof (rule area2_eq)
  fix u
  assume u: "u < w"
  let ?B = "2048 + a - s * 2048"
  let ?j = "(?B + u) div 2048"
  have e: "(T + u) div 2048 = e + ?j - 1"
  proof -
    have "(T + u) div 2048 + 1 = (T + 2048 + u) div 2048" by simp
    also have "\<dots> = (2048 * e + (?B + u)) div 2048" unfolding assms(3) by (simp add: add.assoc)
    also have "\<dots> = e + ?j" by simp
    finally show ?thesis by simp
  qed
  have le: "?j \<le> s' - s"
  proof -
    have "?B + u < (1 + (s' - s)) * 2048" using assms(1,2,4) u by simp
    then have "?j < 1 + (s' - s)" by (simp add: div_less_iff_less_mult)
    then show ?thesis by simp
  qed
  show "buf ?j = x ((T + u) div 2048)"
  proof (cases "?j = 0")
    case True
    then have "?B < 2048" by (simp add: div_eq_0_iff)
    moreover have "\<not> ?B < 2048" if "a mod 2048 = 0"
    proof -
      have "2048 dvd a" using that by (rule mod_0_imp_dvd)
      then obtain m where m: "a = 2048 * m" by (rule dvdE)
      then have "s \<le> m" using assms(1) ceil_exact by simp
      then have "s * 2048 \<le> m * 2048" by (rule mult_le_mono1)
      then show ?thesis unfolding m by simp
    qed
    ultimately have "a mod 2048 \<noteq> 0" by blast
    then show ?thesis using True e assms(5,7) by simp
  next
    case False
    then show ?thesis using assms(6)[of ?j] le e by simp
  qed
qed

lemma down_last:
  assumes "a' mod 2048 \<noteq> 0" "s' = (a' + 2047) div 2048" "a + w \<le> a'" "a' \<le> a + w + 1" "s * 2048 \<le> a + 2047" "s < s'"
  shows "(2048 + a - s * 2048 + w) div 2048 = s' - (s :: nat)"
proof -
  define k r where "k = a' div 2048" and "r = a' mod 2048"
  have a': "a' = k * 2048 + r" "0 < r" "r < 2048" using assms(1) by (simp_all add: k_def r_def)
  have s': "s' = k + 1" unfolding assms(2) a'(1) using a'(2,3) by (intro div_nat_eqI) simp_all
  have "s' - s + s = k + 1" using s' assms(6) by simp
  then have d: "(s' - s) * 2048 + s * 2048 = k * 2048 + 2048" by (metis add_mult_distrib mult_1)
  show ?thesis using d assms(3-5) a' by (intro div_nat_eqI) simp_all
qed

lemma down_sync_next:
  fixes c :: CAUD_ATTR and S :: u32
  defines "R \<equiv> unat (SmpRate c)" and "p' \<equiv> unat (SmpP c)"
  defines "a' \<equiv> stream_pos R (unat S) p'"
  assumes "Resampler c = 0x03" "unat S < R" "R \<le> 250 * unat S" "R < 2 ^ 21" "0 < p'" "p' \<le> unat S" "unat (SmpLast c) = (a' + 2047) div 2048"
    "i = q * unat S + p'" "e = R * q + unat (SmpLast c)" "a' mod 2048 \<noteq> 0 \<longrightarrow> LSmpl c = x (e - 1)"
  shows "down_sync x S i (wrap_second S c) e"
proof (cases "p' = unat S")
  case True
  have a': "a' = 2048 * R" unfolding assms(3) True by (rule stream_pos_S) (use assms(5-9) True in simp)
  then have "unat (SmpLast c) = R" using assms(10) by simp
  then have eq: "SmpLast c = SmpRate c" "SmpP c = S" using True assms(1,2) by (metis of_nat_unat ucast_id)+
  have "i = (q + 1) * unat S" "e = R * (q + 1)" using assms(11,12) True \<open>unat (SmpLast c) = R\<close> by simp_all
  then have "\<exists>q. i = q * unat S \<and> e = R * q" by blast
  then show ?thesis
    using assms(4-9) True by (simp add: down_sync_def Let_def wrap_second_def eq assms(1) word_less_nat_alt)
next
  case False
  then have p: "p' - 1 < unat S" "p' - 1 + 1 = p'" "p' < unat S" using assms(8,9) by simp_all
  have "a' \<le> 2048 * (R - 1)" using stream_pos_less[OF p(1) assms(5)] p(2,3) unfolding assms(3) by simp
  then have "unat (SmpLast c) < R" using assms(5,10) by (simp add: div_less_iff_less_mult)
  then have "\<not> SmpRate c \<le> SmpLast c" using assms(1) by (simp add: word_le_nat_alt)
  then show ?thesis
    using assms(4-13) p(3) by (auto simp: down_sync_def Let_def wrap_second_def assms(1-3)[symmetric] word_less_nat_alt)
qed

text \<open>The positions before and after one output sample, and the time between them.\<close>

lemma down_numbers:
  fixes R S p :: nat
  defines "a \<equiv> stream_pos R S p" and "a' \<equiv> stream_pos R S (p + 1)" and "w \<equiv> stream_pos R S 1"
  defines "s \<equiv> (a + 2047) div 2048" and "s' \<equiv> (a' + 2047) div 2048"
  assumes "S < R" "R \<le> 250 * S" "R < 2 ^ 21" "p < S"
  shows "a \<le> s * 2048" "s * 2048 \<le> a + 2047" "a' \<le> s' * 2048" "a + w \<le> a'" "a' \<le> a + w + 1" "2048 \<le> w" "w \<le> 512000"
    "p + 1 < 2097152" "a' < 4294967296 - 2047" "s < s'" "s' - s \<le> 252" "s' < 2097152"
proof -
  have S: "0 < S" using assms(9) by simp
  show sb: "a \<le> s * 2048" "s * 2048 \<le> a + 2047" "a' \<le> s' * 2048" unfolding s_def s'_def by (rule ceil_bounds)+
  have sb': "s' * 2048 \<le> a' + 2047" unfolding s'_def by (rule ceil_bounds)
  show st: "a + w \<le> a'" "a' \<le> a + w + 1" unfolding a_def a'_def w_def by (rule stream_pos_step)+
  show w1: "2048 \<le> w" using assms(6) S unfolding w_def stream_pos_def by (simp add: less_eq_div_iff_mult_less_eq)
  have "2048 * R div S \<le> 2048 * (250 * S) div S" using assms(7) by (intro div_le_mono) simp
  then show w2: "w \<le> 512000" using S unfolding w_def stream_pos_def by simp
  have R: "R < 2097152" using assms(8) by simp
  have "a' \<le> stream_pos R S S" unfolding a'_def using assms(9) by (intro stream_pos_mono) simp
  then have big: "a' \<le> 2048 * R" by (simp only: stream_pos_S[OF S])
  show "p + 1 < 2097152" "a' < 4294967296 - 2047" "s < s'" "s' - s \<le> 252" "s' < 2097152"
    using R assms(6,9) big sb sb' st w1 w2 by linarith+
qed

lemma down_average:
  assumes "B \<le> 2048" "2048 \<le> w" "w \<le> 512000"
  shows "average c buf (of_nat B) (of_nat B + of_nat w) = scaled c (of_nat w) (area2 buf B (B + w))"
    "buf_at buf (fp2i_floor (of_nat B + of_nat w)) = Ok (buf ((B + w) div 2048))" "(of_nat w :: u32) \<noteq> 0"
proof -
  have u: "unat (of_nat B :: u32) = B" "unat (of_nat w :: u32) = w" using assms by (simp_all add: unat32)
  have v: "unat (of_nat B + of_nat w :: u32) = B + w" using unat32[of "B + w"] assms by simp
  show "average c buf (of_nat B) (of_nat B + of_nat w) = scaled c (of_nat w) (area2 buf B (B + w))"
    using assms average_area[of "of_nat B" "of_nat B + of_nat w" c buf] by (simp add: SMPL_BUFSIZE_def u v)
  have "(B + w) div 2048 < 256" using assms by (simp add: div_less_iff_less_mult)
  then show "buf_at buf (fp2i_floor (of_nat B + of_nat w)) = Ok (buf ((B + w) div 2048))"
    by (simp add: buf_at_def unat_floor v SMPL_BUFSIZE_def)
  show "(of_nat w :: u32) \<noteq> 0" using u(2) assms(2) by auto
qed

lemma down_step:
  assumes "down_sync x S i c e"
  shows "\<exists>c' buf' e' v. resample_chip (played_stream x) calls S (c, [(0, 0)], buf, e) = Ok (c', [v], buf', e') \<and> Ok v = down_value x S c i \<and>
    down_sync x S (i + 1) c' e' \<and> down_value x S c' = down_value x S c"
proof -
  let ?R = "unat (SmpRate c)" and ?S = "unat S" and ?p = "unat (SmpP c)"
  define a s a' s' w where a_s: "a = stream_pos ?R ?S ?p" "s = unat (SmpLast c)" "a' = stream_pos ?R ?S (?p + 1)" "s' = (a' + 2047) div 2048"
    "w = stream_pos ?R ?S 1"
  define B where "B = 2048 + a - s * 2048"
  have h: "Resampler c = 0x03" "?S < ?R" "?R \<le> 250 * ?S" "?R < 2 ^ 21" "?p < ?S" "s = (a + 2047) div 2048" "a mod 2048 \<noteq> 0 \<longrightarrow> LSmpl c = x (e - 1)"
    using assms by (auto simp: down_sync_def Let_def a_s word_less_nat_alt)
  obtain q where q: "i = q * ?S + ?p" "e = ?R * q + s"
    using assms by (auto simp: down_sync_def Let_def a_s)
  note n = down_numbers[OF h(2-5), folded a_s, folded h(6) a_s(4)]
  have S0: "0 < ?S" "S \<noteq> 0" using h(5) by auto
  have p1: "unat (SmpP c + 1) = ?p + 1" using SmpP_next n(8) by simp
  have pos: "InPosL (SmpRate c) S (SmpP c) = of_nat a" "InPosL (SmpRate c) S (SmpP c + 1) = of_nat a'" "InPosL (SmpRate c) S 1 = of_nat w"
    using InPosL_nat[of "SmpP c" S "SmpRate c"] InPosL_nat[of "SmpP c + 1" S "SmpRate c"] InPosL_nat[of 1 S "SmpRate c"] S0 n(4,7-9) p1
    by (simp_all add: a_s)
  have "unat (fp2i_ceil (of_nat a' :: u32)) = s'" unfolding a_s(4) using n(9) by (subst unat_ceil) (simp_all add: unat32)
  then have c: "fp2i_ceil (of_nat a') = of_nat s'" by (metis of_nat_unat ucast_id)
  have "of_nat s' - SmpLast c = of_nat (s' - s)" using n(10) by (simp add: a_s(2) of_nat_diff)
  then have d: "unat (of_nat s' - SmpLast c) = s' - s" using n(11) by (simp add: unat32)
  have B: "2048 + (of_nat a - SmpLast c * 2048) = (of_nat B :: u32)" "B \<le> 2048" using n(1,2) by (simp_all add: B_def of_nat_diff a_s(2))
  define buf' where "buf' = (\<lambda>j. if 1 \<le> j \<and> j < 1 + (s' - s) then x (e + (j - 1)) else (buf(0 := LSmpl c)) j)"
  have upd: "StreamUpdate (played_stream x) calls c 1 (of_nat s' - SmpLast c) (buf(0 := LSmpl c), e) = Ok (buf', e + (s' - s))"
    unfolding StreamUpdate_def played_stream_def d using n(11) by (simp add: SMPL_BUFSIZE_def buf'_def)
  have "area2 buf' B (B + w) = area2 x (stream_pos ?R ?S i) (stream_pos ?R ?S i + w)"
    unfolding B_def
  proof (rule down_window[where s = s and s' = s' and e = e and LS = "LSmpl c"])
    show "stream_pos ?R ?S i + 2048 = 2048 * e + (2048 + a - s * 2048)"
      using n(2) unfolding q stream_pos_wrap[OF S0(1)] a_s(1)[symmetric] by simp
    show "a + w \<le> s' * 2048" using n(3,4) by simp
  qed (use n(1,2) h(7) in \<open>simp_all add: buf'_def\<close>)
  then have avg: "average c buf' (of_nat B) (of_nat B + of_nat w) = down_value x S c i"
    unfolding down_average(1)[OF B(2) n(6,7)] by (simp add: down_value_def Let_def a_s(5) stream_pos_def)
  obtain v where v: "down_value x S c i = Ok v"
    using down_average(3)[OF B(2) n(6,7)] by (auto simp: down_value_def Let_def scaled_def sdiv64_def a_s(5) stream_pos_def)
  define c1 where "c1 = c\<lparr>SmpNext := of_nat s', LSmpl := buf' ((B + w) div 2048), SmpP := SmpP c + 1, SmpLast := of_nat s'\<rparr>"
  have "resample_chip (played_stream x) calls S (c, [(0, 0)], buf, e) = Ok (wrap_second S c1, [v], buf', e + (s' - s))"
    using upd S0(2) v
    by (simp add: resample_chip_def h(1) resample_down_def Let_def pos B(1) avg down_average(2)[OF B(2) n(6,7)] c1_def c)
  moreover have "down_sync x S (i + 1) (wrap_second S c1) (e + (s' - s))"
  proof (rule down_sync_next[where q = q])
    have c1: "unat (SmpP c1) = ?p + 1" "SmpRate c1 = SmpRate c" using p1 by (simp_all add: c1_def)
    show "stream_pos (unat (SmpRate c1)) ?S (unat (SmpP c1)) mod 2048 \<noteq> 0 \<longrightarrow> LSmpl c1 = x (e + (s' - s) - 1)"
      using down_last[OF _ a_s(4) n(4,5,2,10)] n(10) unfolding c1 a_s(3)[symmetric] by (auto simp: c1_def B_def buf'_def)
  qed (use h n(10,12) p1 q a_s(3,4) in \<open>simp_all add: c1_def unat32\<close>)
  moreover have "down_value x S (wrap_second S c1) = down_value x S c"
    by (simp add: down_value_def scaled_def wrap_second_def c1_def Let_def fun_eq_iff)
  ultimately show ?thesis using v by metis
qed

text \<open>C5: a chip that is faster than the output: from its set-up on, every sample of the output is exactly the average of the chip's stream, as a step
  function, over the time of the sample; no sample of the chip is lost or read twice between the calls, and none is read that has not been
  rendered.\<close>
theorem downsampler_averages:
  assumes "S < SmpRate c" "unat (SmpRate c) \<le> 250 * unat S" "unat (SmpRate c) < 2 ^ 21" "mode = 0x00"
    "SetupResampler (played_stream x) calls S mode c (buf, 0) = Ok (c1, buf1, e1)"
  shows "\<exists>outs s. resample_run (played_stream x) calls S n (c1, buf1, e1) = Ok (outs, s) \<and> map Ok outs = map (down_value x S c) [0..<n]"
proof -
  have r: "SmpRate c \<noteq> 0" "\<not> SmpRate c < S" "SmpRate c \<noteq> S" "S \<noteq> 0" using assms(1,2) by (auto simp: word_less_nat_alt)
  then have c1: "c1 = c\<lparr>Resampler := 0x03, SmpP := 0, SmpLast := 0, SmpNext := 0, LSmpl := (0, 0), NSmpl := (0, 0)\<rparr>" "e1 = 0"
    using assms(4,5) by (auto simp: SetupResampler_def by_rate_def Let_def)
  have "0 < unat S" using r(4) by (simp add: unat_gt_0)
  then have "down_sync x S 0 c1 e1"
    using assms(1-3) by (simp add: c1 down_sync_def Let_def)
  then have "\<exists>outs s. resample_run (played_stream x) calls S n (c1, buf1, e1) = Ok (outs, s) \<and> map Ok outs = map (down_value x S c1) [0..<0 + n]"
    by (intro resample_run_steps[where sync = "down_sync x S"] down_step)
  moreover have "down_value x S c1 = down_value x S c" by (simp add: c1 down_value_def scaled_def Let_def fun_eq_iff)
  ultimately show ?thesis by simp
qed

section \<open>The upsampler\<close>

definition up_sync :: "(nat \<Rightarrow> stereo) \<Rightarrow> u32 \<Rightarrow> nat \<Rightarrow> CAUD_ATTR \<Rightarrow> nat \<Rightarrow> bool" where
  "up_sync x S i c e \<longleftrightarrow> (let R = unat (SmpRate c); p = unat (SmpP c); N = unat (SmpNext c); a = stream_pos R (unat S) p in
     Resampler c = 0x01 \<and> 0 < R \<and> SmpRate c < S \<and> unat S < 2 ^ 20 \<and> p \<le> unat S \<and> N \<le> (a + 2047) div 2048 \<and> (a + 2047) div 2048 \<le> N + 1 \<and>
     (\<exists>q. i = q * unat S + p \<and> e = R * q + N + 1 \<and> NSmpl c = x (R * q + N) \<and> (a div 2048 < N \<longrightarrow> LSmpl c = x (R * q + a div 2048))))"

definition up_value :: "(nat \<Rightarrow> stereo) \<Rightarrow> u32 \<Rightarrow> CAUD_ATTR \<Rightarrow> nat \<Rightarrow> stereo res" where
  "up_value x S c i = (let a = stream_pos (unat (SmpRate c)) (unat S) i; f = of_nat (a mod 2048) in
     scaled c FIXPNT_FACT (add2 (both (\<lambda>v. scast v * ucast (FIXPNT_FACT - f)) (x (a div 2048))) (both (\<lambda>v. scast v * ucast f) (x ((a + 2047) div 2048)))))"

lemma up_sync_next:
  fixes c :: CAUD_ATTR and S :: u32
  defines "R \<equiv> unat (SmpRate c)" and "p \<equiv> unat (SmpP c) - 1"
  defines "a \<equiv> stream_pos R (unat S) p"
  assumes "Resampler c = 0x01" "0 < R" "R < unat S" "unat S < 2 ^ 20" "unat (SmpP c) = p + 1" "p \<le> unat S"
    "unat (SmpLast c) = a div 2048" "unat (SmpNext c) = (a + 2047) div 2048"
    "i = q * unat S + p" "e = R * q + unat (SmpNext c) + 1" "NSmpl c = x (R * q + unat (SmpNext c))" "LSmpl c = x (R * q + a div 2048)"
  shows "up_sync x S (i + 1) (wrap_second S c) e"
proof -
  have S: "0 < unat S" using assms(6) by simp
  have w: "stream_pos R (unat S) 1 < 2048"
    using assms(6) S unfolding stream_pos_def by (simp add: div_less_iff_less_mult)
  show ?thesis
  proof (cases "p = unat S")
    case True
    have a: "a = 2048 * R" unfolding assms(3) True by (rule stream_pos_S[OF S])
    then have eq: "SmpLast c = SmpRate c" "SmpNext c = SmpRate c" "SmpP c = S + 1"
      using assms(8,10,11) True assms(1) SmpP_next[of S] assms(7) by (simp_all add: word_unat_eq_iff)
    have "(stream_pos R (unat S) 1 + 2047) div 2048 \<le> 1" using div_le_mono[of "stream_pos R (unat S) 1 + 2047" 4095 2048] w by simp
    moreover have "i + 1 = (q + 1) * unat S + 1" "e = R * (q + 1) + 1" "NSmpl c = x (R * (q + 1))"
      using assms(12-14) True eq(2) assms(1) by (simp_all add: add.commute)
    then have "\<exists>q. i + 1 = q * unat S + 1 \<and> e = R * q + 0 + 1 \<and> NSmpl c = x (R * q + 0)" by (intro exI[of _ "q + 1"]) simp
    ultimately show ?thesis
      using assms(4-7) S by (simp add: up_sync_def Let_def wrap_second_def eq assms(1)[symmetric] word_less_nat_alt)
  next
    case False
    then have p: "p < unat S" using assms(9) by simp
    have st: "stream_pos R (unat S) (p + 1) \<le> a + 2048" "a \<le> stream_pos R (unat S) (p + 1)"
      using stream_pos_step[of R "unat S" p] w unfolding assms(3) by simp_all
    have "2048 * p * R < 2048 * R * unat S" using p assms(5) by simp
    then have "a < 2048 * R" unfolding assms(3) stream_pos_def using S by (simp add: div_less_iff_less_mult)
    then have "unat (SmpLast c) < R" using assms(10) by (simp add: div_less_iff_less_mult)
    then have nw: "\<not> SmpRate c \<le> SmpLast c" using assms(1) by (simp add: word_le_nat_alt)
    let ?a' = "stream_pos R (unat S) (p + 1)"
    have c: "(a + 2047) div 2048 \<le> (?a' + 2047) div 2048" "(?a' + 2047) div 2048 \<le> (a + 2047) div 2048 + 1" "a div 2048 \<le> ?a' div 2048"
        "(a + 2047) div 2048 \<le> a div 2048 + 1"
      using div_le_mono[of "a + 2047" "?a' + 2047" 2048] ceil_next[OF st(1)] div_le_mono[OF st(2), of 2048] ceil_floor[of a] st(2) by simp_all
    have "?a' div 2048 < unat (SmpNext c) \<longrightarrow> LSmpl c = x (R * q + ?a' div 2048)"
    proof
      assume "?a' div 2048 < unat (SmpNext c)"
      then have "?a' div 2048 = a div 2048" using c(3,4) assms(11) by linarith
      then show "LSmpl c = x (R * q + ?a' div 2048)" using assms(15) by simp
    qed
    then show ?thesis
      using assms(4-9,12-14) c p nw unfolding assms(11)[symmetric]
      by (auto simp: up_sync_def Let_def wrap_second_def assms(1)[symmetric] word_less_nat_alt intro!: exI[of _ q])
  qed
qed

text \<open>The two samples of the stream around the position are in the buffer.\<close>

lemma up_window:
  assumes "N \<le> (a + 2047) div 2048" "(a + 2047) div 2048 \<le> N + 1" "buf (Suc 0) = x N" "(a + 2047) div 2048 = N + 1 \<longrightarrow> buf 2 = x (N + 1)"
    "a div 2048 < N \<longrightarrow> buf 0 = x (a div 2048)"
  shows "buf ((2048 + a - N * 2048) div 2048) = x (a div 2048)" "buf ((2048 + a - N * 2048 + 2047) div 2048) = x ((a + 2047) div 2048)"
    "N * 2048 \<le> 2048 + a" "2048 + a - N * 2048 \<le> 4096" "(2048 + a - N * 2048) mod 2048 = a mod 2048"
proof -
  define G where "G = (a + 2047) div 2048"
  have "G * 2048 \<le> a + 2047" "a \<le> G * 2048" unfolding G_def by (rule ceil_bounds)+
  moreover have "N \<le> G" "G \<le> N + 1" using assms(1,2) by (simp_all add: G_def)
  ultimately show le: "N * 2048 \<le> 2048 + a" "2048 + a - N * 2048 \<le> 4096" by linarith+
  define D where "D = 2048 + a - N * 2048"
  have D: "D + N * 2048 = a + 1 * 2048" "D + 2047 + N * 2048 = a + 2047 + 1 * 2048" using le(1) by (simp_all add: D_def)
  have i: "(2048 + a - N * 2048) div 2048 + N = a div 2048 + 1"
    using arg_cong[OF D(1), of "\<lambda>n. n div 2048"] unfolding div_mult_self1[OF zero_neq_numeral[symmetric]] by (simp add: D_def)
  have j: "(2048 + a - N * 2048 + 2047) div 2048 + N = (a + 2047) div 2048 + 1"
    using arg_cong[OF D(2), of "\<lambda>n. n div 2048"] unfolding div_mult_self1[OF zero_neq_numeral[symmetric]] by (simp add: D_def)
  have "(2048 + a - N * 2048 + N * 2048) mod 2048 = (2048 + a) mod 2048" unfolding le_add_diff_inverse2[OF le(1)] ..
  then show "(2048 + a - N * 2048) mod 2048 = a mod 2048" by simp
  show "buf ((2048 + a - N * 2048 + 2047) div 2048) = x ((a + 2047) div 2048)"
  proof (cases "(a + 2047) div 2048 = N")
    case True
    then have "(2048 + a - N * 2048 + 2047) div 2048 = 1" using j by linarith
    then show ?thesis using True assms(3) by simp
  next
    case False
    then have n: "(a + 2047) div 2048 = N + 1" using assms(1,2) by simp
    then have "(2048 + a - N * 2048 + 2047) div 2048 = 2" using j by linarith
    then show ?thesis using n assms(4) by simp
  qed
  have f: "a div 2048 \<le> (a + 2047) div 2048" by (intro div_le_mono) simp
  consider "a div 2048 < N" | "a div 2048 = N" | "a div 2048 = N + 1" "(a + 2047) div 2048 = N + 1" using f assms(2) by linarith
  then show "buf ((2048 + a - N * 2048) div 2048) = x (a div 2048)"
  proof cases
    case 1
    have "N = a div 2048 + 1" using 1 assms(1) ceil_floor[of a] by linarith
    then have "(2048 + a - N * 2048) div 2048 = 0" using i by linarith
    then show ?thesis using 1 assms(5) by simp
  next
    case 2
    then have "(2048 + a - N * 2048) div 2048 = 1" using i by linarith
    then show ?thesis using 2 assms(3) by simp
  next
    case 3
    then have "(2048 + a - N * 2048) div 2048 = 2" using i by linarith
    then show ?thesis using 3 assms(4) by simp
  qed
qed

lemma up_step:
  assumes "up_sync x S i c e"
  shows "\<exists>c' buf' e' v. resample_chip (played_stream x) calls S (c, [(0, 0)], buf, e) = Ok (c', [v], buf', e') \<and> Ok v = up_value x S c i \<and>
    up_sync x S (i + 1) c' e' \<and> up_value x S c' = up_value x S c"
proof -
  let ?R = "unat (SmpRate c)" and ?S = "unat S" and ?p = "unat (SmpP c)"
  define a N where "a = stream_pos ?R ?S ?p" "N = unat (SmpNext c)"
  let ?f = "a div 2048" and ?g = "(a + 2047) div 2048" and ?B = "2048 + a - N * 2048"
  have h: "Resampler c = 0x01" "0 < ?R" "?R < ?S" "?S < 2 ^ 20" "?p \<le> ?S" "N \<le> ?g" "?g \<le> N + 1"
    using assms by (auto simp: up_sync_def Let_def a_N_def word_less_nat_alt)
  obtain q where q: "i = q * ?S + ?p" "e = ?R * q + N + 1" "NSmpl c = x (?R * q + N)" "?f < N \<longrightarrow> LSmpl c = x (?R * q + ?f)"
    using assms by (auto simp: up_sync_def Let_def a_N_def)
  have S0: "0 < ?S" "S \<noteq> 0" using h(3) by auto
  have "a \<le> 2048 * ?R" using stream_pos_mono[OF h(5), of ?R ?S] stream_pos_S[OF S0(1), of ?R] by (simp add: a_N_def)
  then have a: "a < 2147481600" "?g < 2097152" "?p < 2097152" using h(3-5) by simp_all
  have ua: "unat (of_nat a :: u32) = a" using a(1) by (simp add: unat_of_nat take_bit_nat_eq_self)
  have pos: "InPosL (SmpRate c) S (SmpP c) = of_nat a"
    using InPosL_nat[of "SmpP c" S "SmpRate c"] S0 a by (simp add: a_N_def)
  have fg: "fp2i_floor (of_nat a) = of_nat ?f" "fp2i_ceil (of_nat a) = of_nat ?g"
    using a(1) by (simp_all add: word_unat_eq_iff unat_floor unat_ceil ua unat_of_nat take_bit_nat_eq_self)
  have n: "unat (of_nat ?g - SmpNext c) = ?g - N"
  proof -
    have "of_nat ?g - SmpNext c = of_nat (?g - N)" using h(6) by (simp add: a_N_def(2) of_nat_diff)
    then show ?thesis using h(7) by (simp add: unat_of_nat take_bit_nat_eq_self)
  qed
  define b0 where "b0 = buf(0 := LSmpl c, Suc 0 := NSmpl c)"
  define buf' where "buf' = (\<lambda>j. if 2 \<le> j \<and> j < 2 + (?g - N) then x (e + (j - 2)) else b0 j)"
  have upd: "StreamUpdate (played_stream x) calls c 2 (fp2i_ceil (of_nat a) - SmpNext c) (b0, e) = Ok (buf', e + (?g - N))"
  proof -
    have "?g - N \<le> 254" using h(7) by simp
    then show ?thesis unfolding StreamUpdate_def played_stream_def fg n by (simp add: SMPL_BUFSIZE_def buf'_def)
  qed
  have win: "buf' (?B div 2048) = x (?R * q + ?f)" "buf' ((?B + 2047) div 2048) = x (?R * q + ?g)" "N * 2048 \<le> 2048 + a" "?B \<le> 4096"
      "?B mod 2048 = a mod 2048"
    using up_window[of N a buf' "\<lambda>i. x (?R * q + i)"] h(6,7) q by (simp_all add: buf'_def b0_def)
  have B: "2048 + (of_nat a - SmpNext c * 2048) = (of_nat ?B :: u32)" "unat (of_nat ?B :: u32) = ?B"
  proof -
    show "2048 + (of_nat a - SmpNext c * 2048) = (of_nat ?B :: u32)" using win(3) by (simp add: of_nat_diff a_N_def(2))
    have "?B < 4294967296" using win(4) by linarith
    then show "unat (of_nat ?B :: u32) = ?B" by (rule unat32)
  qed
  have at: "buf_at buf' (fp2i_floor (of_nat ?B)) = Ok (x (?R * q + ?f))" "buf_at buf' (fp2i_ceil (of_nat ?B)) = Ok (x (?R * q + ?g))"
  proof -
    have "?B div 2048 < 256" "(?B + 2047) div 2048 < 256" using win(4) by (simp_all add: div_less_iff_less_mult)
    then show "buf_at buf' (fp2i_floor (of_nat ?B)) = Ok (x (?R * q + ?f))" "buf_at buf' (fp2i_ceil (of_nat ?B)) = Ok (x (?R * q + ?g))"
      using win(1,2,4) B(2) by (simp_all add: buf_at_def unat_floor unat_ceil SMPL_BUFSIZE_def)
  qed
  have fr: "getfriction (of_nat ?B) = of_nat (a mod 2048)"
    using win(5) B(2) by (simp add: word_unat_eq_iff unat_friction unat32)
  have val: "interpolate c buf' (of_nat ?B) = up_value x S c i"
  proof -
    have "stream_pos ?R ?S i = 2048 * (?R * q) + a" unfolding q(1) a_N_def by (rule stream_pos_wrap[OF S0(1)])
    then have "stream_pos ?R ?S i mod 2048 = a mod 2048" "stream_pos ?R ?S i div 2048 = ?R * q + ?f"
        "(stream_pos ?R ?S i + 2047) div 2048 = ?R * q + ?g" by (simp_all add: add.assoc)
    then show ?thesis by (simp add: interpolate_def up_value_def Let_def at fr)
  qed
  obtain v where v: "up_value x S c i = Ok v" by (auto simp: up_value_def Let_def scaled_def sdiv64_def)
  define c1 where "c1 = c\<lparr>SmpLast := of_nat ?f, SmpNext := of_nat ?g, LSmpl := x (?R * q + ?f), NSmpl := x (?R * q + ?g), SmpP := SmpP c + 1\<rparr>"
  have "InPosL (SmpRate c) S 0 = 0" by (simp add: InPosL_def)
  then have "resample_chip (played_stream x) calls S (c, [(0, 0)], buf, e) = Ok (wrap_second S c1, [v], buf', e + (?g - N))"
    using upd S0(2) v by (simp add: resample_chip_def h(1) resample_up_def Let_def pos B(1) val at c1_def fg b0_def)
  moreover have "up_sync x S (i + 1) (wrap_second S c1) (e + (?g - N))"
  proof -
    have c1: "unat (SmpP c1) = ?p + 1" "unat (SmpLast c1) = ?f" "unat (SmpNext c1) = ?g"
      using SmpP_next[of "SmpP c"] a(2,3) div_le_mono[of a "a + 2047" 2048] by (simp_all add: c1_def unat32)
    have "e + (?g - N) = ?R * q + ?g + 1" using q(2) h(6) by simp
    then show ?thesis using c1 h q by (intro up_sync_next[where q = q]) (simp_all add: c1_def a_N_def)
  qed
  moreover have "up_value x S (wrap_second S c1) = up_value x S c"
    by (simp add: up_value_def scaled_def wrap_second_def c1_def Let_def fun_eq_iff)
  ultimately show ?thesis using v by metis
qed

text \<open>C11: a chip that is slower than the output: from its set-up on, every sample of the output is the linear interpolation between the two samples of
  the chip's stream around its time; no sample of the chip is lost or read twice between the calls.\<close>
theorem upsampler_interpolates:
  assumes "0 < SmpRate c" "SmpRate c < S" "unat S < 2 ^ 20" "mode \<noteq> 0x02"
    "SetupResampler (played_stream x) calls S mode c (buf, 0) = Ok (c1, buf1, e1)"
  shows "\<exists>outs s. resample_run (played_stream x) calls S n (c1, buf1, e1) = Ok (outs, s) \<and> map Ok outs = map (up_value x S c) [0..<n]"
proof -
  have "SmpRate c \<noteq> 0" using assms(1) by auto
  then have c1: "c1 = c\<lparr>Resampler := 0x01, SmpP := 0, SmpLast := 0, SmpNext := 0, LSmpl := (0, 0), NSmpl := x 0\<rparr>" "e1 = 1"
    using assms(2,4,5) by (auto simp: SetupResampler_def by_rate_def Let_def StreamUpdate_def played_stream_def SMPL_BUFSIZE_def)
  then have "up_sync x S 0 c1 e1"
    using assms(1-3) by (simp add: up_sync_def Let_def word_less_nat_alt)
  then have "\<exists>outs s. resample_run (played_stream x) calls S n (c1, buf1, e1) = Ok (outs, s) \<and> map Ok outs = map (up_value x S c1) [0..<0 + n]"
    by (intro resample_run_steps[where sync = "up_sync x S"] up_step)
  moreover have "up_value x S c1 = up_value x S c" by (simp add: c1 up_value_def scaled_def Let_def fun_eq_iff)
  ultimately show ?thesis by simp
qed

section \<open>The end of the song\<close>

text \<open>\<open>pausing v p\<close>: the song is over, and \<open>v\<close> samples of the pause are left.\<close>

definition pausing :: "u32 \<Rightarrow> vgm \<Rightarrow> bool" where
  "pausing v p \<longleftrightarrow> VGMEnd p \<and> \<not> EndPlay p \<and> \<not> FadePlay p \<and> PauseSmpls p = v"

lemma InterpretFile_pausing: "pausing v p \<Longrightarrow> post (InterpretFile k n p) (pausing v)"
proof -
  assume p: "pausing v p"
  have d: "post (update_dacs j s) (pausing v)" if "pausing v s" for j s
    unfolding update_dacs_def
    by (rule post_for_each[where P = "pausing v", OF that], rule post_bind_any, rule post_case_prod, rule post_Ok_I) (simp add: pausing_def on_dac_def)
  have i: "post (InterpretVGM k n s) (pausing v)" if "pausing v s" for s
    using that unfolding InterpretVGM_def by (simp add: pausing_def)
  show ?thesis
    unfolding InterpretFile_def
    by (intro post_bind[where Q = "pausing v"] post_if d i post_Ok_I) (use p in \<open>simp_all add: pausing_def\<close>)
qed

lemma mix_chip_player: "post (mix_chip upd i (x, m)) (\<lambda>(y, t). player t = player m)"
  unfolding mix_chip_def by (intro post_case_prod post_if post_bind_any post_Ok_I) simp_all

lemma fill_sample_pausing: "pausing v (player m) \<Longrightarrow> post (fill_sample k upd chips w m) (\<lambda>(x, t). pausing v (player t))"
proof -
  have mix: "post (for_each chips (mix_chip upd) (x, m)) (\<lambda>(y, t). pausing v (player t))" if "pausing v (player m)" for x m
    by (rule post_for_each) (use that in \<open>auto intro: post_mono[OF mix_chip_player]\<close>)
  show "pausing v (player m) \<Longrightarrow> ?thesis"
    unfolding fill_sample_def on_player_def
    by (intro post_bind[where Q = "\<lambda>m. pausing v (player m)"] post_bind[OF InterpretFile_pausing] post_bind[OF mix] post_case_prod post_Ok_I) simp_all
qed

lemma fade_round_pausing: "pausing v (player m) \<Longrightarrow> fade_round fade due 0 w m = (0, w, m)"
  by (simp add: fade_round_def pausing_def Let_def)

lemma fill_loop_pausing:
  "pausing v (player m) \<Longrightarrow> unat v < n \<Longrightarrow> unat i + n < 2 ^ 32 \<Longrightarrow>
    post (fill_loop n k upd fade chips i (0, w, m)) (\<lambda>(c, xs, t). c = i + v \<and> length xs = unat v + 1 \<and> EndPlay (player t) \<and> VGMEnd (player t))"
proof (induction n arbitrary: v i m)
  case (Suc n)
  have last: "post (case count_pause t of (ended, t) \<Rightarrow> if ended then Ok (i, [x], t)
      else bind_res (fill_loop n k upd fade chips (i + 1) (0, w, t)) (\<lambda>(c, xs, m). Ok (c, x # xs, m)))
      (\<lambda>(c, xs, t). c = i + v \<and> length xs = unat v + 1 \<and> EndPlay (player t) \<and> VGMEnd (player t))" if t: "pausing v (player t)" for x t
  proof (cases "v = 0")
    case True
    then show ?thesis using t by (simp add: count_pause_def pausing_def Let_def)
  next
    case False
    let ?t = "t\<lparr>player := (player t)\<lparr>PauseSmpls := v - 1\<rparr>\<rparr>"
    have c: "count_pause t = (False, ?t)" using t False by (simp add: count_pause_def pausing_def Let_def)
    have v: "unat (v - 1) + 1 = unat v" using False by (simp add: unat_minus_one unat_gt_0)
    have "unat (i + 1) = unat i + 1" using Suc.prems(3) by (simp add: unat_word_ariths)
    then have "post (fill_loop n k upd fade chips (i + 1) (0, w, ?t))
        (\<lambda>(c, xs, t). c = i + 1 + (v - 1) \<and> length xs = unat (v - 1) + 1 \<and> EndPlay (player t) \<and> VGMEnd (player t))"
      using t Suc.prems(2,3) v by (intro Suc.IH) (simp_all add: pausing_def)
    then show ?thesis unfolding c prod.case if_False by (rule post_bind) (use v in auto)
  qed
  show ?case
    unfolding fill_loop.simps prod.case
    by (rule post_bind[OF fill_sample_pausing[OF Suc.prems(1)]], rule post_case_prod) (simp only: prod.case fade_round_pausing last)
qed simp

text \<open>Resampling and mixing always return.\<close>

lemma returns_require: "e \<noteq> OutOfFuel \<Longrightarrow> returns m \<Longrightarrow> returns (require b e m)"
  by (cases b) simp_all

lemma stream_returns [simp]: "returns (StreamUpdate upd calls c off n s)" "returns (buf_at buf i)" "returns (scaled c n t)"
  unfolding StreamUpdate_def buf_at_def scaled_def sdiv64_def
  by (intro returns_rules returns_require; simp split: prod.split)+

lemma average_returns [simp]: "returns (interpolate c buf p)" "returns (average c buf p p')"
proof -
  have "returns (whole_loop n buf i t)" for n i t
  proof (induction n arbitrary: i t)
    case (Suc n)
    show ?case unfolding whole_loop.simps by (intro returns_bind stream_returns Suc.IH)
  qed simp
  then show "returns (interpolate c buf p)" "returns (average c buf p p')"
    unfolding interpolate_def average_def Let_def by (intro returns_rules; simp)+
qed

lemma resample_returns: "returns (ResampleChipStream upd calls S cs s)"
proof -
  have up: "returns (up_loop c S b buf i xs)" for c b buf i xs
    by (induction xs arbitrary: i) (simp, simp only: up_loop.simps, intro returns_rules average_returns, simp_all)
  have down: "returns (down_loop c S b buf i p xs)" for c b buf i p xs
    by (induction xs arbitrary: i p) (simp, simp only: down_loop.simps Let_def, intro returns_rules average_returns, simp_all)
  have "returns (resample_old upd calls S t)" "returns (resample_up upd calls S t)" "returns (resample_copy upd calls S t)"
      "returns (resample_down upd calls S t)" for t
    unfolding resample_old_def resample_up_def resample_copy_def resample_down_def Let_def
    by (intro returns_rules returns_require stream_returns up down; simp)+
  then have chip: "returns (resample_chip upd calls S t)" for t
    unfolding resample_chip_def by (intro returns_rules) simp_all
  show ?thesis
    by (induction cs arbitrary: s) (simp, simp only: ResampleChipStream.simps, intro returns_rules chip, simp_all)
qed

lemma fill_sample_returns:
  assumes "pausing v (player m)"
  shows "returns (fill_sample k upd chips w m)"
proof -
  have d: "returns (update_dacs j p)" for j p
    unfolding update_dacs_def by (intro returns_for_each returns_rules update_returns) simp_all
  have "returns (InterpretFile k 1 (player m))"
    using assms unfolding InterpretFile_def by (intro returns_rules d) (simp_all add: InterpretVGM_def pausing_def)
  moreover have "returns (mix_chip upd i x)" for i x
    unfolding mix_chip_def by (intro returns_rules resample_returns) simp_all
  ultimately show ?thesis
    unfolding fill_sample_def on_player_def by (intro returns_rules returns_for_each) simp_all
qed

lemma fill_loop_returns: "pausing v (player m) \<Longrightarrow> returns (fill_loop n k upd fade chips i (0, w, m))"
proof (induction n arbitrary: v i m)
  case (Suc n)
  have "returns (case count_pause t of (ended, t) \<Rightarrow> if ended then Ok (i, [x], t)
      else bind_res (fill_loop n k upd fade chips (i + 1) (0, w, t)) (\<lambda>(c, xs, m). Ok (c, x # xs, m)))" if "pausing v (player t)" for x t
    using that Suc.IH[of "v - 1" "t\<lparr>player := (player t)\<lparr>PauseSmpls := v - 1\<rparr>\<rparr>"]
    by (auto simp: count_pause_def pausing_def Let_def intro!: returns_rules)
  moreover have "pausing v (player t)" if "fill_sample k upd chips w m = Ok (x, t)" for x t
    using fill_sample_pausing[OF Suc.prems, of k upd chips w] that by (simp add: post_def)
  ultimately show ?case
    unfolding fill_loop.simps prod.case
    by (intro returns_bind fill_sample_returns[OF Suc.prems]) (auto simp: fade_round_pausing)
qed simp

text \<open>C22: when the song is over, filling a buffer returns, unless a resampler faults, after exactly as many more samples as the pause has, whatever
  the size of the buffer; the next one ends the playback.\<close>
theorem FillBuffer_pause:
  assumes "VGMEnd (player m)" "\<not> EndPlay (player m)" "\<not> FadePlay (player m)" "PauseSmpls (player m) < BufferSize"
  shows "ends (FillBuffer k upd fade BufferSize m)
    (\<lambda>(n, xs, t). n = PauseSmpls (player m) \<and> length xs = unat n + 1 \<and> EndPlay (player t) \<and> VGMEnd (player t))"
proof -
  have p: "pausing (PauseSmpls (player m)) (player m)" using assms(1-3) by (simp add: pausing_def)
  have "unat (PauseSmpls (player m)) < unat BufferSize" "unat (0 :: u32) + unat BufferSize < 2 ^ 32"
    using assms(4) unsigned_less[of BufferSize, where 'a = nat] by (simp_all add: word_less_nat_alt)
  note l = fill_loop_pausing[OF p this]
  have "ends (fill_loop (unat BufferSize) k upd fade chips 0 (0, w, m))
      (\<lambda>(n, xs, t). n = PauseSmpls (player m) \<and> length xs = unat n + 1 \<and> EndPlay (player t) \<and> VGMEnd (player t))" for chips w
    unfolding ends_def using fill_loop_returns[OF p] by (intro conjI post_mono[OF l]) (auto simp: returns_def)
  then show ?thesis
    using assms(3) by (simp add: FillBuffer_def RecalcFadeVolume_def first_step_def Let_def)
qed

text \<open>The samples are clipped.\<close>

lemma Limit2Short_clips: "sint (Limit2Short v) = max (- 0x8000) (min 0x7FFF (sint v))"
proof -
  have s: "sint (ucast w :: s16) = sint w" if "- 0x8000 \<le> sint w" "sint w \<le> 0x7FFF" for w :: s32
  proof -
    have "signed_take_bit 15 (sint w) = signed_take_bit 15 (uint w)" by (simp add: sint_uint)
    then show ?thesis using that by (simp add: signed_ucast_eq signed_take_bit_int_eq_self)
  qed
  have "sint (- 0x8000 :: s32) = - 0x8000" "sint (0x7FFF :: s32) = 0x7FFF" by simp_all
  then show ?thesis
    unfolding Limit2Short_def Let_def by (subst s) (auto simp: word_sless_alt)
qed

section \<open>Witnesses\<close>

definition chip_at :: "u32 \<Rightarrow> CAUD_ATTR" where
  "chip_at r = \<lparr>SmpRate = r, chip_Volume = 0x100, ChipType = 0x00, ChipID = 0, Resampler = 0, SmpP = 7, SmpLast = 3, SmpNext = 4,
     LSmpl = (1, 1), NSmpl = (1, 1)\<rparr>"

text \<open>A square wave.\<close>

definition square :: "nat \<Rightarrow> stereo" where
  "square i = (if even (i div 16) then (1000, - 1000) else (- 1000, 1000))"

theorem downsampler_averages_witness:
  "\<exists>c1 buf1 e1 outs s. SetupResampler (played_stream square) [] 44100 0 (chip_at 96000) (\<lambda>_. (5, 5), 0) = Ok (c1, buf1, e1) \<and>
    resample_run (played_stream square) [] 44100 100000 (c1, buf1, e1) = Ok (outs, s) \<and>
    map Ok outs = map (down_value square 44100 (chip_at 96000)) [0..<100000]"
proof -
  obtain c1 buf1 e1 where s: "SetupResampler (played_stream square) [] 44100 0 (chip_at 96000) (\<lambda>_. (5, 5), 0) = Ok (c1, buf1, e1)"
    by (simp add: SetupResampler_def by_rate_def chip_at_def Let_def)
  show ?thesis using downsampler_averages[OF _ _ _ _ s, of 100000] s by (auto simp: chip_at_def)
qed

theorem upsampler_interpolates_witness:
  "\<exists>c1 buf1 e1 outs s. SetupResampler (played_stream square) [] 44100 0 (chip_at 7812) (\<lambda>_. (5, 5), 0) = Ok (c1, buf1, e1) \<and>
    resample_run (played_stream square) [] 44100 100000 (c1, buf1, e1) = Ok (outs, s) \<and>
    map Ok outs = map (up_value square 44100 (chip_at 7812)) [0..<100000]"
proof -
  obtain c1 buf1 e1 where s: "SetupResampler (played_stream square) [] 44100 0 (chip_at 7812) (\<lambda>_. (5, 5), 0) = Ok (c1, buf1, e1)"
    by (simp add: SetupResampler_def by_rate_def chip_at_def Let_def StreamUpdate_def played_stream_def SMPL_BUFSIZE_def)
  show ?thesis using upsampler_interpolates[OF _ _ _ _ s, of 100000] s by (auto simp: chip_at_def)
qed

text \<open>A song that is over, with a pause of two samples left.\<close>

definition example_mixer :: "nat mixer" where
  "example_mixer = \<lparr>player = example_vgm\<lparr>VGMEnd := True, PauseSmpls := 2\<rparr>, CAudio = (\<lambda>_ _. [(chip_at 44100)\<lparr>Resampler := 2\<rparr>]), Disabled = (\<lambda>_ _. False),
     ChipListAll = [(0, SN76496), (0, RF5C68)], ChipListPause = [(0, SN76496)], StreamBufs = (\<lambda>_. (0, 0)), emulators = 0, SurroundSound = False,
     ResampleMode = 0, FinalVol = 0x100\<rparr>"

lemma example_fill: "is_Ok (FillBuffer 1 (played_stream square) (\<lambda>_ _ _. (False, 0)) 5 example_mixer)"
  by code_simp

theorem FillBuffer_pause_witness:
  "\<exists>xs t. FillBuffer 1 (played_stream square) (\<lambda>_ _ _. (False, 0)) 5 example_mixer = Ok (2, xs, t) \<and> length xs = 3 \<and> EndPlay (player t)"
proof -
  obtain n xs t where f: "FillBuffer 1 (played_stream square) (\<lambda>_ _ _. (False, 0)) 5 example_mixer = Ok (n, xs, t)"
    using example_fill by (metis is_OkE prod_cases3)
  have "ends (FillBuffer 1 (played_stream square) (\<lambda>_ _ _. (False, 0)) 5 example_mixer)
      (\<lambda>(n, xs, t). n = PauseSmpls (player example_mixer) \<and> length xs = unat n + 1 \<and> EndPlay (player t) \<and> VGMEnd (player t))"
    by (rule FillBuffer_pause) (simp_all add: example_mixer_def example_vgm_def)
  then show ?thesis using f by (simp add: example_mixer_def)
qed

end
