(* ===== verification/Rf5c68.thy ===== *)
theory Rf5c68
  imports Prelude
begin

text \<open>
  The RF5C68 sound chip of the VGM player, \<^verbatim>\<open>VGMPlay/chips/rf5c68.c\<close>: eight channels that play samples from 64 KB of memory. A block for the
  memory is not copied at once but streamed while the chip plays, so that a channel may catch up with it. One chip of the array
  \<^verbatim>\<open>RF5C68Data\<close> is a value of \<open>rf5c68_state\<close>; its memory is a list, empty when there is none. What \<^verbatim>\<open>malloc\<close> returns is a parameter.
  \<^verbatim>\<open>MemPnt\<close> points into the file; it is the bytes from there on.
\<close>

section \<open>The chip\<close>

record pcm_channel =
  chn_enable :: u8
  env :: u8
  pan :: u8
  chn_start :: u8
  chn_addr :: u32
  chn_step :: u16
  loopst :: u16
  Muted :: u8

record mem_stream =
  BaseAddr :: u32
  EndAddr :: u32
  CurAddr :: u32
  CurStep :: u16
  MemPnt :: "u8 list option"

record rf5c68_state =
  chan :: "nat \<Rightarrow> pcm_channel"
  cbank :: u8
  wbank :: u8
  pcm_enable :: u8
  datasize :: u32
  pcm_data :: "u8 list"
  memstrm :: mem_stream

definition STEAM_STEP :: u16 where
  "STEAM_STEP = 0x800"

definition NUM_CHANNELS :: nat where
  "NUM_CHANNELS = 8"

definition on_chan :: "nat \<Rightarrow> (pcm_channel \<Rightarrow> pcm_channel) \<Rightarrow> rf5c68_state \<Rightarrow> rf5c68_state" where
  "on_chan i f chip = chip\<lparr>chan := (chan chip)(i := f (chan chip i))\<rparr>"

section \<open>The stream into the memory\<close>

text \<open>\<open>put_bytes d a xs\<close> is \<open>d\<close> with \<open>xs\<close> at \<open>a\<close>.\<close>

definition put_bytes :: "u8 list \<Rightarrow> nat \<Rightarrow> u8 list \<Rightarrow> u8 list" where
  "put_bytes d a xs = take a d @ xs @ drop (a + length xs) d"

text \<open>\<^verbatim>\<open>memcpy\<close> of the next \<open>n\<close> bytes of the stream.\<close>

definition copy_stream :: "nat \<Rightarrow> rf5c68_state \<Rightarrow> rf5c68_state res" where
  "copy_stream n chip = (let ms = memstrm chip; a = unat (CurAddr ms); k = unat (CurAddr ms - BaseAddr ms) in
     if n = 0 then Ok chip
     else case MemPnt ms of None \<Rightarrow> Fail NullPointer
       | Some m \<Rightarrow> require (a + n \<le> length (pcm_data chip) \<and> k + n \<le> length m) OutOfBounds
           (Ok (chip\<lparr>pcm_data := put_bytes (pcm_data chip) a (take n (drop k m))\<rparr>)))"

definition set_cur :: "u32 \<Rightarrow> rf5c68_state \<Rightarrow> rf5c68_state" where
  "set_cur a chip = chip\<lparr>memstrm := (memstrm chip)\<lparr>CurAddr := a\<rparr>\<rparr>"

definition rf5c68_mem_stream_flush :: "rf5c68_state \<Rightarrow> rf5c68_state res" where
  "rf5c68_mem_stream_flush chip = (let ms = memstrm chip in
     if CurAddr ms \<ge> EndAddr ms then Ok chip
     else bind_res (copy_stream (unat (EndAddr ms - CurAddr ms)) chip) (\<lambda>chip. Ok (set_cur (EndAddr ms) chip)))"

definition memstream_sample_check :: "u32 \<Rightarrow> u16 \<Rightarrow> rf5c68_state \<Rightarrow> rf5c68_state res" where
  "memstream_sample_check a Speed chip =
     (let ms = memstrm chip; SmplSpd = (if Speed \<ge> 0x0800 then ucast (drop_bit 11 Speed) else 1) in
      if a \<ge> CurAddr ms then
        if a - CurAddr ms \<le> SmplSpd * 5 then
          let cur = CurAddr ms - SmplSpd * 4 in Ok (set_cur (if cur < BaseAddr ms then BaseAddr ms else cur) chip)
        else Ok chip
      else if CurAddr ms - a \<le> SmplSpd * 5 then
        if CurAddr ms + SmplSpd * 4 \<ge> EndAddr ms then rf5c68_mem_stream_flush chip
        else bind_res (copy_stream (unat (SmplSpd * 4)) chip) (\<lambda>chip. Ok (set_cur (CurAddr ms + SmplSpd * 4) chip))
      else Ok chip)"

text \<open>The part of the stream that goes with \<open>n\<close> samples; \<^verbatim>\<open>CurStep\<close> has 16 bits.\<close>

definition advance_stream :: "nat \<Rightarrow> rf5c68_state \<Rightarrow> rf5c68_state res" where
  "advance_stream n chip = (let ms = memstrm chip; st = CurStep ms + STEAM_STEP * of_nat n in
     if \<not> (n \<noteq> 0 \<and> CurAddr ms < EndAddr ms) then Ok chip
     else if st \<ge> 0x0800 then
       let i = ucast (drop_bit 11 st); k = (if CurAddr ms + i > EndAddr ms then EndAddr ms - CurAddr ms else i) in
       bind_res (copy_stream (unat k) (chip\<lparr>memstrm := ms\<lparr>CurStep := st AND 0x07FF\<rparr>\<rparr>)) (\<lambda>chip. Ok (set_cur (CurAddr ms + k) chip))
     else Ok (chip\<lparr>memstrm := ms\<lparr>CurStep := st\<rparr>\<rparr>))"

section \<open>Playing\<close>

definition pcm_at :: "u32 \<Rightarrow> rf5c68_state \<Rightarrow> u8 res" where
  "pcm_at a chip = require (unat a < length (pcm_data chip)) OutOfBounds (Ok (pcm_data chip ! unat a))"

definition pcm_addr :: "u32 \<Rightarrow> u32" where
  "pcm_addr a = drop_bit 11 a AND 0xFFFF"

text \<open>One sample of a channel; \<open>None\<close> when the channel has reached its end and its loop point is an end as well.\<close>

definition channel_sample :: "nat \<Rightarrow> rf5c68_state \<Rightarrow> (u8 option \<times> rf5c68_state) res" where
  "channel_sample i chip =
     (let next = on_chan i (\<lambda>ch. ch\<lparr>chn_addr := chn_addr ch + ucast (chn_step ch)\<rparr>); ch = chan chip i in
      bind_res (memstream_sample_check (pcm_addr (chn_addr ch)) (chn_step ch) chip) (\<lambda>chip.
      bind_res (pcm_at (pcm_addr (chn_addr ch)) chip) (\<lambda>sample.
      if sample \<noteq> 0xff then Ok (Some sample, next chip)
      else let lp = push_bit 11 (ucast (loopst ch)); chip = on_chan i (\<lambda>ch. ch\<lparr>chn_addr := lp\<rparr>) chip in
        bind_res (pcm_at (pcm_addr lp) chip) (\<lambda>sample.
        if sample = 0xff then Ok (None, chip) else Ok (Some sample, next chip)))))"

definition add_sample :: "u8 \<Rightarrow> s32 \<Rightarrow> s32 \<Rightarrow> s32 \<times> s32 \<Rightarrow> s32 \<times> s32" where
  "add_sample sample lv rv x =
     (if sample AND 0x80 \<noteq> 0 then
        let v = ucast (sample AND 0x7f) in (fst x + signed_drop_bit 5 (v * lv), snd x + signed_drop_bit 5 (v * rv))
      else let v = ucast sample in (fst x - signed_drop_bit 5 (v * lv), snd x - signed_drop_bit 5 (v * rv)))"

text \<open>The loop over the samples of the buffer.\<close>

primrec channel_loop :: "nat \<Rightarrow> s32 \<Rightarrow> s32 \<Rightarrow> (s32 \<times> s32) list \<Rightarrow> rf5c68_state \<Rightarrow> ((s32 \<times> s32) list \<times> rf5c68_state) res" where
  "channel_loop i lv rv [] chip = Ok ([], chip)"
| "channel_loop i lv rv (x # xs) chip = bind_res (channel_sample i chip) (\<lambda>(smp, chip).
     case smp of None \<Rightarrow> Ok (x # xs, chip)
     | Some sample \<Rightarrow> bind_res (channel_loop i lv rv xs chip) (\<lambda>(ys, chip). Ok (add_sample sample lv rv x # ys, chip)))"

definition play_channel :: "nat \<Rightarrow> (s32 \<times> s32) list \<times> rf5c68_state \<Rightarrow> ((s32 \<times> s32) list \<times> rf5c68_state) res" where
  "play_channel i s = (case s of (out, chip) \<Rightarrow> let ch = chan chip i in
     if chn_enable ch \<noteq> 0 \<and> Muted ch = 0 then
       channel_loop i (ucast (pan ch AND 0x0f) * ucast (env ch)) (ucast (drop_bit 4 (pan ch) AND 0x0f) * ucast (env ch)) out chip
     else Ok (out, chip))"

definition rf5c68_update :: "nat \<Rightarrow> rf5c68_state \<Rightarrow> ((s32 \<times> s32) list \<times> rf5c68_state) res" where
  "rf5c68_update samples chip = (let out = replicate samples (0, 0) in
     if pcm_enable chip = 0 then Ok (out, chip)
     else bind_res (for_each [0..<NUM_CHANNELS] play_channel (out, chip)) (\<lambda>(out, chip).
       bind_res (advance_stream samples chip) (\<lambda>chip. Ok (out, chip))))"

section \<open>Starting and resetting\<close>

definition device_start_rf5c68 :: "u8 list \<Rightarrow> s32 \<Rightarrow> rf5c68_state \<Rightarrow> s32 \<times> rf5c68_state" where
  "device_start_rf5c68 memory clock chip = (c_div (clock AND 0x7FFFFFFF) 384,
     chip\<lparr>datasize := 0x10000, pcm_data := memory,
       chan := (\<lambda>i. if i < NUM_CHANNELS then (chan chip i)\<lparr>Muted := 0x00\<rparr> else chan chip i)\<rparr>)"

definition device_stop_rf5c68 :: "rf5c68_state \<Rightarrow> rf5c68_state" where
  "device_stop_rf5c68 chip = chip\<lparr>pcm_data := []\<rparr>"

definition device_reset_rf5c68 :: "rf5c68_state \<Rightarrow> rf5c68_state res" where
  "device_reset_rf5c68 chip = require (unat (datasize chip) \<le> length (pcm_data chip)) OutOfBounds
     (Ok (chip\<lparr>pcm_data := put_bytes (pcm_data chip) 0 (replicate (unat (datasize chip)) 0x00), pcm_enable := 0, cbank := 0, wbank := 0,
       chan := (\<lambda>i. if i < NUM_CHANNELS then (chan chip i)\<lparr>chn_enable := 0, env := 0, pan := 0, chn_start := 0, chn_addr := 0, chn_step := 0, loopst := 0\<rparr>
         else chan chip i),
       memstrm := \<lparr>BaseAddr = 0, EndAddr = 0, CurAddr = 0, CurStep = 0, MemPnt = None\<rparr>\<rparr>))"

section \<open>Registers and memory\<close>

definition start_addr :: "pcm_channel \<Rightarrow> u32" where
  "start_addr ch = push_bit (8 + 11) (ucast (chn_start ch))"

definition low_byte :: "u16 \<Rightarrow> u8 \<Rightarrow> u16" where
  "low_byte w b = (w AND 0xff00) OR (ucast b AND 0x00ff)"

definition high_byte :: "u16 \<Rightarrow> u8 \<Rightarrow> u16" where
  "high_byte w b = (w AND 0x00ff) OR (push_bit 8 (ucast b) AND 0xff00)"

definition channel_switch :: "u8 \<Rightarrow> nat \<Rightarrow> pcm_channel \<Rightarrow> pcm_channel" where
  "channel_switch dat i ch = (let ch = ch\<lparr>chn_enable := drop_bit i (NOT dat) AND 1\<rparr> in
     if chn_enable ch = 0 then ch\<lparr>chn_addr := start_addr ch\<rparr> else ch)"

definition rf5c68_w :: "u8 \<Rightarrow> u8 \<Rightarrow> rf5c68_state \<Rightarrow> rf5c68_state" where
  "rf5c68_w offset dat chip = (let on = on_chan (unat (cbank chip)) in
     if offset = 0x00 then on (\<lambda>ch. ch\<lparr>env := dat\<rparr>) chip
     else if offset = 0x01 then on (\<lambda>ch. ch\<lparr>pan := dat\<rparr>) chip
     else if offset = 0x02 then on (\<lambda>ch. ch\<lparr>chn_step := low_byte (chn_step ch) dat\<rparr>) chip
     else if offset = 0x03 then on (\<lambda>ch. ch\<lparr>chn_step := high_byte (chn_step ch) dat\<rparr>) chip
     else if offset = 0x04 then on (\<lambda>ch. ch\<lparr>loopst := low_byte (loopst ch) dat\<rparr>) chip
     else if offset = 0x05 then on (\<lambda>ch. ch\<lparr>loopst := high_byte (loopst ch) dat\<rparr>) chip
     else if offset = 0x06 then on (\<lambda>ch. let ch = ch\<lparr>chn_start := dat\<rparr> in if chn_enable ch = 0 then ch\<lparr>chn_addr := start_addr ch\<rparr> else ch) chip
     else if offset = 0x07 then
       let chip = chip\<lparr>pcm_enable := drop_bit 7 dat AND 1\<rparr> in
       if dat AND 0x40 \<noteq> 0 then chip\<lparr>cbank := dat AND 7\<rparr> else chip\<lparr>wbank := dat AND 15\<rparr>
     else if offset = 0x08 then chip\<lparr>chan := (\<lambda>i. if i < 8 then channel_switch dat i (chan chip i) else chan chip i)\<rparr>
     else chip)"

definition rf5c68_mem_r :: "u32 \<Rightarrow> rf5c68_state \<Rightarrow> u8 res" where
  "rf5c68_mem_r offset chip = pcm_at (ucast (wbank chip) * 0x1000 + offset) chip"

definition rf5c68_mem_w :: "u32 \<Rightarrow> u8 \<Rightarrow> rf5c68_state \<Rightarrow> rf5c68_state res" where
  "rf5c68_mem_w offset dat chip = bind_res (rf5c68_mem_stream_flush chip) (\<lambda>chip.
     let i = unat (ucast (wbank chip) * 0x1000 OR offset) in
     require (i < length (pcm_data chip)) OutOfBounds (Ok (chip\<lparr>pcm_data := (pcm_data chip)[i := dat]\<rparr>)))"

definition rf5c68_write_ram :: "u32 \<Rightarrow> u32 \<Rightarrow> u8 list \<Rightarrow> rf5c68_state \<Rightarrow> rf5c68_state res" where
  "rf5c68_write_ram DataStart DataLength RAMData chip =
     (let st = DataStart OR ucast (wbank chip) * 0x1000;
          len = (if st + DataLength > datasize chip then datasize chip - st else DataLength) in
      if st \<ge> datasize chip then Ok chip
      else bind_res (rf5c68_mem_stream_flush chip) (\<lambda>chip.
        let en = st + len; BytCnt = (if st + 0x40 > en then ucast (ucast (en - st) :: u16) else 0x40) in
        bind_res (copy_stream (unat BytCnt) (chip\<lparr>memstrm := \<lparr>BaseAddr = st, EndAddr = en, CurAddr = st, CurStep = 0x0000, MemPnt = Some RAMData\<rparr>\<rparr>))
          (\<lambda>chip. Ok (set_cur (st + BytCnt) chip))))"

definition rf5c68_set_mute_mask :: "u32 \<Rightarrow> rf5c68_state \<Rightarrow> rf5c68_state" where
  "rf5c68_set_mute_mask MuteMask chip =
     chip\<lparr>chan := (\<lambda>i. if i < NUM_CHANNELS then (chan chip i)\<lparr>Muted := ucast (drop_bit i MuteMask AND 0x01)\<rparr> else chan chip i)\<rparr>"

end
