(* ===== verification/Rf5c68Laws.thy ===== *)
theory Rf5c68Laws
  imports Rf5c68
begin

text \<open>
  Laws of the RF5C68: no call reads or writes outside its memory or the block that is streamed into it, and a block arrives as a whole, however
  the channels play while it does.
\<close>

section \<open>Copying\<close>

lemma length_put [simp]: "a + length xs \<le> length d \<Longrightarrow> length (put_bytes d a xs) = length d"
  by (simp add: put_bytes_def)

lemma nth_put: "a + length xs \<le> length d \<Longrightarrow> i < length d \<Longrightarrow>
    put_bytes d a xs ! i = (if a \<le> i \<and> i < a + length xs then xs ! (i - a) else d ! i)"
  by (auto simp: put_bytes_def nth_append)

lemma put_bytes_Nil [simp]: "put_bytes d a [] = d"
  by (simp add: put_bytes_def)

text \<open>A part of a block behind or over the part that has been copied.\<close>

lemma put_more:
  assumes "b + l \<le> length d" "l \<le> length m" "k \<le> l" "j \<le> k" "j + n \<le> l"
  shows "put_bytes (put_bytes d b (take k m)) (b + j) (take n (drop j m)) = put_bytes d b (take (max k (j + n)) m)"
proof (rule nth_equalityI)
  have len: "length (take k m) = k" "length (take n (drop j m)) = n" "length (take (max k (j + n)) m) = max k (j + n)"
    using assms by auto
  show "length (put_bytes (put_bytes d b (take k m)) (b + j) (take n (drop j m))) = length (put_bytes d b (take (max k (j + n)) m))"
    using assms len by simp
  fix i
  assume "i < length (put_bytes (put_bytes d b (take k m)) (b + j) (take n (drop j m)))"
  then have i: "i < length d" using assms len by simp
  show "put_bytes (put_bytes d b (take k m)) (b + j) (take n (drop j m)) ! i = put_bytes d b (take (max k (j + n)) m) ! i"
    using assms i len by (auto simp: nth_put)
qed

section \<open>The stream\<close>

text \<open>
  \<open>streaming old b m l chip\<close>: the block \<open>m\<close> of \<open>l\<close> bytes is on its way to \<open>b\<close>. If \<open>old\<close> is a memory, all of the block behind
  \<^verbatim>\<open>CurAddr\<close> has arrived, and perhaps more, and the rest of the memory is as in \<open>old\<close>.
\<close>

definition arrived :: "u8 list option \<Rightarrow> nat \<Rightarrow> u8 list \<Rightarrow> nat \<Rightarrow> rf5c68_state \<Rightarrow> bool" where
  "arrived old b m l chip \<longleftrightarrow> (case old of None \<Rightarrow> length (pcm_data chip) = 0x10000
     | Some d \<Rightarrow> length d = 0x10000 \<and> (\<exists>k. unat (CurAddr (memstrm chip)) \<le> b + k \<and> k \<le> l \<and> pcm_data chip = put_bytes d b (take k m)))"

definition streaming :: "u8 list option \<Rightarrow> nat \<Rightarrow> u8 list \<Rightarrow> nat \<Rightarrow> rf5c68_state \<Rightarrow> bool" where
  "streaming old b m l chip \<longleftrightarrow> (let ms = memstrm chip in
     b + l \<le> 0x10000 \<and> l \<le> length m \<and> (l \<noteq> 0 \<longrightarrow> MemPnt ms = Some m) \<and>
     unat (BaseAddr ms) = b \<and> unat (EndAddr ms) = b + l \<and> b \<le> unat (CurAddr ms) \<and> unat (CurAddr ms) \<le> b + l \<and> arrived old b m l chip)"

text \<open>
  \<open>lost chip\<close>: the stream has been put back below 0 and so behind all memory. It stays there.
\<close>

definition lost :: "rf5c68_state \<Rightarrow> bool" where
  "lost chip \<longleftrightarrow> unat (EndAddr (memstrm chip)) \<le> 0x10000 \<and> 0xFFFFFF00 \<le> CurAddr (memstrm chip)"

text \<open>The block is on its way or, if it is for the first 124 bytes, may have been lost.\<close>

definition on_way :: "u8 list option \<Rightarrow> nat \<Rightarrow> u8 list \<Rightarrow> nat \<Rightarrow> rf5c68_state \<Rightarrow> bool" where
  "on_way old b m l chip \<longleftrightarrow> datasize chip = 0x10000 \<and> wbank chip \<le> 15 \<and>
     (streaming old b m l chip \<or> b < 124 \<and> lost chip \<and> length (pcm_data chip) = 0x10000)"

definition rf_ok :: "rf5c68_state \<Rightarrow> bool" where
  "rf_ok chip \<longleftrightarrow> (\<exists>old b m l. on_way old b m l chip)"

lemma streaming_length: "streaming old b m l chip \<Longrightarrow> length (pcm_data chip) = 0x10000"
  by (auto simp: streaming_def arrived_def Let_def split: option.splits)

lemma unat_diff_32: "b \<le> (a :: u32) \<Longrightarrow> unat (a - b) = unat a - unat b"
  by (simp add: unat_sub_if' word_le_nat_alt)

text \<open>Copying the next \<open>n\<close> bytes of the stream and moving on.\<close>

lemma arrived_copy:
  assumes "arrived old b m l chip" "b + l \<le> 0x10000" "l \<le> length m" "b \<le> c" "c + n \<le> b + l" "c = unat (CurAddr (memstrm chip))" "unat a = c + n"
  shows "arrived old b m l (set_cur a (chip\<lparr>pcm_data := put_bytes (pcm_data chip) c (take n (drop (c - b) m))\<rparr>))"
proof (cases old)
  case None
  then show ?thesis using assms by (auto simp: arrived_def set_cur_def)
next
  case (Some d)
  then obtain k where k: "length d = 0x10000" "c \<le> b + k" "k \<le> l" "pcm_data chip = put_bytes d b (take k m)"
    using assms(1,6) by (auto simp: arrived_def)
  have "put_bytes (pcm_data chip) c (take n (drop (c - b) m)) = put_bytes d b (take (max k (c - b + n)) m)"
    using put_more[of b l d m k "c - b" n] k assms(2-5) by simp
  then show ?thesis using Some k assms(4,5,7) by (auto simp: arrived_def set_cur_def intro!: exI[of _ "max k (c - b + n)"])
qed

lemma copy_streaming:
  assumes "streaming old b m l chip" "unat (CurAddr (memstrm chip)) + n \<le> b + l" "unat a = unat (CurAddr (memstrm chip)) + n"
  shows "\<exists>t. copy_stream n chip = Ok t \<and> streaming old b m l (set_cur a t) \<and> memstrm t = memstrm chip"
proof (cases "n = 0")
  case True
  then have "a = CurAddr (memstrm chip)" using assms(3) by (metis add.right_neutral of_nat_unat ucast_id)
  then have "set_cur a chip = chip" by (simp add: set_cur_def)
  then show ?thesis using True assms(1) by (simp add: copy_stream_def)
next
  case False
  let ?c = "unat (CurAddr (memstrm chip))"
  let ?t = "chip\<lparr>pcm_data := put_bytes (pcm_data chip) ?c (take n (drop (?c - b) m))\<rparr>"
  have s: "b + l \<le> 0x10000" "l \<le> length m" "l \<noteq> 0 \<longrightarrow> MemPnt (memstrm chip) = Some m" "unat (BaseAddr (memstrm chip)) = b"
      "unat (EndAddr (memstrm chip)) = b + l" "b \<le> ?c" "?c \<le> b + l" "arrived old b m l chip"
    using assms(1) by (simp_all add: streaming_def Let_def)
  have d: "unat (CurAddr (memstrm chip) - BaseAddr (memstrm chip)) = ?c - b"
    using s(4,6) by (subst unat_diff_32) (simp_all add: word_le_nat_alt)
  have "l \<noteq> 0" "?c - b + n \<le> length m" "?c + n \<le> length (pcm_data chip)"
    using False s assms(2) streaming_length[OF assms(1)] by simp_all
  then have "copy_stream n chip = Ok ?t" using s(3) False by (simp add: copy_stream_def d Let_def)
  moreover have "streaming old b m l (set_cur a ?t)"
    using s assms(2,3) arrived_copy[OF s(8,1,2,6) assms(2) refl assms(3)] by (simp add: streaming_def set_cur_def)
  ultimately show ?thesis by auto
qed

lemma flush_streaming:
  assumes "streaming old b m l chip"
  shows "\<exists>t. rf5c68_mem_stream_flush chip = Ok t \<and> streaming old b m l t \<and> CurAddr (memstrm t) = EndAddr (memstrm t)"
proof (cases "EndAddr (memstrm chip) \<le> CurAddr (memstrm chip)")
  case True
  then have "CurAddr (memstrm chip) = EndAddr (memstrm chip)"
    using assms by (auto simp: streaming_def Let_def word_le_nat_alt word_unat_eq_iff)
  then show ?thesis using True assms by (simp add: rf5c68_mem_stream_flush_def)
next
  case False
  have u: "unat (EndAddr (memstrm chip)) = b + l" using assms by (simp add: streaming_def Let_def)
  have d: "unat (EndAddr (memstrm chip) - CurAddr (memstrm chip)) = b + l - unat (CurAddr (memstrm chip))"
    using False u by (subst unat_diff_32) simp_all
  obtain t where "copy_stream (b + l - unat (CurAddr (memstrm chip))) chip = Ok t" "streaming old b m l (set_cur (EndAddr (memstrm chip)) t)"
      "memstrm t = memstrm chip"
    using copy_streaming[OF assms, of "b + l - unat (CurAddr (memstrm chip))" "EndAddr (memstrm chip)"] False u by (auto simp: word_le_nat_alt)
  then show ?thesis using False d by (simp add: rf5c68_mem_stream_flush_def Let_def set_cur_def)
qed

lemma streaming_whole:
  "streaming (Some d) b m l t \<Longrightarrow> CurAddr (memstrm t) = EndAddr (memstrm t) \<Longrightarrow> pcm_data t = put_bytes d b (take l m)"
  by (auto simp: streaming_def arrived_def Let_def)

lemma datasize_frame [simp]:
  "datasize (set_cur a chip) = datasize chip" "wbank (set_cur a chip) = wbank chip" "pcm_data (set_cur a chip) = pcm_data chip" "CurAddr (memstrm (set_cur a chip)) = a"
  "EndAddr (memstrm (set_cur a chip)) = EndAddr (memstrm chip)" "datasize (on_chan i f chip) = datasize chip" "wbank (on_chan i f chip) = wbank chip"
  "pcm_data (on_chan i f chip) = pcm_data chip" "memstrm (on_chan i f chip) = memstrm chip"
  by (simp_all add: set_cur_def on_chan_def)

lemma copy_datasize: "copy_stream n chip = Ok t \<Longrightarrow> datasize t = datasize chip \<and> wbank t = wbank chip"
  by (auto simp: copy_stream_def Let_def require_Ok_iff split: if_splits option.splits)

lemma flush_datasize: "rf5c68_mem_stream_flush chip = Ok t \<Longrightarrow> datasize t = datasize chip \<and> wbank t = wbank chip"
  by (auto simp: rf5c68_mem_stream_flush_def Let_def bind_res_Ok_iff copy_datasize split: if_splits)

lemma streaming_back:
  assumes "streaming old b m l chip" "b \<le> unat a" "unat a \<le> unat (CurAddr (memstrm chip))"
  shows "streaming old b m l (set_cur a chip)"
  using assms by (cases old) (auto simp: streaming_def arrived_def set_cur_def Let_def intro: order_trans)

lemma lost_flush: "lost chip \<Longrightarrow> rf5c68_mem_stream_flush chip = Ok chip"
proof -
  assume "lost chip"
  then have "EndAddr (memstrm chip) \<le> CurAddr (memstrm chip)" by (auto simp: lost_def word_le_nat_alt)
  then show ?thesis by (simp add: rf5c68_mem_stream_flush_def)
qed

lemma pcm_addr_le: "pcm_addr a \<le> 0xFFFF"
  unfolding pcm_addr_def by (rule word_and_le1)

text \<open>The distances of the check: at most 155 and 124 bytes.\<close>

lemma speed_bounds: "unat (if (Speed :: u16) \<ge> 0x0800 then ucast (drop_bit 11 Speed) else 1 :: u32) \<le> 31"
proof -
  have "unat (drop_bit 11 Speed) \<le> 31"
    using unsigned_less[of Speed, where 'a = nat] by (simp add: drop_bit_eq_div unat_div)
  moreover have "unat (ucast (drop_bit 11 Speed) :: u32) = unat (drop_bit 11 Speed)"
    using unsigned_less[of "drop_bit 11 Speed", where 'a = nat] by (simp add: unsigned_ucast_eq take_bit_nat_eq_self)
  ultimately show ?thesis by simp
qed

lemma check_on_way:
  assumes "on_way old b m l chip" "a \<le> 0xFFFF"
  shows "runs (memstream_sample_check a Speed chip) (on_way old b m l)"
proof -
  define v :: u32 where "v = (if Speed \<ge> 0x0800 then ucast (drop_bit 11 Speed) else 1)"
  have v: "unat v \<le> 31" unfolding v_def by (rule speed_bounds)
  have v5: "unat (v * 5) = 5 * unat v" "unat (v * 4) = 4 * unat v" using v by (simp_all add: unat_word_ariths)
  have a: "unat a \<le> 0xFFFF" using assms(2) by (simp add: word_le_nat_alt)
  let ?c = "CurAddr (memstrm chip)"
  have d: "datasize chip = 0x10000" "wbank chip \<le> 15" using assms(1) by (simp_all add: on_way_def)
  show ?thesis
  proof (cases "streaming old b m l chip")
    case True
    then have s: "unat (BaseAddr (memstrm chip)) = b" "unat (EndAddr (memstrm chip)) = b + l" "b \<le> unat ?c" "unat ?c \<le> b + l" "b + l \<le> 0x10000"
      by (auto simp: streaming_def Let_def)
    consider (behind) "?c \<le> a" "a - ?c \<le> v * 5" | (flush) "\<not> ?c \<le> a" "?c - a \<le> v * 5" "EndAddr (memstrm chip) \<le> ?c + v * 4"
      | (copy) "\<not> ?c \<le> a" "?c - a \<le> v * 5" "\<not> EndAddr (memstrm chip) \<le> ?c + v * 4" | (none) "?c \<le> a \<and> \<not> a - ?c \<le> v * 5 \<or> \<not> ?c \<le> a \<and> \<not> ?c - a \<le> v * 5"
      by blast
    then show ?thesis
    proof cases
      case behind
      let ?n = "if ?c - v * 4 < BaseAddr (memstrm chip) then BaseAddr (memstrm chip) else ?c - v * 4"
      have e: "memstream_sample_check a Speed chip = Ok (set_cur ?n chip)"
        using behind unfolding memstream_sample_check_def v_def[symmetric] Let_def by simp
      show ?thesis
      proof (cases "v * 4 \<le> ?c")
        case True
        then have "unat (?c - v * 4) \<le> unat ?c" by (simp add: unat_diff_32)
        then have "streaming old b m l (set_cur ?n chip)"
          using s \<open>streaming old b m l chip\<close> by (intro streaming_back) (auto simp: word_less_nat_alt)
        then show ?thesis using e d by (simp add: on_way_def)
      next
        case False
        then have c: "unat ?c < 4 * unat v" using v5 by (simp add: word_le_nat_alt)
        then have w: "unat (?c - v * 4) = 2 ^ 32 + unat ?c - 4 * unat v" using v v5 False by (simp add: unat_sub_if' word_le_nat_alt)
        then have "\<not> ?c - v * 4 < BaseAddr (memstrm chip)" using s v by (simp add: word_less_nat_alt)
        moreover have "lost (set_cur (?c - v * 4) chip)" using w v s by (simp add: lost_def word_le_nat_alt)
        ultimately show ?thesis using e d c v s(3) streaming_length[OF \<open>streaming old b m l chip\<close>] by (simp add: on_way_def)
      qed
    next
      case flush
      then have "memstream_sample_check a Speed chip = rf5c68_mem_stream_flush chip"
        unfolding memstream_sample_check_def v_def[symmetric] Let_def by simp
      then show ?thesis using flush_streaming[OF True] d flush_datasize by (fastforce simp: on_way_def)
    next
      case copy
      have n: "unat (?c + v * 4) = unat ?c + 4 * unat v" using s v v5 by (simp add: unat_word_ariths)
      then have "unat ?c + 4 * unat v \<le> b + l" using copy(3) s by (simp add: word_le_nat_alt)
      then obtain t where "copy_stream (4 * unat v) chip = Ok t" "streaming old b m l (set_cur (?c + v * 4) t)"
        using copy_streaming[OF True, of "4 * unat v" "?c + v * 4"] n by auto
      then show ?thesis
        using copy d copy_datasize unfolding memstream_sample_check_def v_def[symmetric] Let_def by (auto simp: on_way_def v5)
    next
      case none
      then have "memstream_sample_check a Speed chip = Ok chip"
        unfolding memstream_sample_check_def v_def[symmetric] Let_def by auto
      then show ?thesis using assms(1) by simp
    qed
  next
    case False
    then have lost: "lost chip" using assms(1) by (simp add: on_way_def)
    then have c: "2 ^ 32 - 256 \<le> unat ?c" by (simp add: lost_def word_le_nat_alt)
    then have "\<not> ?c \<le> a" "unat (?c - a) = unat ?c - unat a" using a by (simp_all add: word_le_nat_alt unat_diff_32)
    moreover have "\<not> unat ?c - unat a \<le> 5 * unat v" using c a v by simp
    ultimately have "memstream_sample_check a Speed chip = Ok chip"
      unfolding memstream_sample_check_def v_def[symmetric] Let_def by (simp add: word_le_nat_alt v5)
    then show ?thesis using assms(1) by simp
  qed
qed

section \<open>Playing\<close>

lemma on_way_frame [simp]:
  "on_way old b m l (on_chan i f chip) = on_way old b m l chip" "on_way old b m l (chip\<lparr>chan := g\<rparr>) = on_way old b m l chip"
  "on_way old b m l (chip\<lparr>pcm_enable := x\<rparr>) = on_way old b m l chip" "on_way old b m l (chip\<lparr>cbank := x\<rparr>) = on_way old b m l chip"
  "on_way old b m l (chip\<lparr>memstrm := (memstrm chip)\<lparr>CurStep := st\<rparr>\<rparr>) = on_way old b m l chip"
  by (simp_all add: on_way_def streaming_def arrived_def lost_def on_chan_def Let_def cong: option.case_cong)

lemma on_way_wbank: "on_way old b m l chip \<Longrightarrow> on_way old b m l (chip\<lparr>wbank := w AND 15\<rparr>)"
  by (simp add: on_way_def streaming_def arrived_def lost_def Let_def word_and_le1 cong: option.case_cong)

lemma on_way_length: "on_way old b m l chip \<Longrightarrow> length (pcm_data chip) = 0x10000"
  by (auto simp: on_way_def dest: streaming_length)

lemma pcm_at_Ok: "length (pcm_data chip) = 0x10000 \<Longrightarrow> pcm_at (pcm_addr a) chip = Ok (pcm_data chip ! unat (pcm_addr a))"
  using pcm_addr_le[of a] by (simp add: pcm_at_def word_le_nat_alt)

lemma channel_sample_on_way: "on_way old b m l chip \<Longrightarrow> runs (channel_sample i chip) (\<lambda>(smp, t). on_way old b m l t)"
  unfolding channel_sample_def Let_def
  by (rule runs_bind[OF check_on_way[OF _ pcm_addr_le]], assumption, frule on_way_length) (simp add: pcm_at_Ok)

lemma channel_loop_on_way:
  "on_way old b m l chip \<Longrightarrow> runs (channel_loop i lv rv xs chip) (\<lambda>(ys, t). length ys = length xs \<and> on_way old b m l t)"
proof (induction xs arbitrary: chip)
  case (Cons x xs)
  show ?case unfolding channel_loop.simps
  proof (rule runs_bind[OF channel_sample_on_way[OF Cons.prems]], clarsimp split: option.split)
    fix smp t
    assume "on_way old b m l t"
    from Cons.IH[OF this] show "runs (bind_res (channel_loop i lv rv xs t) (\<lambda>(ys, chip). Ok (add_sample smp lv rv x # ys, chip)))
        (\<lambda>(ys, t). length ys = Suc (length xs) \<and> on_way old b m l t)"
      by (rule runs_bind) auto
  qed
qed simp

lemma advance_on_way:
  assumes "on_way old b m l chip"
  shows "runs (advance_stream n chip) (on_way old b m l)"
proof (cases "n \<noteq> 0 \<and> CurAddr (memstrm chip) < EndAddr (memstrm chip) \<and> CurStep (memstrm chip) + STEAM_STEP * of_nat n \<ge> 0x0800")
  case True
  define st k where "st = CurStep (memstrm chip) + STEAM_STEP * of_nat n" and "k = (if CurAddr (memstrm chip) + ucast (drop_bit 11 st) > EndAddr (memstrm chip)
      then EndAddr (memstrm chip) - CurAddr (memstrm chip) else ucast (drop_bit 11 st))"
  define t where "t = chip\<lparr>memstrm := (memstrm chip)\<lparr>CurStep := st AND 0x07FF\<rparr>\<rparr>"
  have "\<not> lost chip" using True by (auto simp: lost_def word_le_nat_alt word_less_nat_alt)
  moreover have "on_way old b m l t" unfolding t_def using assms by simp
  ultimately have "streaming old b m l chip" "on_way old b m l t" using assms by (simp_all add: on_way_def)
  then have s: "streaming old b m l t" "unat (CurAddr (memstrm chip)) \<le> b + l" "unat (EndAddr (memstrm chip)) = b + l" "b + l \<le> 0x10000"
    "datasize t = 0x10000" "wbank t \<le> 15" "memstrm t = (memstrm chip)\<lparr>CurStep := st AND 0x07FF\<rparr>"
    by (auto simp: streaming_def arrived_def on_way_def t_def Let_def split: option.splits)
  have "unat (ucast (drop_bit 11 st) :: u32) \<le> 31"
    using speed_bounds[of st] True by (simp add: st_def)
  then have k: "unat (CurAddr (memstrm chip) + k) = unat (CurAddr (memstrm chip)) + unat k" "unat (CurAddr (memstrm chip)) + unat k \<le> b + l"
    using True s by (auto simp: k_def unat_diff_32 unat_word_ariths word_less_nat_alt word_le_nat_alt not_less)
  obtain u where "copy_stream (unat k) t = Ok u" "streaming old b m l (set_cur (CurAddr (memstrm chip) + k) u)"
    using copy_streaming[OF s(1), of "unat k" "CurAddr (memstrm chip) + k"] k s(7) by auto
  then show ?thesis
    using True s(5,6) copy_datasize[of "unat k" t u] by (simp add: advance_stream_def Let_def on_way_def flip: st_def k_def t_def)
next
  case False
  then show ?thesis using assms by (auto simp: advance_stream_def Let_def)
qed

lemma update_on_way:
  assumes "on_way old b m l chip"
  shows "runs (rf5c68_update n chip) (\<lambda>(out, t). length out = n \<and> on_way old b m l t)"
proof -
  have "runs (for_each xs play_channel (replicate n (0, 0), chip)) (\<lambda>(out, t). length out = n \<and> on_way old b m l t)" for xs
    using assms by (intro runs_for_each) (auto simp: play_channel_def Let_def intro: runs_mono[OF channel_loop_on_way])
  then have "runs (bind_res (for_each [0..<NUM_CHANNELS] play_channel (replicate n (0, 0), chip)) (\<lambda>(out, chip).
       bind_res (advance_stream n chip) (\<lambda>chip. Ok (out, chip)))) (\<lambda>(out, t). length out = n \<and> on_way old b m l t)"
    by (rule runs_bind) (auto intro: runs_bind[OF advance_on_way])
  then show ?thesis using assms by (simp add: rf5c68_update_def Let_def)
qed

section \<open>All calls\<close>

datatype rf_call = Rf_reset | Rf_w u8 u8 | Rf_mem_w u32 u8 | Rf_write_ram u32 u32 "u8 list" | Rf_update nat | Rf_mute u32

primrec run_rf :: "rf_call \<Rightarrow> rf5c68_state \<Rightarrow> rf5c68_state res" where
  "run_rf Rf_reset chip = device_reset_rf5c68 chip"
| "run_rf (Rf_w r v) chip = Ok (rf5c68_w r v chip)"
| "run_rf (Rf_mem_w a v) chip = rf5c68_mem_w a v chip"
| "run_rf (Rf_write_ram a n m) chip = rf5c68_write_ram a n m chip"
| "run_rf (Rf_update n) chip = bind_res (rf5c68_update n chip) (\<lambda>(out, chip). Ok chip)"
| "run_rf (Rf_mute w) chip = Ok (rf5c68_set_mute_mask w chip)"

text \<open>What the callers must see to: an address of 16 bits, and a block that has the bytes it says and is not longer than all memory.\<close>

fun rf_call_ok :: "rf_call \<Rightarrow> bool" where
  "rf_call_ok (Rf_mem_w a v) \<longleftrightarrow> a \<le> 0xFFFF"
| "rf_call_ok (Rf_write_ram a n m) \<longleftrightarrow> n \<le> 0xFFFF0000 \<and> unat n \<le> length m"
| "rf_call_ok c \<longleftrightarrow> True"

fun rf_plays :: "rf_call \<Rightarrow> bool" where
  "rf_plays (Rf_w r v) \<longleftrightarrow> True"
| "rf_plays (Rf_update n) \<longleftrightarrow> True"
| "rf_plays (Rf_mute w) \<longleftrightarrow> True"
| "rf_plays c \<longleftrightarrow> False"

lemma keep_if: "P x \<Longrightarrow> P y \<Longrightarrow> P (if c then x else y)"
  by simp

lemma w_on_way:
  assumes "on_way old b m l chip"
  shows "on_way old b m l (rf5c68_w r v chip)"
  unfolding rf5c68_w_def Let_def by (intro keep_if[where P = "on_way old b m l"]) (simp_all add: assms on_way_wbank)

lemma plays_on_way: "rf_plays c \<Longrightarrow> on_way old b m l chip \<Longrightarrow> runs (run_rf c chip) (on_way old b m l)"
  by (cases c) (auto simp: w_on_way rf5c68_set_mute_mask_def intro!: runs_bind[OF update_on_way])

lemma wbank_addr:
  fixes w :: u8 and a :: u32
  assumes "w \<le> 15" "a \<le> 0xFFFF"
  shows "unat (ucast w * 0x1000 OR a) < 0x10000"
proof -
  have "unat a < 2 ^ 16" "unat w \<le> 15" using assms by (simp_all add: word_le_nat_alt)
  then have "unat (ucast w * 0x1000 :: u32) < 2 ^ 16" "unat a < 2 ^ 16"
    by (simp_all add: unat_word_ariths unsigned_ucast_eq take_bit_nat_eq_self)
  then have "take_bit 16 (unat (ucast w * 0x1000 :: u32)) = unat (ucast w * 0x1000 :: u32)" "take_bit 16 (unat a) = unat a"
    by (simp_all only: take_bit_nat_eq_self)
  then have "take_bit 16 (unat (ucast w * 0x1000 OR a)) = unat (ucast w * 0x1000 OR a)"
    by (simp only: unsigned_or_eq take_bit_or)
  then show ?thesis unfolding take_bit_nat_eq_self_iff by simp
qed

lemma on_way_None: "on_way old b m l chip \<Longrightarrow> on_way None b m l chip"
  using streaming_length[of old b m l chip] by (auto simp: on_way_def streaming_def arrived_def Let_def)

lemma flush_on_way:
  assumes "on_way old b m l chip"
  shows "runs (rf5c68_mem_stream_flush chip) (\<lambda>t. on_way old b m l t \<and> (124 \<le> b \<longrightarrow> streaming old b m l t \<and> CurAddr (memstrm t) = EndAddr (memstrm t)))"
proof (cases "streaming old b m l chip")
  case True
  then obtain t where "rf5c68_mem_stream_flush chip = Ok t" "streaming old b m l t" "CurAddr (memstrm t) = EndAddr (memstrm t)"
    using flush_streaming by blast
  then show ?thesis using assms flush_datasize[of chip t] by (simp add: on_way_def)
next
  case False
  then show ?thesis using assms lost_flush[of chip] by (auto simp: on_way_def)
qed

lemma mem_w_on_way:
  assumes "on_way old b m l chip" "a \<le> 0xFFFF"
  shows "runs (rf5c68_mem_w a v chip) (on_way None b m l)"
  unfolding rf5c68_mem_w_def Let_def
proof (rule runs_bind[OF flush_on_way[OF on_way_None[OF assms(1)]]], rule runs_require)
  fix t
  assume t: "on_way None b m l t \<and> (124 \<le> b \<longrightarrow> streaming None b m l t \<and> CurAddr (memstrm t) = EndAddr (memstrm t))"
  then show "unat (ucast (wbank t) * 0x1000 OR a) < length (pcm_data t)"
    using assms(2) wbank_addr on_way_length by (fastforce simp: on_way_def)
  show "runs (Ok (t\<lparr>pcm_data := (pcm_data t)[unat (ucast (wbank t) * 0x1000 OR a) := v]\<rparr>)) (on_way None b m l)"
    using t by (simp add: on_way_def streaming_def arrived_def lost_def Let_def)
qed

lemma write_ram_on_way:
  fixes a n :: u32
  assumes "on_way old b m l chip" "rf5c68_mem_stream_flush chip = Ok c0" "n \<le> 0xFFFF0000" "unat n \<le> length m'"
  assumes st: "a OR ucast (wbank chip) * 0x1000 < 0x10000"
  shows "runs (rf5c68_write_ram a n m' chip) (on_way (Some (pcm_data c0)) (unat (a OR ucast (wbank chip) * 0x1000)) m' (min (unat n) (0x10000 - unat (a OR ucast (wbank chip) * 0x1000))))"
proof -
  define st where "st = a OR ucast (wbank chip) * 0x1000"
  note st = st[folded st_def]
  define l' where "l' = min (unat n) (0x10000 - unat st)"
  define len where "len = (if st + n > 0x10000 then 0x10000 - st else n)"
  have st': "unat st < 0x10000" using st by (simp add: word_less_nat_alt)
  have "unat n \<le> 0xFFFF0000" using assms(3) by (simp add: word_le_nat_alt)
  then have "unat (st + n) = unat st + unat n" using st' by (simp add: unat_word_ariths)
  moreover have "unat (0x10000 - st) = 0x10000 - unat st" using st by (subst unat_diff_32) simp_all
  ultimately have len: "unat len = l'" by (simp add: len_def l'_def word_less_nat_alt)
  have l': "unat st + l' \<le> 0x10000" "l' \<le> length m'" using st' assms(4) by (auto simp: l'_def)
  have en: "unat (st + len) = unat st + l'" "st + len - st = len" using l' by (simp_all add: unat_word_ariths len)
  define c where "c = (if st + 0x40 > st + len then ucast (ucast (st + len - st) :: u16) else 0x40 :: u32)"
  have "unat (st + 0x40) = unat st + 0x40" using st' by (simp add: unat_word_ariths)
  then have g: "(st + 0x40 > st + len) = (0x40 > l')" by (simp add: word_less_nat_alt en)
  have "l' < 0x40 \<Longrightarrow> unat (ucast (ucast len :: u16) :: u32) = l'"
    using len by (simp add: unsigned_ucast_eq unsigned_take_bit_eq take_bit_nat_eq_self)
  then have c: "unat c \<le> l'" unfolding c_def g en(2) by auto
  have stc: "unat (st + c) = unat st + unat c" using c l' by (simp add: unat_word_ariths)
  define t where "t = c0\<lparr>memstrm := \<lparr>BaseAddr = st, EndAddr = st + len, CurAddr = st, CurStep = 0x0000, MemPnt = Some m'\<rparr>\<rparr>"
  have c0: "on_way old b m l c0" "datasize c0 = 0x10000" "wbank c0 \<le> 15" "length (pcm_data c0) = 0x10000" "datasize chip = 0x10000"
    using flush_on_way[OF assms(1)] assms(1,2) on_way_length[of old b m l c0] by (auto simp: on_way_def)
  then have "streaming (Some (pcm_data c0)) (unat st) m' l' t"
    using l' by (auto simp: streaming_def arrived_def t_def en intro!: exI[of _ 0])
  then obtain u where "copy_stream (unat c) t = Ok u" "streaming (Some (pcm_data c0)) (unat st) m' l' (set_cur (st + c) u)"
    using copy_streaming[of "Some (pcm_data c0)" "unat st" m' l' t "unat c" "st + c"] c stc by (auto simp: t_def)
  then have "runs (bind_res (copy_stream (unat c) t) (\<lambda>chip. Ok (set_cur (st + c) chip))) (on_way (Some (pcm_data c0)) (unat st) m' l')"
    using copy_datasize[of "unat c" t u] c0 by (simp add: on_way_def t_def)
  moreover have "(0x10000 \<le> st) = False" using st by simp
  then have "rf5c68_write_ram a n m' chip = bind_res (copy_stream (unat c) t) (\<lambda>chip. Ok (set_cur (st + c) chip))"
    by (simp only: rf5c68_write_ram_def Let_def c0(5) assms(2) bind_res_simps if_False flip: st_def len_def c_def t_def)
  ultimately show ?thesis by (simp add: l'_def flip: st_def)
qed

lemma runs_rf_ok: "runs r (on_way old b m l) \<Longrightarrow> runs r rf_ok"
  by (erule runs_mono) (auto simp: rf_ok_def)

lemma reset_ok:
  assumes "datasize chip = 0x10000" "length (pcm_data chip) = 0x10000"
  shows "runs (device_reset_rf5c68 chip) rf_ok"
proof -
  have "runs (device_reset_rf5c68 chip) (on_way None 0 [] 0)"
    using assms by (simp add: device_reset_rf5c68_def on_way_def streaming_def arrived_def)
  then show ?thesis by (rule runs_rf_ok)
qed

lemma rf_ok_step:
  assumes "rf_ok chip" "rf_call_ok c"
  shows "runs (run_rf c chip) rf_ok"
proof -
  obtain old b m l where o: "on_way old b m l chip" using assms(1) by (auto simp: rf_ok_def)
  show ?thesis
  proof (cases c)
    case Rf_reset
    then show ?thesis using o on_way_length[OF o] reset_ok by (simp add: on_way_def)
  next
    case (Rf_mem_w a v)
    then show ?thesis using assms(2) runs_rf_ok[OF mem_w_on_way[OF o, of a v]] by simp
  next
    case (Rf_write_ram a n m')
    obtain c0 where c0: "rf5c68_mem_stream_flush chip = Ok c0" using flush_on_way[OF o] by (auto simp: runs_def)
    show ?thesis
    proof (cases "a OR ucast (wbank chip) * 0x1000 < 0x10000")
      case True
      then show ?thesis
        using runs_rf_ok[OF write_ram_on_way[OF o c0, of n m' a]] assms(2) Rf_write_ram by simp
    next
      case False
      then show ?thesis using assms(1) o Rf_write_ram by (simp add: rf5c68_write_ram_def on_way_def Let_def not_less)
    qed
  qed (use runs_rf_ok[OF plays_on_way[OF _ o, of c]] in simp_all)
qed

definition rf_started :: "u8 list \<Rightarrow> s32 \<Rightarrow> rf5c68_state \<Rightarrow> rf_call list \<Rightarrow> rf5c68_state res" where
  "rf_started memory clock chip calls = bind_res (device_reset_rf5c68 (snd (device_start_rf5c68 memory clock chip))) (for_each calls run_rf)"

lemma rf_started_ok:
  assumes "length memory = 0x10000" "\<forall>c\<in>set calls. rf_call_ok c"
  shows "runs (rf_started memory clock chip calls) rf_ok"
  unfolding rf_started_def
proof (rule runs_bind)
  show "runs (device_reset_rf5c68 (snd (device_start_rf5c68 memory clock chip))) rf_ok"
    using assms(1) by (intro reset_ok) (simp_all add: device_start_rf5c68_def)
  show "runs (for_each calls run_rf t) rf_ok" if "rf_ok t" for t
    using that by (rule runs_for_each) (use assms(2) rf_ok_step in blast)
qed

text \<open>No call to the chip reads or writes outside its memory or the block: from the start on, all calls succeed in any order.\<close>
theorem rf5c68_safe:
  assumes "length memory = 0x10000" "\<forall>c\<in>set calls. rf_call_ok c"
  shows "\<exists>t. rf_started memory clock chip calls = Ok t \<and> length (pcm_data t) = 0x10000"
  using rf_started_ok[OF assms] on_way_length by (fastforce simp: runs_def rf_ok_def)

text \<open>C30: a block arrives as a whole, whatever is played while it does. On a chip that has been started and has had any calls, a block is sent with
  \<^verbatim>\<open>rf5c68_write_ram\<close>, to \<open>a\<close> in the bank that is selected; then come any writes to registers, mute masks and updates, whose channels read
  the memory the block is streamed into and speed the stream up or put it back; then the stream is flushed, as the next block and every write to the
  memory do. The memory is then what it was, with all bytes of the block at their places and no other byte changed; what exceeds the memory is cut
  off. The address is at least 124, since the stream to a lower one can be lost (\<open>stream_start_lost\<close>), and the length is at most
  \<^verbatim>\<open>0xFFFF0000\<close>, since the check of the length wraps above (\<open>rf5c68_write_ram_overflow\<close>).\<close>
theorem rf5c68_block_arrives:
  fixes a n :: u32
  assumes "length memory = 0x10000" "\<forall>c\<in>set calls. rf_call_ok c" "rf_started memory clock old calls = Ok chip"
    "rf5c68_mem_stream_flush chip = Ok c0" "n \<le> 0xFFFF0000" "unat n \<le> length m" "st = a OR ucast (wbank chip) * 0x1000" "124 \<le> unat st" "st < 0x10000" "\<forall>c\<in>set cs. rf_plays c"
  shows "\<exists>t. bind_res (for_each (Rf_write_ram a n m # cs) run_rf chip) rf5c68_mem_stream_flush = Ok t \<and>
    pcm_data t = put_bytes (pcm_data c0) (unat st) (take (0x10000 - unat st) (take (unat n) m))"
proof -
  let ?b = "unat st"
  let ?l = "min (unat n) (0x10000 - ?b)"
  obtain o' b m' l where o: "on_way o' b m' l chip"
    using rf_started_ok[OF assms(1,2), of clock old] assms(3) by (auto simp: rf_ok_def)
  have "runs (rf5c68_write_ram a n m chip) (on_way (Some (pcm_data c0)) ?b m ?l)"
    using write_ram_on_way[OF o assms(4-6)] assms(7,9) by simp
  then have "runs (for_each (Rf_write_ram a n m # cs) run_rf chip) (on_way (Some (pcm_data c0)) ?b m ?l)"
    using assms(10) plays_on_way by (auto intro!: runs_bind[of "rf5c68_write_ram a n m chip"] runs_for_each)
  then have "runs (bind_res (for_each (Rf_write_ram a n m # cs) run_rf chip) rf5c68_mem_stream_flush)
      (\<lambda>t. streaming (Some (pcm_data c0)) ?b m ?l t \<and> CurAddr (memstrm t) = EndAddr (memstrm t))"
    by (rule runs_bind) (use flush_on_way assms(8) in \<open>fastforce elim: runs_mono\<close>)
  then show ?thesis using streaming_whole by (fastforce simp: runs_def min.commute)
qed

section \<open>Where it goes wrong\<close>

text \<open>A block for the start of the memory is lost when a fast channel comes near it: \<^verbatim>\<open>CurAddr\<close> is put back below 0.\<close>

lemma stream_start_lost:
  assumes "unat (CurAddr (memstrm chip)) < 124" "BaseAddr (memstrm chip) = 0" "unat (EndAddr (memstrm chip)) \<le> 0x10000" "Speed \<ge> 0xF800"
    "CurAddr (memstrm chip) \<le> a" "a - CurAddr (memstrm chip) \<le> 155"
  shows "\<exists>t. memstream_sample_check a Speed chip = Ok t \<and> pcm_data t = pcm_data chip \<and> rf5c68_mem_stream_flush t = Ok t"
proof -
  have "drop_bit 11 Speed = 31"
  proof -
    have "unat Speed div 2048 = 31" using assms(4) unsigned_less[of Speed, where 'a = nat] by (intro div_nat_eqI) (simp_all add: word_le_nat_alt)
    then show ?thesis by (simp add: word_unat_eq_iff drop_bit_eq_div unat_div)
  qed
  moreover have "0x0800 \<le> Speed" using assms(4) by (simp add: word_le_nat_alt)
  ultimately have e: "memstream_sample_check a Speed chip = Ok (set_cur (CurAddr (memstrm chip) - 124) chip)"
    using assms(2,5,6) by (simp add: memstream_sample_check_def Let_def)
  have "unat (CurAddr (memstrm chip) - 124) = 2 ^ 32 + unat (CurAddr (memstrm chip)) - 124"
    using assms(1) by (simp add: unat_sub_if')
  then have "lost (set_cur (CurAddr (memstrm chip) - 124) chip)"
    using assms(3) by (simp add: lost_def word_le_nat_alt)
  then show ?thesis using e lost_flush by simp
qed

text \<open>A block that is over is taken up again, so that its last bytes replace what has been written since.\<close>

lemma finished_stream_again:
  assumes "on_way None b m l chip" "streaming None b m l chip" "CurAddr (memstrm chip) = EndAddr (memstrm chip)" "4 \<le> l"
  shows "\<exists>t. bind_res (memstream_sample_check (EndAddr (memstrm chip)) 0 chip) rf5c68_mem_stream_flush = Ok t \<and>
    pcm_data t = put_bytes (pcm_data chip) (b + l - 4) (take 4 (drop (l - 4) m))"
proof -
  let ?e = "EndAddr (memstrm chip)"
  have s: "b + l \<le> 0x10000" "l \<le> length m" "MemPnt (memstrm chip) = Some m" "unat (BaseAddr (memstrm chip)) = b" "unat ?e = b + l"
      "length (pcm_data chip) = 0x10000"
    using assms(2,4) by (auto simp: streaming_def arrived_def Let_def)
  have e4: "unat (?e - 4) = b + l - 4" using s(5) assms(4) by (subst unat_diff_32) (simp_all add: word_le_nat_alt)
  then have "\<not> ?e - 4 < BaseAddr (memstrm chip)" "?e - 4 < ?e" using s(4,5) assms(4) by (simp_all add: word_less_nat_alt)
  then have c: "memstream_sample_check ?e 0 chip = Ok (set_cur (?e - 4) chip)" by (simp add: memstream_sample_check_def Let_def assms(3))
  have o: "unat (?e - 4 - BaseAddr (memstrm chip)) = l - 4" using e4 s(4) assms(4) by (subst unat_diff_32) (simp_all add: word_le_nat_alt)
  have "copy_stream 4 (set_cur (?e - 4) chip) = Ok ((set_cur (?e - 4) chip)\<lparr>pcm_data := put_bytes (pcm_data chip) (b + l - 4) (take 4 (drop (l - 4) m))\<rparr>)"
    using s assms(4) e4 o by (simp add: copy_stream_def set_cur_def Let_def)
  moreover have "(?e \<le> ?e - 4) = False" using \<open>?e - 4 < ?e\<close> by simp
  ultimately show ?thesis using c by (simp add: rf5c68_mem_stream_flush_def Let_def set_cur_def)
qed

text \<open>\<^verbatim>\<open>CurStep\<close> has room for 31 samples: with a call for a multiple of 32 the block does not move.\<close>

lemma stream_stands_still:
  assumes "CurStep (memstrm chip) = 0" "32 dvd n"
  shows "advance_stream n chip = Ok chip"
proof -
  obtain k where "n = 32 * k" using assms(2) by (rule dvdE)
  then have "STEAM_STEP * of_nat n = (65536 :: u16) * of_nat k" by (simp add: STEAM_STEP_def)
  also have "(65536 :: u16) = 0" by simp
  finally have "STEAM_STEP * of_nat n = 0" by simp
  then show ?thesis using assms(1) by (auto simp: advance_stream_def Let_def)
qed

text \<open>
  The length of a block is what is left of a data block after its address: for a data block of one byte it is \<^verbatim>\<open>0xFFFFFFFF\<close>, which passes
  the check of the length.
\<close>

theorem rf5c68_write_ram_overflow:
  assumes "length memory = 0x10000" "\<forall>c\<in>set calls. rf_call_ok c" "rf_started memory clock old calls = Ok chip" "3 \<le> a" "a \<le> 0xFFFF" "wbank chip = 0"
  shows "rf5c68_write_ram a 0xFFFFFFFF m chip = Fail OutOfBounds"
proof -
  obtain o' b m' l where o: "on_way o' b m' l chip"
    using rf_started_ok[OF assms(1,2), of clock old] assms(3) by (auto simp: rf_ok_def)
  then obtain c0 where c0: "rf5c68_mem_stream_flush chip = Ok c0" "length (pcm_data c0) = 0x10000" "datasize chip = 0x10000"
    using flush_on_way[OF o] on_way_length by (fastforce simp: runs_def on_way_def)
  have a: "3 \<le> unat a" "unat a \<le> 0xFFFF" using assms(4,5) by (simp_all add: word_le_nat_alt)
  have "unat (a + 0xFFFFFFFF) = (unat a + 4294967295) mod 4294967296" by (simp add: unat_word_ariths)
  also have "unat a + 4294967295 = unat a - 1 + 4294967296" using a by simp
  also have "(unat a - 1 + 4294967296) mod 4294967296 = unat a - 1" using a by (simp only: mod_add_self2) simp
  finally have "unat (a + 0xFFFFFFFF) = unat a - 1" .
  then have "(a + 0xFFFFFFFF > 0x10000) = False" "(0x10000 \<le> a) = False" "(a + 0x40 > a + 0xFFFFFFFF) = True"
    using a by (simp_all add: word_less_nat_alt word_le_nat_alt unat_word_ariths)
  then show ?thesis
    using c0 assms(6) a by (simp add: rf5c68_write_ram_def copy_stream_def Let_def)
qed

text \<open>Witnesses.\<close>

definition silent_chip :: rf5c68_state where
  "silent_chip = \<lparr>chan = (\<lambda>_. \<lparr>chn_enable = 0, env = 0, pan = 0, chn_start = 0, chn_addr = 0, chn_step = 0, loopst = 0, Muted = 0\<rparr>),
     cbank = 0, wbank = 0, pcm_enable = 0, datasize = 0, pcm_data = [], memstrm = \<lparr>BaseAddr = 0, EndAddr = 0, CurAddr = 0, CurStep = 0, MemPnt = None\<rparr>\<rparr>"

lemma silent_started:
  "\<exists>chip. rf_started (replicate 0x10000 7) 12500000 silent_chip [] = Ok chip \<and> wbank chip = 0 \<and> rf5c68_mem_stream_flush chip = Ok chip \<and>
     pcm_data chip = replicate 0x10000 0"
  by (simp add: rf_started_def device_start_rf5c68_def device_reset_rf5c68_def rf5c68_mem_stream_flush_def silent_chip_def put_bytes_def Let_def)

theorem rf5c68_safe_witness:
  "\<exists>t. rf_started (replicate 0x10000 7) 12500000 silent_chip
     [Rf_w 7 0xC0, Rf_w 3 0x08, Rf_w 8 0xFE, Rf_write_ram 0 2 [1, 2], Rf_update 100, Rf_mem_w 0xFFFF 7, Rf_reset] = Ok t \<and> length (pcm_data t) = 0x10000"
  by (rule rf5c68_safe) simp_all

theorem rf5c68_block_arrives_witness:
  "\<exists>chip t. rf_started (replicate 0x10000 7) 12500000 silent_chip [] = Ok chip \<and>
     bind_res (for_each [Rf_write_ram 0x100 3 [1, 2, 3], Rf_w 7 0xC0, Rf_w 8 0xFE, Rf_update 100] run_rf chip) rf5c68_mem_stream_flush = Ok t \<and>
     pcm_data t = put_bytes (replicate 0x10000 0) 0x100 [1, 2, 3]"
proof -
  obtain chip where c: "rf_started (replicate 0x10000 7) 12500000 silent_chip [] = Ok chip" "wbank chip = 0"
      "rf5c68_mem_stream_flush chip = Ok chip" "pcm_data chip = replicate 0x10000 0"
    using silent_started by blast
  show ?thesis
    using rf5c68_block_arrives[OF _ _ c(1,3), of 3 "[1, 2, 3]" "0x100" "0x100" "[Rf_w 7 0xC0, Rf_w 8 0xFE, Rf_update 100]"] c by auto
qed

theorem rf5c68_write_ram_overflow_witness:
  "\<exists>chip. rf_started (replicate 0x10000 7) 12500000 silent_chip [] = Ok chip \<and> rf5c68_write_ram 0x10 0xFFFFFFFF [1, 2, 3] chip = Fail OutOfBounds"
proof -
  obtain chip where c: "rf_started (replicate 0x10000 7) 12500000 silent_chip [] = Ok chip" "wbank chip = 0"
    using silent_started by blast
  show ?thesis using rf5c68_write_ram_overflow[OF _ _ c(1) _ _ c(2), where a = "0x10" and m = "[1, 2, 3]"] c(1) by auto
qed

end
