(* ===== verification/Sn76496.thy ===== *)
theory Sn76496
  imports Prelude
begin

text \<open>
  The SN76496 sound chip of the VGM player, \<^verbatim>\<open>VGMPlay/chips/sn76496.c\<close> and \<^verbatim>\<open>sn764intf.c\<close>: three square waves and a noise generator.
  Counters, periods and volumes are \<open>int\<close>; the laws bound them far inside \<^verbatim>\<open>INT32\<close>. Registers, masks and the shift register of the
  noise are words. \<open>sn764xx\<close> has the chips of the array \<^verbatim>\<open>SN764xxData\<close>; a pointer to a chip is its number. The fields that are
  initialised and not used, the READY line apart, are kept. The volume table is the one for gain 0, the only gain in use; the floating-point
  computation rounds to these values.
\<close>

section \<open>The chip\<close>

record sn76496_state =
  VolTable :: "nat \<Rightarrow> int"
  Register :: "nat \<Rightarrow> s32"
  LastRegister :: nat
  Volume :: "nat \<Rightarrow> int"
  RNG :: u32
  ClockDivider :: int
  CurrentClock :: int
  FeedbackMask :: u32
  WhitenoiseTap1 :: u32
  WhitenoiseTap2 :: u32
  Negate :: bool
  Stereo :: bool
  StereoMask :: u8
  Period :: "nat \<Rightarrow> int"
  Count :: "nat \<Rightarrow> int"
  Output :: "nat \<Rightarrow> int"
  CyclestoREADY :: int
  Freq0IsMax :: bool
  MuteMsk :: "nat \<Rightarrow> u32"
  NgpFlags :: u8
  NgpChip2 :: "nat option"

section \<open>Registers\<close>

definition sn76496_ready_r :: "sn76496_state \<Rightarrow> u8" where
  "sn76496_ready_r R = (if CyclestoREADY R \<noteq> 0 then 0 else 1)"

definition sn76496_stereo_w :: "u8 \<Rightarrow> sn76496_state \<Rightarrow> sn76496_state" where
  "sn76496_stereo_w dat R = (if Stereo R then R\<lparr>StereoMask := dat\<rparr> else R)"

definition set_reg :: "nat \<Rightarrow> s32 \<Rightarrow> sn76496_state \<Rightarrow> sn76496_state" where
  "set_reg r v R = R\<lparr>Register := (Register R)(r := v)\<rparr>"

definition set_period :: "nat \<Rightarrow> int \<Rightarrow> sn76496_state \<Rightarrow> sn76496_state" where
  "set_period c v R = R\<lparr>Period := (Period R)(c := v)\<rparr>"

text \<open>The lower four bits of a register.\<close>

definition low_bits :: "nat \<Rightarrow> u8 \<Rightarrow> sn76496_state \<Rightarrow> sn76496_state" where
  "low_bits r dat R = set_reg r (Register R r AND 0x3f0 OR (ucast dat AND 0x0f)) R"

definition tone_write :: "nat \<Rightarrow> u8 \<Rightarrow> sn76496_state \<Rightarrow> sn76496_state" where
  "tone_write r dat R =
     (let c = r div 2;
          R1 = (if dat AND 0x80 = 0 then set_reg r (Register R r AND 0x0f OR push_bit 4 (ucast dat AND 0x3f)) R else R);
          R2 = set_period c (if Register R1 r \<noteq> 0 \<or> \<not> Freq0IsMax R1 then sint (Register R1 r) else 0x400) R1 in
      if r = 4 \<and> Register R2 6 AND 0x03 = 0x03 then set_period 3 (2 * Period R2 2) R2 else R2)"

definition volume_write :: "nat \<Rightarrow> u8 \<Rightarrow> sn76496_state \<Rightarrow> sn76496_state" where
  "volume_write r dat R = (let R1 = R\<lparr>Volume := (Volume R)(r div 2 := VolTable R (unat (dat AND 0x0f)))\<rparr> in
     if dat AND 0x80 = 0 then low_bits r dat R1 else R1)"

definition noise_write :: "u8 \<Rightarrow> sn76496_state \<Rightarrow> sn76496_state" where
  "noise_write dat R =
     (let R1 = (if dat AND 0x80 = 0 then low_bits 6 dat R else R); n = Register R1 6 AND 3 in
      (set_period 3 (if n = 3 then 2 * Period R1 2 else 2 ^ (5 + unat n)) R1)\<lparr>RNG := FeedbackMask R1\<rparr>)"

definition sn76496_write_reg :: "u8 \<Rightarrow> sn76496_state \<Rightarrow> sn76496_state" where
  "sn76496_write_reg dat R =
     (let R1 = R\<lparr>CyclestoREADY := 2\<rparr>;
          R2 = (if dat AND 0x80 \<noteq> 0 then let r = unat (drop_bit 4 (dat AND 0x70)) in low_bits r dat (R1\<lparr>LastRegister := r\<rparr>) else R1);
          r = LastRegister R2 in
      if r \<in> {0, 2, 4} then tone_write r dat R2
      else if r \<in> {1, 3, 5, 7} then volume_write r dat R2
      else if r = 6 then noise_write dat R2
      else R2)"

section \<open>One step of the clock\<close>

definition tone_tick :: "nat \<Rightarrow> sn76496_state \<Rightarrow> sn76496_state" where
  "tone_tick i R = (let n = Count R i - 1 in
     if n \<le> 0 then R\<lparr>Output := (Output R)(i := Output R i XOR 1), Count := (Count R)(i := Period R i)\<rparr>
     else R\<lparr>Count := (Count R)(i := n)\<rparr>)"

definition feedback :: "sn76496_state \<Rightarrow> bool" where
  "feedback R \<longleftrightarrow> (RNG R AND WhitenoiseTap1 R \<noteq> 0) \<noteq> (RNG R AND WhitenoiseTap2 R \<noteq> 0 \<and> Register R 6 AND 4 \<noteq> 0)"

definition noise_tick :: "sn76496_state \<Rightarrow> sn76496_state" where
  "noise_tick R = (let n = Count R 3 - 1 in
     if n \<le> 0 then
       let g = (if feedback R then drop_bit 1 (RNG R) OR FeedbackMask R else drop_bit 1 (RNG R)) in
       R\<lparr>RNG := g, Output := (Output R)(3 := uint (g AND 1)), Count := (Count R)(3 := Period R 3)\<rparr>
     else R\<lparr>Count := (Count R)(3 := n)\<rparr>)"

definition sn_tick :: "sn76496_state \<Rightarrow> sn76496_state" where
  "sn_tick R = noise_tick (fold tone_tick [0..<3] (R\<lparr>CyclestoREADY := if CyclestoREADY R > 0 then CyclestoREADY R - 1 else CyclestoREADY R\<rparr>))"

section \<open>One sample\<close>

text \<open>\<open>limit\<close> is \<^verbatim>\<open>FNumLimit\<close>: shorter periods are above half the output rate.\<close>

definition masked :: "int \<Rightarrow> u32 \<Rightarrow> int" where
  "masked v m = sint ((word_of_int v :: s32) AND m)"

definition bipolar :: "sn76496_state \<Rightarrow> nat \<Rightarrow> int" where
  "bipolar R i = (if Output R i \<noteq> 0 then 1 else -1)"

definition stereo_gain :: "sn76496_state \<Rightarrow> u8 \<Rightarrow> nat \<Rightarrow> int" where
  "stereo_gain R m i = (if Stereo R then if StereoMask R AND push_bit i m \<noteq> 0 then 1 else 0 else 1)"

text \<open>What a channel adds to one side: \<open>m\<close> is the side's mask for channel 0.\<close>

definition channel_out :: "int \<Rightarrow> sn76496_state \<Rightarrow> u8 \<Rightarrow> nat \<Rightarrow> int" where
  "channel_out limit R m i =
     (let v = (if i \<noteq> 3 \<and> Period R i \<le> limit \<and> Period R i > 1 then 0 else bipolar R i) in
      if Period R i > 1 \<or> i = 3 then masked v (MuteMsk R i) * Volume R i * stereo_gain R m i
      else if MuteMsk R i \<noteq> 0 then Volume R i * stereo_gain R m i
      else 0)"

text \<open>
  Of the two chips of a NeoGeo Pocket the first gives the tones, with the volumes of the other chip on the right, and the second the noise.
  The tones have the mask of channel 3: the variable of the loop before is used.
\<close>

definition ngp_tone :: "int \<Rightarrow> sn76496_state \<Rightarrow> sn76496_state \<Rightarrow> u8 \<Rightarrow> nat \<Rightarrow> int" where
  "ngp_tone limit R V m i =
     (let v = (if Period R i \<le> limit \<and> Period R i \<noteq> 0 then 0 else bipolar R i) in
      if Period R i \<noteq> 0 then masked v (MuteMsk R i) * Volume V i * stereo_gain R m 3
      else if MuteMsk R i \<noteq> 0 then Volume V i * stereo_gain R m 3
      else 0)"

definition ngp_noise :: "sn76496_state \<Rightarrow> sn76496_state \<Rightarrow> sn76496_state \<Rightarrow> u8 \<Rightarrow> int" where
  "ngp_noise R R2 V m = masked (bipolar R 3) (MuteMsk R2 3) * Volume V 3 * stereo_gain R m 3"

definition mixed :: "int \<Rightarrow> sn76496_state option \<Rightarrow> sn76496_state \<Rightarrow> (int \<times> int) res" where
  "mixed limit other R =
     (if NgpFlags R = 0 then Ok (\<Sum>i<4. channel_out limit R 0x10 i, \<Sum>i<4. channel_out limit R 0x01 i)
      else case other of None \<Rightarrow> Fail NullPointer
        | Some R2 \<Rightarrow> if NgpFlags R AND 0x01 = 0
            then Ok (\<Sum>i<3. ngp_tone limit R R 0x10 i, \<Sum>i<3. ngp_tone limit R R2 0x01 i)
            else Ok (ngp_noise R R2 R2 0x10, ngp_noise R R2 R 0x01))"

definition sn_sample :: "int \<Rightarrow> sn76496_state option \<Rightarrow> sn76496_state \<Rightarrow> (s32 \<times> s32) res" where
  "sn_sample limit other R = bind_res (mixed limit other R) (\<lambda>(l, r).
     let side = (\<lambda>x. word_of_int ((if Negate R then - x else x) div 2)) in Ok (side l, side r))"

primrec sn_loop :: "nat \<Rightarrow> int \<Rightarrow> sn76496_state option \<Rightarrow> sn76496_state \<Rightarrow> ((s32 \<times> s32) list \<times> sn76496_state) res" where
  "sn_loop 0 limit other R = Ok ([], R)"
| "sn_loop (Suc n) limit other R = (let R1 = sn_tick R in
     bind_res (sn_sample limit other R1) (\<lambda>x.
     bind_res (sn_loop n limit other R1) (\<lambda>(xs, R). Ok (x # xs, R))))"

text \<open>A chip without any tone or volume is not run.\<close>

definition sn_silent :: "sn76496_state \<Rightarrow> bool" where
  "sn_silent R \<longleftrightarrow> NgpFlags R AND 0x80 = 0 \<and> (\<forall>i\<in>set [0..<3]. Period R i = 0 \<and> Volume R i = 0) \<and> Volume R 3 = 0"

definition SN76496Update :: "nat \<Rightarrow> int \<Rightarrow> sn76496_state option \<Rightarrow> sn76496_state \<Rightarrow> ((s32 \<times> s32) list \<times> sn76496_state) res" where
  "SN76496Update samples limit other R = (if sn_silent R then Ok (replicate samples (0, 0), R) else sn_loop samples limit other R)"

section \<open>Start and reset\<close>

definition volume_table :: "nat \<Rightarrow> int" where
  "volume_table i = (if i < 16 then [8192, 6507, 5169, 4106, 3261, 2591, 2058, 1635, 1298, 1031, 819, 651, 517, 411, 326, 0] ! i else 0)"

definition clear_chip :: "sn76496_state \<Rightarrow> sn76496_state" where
  "clear_chip R = R\<lparr>Volume := (\<lambda>i. if i < 4 then 0 else Volume R i), LastRegister := 0,
     Register := (\<lambda>i. if i < 8 then if even i then 0 else 0x0f else Register R i),
     Output := (\<lambda>i. if i < 4 then 0 else Output R i), Period := (\<lambda>i. if i < 4 then 0 else Period R i), Count := (\<lambda>i. if i < 4 then 0 else Count R i),
     CyclestoREADY := 1, StereoMask := 0xFF\<rparr>"

definition reset_noise :: "sn76496_state \<Rightarrow> sn76496_state" where
  "reset_noise R = R\<lparr>RNG := FeedbackMask R, Output := (Output R)(3 := uint (FeedbackMask R AND 1))\<rparr>"

definition sn76496_reset :: "sn76496_state \<Rightarrow> sn76496_state" where
  "sn76496_reset R = reset_noise (clear_chip R)"

definition SN76496_init :: "s32 \<Rightarrow> bool \<Rightarrow> sn76496_state \<Rightarrow> int \<times> sn76496_state" where
  "SN76496_init clock st R = (sint clock div 2,
     reset_noise ((clear_chip R)\<lparr>MuteMsk := (\<lambda>i. if i < 4 then -1 else MuteMsk R i), ClockDivider := 8, FeedbackMask := 0x10000, WhitenoiseTap1 := 0x04,
       WhitenoiseTap2 := 0x08, Negate := False, Stereo := st, Freq0IsMax := True, NgpFlags := 0x00, NgpChip2 := None\<rparr>))"

definition cleared_chip :: sn76496_state where
  "cleared_chip = \<lparr>VolTable = (\<lambda>_. 0), Register = (\<lambda>_. 0), LastRegister = 0, Volume = (\<lambda>_. 0), RNG = 0, ClockDivider = 0, CurrentClock = 0,
     FeedbackMask = 0, WhitenoiseTap1 = 0, WhitenoiseTap2 = 0, Negate = False, Stereo = False, StereoMask = 0, Period = (\<lambda>_. 0), Count = (\<lambda>_. 0),
     Output = (\<lambda>_. 0), CyclestoREADY = 0, Freq0IsMax = False, MuteMsk = (\<lambda>_. 0), NgpFlags = 0, NgpChip2 = None\<rparr>"

text \<open>The array \<^verbatim>\<open>SN764xxData\<close>, the chip started last and the limit of the frequency.\<close>

record sn764xx =
  sn_chip :: "nat \<Rightarrow> sn76496_state"
  LastChipInit :: "nat option"
  FNumLimit :: int

definition on_sn :: "nat \<Rightarrow> (sn76496_state \<Rightarrow> sn76496_state) \<Rightarrow> sn764xx \<Rightarrow> sn764xx" where
  "on_sn i f p = p\<lparr>sn_chip := (sn_chip p)(i := f (sn_chip p i))\<rparr>"

text \<open>Two chips that are paired as a NeoGeo Pocket know each other; chip \<open>k\<close> is the second.\<close>

definition pair_chips :: "nat \<Rightarrow> bool \<Rightarrow> sn764xx \<Rightarrow> sn764xx" where
  "pair_chips k paired p = (case (paired, LastChipInit p) of
     (True, Some j) \<Rightarrow> (on_sn k (\<lambda>R. R\<lparr>NgpFlags := 0x81, NgpChip2 := Some j\<rparr>) (on_sn j (\<lambda>R. R\<lparr>NgpFlags := 0x80, NgpChip2 := Some k\<rparr>) p))\<lparr>LastChipInit := None\<rparr>
   | _ \<Rightarrow> p\<lparr>LastChipInit := Some k\<rparr>)"

definition generic_start :: "nat \<Rightarrow> s32 \<Rightarrow> u32 \<Rightarrow> u32 \<Rightarrow> u32 \<Rightarrow> bool \<Rightarrow> bool \<Rightarrow> int \<Rightarrow> bool \<Rightarrow> sn764xx \<Rightarrow> int \<times> sn764xx" where
  "generic_start k clock feedbackmask tap1 tap2 negate st clockdivider freq0 p =
     (let (rate, R) = SN76496_init (clock AND 0x7FFFFFFF) st cleared_chip;
          p1 = pair_chips k (clock AND 0x80000000 \<noteq> 0) (on_sn k (\<lambda>_. R) p);
          p2 = on_sn k (\<lambda>R. R\<lparr>VolTable := volume_table, FeedbackMask := feedbackmask, WhitenoiseTap1 := tap1, WhitenoiseTap2 := tap2, Negate := negate,
            Stereo := st, ClockDivider := if clockdivider \<noteq> 0 then clockdivider else ClockDivider R, CurrentClock := clockdivider - 1, Freq0IsMax := freq0\<rparr>) p1 in
      (rate div ClockDivider (sn_chip p2 k), p2))"

text \<open>The two lowest of the 16 noise taps; with none the code reads an array it has not set.\<close>

definition noise_taps :: "s32 \<Rightarrow> (u32 \<times> u32) res" where
  "noise_taps taps = (case filter (\<lambda>i. bit taps i) [0..<16] of [] \<Rightarrow> Fail Undefined
     | [i] \<Rightarrow> Ok (push_bit i 1, push_bit i 1) | i # j # _ \<Rightarrow> Ok (push_bit i 1, push_bit j 1))"

definition sn76496_start :: "nat \<Rightarrow> s32 \<Rightarrow> u8 \<Rightarrow> s32 \<Rightarrow> bool \<Rightarrow> bool \<Rightarrow> bool \<Rightarrow> bool \<Rightarrow> sn764xx \<Rightarrow> (int \<times> sn764xx) res" where
  "sn76496_start k clock shiftregwidth noisetaps negate st clockdivider freq0 p =
     require (1 \<le> shiftregwidth \<and> shiftregwidth \<le> 31) Undefined (bind_res (noise_taps noisetaps) (\<lambda>(tap1, tap2).
     Ok (generic_start k clock (push_bit (unat (shiftregwidth - 1)) 1) tap1 tap2 negate (\<not> st) (if clockdivider then 1 else 8) freq0 p)))"

text \<open>The quotient of \<^verbatim>\<open>double\<close>s is cut off where that of the integers is: it is too far from the next integer to be rounded to it.\<close>

definition sn76496_freq_limiter :: "s32 \<Rightarrow> bool \<Rightarrow> s32 \<Rightarrow> sn764xx \<Rightarrow> sn764xx res" where
  "sn76496_freq_limiter clock clockdiv sample_rate p =
     (let q = sint clock div ((if clockdiv then 2 else 16) * sint sample_rate) in
      require (0 < sint sample_rate \<and> q < 0x10000) Undefined (Ok (p\<lparr>FNumLimit := q\<rparr>)))"

definition device_start_sn764xx :: "u32 \<Rightarrow> nat \<Rightarrow> s32 \<Rightarrow> u8 \<Rightarrow> s32 \<Rightarrow> bool \<Rightarrow> bool \<Rightarrow> bool \<Rightarrow> bool \<Rightarrow> sn764xx \<Rightarrow> (int \<times> sn764xx) res" where
  "device_start_sn764xx SampleRate k clock shiftregwidth noisetaps negate st clockdivider freq0 p =
     (if k \<ge> 2 then Ok (0, p)
      else bind_res (sn76496_start k clock shiftregwidth noisetaps negate st clockdivider freq0 p) (\<lambda>(rate, p).
        bind_res (sn76496_freq_limiter (clock AND 0x3FFFFFFF) clockdivider SampleRate p) (\<lambda>p. Ok (rate, p))))"

definition device_reset_sn764xx :: "nat \<Rightarrow> sn764xx \<Rightarrow> sn764xx" where
  "device_reset_sn764xx k p = on_sn k sn76496_reset p"

definition sn764xx_w :: "nat \<Rightarrow> u8 \<Rightarrow> u8 \<Rightarrow> sn764xx \<Rightarrow> sn764xx" where
  "sn764xx_w k offset dat p =
     (if offset = 0x00 then on_sn k (sn76496_write_reg dat) p else if offset = 0x01 then on_sn k (sn76496_stereo_w dat) p else p)"

definition sn76496_set_mutemask :: "u32 \<Rightarrow> sn76496_state \<Rightarrow> sn76496_state" where
  "sn76496_set_mutemask MuteMask R = R\<lparr>MuteMsk := (\<lambda>i. if i < 4 then if bit MuteMask i then 0 else -1 else MuteMsk R i)\<rparr>"

definition sn764xx_set_mute_mask :: "nat \<Rightarrow> u32 \<Rightarrow> sn764xx \<Rightarrow> sn764xx" where
  "sn764xx_set_mute_mask k MuteMask p = on_sn k (sn76496_set_mutemask MuteMask) p"

definition sn764xx_stream_update :: "nat \<Rightarrow> nat \<Rightarrow> sn764xx \<Rightarrow> ((s32 \<times> s32) list \<times> sn764xx) res" where
  "sn764xx_stream_update k samples p = (let R = sn_chip p k in
     bind_res (SN76496Update samples (FNumLimit p) (map_option (sn_chip p) (NgpChip2 R)) R) (\<lambda>(xs, R). Ok (xs, on_sn k (\<lambda>_. R) p)))"

end
