(* ===== verification/Sn76496Laws.thy ===== *)
theory Sn76496Laws
  imports Sn76496
begin

text \<open>
  Laws of the SN76496: how its samples are asked for does not matter, a tone is a square wave of exactly the period that has been set, the
  noise does not run dry, and the output stays inside 16 bits. A chip is stopped when its song is over; the laws are about the time before.
\<close>

section \<open>Samples in portions\<close>

lemma tone_tick_frame [simp]:
  "Period (tone_tick i R) = Period R" "Volume (tone_tick i R) = Volume R" "NgpFlags (tone_tick i R) = NgpFlags R" "NgpChip2 (tone_tick i R) = NgpChip2 R"
  "Register (tone_tick i R) = Register R" "VolTable (tone_tick i R) = VolTable R" "LastRegister (tone_tick i R) = LastRegister R" "RNG (tone_tick i R) = RNG R"
  "FeedbackMask (tone_tick i R) = FeedbackMask R" "WhitenoiseTap1 (tone_tick i R) = WhitenoiseTap1 R" "WhitenoiseTap2 (tone_tick i R) = WhitenoiseTap2 R"
  "Negate (tone_tick i R) = Negate R" "Stereo (tone_tick i R) = Stereo R" "StereoMask (tone_tick i R) = StereoMask R" "MuteMsk (tone_tick i R) = MuteMsk R"
  "CyclestoREADY (tone_tick i R) = CyclestoREADY R"
  by (simp_all add: tone_tick_def Let_def)

lemma noise_tick_frame [simp]:
  "Period (noise_tick R) = Period R" "Volume (noise_tick R) = Volume R" "NgpFlags (noise_tick R) = NgpFlags R" "NgpChip2 (noise_tick R) = NgpChip2 R"
  "Register (noise_tick R) = Register R" "VolTable (noise_tick R) = VolTable R" "LastRegister (noise_tick R) = LastRegister R"
  "FeedbackMask (noise_tick R) = FeedbackMask R" "WhitenoiseTap1 (noise_tick R) = WhitenoiseTap1 R" "WhitenoiseTap2 (noise_tick R) = WhitenoiseTap2 R"
  "Negate (noise_tick R) = Negate R" "Stereo (noise_tick R) = Stereo R" "StereoMask (noise_tick R) = StereoMask R" "MuteMsk (noise_tick R) = MuteMsk R"
  "CyclestoREADY (noise_tick R) = CyclestoREADY R"
  by (simp_all add: noise_tick_def Let_def)

lemma sn_tick_frame [simp]:
  "Period (sn_tick R) = Period R" "Volume (sn_tick R) = Volume R" "NgpFlags (sn_tick R) = NgpFlags R" "NgpChip2 (sn_tick R) = NgpChip2 R"
  "Register (sn_tick R) = Register R" "VolTable (sn_tick R) = VolTable R" "LastRegister (sn_tick R) = LastRegister R"
  "FeedbackMask (sn_tick R) = FeedbackMask R" "WhitenoiseTap1 (sn_tick R) = WhitenoiseTap1 R" "WhitenoiseTap2 (sn_tick R) = WhitenoiseTap2 R"
  "Negate (sn_tick R) = Negate R" "Stereo (sn_tick R) = Stereo R" "StereoMask (sn_tick R) = StereoMask R" "MuteMsk (sn_tick R) = MuteMsk R"
  by (simp_all add: sn_tick_def upt_small)

lemma sn_silent_tick [simp]: "sn_silent (sn_tick R) = sn_silent R"
  by (simp add: sn_silent_def)

lemma sn_loop_silent: "sn_loop n limit other R = Ok (xs, R1) \<Longrightarrow> sn_silent R1 = sn_silent R"
proof (induction n arbitrary: R xs)
  case (Suc n)
  then obtain ys where "sn_loop n limit other (sn_tick R) = Ok (ys, R1)" by (auto simp: Let_def bind_res_Ok_iff)
  then show ?case using Suc.IH by simp
qed simp

lemma bind_res_Ok_right [simp]: "bind_res m Ok = m"
  by (cases m) simp_all

lemma sn_loop_add:
  "sn_loop (m + n) limit other R = bind_res (sn_loop m limit other R) (\<lambda>(xs, R1). bind_res (sn_loop n limit other R1) (\<lambda>(ys, R2). Ok (xs @ ys, R2)))"
  by (induction m arbitrary: R) (simp_all add: bind_res_assoc Let_def case_prod_unfold)

text \<open>Rendering may be cut up in any way: the samples and the state of the chip do not depend on the sizes of the buffers.\<close>
theorem SN76496Update_chunks:
  "SN76496Update (m + n) limit other R =
     bind_res (SN76496Update m limit other R) (\<lambda>(xs, R1). bind_res (SN76496Update n limit other R1) (\<lambda>(ys, R2). Ok (xs @ ys, R2)))"
proof (cases "sn_silent R")
  case True
  then show ?thesis by (simp add: SN76496Update_def replicate_add)
next
  case False
  show ?thesis
  proof (cases "sn_loop m limit other R")
    case (Inr r)
    then have "sn_silent (snd r) = sn_silent R" using sn_loop_silent by (cases r) auto
    then show ?thesis using False Inr by (simp add: SN76496Update_def sn_loop_add case_prod_unfold)
  qed (use False in \<open>simp add: SN76496Update_def sn_loop_add\<close>)
qed

section \<open>Square waves\<close>

lemma tone_tick_other [simp]: "i \<noteq> j \<Longrightarrow> Output (tone_tick j R) i = Output R i" "i \<noteq> j \<Longrightarrow> Count (tone_tick j R) i = Count R i"
  by (simp_all add: tone_tick_def Let_def)

lemma noise_tick_other [simp]: "i \<noteq> 3 \<Longrightarrow> Output (noise_tick R) i = Output R i" "i \<noteq> 3 \<Longrightarrow> Count (noise_tick R) i = Count R i"
  by (simp_all add: noise_tick_def Let_def)

lemma sn_tick_tone:
  assumes "i < 3"
  shows "Output (sn_tick R) i = (if Count R i \<le> 1 then Output R i XOR 1 else Output R i)"
    "Count (sn_tick R) i = (if Count R i \<le> 1 then Period R i else Count R i - 1)"
  using assms by (auto simp: less_3_iff sn_tick_def upt_small) (simp_all add: tone_tick_def Let_def)

text \<open>\<open>half_periods P c n\<close>: how often \<open>n\<close> ticks turn the wave over, when the counter is \<open>c\<close>.\<close>

definition half_periods :: "int \<Rightarrow> int \<Rightarrow> nat \<Rightarrow> int" where
  "half_periods P c n = (if int n < max 1 c then 0 else 1 + (int n - max 1 c) div P)"

lemma half_periods_tick:
  assumes "0 < P"
  shows "half_periods P c (Suc n) = (if c \<le> 1 then 1 + half_periods P P n else half_periods P (c - 1) n)"
proof (cases "c \<le> 1")
  case True
  have "int n div P = 1 + (int n - P) div P" using assms div_add_self2[of P "int n - P"] by simp
  moreover have "max 1 P = P" "max 1 c = 1" using True assms by simp_all
  ultimately show ?thesis using True assms by (auto simp: half_periods_def not_less)
next
  case False
  then have "max 1 c = c" "max 1 (c - 1) = c - 1" by simp_all
  then show ?thesis using False by (simp add: half_periods_def algebra_simps)
qed

lemma xor_parity: "b \<in> {0, 1 :: int} \<Longrightarrow> (b XOR 1) = (if b = 0 then 1 else 0)"
  by auto

lemma tone_ticks:
  assumes "i < 3" "0 < Period R i" "Output R i \<in> {0, 1}"
  shows "Output ((sn_tick ^^ n) R) i = (Output R i + half_periods (Period R i) (Count R i) n) mod 2"
  using assms(2,3)
proof (induction n arbitrary: R)
  case 0
  then show ?case by (auto simp: half_periods_def)
next
  case (Suc n)
  note t = sn_tick_tone[OF assms(1), of R]
  have "Output ((sn_tick ^^ n) (sn_tick R)) i = (Output (sn_tick R) i + half_periods (Period R i) (Count (sn_tick R) i) n) mod 2"
    using Suc.IH[of "sn_tick R"] Suc.prems t by (auto simp: xor_parity)
  also have "\<dots> = (Output R i + half_periods (Period R i) (Count R i) (Suc n)) mod 2"
    unfolding half_periods_tick[OF Suc.prems(1)] t using Suc.prems(2) by (auto simp: mod_simps)
  finally show ?case by (simp add: funpow_swap1)
qed

text \<open>The sample of a chip that is not one of two of a NeoGeo Pocket.\<close>

definition sn_out :: "int \<Rightarrow> sn76496_state \<Rightarrow> s32 \<times> s32" where
  "sn_out limit R = (let side = (\<lambda>x. word_of_int ((if Negate R then - x else x) div 2)) in
     (side (\<Sum>i<4. channel_out limit R 0x10 i), side (\<Sum>i<4. channel_out limit R 0x01 i)))"

lemma sn_sample_plain: "NgpFlags R = 0 \<Longrightarrow> sn_sample limit other R = Ok (sn_out limit R)"
  by (simp add: sn_sample_def mixed_def sn_out_def Let_def)

lemma NgpFlags_ticks [simp]: "NgpFlags ((sn_tick ^^ n) R) = NgpFlags R" "Period ((sn_tick ^^ n) R) = Period R" "Volume ((sn_tick ^^ n) R) = Volume R"
  "Negate ((sn_tick ^^ n) R) = Negate R" "Stereo ((sn_tick ^^ n) R) = Stereo R" "StereoMask ((sn_tick ^^ n) R) = StereoMask R" "MuteMsk ((sn_tick ^^ n) R) = MuteMsk R"
  by (induction n) simp_all

lemma sn_loop_plain:
  "NgpFlags R = 0 \<Longrightarrow> sn_loop n limit other R = Ok (map (\<lambda>j. sn_out limit ((sn_tick ^^ Suc j) R)) [0..<n], (sn_tick ^^ n) R)"
proof (induction n arbitrary: R)
  case (Suc n)
  have "[0..<Suc n] = 0 # map Suc [0..<n]" by (simp add: map_Suc_upt upt_conv_Cons del: upt_Suc)
  then show ?case
    using Suc.IH[of "sn_tick R"] Suc.prems by (simp add: Let_def sn_sample_plain funpow_swap1 del: upt_Suc)
qed simp

lemma masked_all [simp]: "masked v 0 = 0" "v \<in> {- 1, 0, 1} \<Longrightarrow> masked v (- 1) = v"
  by (auto simp: masked_def)

text \<open>C38: a channel that is heard alone on a chip that is not one of a pair is a square wave: its level changes its sign when the counter runs out and
  then after every period, to the sample, however many are asked for. The level is half of the volume, with the sign turned on a chip that negates, and
  is heard on the sides that are switched on for the channel. Sample \<open>j\<close> is the one after \<open>j + 1\<close> ticks of the counter. The channel is not muted, the
  volumes of the others are 0, and the period is above 1 and above the limit, where the player turns a tone off.\<close>
theorem psg_square_wave:
  assumes "NgpFlags R = 0" "i < 3" "MuteMsk R i = - 1" "\<forall>j<4. j \<noteq> i \<longrightarrow> Volume R j = 0" "1 < Period R i" "limit < Period R i" "Output R i \<in> {0, 1}"
  shows "\<exists>R'. SN76496Update n limit other R = Ok (map (\<lambda>j.
    let left = max 1 (Count R i); ticks = int (Suc j);
        turns = (if ticks < left then 0 else 1 + (ticks - left) div Period R i);
        high = ((Output R i + turns) mod 2 = 1);
        v = (if high \<noteq> Negate R then Volume R i else - Volume R i) div 2;
        side = (\<lambda>m. if Stereo R \<and> StereoMask R AND push_bit i m = 0 then 0 else word_of_int v)
    in (side 0x10, side 0x01)) [0..<n], R')"
proof -
  have "\<not> sn_silent R" using assms(2,5) by (auto simp: sn_silent_def)
  then have u: "SN76496Update n limit other R = Ok (map (\<lambda>j. sn_out limit ((sn_tick ^^ Suc j) R)) [0..<n], (sn_tick ^^ n) R)"
    using sn_loop_plain[OF assms(1)] by (simp add: SN76496Update_def)
  define high where "high k = ((Output R i + half_periods (Period R i) (Count R i) k) mod 2 = 1)" for k
  have c: "channel_out limit ((sn_tick ^^ k) R) m l = (if l = i then (if high k then Volume R i else - Volume R i) * stereo_gain R m i else 0)"
    if "l < 4" for k m l
  proof (cases "l = i")
    case True
    have "Output ((sn_tick ^^ k) R) i = (Output R i + half_periods (Period R i) (Count R i) k) mod 2"
      using assms(2,5,7) by (intro tone_ticks) simp_all
    then show ?thesis
      using True assms(2,3,5,6) by (auto simp: channel_out_def Let_def bipolar_def stereo_gain_def high_def)
  qed (use that assms(4) in \<open>simp add: channel_out_def Let_def\<close>)
  have "(\<Sum>l<4. channel_out limit ((sn_tick ^^ k) R) m l) = (if high k then Volume R i else - Volume R i) * stereo_gain R m i" for k m
    using c assms(2) by simp
  then have s: "sn_out limit ((sn_tick ^^ k) R) = (let v = (if high k \<noteq> Negate R then Volume R i else - Volume R i) div 2;
      side = (\<lambda>m. if Stereo R \<and> StereoMask R AND push_bit i m = 0 then 0 else word_of_int v) in (side 0x10, side 0x01))" for k
    unfolding sn_out_def Let_def stereo_gain_def NgpFlags_ticks by (cases "Stereo R"; cases "high k"; cases "Negate R") simp_all
  show ?thesis unfolding u s high_def half_periods_def Let_def by (rule exI, rule refl)
qed

section \<open>The noise\<close>

lemma and_bit: "(g :: u32) AND push_bit k 1 \<noteq> 0 \<longleftrightarrow> bit g k"
  by (cases "k < 32") (auto simp: push_bit_eq_mult and_exp_eq_0_iff_not_bit impossible_bit)

lemma drop_nonzero: "bit (g :: u32) n \<Longrightarrow> k \<le> n \<Longrightarrow> drop_bit k g \<noteq> 0"
proof
  assume "bit g n" "k \<le> n" "drop_bit k g = 0"
  then have "bit (drop_bit k g) (n - k)" using \<open>k \<le> n\<close> by (metis bit_drop_bit_eq comp_apply le_add_diff_inverse)
  then show False unfolding \<open>drop_bit k g = 0\<close> by simp
qed

text \<open>The part of the shift register above the first tap does not become zero.\<close>

lemma shift_alive:
  fixes g :: u32
  assumes "drop_bit k1 g \<noteq> 0" "k1 < k2" "k1 \<le> w" "w < 32"
  shows "drop_bit k1 (if (g AND push_bit k1 1 \<noteq> 0) \<noteq> (g AND push_bit k2 1 \<noteq> 0 \<and> white) then drop_bit 1 g OR push_bit w 1 else drop_bit 1 g) \<noteq> 0"
proof (cases "bit g k1 \<noteq> (bit g k2 \<and> white)")
  case True
  have "bit (drop_bit 1 g OR push_bit w 1) w" using assms(4) by (simp add: bit_simps)
  then have "drop_bit k1 (drop_bit 1 g OR push_bit w 1) \<noteq> 0" using assms(3) by (rule drop_nonzero)
  then show ?thesis using True unfolding and_bit by (auto simp del: drop_bit_or)
next
  case False
  obtain n where "bit (drop_bit k1 g) n" using assms(1) by (auto simp: bit_eq_iff)
  then have n: "bit g (k1 + n)" by (simp add: bit_drop_bit_eq add.commute)
  obtain j where j: "bit g j" "k1 < j"
  proof (cases n)
    case 0
    then have "bit g k2" using n False by simp
    then show ?thesis using that assms(2) by blast
  next
    case (Suc l)
    then show ?thesis using n that[of "k1 + n"] by simp
  qed
  then have "bit (drop_bit 1 g) (j - 1)" "k1 \<le> j - 1" by (simp_all add: bit_drop_bit_eq)
  then have "drop_bit k1 (drop_bit 1 g) \<noteq> 0" by (rule drop_nonzero)
  then show ?thesis using False unfolding and_bit by auto
qed

definition noise_ok :: "sn76496_state \<Rightarrow> bool" where
  "noise_ok R \<longleftrightarrow> (\<exists>k1 k2 w. WhitenoiseTap1 R = push_bit k1 1 \<and> WhitenoiseTap2 R = push_bit k2 1 \<and> FeedbackMask R = push_bit w 1 \<and>
     k1 \<le> k2 \<and> k2 < 16 \<and> w < 31 \<and> (k1 < k2 \<and> k1 \<le> w \<longrightarrow> drop_bit k1 (RNG R) \<noteq> 0))"

lemma noise_ok_tick: "noise_ok R \<Longrightarrow> noise_ok (noise_tick R)"
proof -
  assume "noise_ok R"
  then obtain k1 k2 w where n: "WhitenoiseTap1 R = push_bit k1 1" "WhitenoiseTap2 R = push_bit k2 1" "FeedbackMask R = push_bit w 1" "k1 \<le> k2" "k2 < 16" "w < 31"
      "k1 < k2 \<and> k1 \<le> w \<longrightarrow> drop_bit k1 (RNG R) \<noteq> 0"
    by (auto simp: noise_ok_def)
  have "drop_bit k1 (RNG (noise_tick R)) \<noteq> 0" if "k1 < k2" "k1 \<le> w"
    using shift_alive[of k1 "RNG R" k2 w "Register R 6 AND 4 \<noteq> 0"] that n(6,7)
    unfolding noise_tick_def Let_def feedback_def n(1-3) by simp
  then show ?thesis using n(1-6) unfolding noise_ok_def noise_tick_frame by blast
qed

lemma noise_ok_reset: "noise_ok R \<Longrightarrow> noise_ok (R\<lparr>RNG := FeedbackMask R\<rparr>)"
proof -
  assume "noise_ok R"
  then obtain k1 k2 w where n: "WhitenoiseTap1 R = push_bit k1 1" "WhitenoiseTap2 R = push_bit k2 1" "FeedbackMask R = push_bit w 1" "k1 \<le> k2" "k2 < 16" "w < 31"
    by (auto simp: noise_ok_def)
  have "bit (push_bit w 1 :: u32) w" using n(6) by (simp add: bit_simps)
  then have "drop_bit k1 (push_bit w 1 :: u32) \<noteq> 0" if "k1 \<le> w" using that by (rule drop_nonzero)
  then show ?thesis using n unfolding noise_ok_def by auto
qed

section \<open>The ranges of the state\<close>

definition sn_ok :: "sn76496_state \<Rightarrow> bool" where
  "sn_ok R \<longleftrightarrow> LastRegister R < 8 \<and> (\<forall>r<8. Register R r \<le> 0x3ff) \<and> (\<forall>i<4. 0 \<le> Volume R i \<and> Volume R i \<le> 8192) \<and>
     (\<forall>i<16. 0 \<le> VolTable R i \<and> VolTable R i \<le> 8192) \<and> (\<forall>i<3. 0 \<le> Period R i \<and> Period R i \<le> 0x400) \<and> 0 \<le> Period R 3 \<and> Period R 3 \<le> 0x800 \<and>
     (\<forall>i<4. 0 \<le> Count R i \<and> Count R i \<le> 0x800 \<and> Output R i \<in> {0, 1} \<and> MuteMsk R i \<in> {0, - 1}) \<and> noise_ok R"

lemma sn_ok_Period: "sn_ok R \<Longrightarrow> i < 4 \<Longrightarrow> 0 \<le> Period R i \<and> Period R i \<le> 0x800"
proof -
  assume s: "sn_ok R" and "i < 4"
  then consider "i < 3" | "i = 3" by arith
  then show "0 \<le> Period R i \<and> Period R i \<le> 0x800"
  proof cases
    case 1
    then have "0 \<le> Period R i" "Period R i \<le> 0x400" using s by (simp_all add: sn_ok_def)
    then show ?thesis by simp
  qed (use s in \<open>simp add: sn_ok_def\<close>)
qed

lemma noise_ok_cong: "WhitenoiseTap1 R' = WhitenoiseTap1 R \<Longrightarrow> WhitenoiseTap2 R' = WhitenoiseTap2 R \<Longrightarrow> FeedbackMask R' = FeedbackMask R \<Longrightarrow> RNG R' = RNG R \<Longrightarrow>
    noise_ok R' = noise_ok R"
  by (simp add: noise_ok_def)

lemma sn_ok_tone_tick:
  assumes "sn_ok R" "i < 3"
  shows "sn_ok (tone_tick i R)"
proof -
  have n: "noise_ok (tone_tick i R) = noise_ok R" by (rule noise_ok_cong) simp_all
  have "\<forall>j<4. 0 \<le> Count (tone_tick i R) j \<and> Count (tone_tick i R) j \<le> 0x800 \<and> Output (tone_tick i R) j \<in> {0, 1} \<and> MuteMsk (tone_tick i R) j \<in> {0, - 1}"
  proof (intro allI impI)
    fix j :: nat
    assume "j < 4"
    moreover from this have "Count R j \<le> 0x800" using assms by (simp add: sn_ok_def)
    then have "Count R j \<le> 0x800 + 1" by simp
    ultimately show "0 \<le> Count (tone_tick i R) j \<and> Count (tone_tick i R) j \<le> 0x800 \<and> Output (tone_tick i R) j \<in> {0, 1} \<and> MuteMsk (tone_tick i R) j \<in> {0, - 1}"
      using assms sn_ok_Period[OF assms(1), of i] by (cases "j = i") (auto simp: sn_ok_def tone_tick_def Let_def xor_parity)
  qed
  then show ?thesis using assms(1) by (simp add: sn_ok_def n)
qed

lemma uint_and_1: "uint (g AND 1 :: u32) \<in> {0, 1}"
  by (simp add: and_one_eq uint_mod) presburger

lemma sn_ok_noise_tick:
  assumes "sn_ok R"
  shows "sn_ok (noise_tick R)"
proof -
  have "\<forall>j<4. 0 \<le> Count (noise_tick R) j \<and> Count (noise_tick R) j \<le> 0x800 \<and> Output (noise_tick R) j \<in> {0, 1} \<and> MuteMsk (noise_tick R) j \<in> {0, - 1}"
  proof (intro allI impI)
    fix j :: nat
    assume "j < 4"
    moreover from this have "Count R j \<le> 0x800" using assms by (simp add: sn_ok_def)
    then have "Count R j \<le> 0x800 + 1" by simp
    ultimately show "0 \<le> Count (noise_tick R) j \<and> Count (noise_tick R) j \<le> 0x800 \<and> Output (noise_tick R) j \<in> {0, 1} \<and> MuteMsk (noise_tick R) j \<in> {0, - 1}"
      using assms sn_ok_Period[OF assms, of 3] uint_and_1 by (cases "j = 3") (auto simp: sn_ok_def noise_tick_def Let_def)
  qed
  then show ?thesis using assms noise_ok_tick by (simp add: sn_ok_def)
qed

lemma sn_ok_tick: "sn_ok R \<Longrightarrow> sn_ok (sn_tick R)"
proof -
  assume "sn_ok R"
  moreover have "noise_ok (R\<lparr>CyclestoREADY := x\<rparr>) = noise_ok R" for x by (rule noise_ok_cong) simp_all
  ultimately have "sn_ok (R\<lparr>CyclestoREADY := x\<rparr>)" for x by (simp add: sn_ok_def)
  then show ?thesis unfolding sn_tick_def by (intro sn_ok_noise_tick fold_inv[where P = sn_ok] sn_ok_tone_tick) simp_all
qed

section \<open>Writes keep the ranges\<close>

lemma or_range: "a \<le> 0x3ff \<Longrightarrow> b \<le> 0x3ff \<Longrightarrow> a OR b \<le> (0x3ff :: s32)"
proof -
  assume "a \<le> 0x3ff" "b \<le> 0x3ff"
  then have "take_bit 10 (unat a) = unat a" "take_bit 10 (unat b) = unat b" by (simp_all add: word_le_nat_alt take_bit_nat_eq_self)
  then have "take_bit 10 (unat (a OR b)) = unat (a OR b)" by (simp only: unsigned_or_eq take_bit_or)
  then have "unat (a OR b) < 1024" unfolding take_bit_nat_eq_self_iff by simp
  then show ?thesis by (simp add: word_le_nat_alt)
qed

lemma and_range: "m \<le> 0x3ff \<Longrightarrow> a AND m \<le> (0x3ff :: s32)"
  using word_and_le1[of a m] by (rule order_trans)

lemma shift_range: "push_bit 4 (a AND 0x3f) \<le> (0x3ff :: s32)"
proof -
  have "unat (a AND 0x3f) \<le> 63" using word_and_le1[of a "0x3f"] by (simp add: word_le_nat_alt)
  then show ?thesis by (simp add: word_le_nat_alt push_bit_eq_mult unat_word_ariths)
qed

lemma reg_sint: "(v :: s32) \<le> 0x3ff \<Longrightarrow> 0 \<le> sint v \<and> sint v \<le> 0x3ff"
  by (simp add: sint_32_eq word_le_def)

lemma sn_ok_set_reg: "sn_ok R \<Longrightarrow> v \<le> 0x3ff \<Longrightarrow> sn_ok (set_reg r v R)"
proof -
  assume "sn_ok R" "v \<le> 0x3ff"
  moreover have "noise_ok (set_reg r v R) = noise_ok R" by (rule noise_ok_cong) (simp_all add: set_reg_def)
  ultimately show ?thesis by (simp add: sn_ok_def) (simp add: set_reg_def)
qed

lemma sn_ok_set_period:
  assumes "sn_ok R" "0 \<le> v" "v \<le> 0x400 \<or> c = 3 \<and> v \<le> 0x800"
  shows "sn_ok (set_period c v R)"
proof -
  have n: "noise_ok (set_period c v R) = noise_ok R" by (rule noise_ok_cong) (simp_all add: set_period_def)
  show ?thesis using assms unfolding sn_ok_def n by (auto simp: set_period_def)
qed

lemma sn_ok_low_bits: "sn_ok R \<Longrightarrow> sn_ok (low_bits r dat R)"
  unfolding low_bits_def by (intro sn_ok_set_reg or_range and_range) simp_all

lemma sn_ok_tone_write:
  assumes "sn_ok R" "r < 8"
  shows "sn_ok (tone_write r dat R)"
proof -
  define R1 where "R1 = (if dat AND 0x80 = 0 then set_reg r (Register R r AND 0x0f OR push_bit 4 (ucast dat AND 0x3f)) R else R)"
  have R1: "sn_ok R1" unfolding R1_def using assms(1) by (simp add: sn_ok_set_reg or_range and_range shift_range)
  define v where "v = (if Register R1 r \<noteq> 0 \<or> \<not> Freq0IsMax R1 then sint (Register R1 r) else 0x400)"
  have "Register R1 r \<le> 0x3ff" using R1 assms(2) by (simp add: sn_ok_def)
  then have v: "0 \<le> v" "v \<le> 0x400" using reg_sint[of "Register R1 r"] by (auto simp: v_def)
  have R2: "sn_ok (set_period (r div 2) v R1)" using R1 v by (intro sn_ok_set_period) simp_all
  then have "0 \<le> Period (set_period (r div 2) v R1) 2" "Period (set_period (r div 2) v R1) 2 \<le> 0x400" by (simp_all add: sn_ok_def)
  then have "sn_ok (set_period 3 (2 * Period (set_period (r div 2) v R1) 2) (set_period (r div 2) v R1))"
    by (intro sn_ok_set_period R2) simp_all
  then show ?thesis using R2 unfolding tone_write_def Let_def R1_def[symmetric] v_def[symmetric] by (cases "r = 4") simp_all
qed

lemma sn_ok_volume:
  assumes "sn_ok R"
  shows "sn_ok (R\<lparr>Volume := (Volume R)(c := VolTable R (unat (dat AND 0x0f :: u8)))\<rparr>)"
proof -
  have "noise_ok (R\<lparr>Volume := x\<rparr>) = noise_ok R" for x by (rule noise_ok_cong) simp_all
  moreover have "unat (dat AND 0x0f) < 16" using word_and_le1[of dat "0x0f"] by (simp add: word_le_nat_alt)
  ultimately show ?thesis using assms by (simp add: sn_ok_def)
qed

lemma sn_ok_noise_write: "sn_ok R \<Longrightarrow> sn_ok (noise_write dat R)"
proof -
  assume R: "sn_ok R"
  define R1 where "R1 = (if dat AND 0x80 = 0 then low_bits 6 dat R else R)"
  define v where "v = (if Register R1 6 AND 3 = 3 then 2 * Period R1 2 else 2 ^ (5 + unat (Register R1 6 AND 3)))"
  have R1: "sn_ok R1" using R by (simp add: R1_def sn_ok_low_bits)
  have "unat (Register R1 6 AND 3) \<le> 3" using word_and_le1[of "Register R1 6" 3] by (simp add: word_le_nat_alt)
  then have "(2 :: int) ^ (5 + unat (Register R1 6 AND 3)) \<le> 2 ^ 8" by (intro power_increasing) simp_all
  moreover have "0 \<le> Period R1 2" "Period R1 2 \<le> 0x400" using R1 by (simp_all add: sn_ok_def)
  ultimately have "sn_ok (set_period 3 v R1)" by (intro sn_ok_set_period R1) (auto simp: v_def)
  then have "sn_ok ((set_period 3 v R1)\<lparr>RNG := FeedbackMask (set_period 3 v R1)\<rparr>)" using noise_ok_reset[of "set_period 3 v R1"] by (simp add: sn_ok_def)
  then show ?thesis unfolding noise_write_def Let_def R1_def[symmetric] v_def[symmetric] by (simp add: set_period_def)
qed

lemma sn_ok_frame:
  "sn_ok (R\<lparr>CyclestoREADY := x\<rparr>) = sn_ok R" "sn_ok (R\<lparr>StereoMask := m\<rparr>) = sn_ok R" "k < 8 \<Longrightarrow> sn_ok R \<Longrightarrow> sn_ok (R\<lparr>LastRegister := k\<rparr>)"
  "sn_ok (R\<lparr>NgpFlags := f, NgpChip2 := g\<rparr>) = sn_ok R"
  by (simp_all add: sn_ok_def noise_ok_def)

lemma sn_ok_write_reg:
  assumes "sn_ok R"
  shows "sn_ok (sn76496_write_reg dat R)"
proof -
  define r where "r = unat (drop_bit 4 (dat AND 0x70))"
  define R2 where "R2 = (if dat AND 0x80 \<noteq> 0 then low_bits r dat (R\<lparr>CyclestoREADY := 2, LastRegister := r\<rparr>) else R\<lparr>CyclestoREADY := 2\<rparr>)"
  have "unat (dat AND 0x70) \<le> 0x70" using word_and_le1[of dat "0x70"] by (simp add: word_le_nat_alt)
  then have "r < 8" unfolding r_def by (simp add: drop_bit_eq_div unat_div div_less_iff_less_mult)
  then have R2: "sn_ok R2" unfolding R2_def using assms by (simp add: sn_ok_low_bits sn_ok_frame)
  then have "LastRegister R2 < 8" by (simp add: sn_ok_def)
  then have "sn_ok (if LastRegister R2 \<in> {0, 2, 4} then tone_write (LastRegister R2) dat R2
      else if LastRegister R2 \<in> {1, 3, 5, 7} then volume_write (LastRegister R2) dat R2
      else if LastRegister R2 = 6 then noise_write dat R2 else R2)"
    using R2 by (simp add: sn_ok_tone_write sn_ok_noise_write volume_write_def sn_ok_volume sn_ok_low_bits Let_def)
  then show ?thesis unfolding sn76496_write_reg_def Let_def R2_def r_def by simp
qed

lemma sn_ok_reset:
  assumes "sn_ok R"
  shows "sn_ok (sn76496_reset R)"
proof -
  have "noise_ok (R\<lparr>RNG := FeedbackMask R\<rparr>)" using assms noise_ok_reset by (simp add: sn_ok_def)
  then have "noise_ok (sn76496_reset R)"
    by (subst noise_ok_cong[where R = "R\<lparr>RNG := FeedbackMask R\<rparr>"]) (simp_all add: sn76496_reset_def reset_noise_def clear_chip_def)
  then show ?thesis using assms uint_and_1[of "FeedbackMask R"] by (auto simp: sn_ok_def) (auto simp: sn76496_reset_def reset_noise_def clear_chip_def)
qed

lemma sn_ok_mute: "sn_ok R \<Longrightarrow> sn_ok (sn76496_set_mutemask m R)"
  by (simp add: sn_ok_def noise_ok_def sn76496_set_mutemask_def)

section \<open>The output\<close>

definition in_range :: "s32 \<times> s32 \<Rightarrow> bool" where
  "in_range x \<longleftrightarrow> \<bar>sint (fst x)\<bar> \<le> 16384 \<and> \<bar>sint (snd x)\<bar> \<le> 16384"

lemma masked_cases: "m \<in> {0, - 1} \<Longrightarrow> v \<in> {- 1, 0, 1} \<Longrightarrow> masked v m \<in> {- 1, 0, 1}"
  by auto

lemma stereo_gain_cases: "stereo_gain R m i \<in> {0, 1}"
  by (simp add: stereo_gain_def)

lemma term_range: "a \<in> {- 1, 0, 1} \<Longrightarrow> g \<in> {0, 1} \<Longrightarrow> 0 \<le> v \<Longrightarrow> v \<le> 8192 \<Longrightarrow> \<bar>a * v * g\<bar> \<le> (8192 :: int)"
  by auto

lemma sn_ok_channel: "sn_ok R \<Longrightarrow> i < 4 \<Longrightarrow> 0 \<le> Volume R i \<and> Volume R i \<le> 8192 \<and> MuteMsk R i \<in> {0, - 1}"
  by (simp add: sn_ok_def)

lemma channel_out_range:
  assumes "sn_ok R" "i < 4"
  shows "\<bar>channel_out limit R m i\<bar> \<le> 8192"
proof -
  note c = sn_ok_channel[OF assms]
  have "\<bar>masked (if b then 0 else bipolar R i) (MuteMsk R i) * Volume R i * stereo_gain R m i\<bar> \<le> 8192" for b
    using c by (intro term_range masked_cases stereo_gain_cases) (auto simp: bipolar_def)
  moreover have "\<bar>1 * Volume R i * stereo_gain R m i\<bar> \<le> 8192"
    using c by (intro term_range stereo_gain_cases) auto
  ultimately show ?thesis by (simp add: channel_out_def Let_def)
qed

lemma ngp_range:
  assumes "sn_ok R" "sn_ok V" "sn_ok R2"
  shows "i < 3 \<Longrightarrow> \<bar>ngp_tone limit R V m i\<bar> \<le> 8192" "\<bar>ngp_noise R R2 V m\<bar> \<le> 8192"
proof -
  assume i: "i < 3"
  then have c: "0 \<le> Volume V i" "Volume V i \<le> 8192" "MuteMsk R i \<in> {0, - 1}" using sn_ok_channel[of _ i] assms by simp_all
  have "\<bar>masked (if b then 0 else bipolar R i) (MuteMsk R i) * Volume V i * stereo_gain R m 3\<bar> \<le> 8192" for b
    using c by (intro term_range masked_cases stereo_gain_cases) (auto simp: bipolar_def)
  moreover have "\<bar>1 * Volume V i * stereo_gain R m 3\<bar> \<le> 8192"
    using c by (intro term_range stereo_gain_cases) auto
  ultimately show "\<bar>ngp_tone limit R V m i\<bar> \<le> 8192" by (simp add: ngp_tone_def Let_def)
next
  show "\<bar>ngp_noise R R2 V m\<bar> \<le> 8192"
    unfolding ngp_noise_def using sn_ok_channel[of V 3] sn_ok_channel[of R2 3] assms
    by (intro term_range masked_cases stereo_gain_cases) (auto simp: bipolar_def)
qed

lemma sum_range: "(\<And>i :: nat. i < n \<Longrightarrow> \<bar>f i\<bar> \<le> 8192) \<Longrightarrow> n \<le> 4 \<Longrightarrow> \<bar>\<Sum>i<n. f i\<bar> \<le> (32768 :: int)"
proof -
  assume f: "\<And>i :: nat. i < n \<Longrightarrow> \<bar>f i\<bar> \<le> 8192" and "n \<le> 4"
  have "\<bar>\<Sum>i<n. f i\<bar> \<le> (\<Sum>i<n. \<bar>f i\<bar>)" by (rule sum_abs)
  also have "\<dots> \<le> (\<Sum>i<n. 8192)" using f by (intro sum_mono) simp
  also have "\<dots> \<le> 32768" using \<open>n \<le> 4\<close> by simp
  finally show ?thesis .
qed

definition partner_ok :: "sn76496_state option \<Rightarrow> sn76496_state \<Rightarrow> bool" where
  "partner_ok other R \<longleftrightarrow> (NgpFlags R \<noteq> 0 \<longrightarrow> (\<exists>R2. other = Some R2 \<and> sn_ok R2))"

lemma half_range: "\<bar>x\<bar> \<le> 32768 \<Longrightarrow> \<bar>sint (word_of_int ((if b then - x else x) div 2) :: s32)\<bar> \<le> 16384"
proof -
  assume "\<bar>x\<bar> \<le> 32768"
  then have "\<bar>(if b then - x else x) div 2\<bar> \<le> 16384" by auto
  then show ?thesis by (simp add: sint_sbintrunc' signed_take_bit_int_eq_self)
qed

lemma sn_sample_range:
  assumes "sn_ok R" "partner_ok other R"
  shows "runs (sn_sample limit other R) in_range"
proof -
  have "runs (mixed limit other R) (\<lambda>(l, r). \<bar>l\<bar> \<le> 32768 \<and> \<bar>r\<bar> \<le> 32768)"
  proof (cases "NgpFlags R = 0")
    case True
    then show ?thesis unfolding mixed_def using assms(1) by (simp add: sum_range channel_out_range del: sum.lessThan_Suc)
  next
    case False
    then obtain R2 where R2: "other = Some R2" "sn_ok R2" using assms(2) by (auto simp: partner_ok_def)
    have "\<bar>ngp_noise R R2 V m\<bar> \<le> 32768" if "sn_ok V" for V m using ngp_range(2)[OF assms(1) that R2(2), of m] by simp
    then show ?thesis unfolding mixed_def
      using False R2 assms(1) by (simp add: sum_range ngp_range del: sum.lessThan_Suc)
  qed
  then show ?thesis
    unfolding sn_sample_def by (rule runs_bind) (auto simp: in_range_def half_range Let_def)
qed

lemma sn_loop_range:
  assumes "sn_ok R" "partner_ok other R"
  shows "runs (sn_loop n limit other R) (\<lambda>(xs, R'). length xs = n \<and> (\<forall>x\<in>set xs. in_range x) \<and> sn_ok R' \<and> NgpFlags R' = NgpFlags R \<and> NgpChip2 R' = NgpChip2 R)"
  using assms
proof (induction n arbitrary: R)
  case (Suc n)
  have t: "sn_ok (sn_tick R)" "partner_ok other (sn_tick R)" using Suc.prems sn_ok_tick by (simp_all add: partner_ok_def)
  show ?case unfolding sn_loop.simps Let_def
    by (rule runs_bind[OF sn_sample_range[OF t]], rule runs_bind[OF Suc.IH[OF t]]) auto
qed simp

lemma SN76496Update_range:
  assumes "sn_ok R" "partner_ok other R"
  shows "runs (SN76496Update n limit other R) (\<lambda>(xs, R'). length xs = n \<and> (\<forall>x\<in>set xs. in_range x) \<and> sn_ok R' \<and> NgpFlags R' = NgpFlags R \<and> NgpChip2 R' = NgpChip2 R)"
  using assms sn_loop_range by (simp add: SN76496Update_def in_range_def)

section \<open>All calls\<close>

text \<open>The chips that have been started, and the array; the calls from the start on, in any order. A chip is started once.\<close>

inductive sn_step :: "nat set \<times> sn764xx \<Rightarrow> nat set \<times> sn764xx \<Rightarrow> bool" where
  start: "device_start_sn764xx rate k clock w taps negate st clockdiv freq0 p = Ok (r, p') \<Longrightarrow> k < 2 \<Longrightarrow> k \<notin> K \<Longrightarrow> sn_step (K, p) (insert k K, p')"
| register: "k \<in> K \<Longrightarrow> sn_step (K, p) (K, sn764xx_w k offset dat p)"
| mute: "k \<in> K \<Longrightarrow> sn_step (K, p) (K, sn764xx_set_mute_mask k m p)"
| reset: "k \<in> K \<Longrightarrow> sn_step (K, p) (K, device_reset_sn764xx k p)"
| update: "k \<in> K \<Longrightarrow> sn764xx_stream_update k n p = Ok (xs, p') \<Longrightarrow> sn_step (K, p) (K, p')"

definition none_started :: "nat set \<times> sn764xx \<Rightarrow> bool" where
  "none_started s \<longleftrightarrow> fst s = {} \<and> LastChipInit (snd s) = None"

definition chip_ok :: "nat set \<Rightarrow> sn76496_state \<Rightarrow> bool" where
  "chip_ok K R \<longleftrightarrow> sn_ok R \<and> (NgpFlags R \<noteq> 0 \<longrightarrow> NgpChip2 R \<noteq> None) \<and> set_option (NgpChip2 R) \<subseteq> K"

definition chips_ok :: "nat set \<times> sn764xx \<Rightarrow> bool" where
  "chips_ok s \<longleftrightarrow> (\<forall>k\<in>fst s. chip_ok (fst s) (sn_chip (snd s) k)) \<and> set_option (LastChipInit (snd s)) \<subseteq> fst s"

lemma chips_ok_on:
  "chips_ok (K, p) \<Longrightarrow> (k \<in> K \<Longrightarrow> chip_ok K (sn_chip p k) \<Longrightarrow> chip_ok K (f (sn_chip p k))) \<Longrightarrow> chips_ok (K, on_sn k f p)"
  by (auto simp: chips_ok_def on_sn_def)

lemma noise_taps_ok:
  assumes "noise_taps taps = Ok (t1, t2)"
  shows "\<exists>k1 k2. t1 = push_bit k1 1 \<and> t2 = push_bit k2 1 \<and> k1 \<le> k2 \<and> k2 < 16"
proof -
  let ?l = "filter (\<lambda>i. bit taps i) [0..<16]"
  have s: "sorted ?l" "\<forall>i\<in>set ?l. i < 16" by (auto intro: sorted_wrt_filter sorted_upt)
  show ?thesis
  proof (cases ?l)
    case (Cons i js)
    show ?thesis
    proof (cases js)
      case Nil
      have "i < 16" using s(2) Cons by (metis list.set_intros(1))
      then show ?thesis using assms Cons Nil by (intro exI[of _ i]) (auto simp: noise_taps_def)
    next
      case (Cons j js')
      have l: "?l = i # j # js'" using \<open>?l = i # js\<close> Cons by simp
      have "sorted (i # j # js')" "\<forall>i\<in>set (i # j # js'). i < 16" using s unfolding l by blast+
      moreover have "t1 = push_bit i 1" "t2 = push_bit j 1" using assms l by (auto simp: noise_taps_def)
      ultimately show ?thesis by (intro exI[of _ i] exI[of _ j]) simp
    qed
  qed (use assms in \<open>simp add: noise_taps_def\<close>)
qed

lemma start_noise_ok:
  assumes "noise_taps taps = Ok (t1, t2)" "unat (w - 1 :: u8) < 31"
    "WhitenoiseTap1 R = t1" "WhitenoiseTap2 R = t2" "FeedbackMask R = push_bit (unat (w - 1)) 1" "RNG R = 0x10000"
  shows "noise_ok R"
proof -
  obtain k1 k2 where k: "t1 = push_bit k1 1" "t2 = push_bit k2 1" "k1 \<le> k2" "k2 < 16" using noise_taps_ok[OF assms(1)] by blast
  have "bit (0x10000 :: u32) 16" by simp
  then have "drop_bit k1 (0x10000 :: u32) \<noteq> 0" if "k1 < 16" using that drop_nonzero[of "0x10000" 16 k1] by simp
  then have "k1 < k2 \<and> k1 \<le> unat (w - 1) \<longrightarrow> drop_bit k1 (RNG R) \<noteq> 0" using k(4) unfolding assms(6) by simp
  then show ?thesis using k assms(2-5) unfolding noise_ok_def by blast
qed

lemma volume_table_range: "0 \<le> volume_table i \<and> volume_table i \<le> 8192"
proof (cases "i < 16")
  case True
  have "\<forall>i\<in>set [0..<16]. 0 \<le> volume_table i \<and> volume_table i \<le> 8192" by code_simp
  then show ?thesis using True by simp
qed (simp add: volume_table_def)

lemma init_chip_ok:
  assumes "noise_taps taps = Ok (t1, t2)" "1 \<le> (w :: u8)" "w \<le> 31"
  shows "sn_ok ((snd (SN76496_init c st cleared_chip))\<lparr>NgpFlags := f, NgpChip2 := g, VolTable := volume_table, FeedbackMask := push_bit (unat (w - 1)) 1,
    WhitenoiseTap1 := t1, WhitenoiseTap2 := t2, Negate := n, Stereo := s, ClockDivider := d, CurrentClock := e, Freq0IsMax := z\<rparr>)" (is "sn_ok ?R")
proof -
  have "unat (w - 1) < 31" using assms(2,3) by (subst unat_minus_one) (auto simp: word_le_nat_alt)
  then have "noise_ok ?R"
    by (intro start_noise_ok[OF assms(1)]) (simp_all add: SN76496_init_def reset_noise_def clear_chip_def cleared_chip_def)
  moreover have "uint ((0x10000 :: u32) AND 1) = 0" by simp
  ultimately show ?thesis
    by (auto simp: sn_ok_def volume_table_range) (auto simp: SN76496_init_def reset_noise_def clear_chip_def cleared_chip_def)
qed

lemma init_ngp: "(snd (SN76496_init c st R))\<lparr>NgpFlags := 0, NgpChip2 := None\<rparr> = snd (SN76496_init c st R)"
  "NgpFlags (snd (SN76496_init c st R)) = 0" "NgpChip2 (snd (SN76496_init c st R)) = None"
  by (simp_all add: SN76496_init_def reset_noise_def)

lemma chip_ok_more: "chip_ok K R \<Longrightarrow> chip_ok (insert k K) R"
  by (auto simp: chip_ok_def)

lemma chips_ok_set:
  "chips_ok (K, p) \<Longrightarrow> chip_ok (insert k K) R \<Longrightarrow> chips_ok (insert k K, on_sn k (\<lambda>_. R) p)"
  by (auto simp: chips_ok_def on_sn_def chip_ok_more)

lemma start_chips_ok:
  assumes "chips_ok (K, p)" "device_start_sn764xx rate k clock w taps negate st clockdiv freq0 p = Ok (r, p')" "k < 2"
  shows "chips_ok (insert k K, p')"
proof -
  obtain t1 t2 q where t: "noise_taps taps = Ok (t1, t2)" "1 \<le> w" "w \<le> 31"
      "p' = (snd (generic_start k clock (push_bit (unat (w - 1)) 1) t1 t2 negate (\<not> st) (if clockdiv then 1 else 8) freq0 p))\<lparr>FNumLimit := q\<rparr>"
    using assms(2,3) by (auto simp: device_start_sn764xx_def sn76496_start_def sn76496_freq_limiter_def res_iffs Let_def)
  define cd :: int where "cd = (if clockdiv then 1 else 8)"
  define R0 where "R0 = snd (SN76496_init (clock AND 0x7FFFFFFF) (\<not> st) cleared_chip)"
  define F :: "sn76496_state \<Rightarrow> sn76496_state" where "F = (\<lambda>R. R\<lparr>VolTable := volume_table, FeedbackMask := push_bit (unat (w - 1)) 1, WhitenoiseTap1 := t1, WhitenoiseTap2 := t2, Negate := negate,
            Stereo := \<not> st, ClockDivider := if cd \<noteq> 0 then cd else ClockDivider R, CurrentClock := cd - 1, Freq0IsMax := freq0\<rparr>)"
  have p': "p' = (on_sn k F (pair_chips k (clock AND 0x80000000 \<noteq> 0) (on_sn k (\<lambda>_. R0) p)))\<lparr>FNumLimit := q\<rparr>"
    unfolding t(4) generic_start_def Let_def case_prod_unfold F_def R0_def cd_def by simp
  have F: "sn_ok (F (R0\<lparr>NgpFlags := f, NgpChip2 := g\<rparr>))" for f g
    unfolding F_def using init_chip_ok[OF t(1-3)] by (simp add: R0_def cd_def)
  have F0: "NgpFlags (F R) = NgpFlags R" "NgpChip2 (F R) = NgpChip2 R" for R by (simp_all add: F_def)
  have R0: "R0\<lparr>NgpFlags := 0, NgpChip2 := None\<rparr> = R0" "NgpFlags R0 = 0" "NgpChip2 R0 = None" unfolding R0_def by (rule init_ngp)+
  then have k: "chip_ok (insert k K) (F R0)" using F[where f = 0 and g = None] R0 F0 by (simp add: chip_ok_def)
  show ?thesis
  proof (cases "clock AND 0x80000000 \<noteq> 0 \<and> LastChipInit p \<noteq> None")
    case True
    then obtain j where j: "LastChipInit p = Some j" "j \<in> K" using assms(1) by (auto simp: chips_ok_def)
    have "chip_ok (insert k K) (F (R0\<lparr>NgpFlags := 0x81, NgpChip2 := Some j\<rparr>))" using F F0 j(2) by (simp add: chip_ok_def)
    moreover have "chip_ok (insert k K) ((sn_chip p j)\<lparr>NgpFlags := 0x80, NgpChip2 := Some k\<rparr>)"
      using assms(1) j(2) by (auto simp: chips_ok_def chip_ok_def sn_ok_frame)
    ultimately show ?thesis
      using True j assms(1) unfolding p' by (auto simp: pair_chips_def on_sn_def chips_ok_def chip_ok_more split: option.splits)
  next
    case False
    then show ?thesis
      using k assms(1) unfolding p' by (auto simp: pair_chips_def on_sn_def chips_ok_def chip_ok_more split: option.splits bool.splits)
  qed
qed


lemma chips_ok_frame: "chip_ok K R \<Longrightarrow> sn_ok R' \<Longrightarrow> NgpFlags R' = NgpFlags R \<Longrightarrow> NgpChip2 R' = NgpChip2 R \<Longrightarrow> chip_ok K R'"
  by (simp add: chip_ok_def)

lemma write_reg_ngp [simp]:
  "NgpFlags (sn76496_write_reg v R) = NgpFlags R" "NgpChip2 (sn76496_write_reg v R) = NgpChip2 R"
  by (simp_all add: sn76496_write_reg_def tone_write_def volume_write_def noise_write_def low_bits_def set_reg_def set_period_def Let_def)

lemma chip_ok_calls:
  assumes "chip_ok K R"
  shows "chip_ok K (sn76496_write_reg v R)" "chip_ok K (sn76496_stereo_w v R)" "chip_ok K (sn76496_reset R)" "chip_ok K (sn76496_set_mutemask m R)"
proof -
  have R: "sn_ok R" using assms by (simp add: chip_ok_def)
  show "chip_ok K (sn76496_write_reg v R)" by (rule chips_ok_frame[OF assms sn_ok_write_reg[OF R]]) simp_all
  show "chip_ok K (sn76496_stereo_w v R)" using R by (intro chips_ok_frame[OF assms]) (simp_all add: sn76496_stereo_w_def sn_ok_frame)
  show "chip_ok K (sn76496_reset R)"
    by (rule chips_ok_frame[OF assms sn_ok_reset[OF R]]) (simp_all add: sn76496_reset_def reset_noise_def clear_chip_def)
  show "chip_ok K (sn76496_set_mutemask m R)"
    by (rule chips_ok_frame[OF assms sn_ok_mute[OF R]]) (simp_all add: sn76496_set_mutemask_def)
qed

lemma stream_update_ok:
  assumes "chips_ok (K, p)" "k \<in> K"
  shows "runs (sn764xx_stream_update k n p) (\<lambda>(xs, p'). length xs = n \<and> (\<forall>x\<in>set xs. in_range x) \<and> chips_ok (K, p'))"
proof -
  have c: "chip_ok K (sn_chip p k)" using assms by (simp add: chips_ok_def)
  have "partner_ok (map_option (sn_chip p) (NgpChip2 (sn_chip p k))) (sn_chip p k)"
    using assms(1) c by (auto simp: partner_ok_def chip_ok_def chips_ok_def)
  moreover have "sn_ok (sn_chip p k)" using c by (simp add: chip_ok_def)
  ultimately show ?thesis
    unfolding sn764xx_stream_update_def Let_def
    by (intro runs_bind[OF SN76496Update_range]) (use assms(1) c in \<open>auto intro!: chips_ok_on elim: chips_ok_frame\<close>)
qed

lemma stream_update_chips: "chips_ok (K, p) \<Longrightarrow> k \<in> K \<Longrightarrow> sn764xx_stream_update k n p = Ok (xs, p') \<Longrightarrow> chips_ok (K, p')"
  using stream_update_ok[of K p k n] by simp

interpretation psg: invariant_of none_started sn_step chips_ok
proof
  fix s
  assume "none_started s"
  then show "chips_ok s" by (simp add: none_started_def chips_ok_def)
next
  fix s t
  assume s: "chips_ok s" and "sn_step s t"
  from this(2) show "chips_ok t"
  proof cases
    case start
    then show ?thesis using s start_chips_ok by blast
  next
    case register
    then show ?thesis using s by (auto simp: sn764xx_w_def intro!: chips_ok_on chip_ok_calls)
  next
    case mute
    then show ?thesis using s by (auto simp: sn764xx_set_mute_mask_def intro!: chips_ok_on chip_ok_calls)
  next
    case reset
    then show ?thesis using s by (auto simp: device_reset_sn764xx_def intro!: chips_ok_on chip_ok_calls)
  next
    case update
    then show ?thesis using s stream_update_chips by blast
  qed
qed

text \<open>C40: whatever calls have been made to the two chips, in any order, pairing them among these, an update of a chip that has been started succeeds,
  gives the samples asked for, and none exceeds 16384 on either side: the player adds the chips up in 32 bits.\<close>
theorem psg_output_range:
  assumes "reach none_started sn_step (K, p)" "k \<in> K"
  shows "\<exists>xs p'. sn764xx_stream_update k n p = Ok (xs, p') \<and> length xs = n \<and> (\<forall>(l, r)\<in>set xs. \<bar>sint l\<bar> \<le> 16384 \<and> \<bar>sint r\<bar> \<le> 16384)"
  using stream_update_ok[OF psg.reach_inv[OF assms(1)] assms(2), of n] by (auto simp: runs_def in_range_def split_def)

text \<open>The noise never dies: on a chip with two different taps inside the shift register there is, after any calls, a bit that has not been shifted
  past the lower tap.\<close>
theorem psg_noise_alive:
  assumes "reach none_started sn_step (K, p)" "k \<in> K" "R = sn_chip p k"
    "WhitenoiseTap1 R \<noteq> WhitenoiseTap2 R" "WhitenoiseTap1 R \<le> FeedbackMask R"
  shows "WhitenoiseTap1 R \<le> RNG R"
proof -
  have "noise_ok R" using psg.reach_inv[OF assms(1)] assms(2,3) by (auto simp: chips_ok_def chip_ok_def sn_ok_def)
  then obtain k1 k2 w where n: "WhitenoiseTap1 R = push_bit k1 1" "WhitenoiseTap2 R = push_bit k2 1" "FeedbackMask R = push_bit w 1" "k1 \<le> k2" "k2 < 16" "w < 31"
      "k1 < k2 \<and> k1 \<le> w \<longrightarrow> drop_bit k1 (RNG R) \<noteq> 0"
    by (auto simp: noise_ok_def)
  have u: "unat (push_bit j 1 :: u32) = 2 ^ j" if "j < 32" for j
  proof -
    have "push_bit j 1 = (of_nat (2 ^ j) :: u32)" by simp
    moreover have "(2 :: nat) ^ j < 2 ^ 32" using that by (intro power_strict_increasing) simp_all
    ultimately show ?thesis by (simp only: unat_of_nat take_bit_nat_eq_self_iff[THEN iffD2]) (simp add: take_bit_nat_eq_self)
  qed
  have "k1 \<le> w" using assms(5) n(4-6) by (simp add: n(1,3) word_le_nat_alt u del: push_bit_of_1)
  moreover have "k1 < k2" using assms(4) n(1,2,4) by (metis le_neq_implies_less)
  ultimately have "unat (drop_bit k1 (RNG R)) \<noteq> 0" using n(7) by (simp only: unat_eq_0) simp
  then have "unat (RNG R) div 2 ^ k1 \<noteq> 0" unfolding unat_drop_bit_eq by (simp only: drop_bit_eq_div) simp
  then have "2 ^ k1 \<le> unat (RNG R)" by (simp add: div_eq_0_iff not_less)
  then show ?thesis using n(4,5) by (simp add: n(1) word_le_nat_alt u del: push_bit_of_1)
qed

section \<open>Witnesses\<close>

text \<open>The chip of a Master System, started.\<close>

abbreviation no_psg :: sn764xx where
  "no_psg \<equiv> \<lparr>sn_chip = (\<lambda>_. cleared_chip), LastChipInit = None, FNumLimit = 0\<rparr>"

lemma psg_starts:
  obtains r p where "device_start_sn764xx 44100 0 3579545 16 9 False False False False no_psg = Ok (r, p)" "WhitenoiseTap1 (sn_chip p 0) = 1"
    "WhitenoiseTap2 (sn_chip p 0) = 8" "FeedbackMask (sn_chip p 0) = 0x8000" "reach none_started sn_step ({0}, p)"
proof -
  have "map_sum id (\<lambda>(r, p). (WhitenoiseTap1 (sn_chip p 0), WhitenoiseTap2 (sn_chip p 0), FeedbackMask (sn_chip p 0)))
      (device_start_sn764xx 44100 0 3579545 16 9 False False False False no_psg) = Ok (1, 8, 0x8000)" by code_simp
  then obtain r p where p: "device_start_sn764xx 44100 0 3579545 16 9 False False False False no_psg = Ok (r, p)" "WhitenoiseTap1 (sn_chip p 0) = 1"
      "WhitenoiseTap2 (sn_chip p 0) = 8" "FeedbackMask (sn_chip p 0) = 0x8000"
    by (cases "device_start_sn764xx 44100 0 3579545 16 9 False False False False no_psg") auto
  have "reach none_started sn_step ({}, no_psg)" by (rule reach_init) (simp add: none_started_def)
  then have "reach none_started sn_step (insert 0 {}, p)" by (rule reach_step) (rule start[OF p(1)], simp_all)
  then show ?thesis using that p by simp
qed

text \<open>The chip is told the period 8 and the full volume for its first channel.\<close>

theorem psg_square_wave_witness:
  "\<exists>r p R. device_start_sn764xx 44100 0 3579545 16 9 False False False False no_psg = Ok (r, p) \<and>
    SN76496Update 10 (FNumLimit p) None (sn_chip (sn764xx_w 0 0 0x90 (sn764xx_w 0 0 0x88 p)) 0) =
      Ok (replicate 8 (4096, 4096) @ replicate 2 (- 4096, - 4096), R)"
proof -
  let ?start = "device_start_sn764xx 44100 0 3579545 16 9 False False False False no_psg"
  let ?chip = "\<lambda>p. sn_chip (sn764xx_w 0 0 0x90 (sn764xx_w 0 0 0x88 p)) 0"
  have "map_sum id (\<lambda>(r, p). let R = ?chip p in
      ((NgpFlags R, MuteMsk R 0, map (Volume R) [0..<4], Period R 0, FNumLimit p), (Count R 0, Output R 0, Stereo R, StereoMask R, Negate R))) ?start =
    Ok ((0, - 1, [8192, 0, 0, 0], 8, 5), (0, 0, True, 0xFF, False))" by code_simp
  then obtain r p where p: "?start = Ok (r, p)" and f: "NgpFlags (?chip p) = 0" "MuteMsk (?chip p) 0 = - 1" "map (Volume (?chip p)) [0..<4] = [8192, 0, 0, 0]"
      "Period (?chip p) 0 = 8" "FNumLimit p = 5" "Count (?chip p) 0 = 0" "Output (?chip p) 0 = 0" "Stereo (?chip p)" "StereoMask (?chip p) = 0xFF" "\<not> Negate (?chip p)"
    by (cases ?start) (auto simp: Let_def)
  have v: "Volume (?chip p) 0 = 8192" "\<forall>j<4. j \<noteq> 0 \<longrightarrow> Volume (?chip p) j = 0"
    using f(3) by (auto simp: upt_rec less_Suc_eq numeral_eq_Suc)
  have "replicate 8 x @ replicate 2 y = [x, x, x, x, x, x, x, x, y, y]" for x y :: "s32 \<times> s32" by (simp add: numeral_eq_Suc)
  then show ?thesis
    using psg_square_wave[OF f(1) _ f(2) v(2), of "FNumLimit p" 10 None] p
    by (simp add: f v upt_rec Let_def)
qed

theorem psg_output_range_witness:
  "\<exists>p xs p'. reach none_started sn_step ({0}, p) \<and> sn764xx_stream_update 0 100 p = Ok (xs, p') \<and> length xs = 100 \<and>
    (\<forall>(l, r)\<in>set xs. \<bar>sint l\<bar> \<le> 16384 \<and> \<bar>sint r\<bar> \<le> 16384)"
  using psg_starts psg_output_range[of "{0}" _ 0 100] by (metis insertI1)

theorem psg_noise_alive_witness: "\<exists>p. reach none_started sn_step ({0}, p) \<and> 1 \<le> RNG (sn_chip p 0)"
proof -
  obtain r p where p: "WhitenoiseTap1 (sn_chip p 0) = 1" "WhitenoiseTap2 (sn_chip p 0) = 8" "FeedbackMask (sn_chip p 0) = 0x8000"
      "reach none_started sn_step ({0}, p)"
    by (rule psg_starts)
  from psg_noise_alive[OF p(4) _ refl, of 0] p show ?thesis by auto
qed

end
